(* ===== verification/OLPrelude.thy ===== *)
theory OLPrelude
  imports Main
begin

text \<open>
  Shared ground of the development: the outcome of a Go call, the collections of lemmas the
  component theories add to, and the generic facts on lists, sums and maps they share.

  A Go call ends in one of four ways.  It returns (\<open>Ret\<close>), it panics (\<open>Panic\<close>, a nil
  dereference or an index out of range included), it ends the process (\<open>Exit\<close>: \<open>log.Fatal\<close>,
  \<open>os.Exit\<close>), or it waits for a lock or a channel that nobody serves (\<open>Block\<close>).  A stateful
  operation gives the pair of that outcome and the state it leaves behind, also when it panics or
  blocks, since the locks it holds at that moment stay held.  A Go \<open>error\<close> is a string; a result
  \<open>(T, error)\<close> is a sum with the error on the left, a bare \<open>error\<close> an option.
\<close>

datatype 'a res = Ret 'a | Panic string | Exit string | Block

type_synonym ('s, 'a) outcome = "'a res \<times> 's"
type_synonym goerror = "string option"

abbreviation nil_deref :: "'a res" where
  "nil_deref \<equiv> Panic ''invalid memory address or nil pointer dereference''"

fun returns :: "'a res \<Rightarrow> bool" where
  "returns (Ret _) = True"
| "returns _ = False"

lemma returns_iff: "returns r \<longleftrightarrow> (\<exists>x. r = Ret x)"
  by (cases r) auto

named_theorems go_simps \<open>characteristic equations of the Go library models\<close>
named_theorems inv_simps \<open>unfolding of the components' invariants\<close>
named_theorems step_intros \<open>preservation of the invariants by single operations\<close>

subsection \<open>Lists\<close>

lemma distinct_remove1_set [simp]: "distinct xs \<Longrightarrow> set (remove1 x xs) = set xs - {x}"
  by (induction xs) auto

lemma remove1_eq_filter: "distinct xs \<Longrightarrow> remove1 x xs = filter (\<lambda>y. y \<noteq> x) xs"
proof (induction xs)
  case (Cons y ys)
  then have "filter (\<lambda>z. z \<noteq> x) ys = ys" if "x = y"
    using that by (auto simp: filter_id_conv)
  with Cons show ?case by auto
qed simp

lemma sum_list_remove1_int:
  "x \<in> set xs \<Longrightarrow> sum_list (map f (remove1 x xs)) = sum_list (map f xs) - (f x :: int)"
  by (induction xs) auto

lemma sum_list_nonneg_int: "(\<And>x. x \<in> set xs \<Longrightarrow> 0 \<le> (f x :: int)) \<Longrightarrow> 0 \<le> sum_list (map f xs)"
  by (induction xs) auto

lemma remove1_last: "xs \<noteq> [] \<Longrightarrow> distinct xs \<Longrightarrow> remove1 (last xs) xs = butlast xs"
  by (induction xs rule: rev_induct) (auto simp: remove1_append)

lemma map_fun_upd_notin: "x \<notin> set xs \<Longrightarrow> map (f(x := y)) xs = map f xs"
  by (induction xs) auto

lemma nth_list_update_if: "i < length xs \<Longrightarrow> xs[i := v] ! j = (if j = i then v else xs ! j)"
  by (cases "j < length xs") (auto simp: nth_list_update list_update_beyond)

lemma sum_list_list_update_int:
  "i < length xs \<Longrightarrow> sum_list (xs[i := v]) = sum_list xs - xs ! i + (v :: int)"
  by (induction xs arbitrary: i) (auto split: nat.splits)

subsection \<open>Go slices\<close>

text \<open>Reading \<open>xs[i]\<close>: out of range is a run-time panic.\<close>

definition go_index :: "'a list \<Rightarrow> int \<Rightarrow> 'a res" where
  "go_index xs i =
     (if 0 \<le> i \<and> i < int (length xs) then Ret (xs ! nat i) else Panic ''index out of range'')"

lemma go_index_Ret [go_simps]: "n < length xs \<Longrightarrow> go_index xs (int n) = Ret (xs ! n)"
  by (simp add: go_index_def)

lemma go_index_Ret_iff: "go_index xs i = Ret x \<longleftrightarrow> 0 \<le> i \<and> i < int (length xs) \<and> x = xs ! nat i"
  by (auto simp: go_index_def)

end
