(* ===== verification/GoList.thy ===== *)
theory GoList
  imports OLPrelude
begin

text \<open>
  Go's \<open>container/list\<close> as the worker uses it, and the linked map: a list together with a Go map
  from keys to list elements, which \<open>HandlerLRU\<close> (\<open>hqueue\<close> and \<open>hmap\<close>) and
  \<open>HandlerManager\<close> (\<open>handlers\<close> and \<open>hElements\<close>) both keep by hand.

  A list hands out element pointers.  Here an element is its position in \<open>vals\<close>, the values of
  all elements the list ever made; \<open>elems\<close> are the elements that are in the list now, front first.
  The locale \<open>linked_map\<close> states what the two components rely on: the list and the map stand for one
  list of distinct keys.
\<close>

record 'a golist =
  elems :: "nat list"
  vals :: "'a list"

definition list_New :: "'a golist" where
  "list_New = \<lparr>elems = [], vals = []\<rparr>"

definition list_PushFront :: "'a \<Rightarrow> 'a golist \<Rightarrow> nat \<times> 'a golist" where
  "list_PushFront v l =
     (length (vals l), l\<lparr>elems := length (vals l) # elems l, vals := vals l @ [v]\<rparr>)"

definition list_PushBack :: "'a \<Rightarrow> 'a golist \<Rightarrow> nat \<times> 'a golist" where
  "list_PushBack v l =
     (length (vals l), l\<lparr>elems := elems l @ [length (vals l)], vals := vals l @ [v]\<rparr>)"

text \<open>\<open>Remove\<close> returns the element's value and drops it if the list holds it.\<close>

definition list_Value :: "'a golist \<Rightarrow> nat \<Rightarrow> 'a option" where
  "list_Value l e = (if e < length (vals l) then Some (vals l ! e) else None)"

definition list_Remove :: "nat \<Rightarrow> 'a golist \<Rightarrow> 'a option \<times> 'a golist" where
  "list_Remove e l = (list_Value l e, l\<lparr>elems := remove1 e (elems l)\<rparr>)"

definition list_Front :: "'a golist \<Rightarrow> nat option" where
  "list_Front l = (case elems l of [] \<Rightarrow> None | e # _ \<Rightarrow> Some e)"

definition list_Back :: "'a golist \<Rightarrow> nat option" where
  "list_Back l = (if elems l = [] then None else Some (last (elems l)))"

definition list_Len :: "'a golist \<Rightarrow> int" where
  "list_Len l = int (length (elems l))"

definition contents :: "'a golist \<Rightarrow> 'a list" where
  "contents l = map (\<lambda>e. vals l ! e) (elems l)"

definition golist_ok :: "'a golist \<Rightarrow> bool" where
  "golist_ok l \<longleftrightarrow> distinct (elems l) \<and> (\<forall>e \<in> set (elems l). e < length (vals l))"

lemma contents_New [simp]: "contents list_New = []"
  by (simp add: contents_def list_New_def)

lemma golist_ok_New [simp]: "golist_ok list_New"
  by (simp add: golist_ok_def list_New_def)

lemma contents_PushFront [simp]:
  "golist_ok l \<Longrightarrow> contents (snd (list_PushFront v l)) = v # contents l"
  by (auto simp: contents_def list_PushFront_def nth_append golist_ok_def)

lemma contents_PushBack [simp]:
  "golist_ok l \<Longrightarrow> contents (snd (list_PushBack v l)) = contents l @ [v]"
  by (auto simp: contents_def list_PushBack_def nth_append golist_ok_def)

lemma golist_ok_PushFront [simp]: "golist_ok l \<Longrightarrow> golist_ok (snd (list_PushFront v l))"
  by (auto simp: golist_ok_def list_PushFront_def)

lemma golist_ok_PushBack [simp]: "golist_ok l \<Longrightarrow> golist_ok (snd (list_PushBack v l))"
  by (auto simp: golist_ok_def list_PushBack_def)

lemma golist_ok_Remove [simp]: "golist_ok l \<Longrightarrow> golist_ok (snd (list_Remove e l))"
  by (auto simp: golist_ok_def list_Remove_def dest: notin_set_remove1 [THEN contrapos_pp])

lemma list_Len_contents: "list_Len l = int (length (contents l))"
  by (simp add: list_Len_def contents_def)

subsection \<open>The linked map\<close>

definition lm_ok :: "'k golist \<Rightarrow> ('k \<rightharpoonup> nat) \<Rightarrow> bool" where
  "lm_ok l m \<longleftrightarrow> golist_ok l \<and> (\<forall>k e. m k = Some e \<longleftrightarrow> e \<in> set (elems l) \<and> vals l ! e = k)"

lemma lm_ok_New [simp]: "lm_ok list_New Map.empty"
  by (auto simp: lm_ok_def list_New_def golist_ok_def)

lemma lm_ok_golist: "lm_ok l m \<Longrightarrow> golist_ok l"
  by (simp add: lm_ok_def)

lemma lm_elem: "lm_ok l m \<Longrightarrow> e \<in> set (elems l) \<Longrightarrow> m (vals l ! e) = Some e"
  by (simp add: lm_ok_def)

lemma lm_Some: "lm_ok l m \<Longrightarrow> m k = Some e \<Longrightarrow> e \<in> set (elems l) \<and> vals l ! e = k"
  by (simp add: lm_ok_def)

lemma lm_inj:
  "lm_ok l m \<Longrightarrow> e \<in> set (elems l) \<Longrightarrow> e' \<in> set (elems l) \<Longrightarrow> vals l ! e = vals l ! e' \<Longrightarrow> e = e'"
  by (metis lm_elem option.inject)

lemma lm_dom: "lm_ok l m \<Longrightarrow> dom m = set (contents l)"
  by (auto simp: lm_ok_def contents_def dom_def)

lemma lm_contents_distinct: "lm_ok l m \<Longrightarrow> distinct (contents l)"
  unfolding contents_def distinct_map inj_on_def
  using lm_inj [of l m] by (simp add: lm_ok_golist [unfolded golist_ok_def])

lemma lm_lookup: "lm_ok l m \<Longrightarrow> m k \<noteq> None \<longleftrightarrow> k \<in> set (contents l)"
  using lm_dom [of l m] by (auto simp: dom_def)

lemma lm_push:
  assumes ok: "lm_ok l m" and new: "m k = None"
  shows "lm_ok (snd (list_PushFront k l)) (m(k \<mapsto> fst (list_PushFront k l)))"
proof -
  have "vals l ! e \<noteq> k" if "e \<in> set (elems l)" for e
    using lm_elem [OF ok that] new by auto
  then show ?thesis
    using ok by (auto simp: lm_ok_def list_PushFront_def golist_ok_def nth_append)
qed

lemma lm_remove:
  assumes ok: "lm_ok l m" and k: "m k = Some e"
  shows "lm_ok (snd (list_Remove e l)) (m(k := None))"
proof -
  have "vals l ! e' \<noteq> k" if "e' \<in> set (elems l)" "e' \<noteq> e" for e'
    using lm_elem [OF ok that(1)] that(2) k by auto
  then show ?thesis
    using ok k lm_Some [OF ok k] by (auto simp: lm_ok_def list_Remove_def golist_ok_def)
qed

lemma contents_remove:
  assumes "lm_ok l m" and "m k = Some e"
  shows "contents (snd (list_Remove e l)) = remove1 k (contents l)"
proof -
  have e: "e \<in> set (elems l)" "vals l ! e = k" and d: "distinct (elems l)"
    using assms by (auto simp: lm_ok_def golist_ok_def)
  have other: "vals l ! e' \<noteq> k" if "e' \<in> set (elems l)" "e' \<noteq> e" for e'
    using lm_inj [OF assms(1) that(1) e(1)] that(2) e(2) by auto
  have "contents (snd (list_Remove e l)) = map (\<lambda>e. vals l ! e) (filter (\<lambda>e'. e' \<noteq> e) (elems l))"
    by (simp add: contents_def list_Remove_def remove1_eq_filter [OF d])
  also have "\<dots> = filter (\<lambda>k'. k' \<noteq> k) (map (\<lambda>e. vals l ! e) (elems l))"
    using e other by (auto simp: filter_map o_def intro!: arg_cong [where f = "map _"] filter_cong)
  also have "\<dots> = remove1 k (contents l)"
    using lm_contents_distinct [OF assms(1)] by (simp add: contents_def remove1_eq_filter)
  finally show ?thesis .
qed

lemma lm_value:
  assumes "lm_ok l m" and "m k = Some e"
  shows "list_Value l e = Some k"
  using assms by (auto simp: lm_ok_def golist_ok_def list_Value_def)

lemma lm_front:
  assumes "lm_ok l m"
  shows "list_Front l = (if contents l = [] then None else m (hd (contents l)))"
  using lm_elem [OF assms] by (auto simp: list_Front_def contents_def split: list.splits)

lemma lm_back:
  assumes "lm_ok l m"
  shows "list_Back l = (if contents l = [] then None else m (last (contents l)))"
  using lm_elem [OF assms] by (auto simp: list_Back_def contents_def last_map)

lemma lm_len: "lm_ok l m \<Longrightarrow> list_Len l = int (card (dom m))"
  by (simp add: lm_dom lm_contents_distinct distinct_card list_Len_contents)

text \<open>
  The interface the clients use: insertion at the front, deletion, and the key list.  Both clients
  keep the pair of a list and a map, so the abstract queue is such a pair.
\<close>

locale linked_map =
  fixes keys :: "'q \<Rightarrow> 'k list"
    and push :: "'k \<Rightarrow> 'q \<Rightarrow> 'q"
    and del :: "'k \<Rightarrow> 'q \<Rightarrow> 'q"
    and invar :: "'q \<Rightarrow> bool"
  assumes keys_push: "invar q \<Longrightarrow> k \<notin> set (keys q) \<Longrightarrow> keys (push k q) = k # keys q"
    and keys_del: "invar q \<Longrightarrow> keys (del k q) = remove1 k (keys q)"
    and invar_push: "invar q \<Longrightarrow> k \<notin> set (keys q) \<Longrightarrow> invar (push k q)"
    and invar_del: "invar q \<Longrightarrow> invar (del k q)"
    and keys_distinct: "invar q \<Longrightarrow> distinct (keys q)"
begin

text \<open>Using a key again moves it to the front and keeps the order of all others.\<close>

lemma touch_keys: "invar q \<Longrightarrow> keys (push k (del k q)) = k # remove1 k (keys q)"
  by (simp add: keys_push keys_del invar_del keys_distinct)

lemma touch_invar: "invar q \<Longrightarrow> invar (push k (del k q))"
  by (simp add: invar_push invar_del keys_del keys_distinct)

lemma drop_last_invar:
  "invar q \<Longrightarrow> keys q \<noteq> [] \<Longrightarrow> keys (del (last (keys q)) q) = butlast (keys q)"
  by (simp add: keys_del remove1_last keys_distinct)

end

definition lm_push_front :: "'k \<Rightarrow> 'k golist \<times> ('k \<rightharpoonup> nat) \<Rightarrow> 'k golist \<times> ('k \<rightharpoonup> nat)" where
  "lm_push_front k q =
     (let (e, l) = list_PushFront k (fst q) in (l, (snd q)(k \<mapsto> e)))"

definition lm_delete :: "'k \<Rightarrow> 'k golist \<times> ('k \<rightharpoonup> nat) \<Rightarrow> 'k golist \<times> ('k \<rightharpoonup> nat)" where
  "lm_delete k q =
     (case snd q k of None \<Rightarrow> q
      | Some e \<Rightarrow> (snd (list_Remove e (fst q)), (snd q)(k := None)))"

interpretation lm: linked_map
  "\<lambda>q. contents (fst q)" lm_push_front lm_delete "\<lambda>q. lm_ok (fst q) (snd q)"
proof (unfold_locales, goal_cases)
  case (1 q k)
  then show ?case by (simp add: lm_push_front_def split_beta lm_ok_golist)
next
  case (2 q k)
  then show ?case
    using lm_lookup [of "fst q" "snd q" k]
    by (auto simp: lm_delete_def contents_remove remove1_idem split: option.splits)
next
  case (3 q k)
  then show ?case
    using lm_lookup [of "fst q" "snd q" k] by (auto simp: lm_push_front_def split_beta lm_push)
next
  case (4 q k)
  then show ?case by (auto simp: lm_delete_def lm_remove split: option.splits)
next
  case (5 q)
  then show ?case by (rule lm_contents_distinct)
qed

end
