(* ===== verification/GoStrings.thy ===== *)
theory GoStrings
  imports OLPrelude
begin

text \<open>
  The parts of Go's \<open>strings\<close>, \<open>strconv\<close>, \<open>path\<close> and \<open>bufio\<close> packages the program
  calls.  A string is a list of bytes.  \<open>strings.Split\<close> is only called with separators of one
  byte; the white space and the letters \<open>TrimSpace\<close> and \<open>ToLower\<close> know are the ASCII ones.
  \<open>int\<close> is 64 bits wide, which \<open>Atoi\<close> checks.
\<close>

subsection \<open>strings\<close>

fun strings_Split :: "char \<Rightarrow> string \<Rightarrow> string list" where
  "strings_Split sep [] = [[]]"
| "strings_Split sep (c # cs) =
     (if c = sep then [] # strings_Split sep cs
      else case strings_Split sep cs of w # ws \<Rightarrow> (c # w) # ws | [] \<Rightarrow> [[c]])"

fun strings_Join :: "string \<Rightarrow> string list \<Rightarrow> string" where
  "strings_Join sep [] = []"
| "strings_Join sep [w] = w"
| "strings_Join sep (w # ws) = w @ sep @ strings_Join sep ws"

definition strings_HasPrefix :: "string \<Rightarrow> string \<Rightarrow> bool" where
  "strings_HasPrefix s pre = (take (length pre) s = pre)"

definition strings_HasSuffix :: "string \<Rightarrow> string \<Rightarrow> bool" where
  "strings_HasSuffix s suf = (length suf \<le> length s \<and> drop (length s - length suf) s = suf)"

fun strings_Index :: "string \<Rightarrow> string \<Rightarrow> int" where
  "strings_Index [] sub = (if sub = [] then 0 else - 1)"
| "strings_Index (c # cs) sub =
     (if strings_HasPrefix (c # cs) sub then 0
      else let i = strings_Index cs sub in if i < 0 then - 1 else i + 1)"

definition strings_Contains :: "string \<Rightarrow> string \<Rightarrow> bool" where
  "strings_Contains s sub = (0 \<le> strings_Index s sub)"

definition is_space :: "char \<Rightarrow> bool" where
  "is_space c = (c \<in> {CHR 0x09, CHR 0x0A, CHR 0x0B, CHR 0x0C, CHR 0x0D, CHR '' ''})"

definition strings_TrimSpace :: "string \<Rightarrow> string" where
  "strings_TrimSpace s = rev (dropWhile is_space (rev (dropWhile is_space s)))"

definition lower :: "char \<Rightarrow> char" where
  "lower c =
     (case map_of (zip ''ABCDEFGHIJKLMNOPQRSTUVWXYZ'' ''abcdefghijklmnopqrstuvwxyz'') c of
        Some d \<Rightarrow> d | None \<Rightarrow> c)"

definition strings_ToLower :: "string \<Rightarrow> string" where
  "strings_ToLower = map lower"

lemma strings_Contains_iff: "strings_Contains s sub \<longleftrightarrow> (\<exists>a b. s = a @ sub @ b)"
proof (induction s)
  case Nil
  then show ?case by (auto simp: strings_Contains_def)
next
  case (Cons c cs)
  have pre: "strings_HasPrefix (c # cs) sub \<longleftrightarrow> (\<exists>b. c # cs = sub @ b)"
    by (metis append_eq_conv_conj strings_HasPrefix_def)
  have "strings_Contains (c # cs) sub \<longleftrightarrow> strings_HasPrefix (c # cs) sub \<or> strings_Contains cs sub"
    by (auto simp: strings_Contains_def Let_def)
  also have "\<dots> \<longleftrightarrow> (\<exists>a b. c # cs = a @ sub @ b)"
    unfolding pre Cons.IH by (auto simp: append_eq_Cons_conv Cons_eq_append_conv)
  finally show ?case .
qed

lemma strings_Contains_self [simp]: "strings_Contains s s"
  unfolding strings_Contains_iff by (rule exI [of _ "[]"]) simp

lemma strings_Split_nonempty [simp]: "strings_Split sep s \<noteq> []"
  by (cases s) (auto split: list.splits)

lemma strings_Split_sep_free: "w \<in> set (strings_Split sep s) \<Longrightarrow> sep \<notin> set w"
proof (induction s arbitrary: w)
  case (Cons c cs)
  obtain v vs where v: "strings_Split sep cs = v # vs"
    by (cases "strings_Split sep cs") auto
  with Cons show ?case by (auto split: if_splits)
qed simp

lemma strings_Join_Cons: "ws \<noteq> [] \<Longrightarrow> strings_Join sep (w # ws) = w @ sep @ strings_Join sep ws"
  by (cases ws) auto

lemma strings_Join_Split: "strings_Join [sep] (strings_Split sep s) = s"
proof (induction s)
  case (Cons c cs)
  obtain v vs where v: "strings_Split sep cs = v # vs"
    by (cases "strings_Split sep cs") auto
  with Cons show ?case by (cases vs) (auto simp: strings_Join_Cons)
qed simp

lemma strings_Split_word: "sep \<notin> set w \<Longrightarrow> strings_Split sep w = [w]"
  by (induction w) auto

lemma strings_Split_append:
  "sep \<notin> set w \<Longrightarrow> strings_Split sep (w @ sep # s) = w # strings_Split sep s"
  by (induction w) auto

lemma strings_Split_Join:
  "ws \<noteq> [] \<Longrightarrow> \<forall>w \<in> set ws. sep \<notin> set w \<Longrightarrow> strings_Split sep (strings_Join [sep] ws) = ws"
  by (induction "[sep]" ws rule: strings_Join.induct)
     (auto simp: strings_Split_word strings_Split_append)

lemma strings_HasPrefix_append [simp]: "strings_HasPrefix (pre @ s) pre"
  by (simp add: strings_HasPrefix_def)

lemma strings_HasSuffix_append [simp]: "strings_HasSuffix (s @ suf) suf"
  by (simp add: strings_HasSuffix_def)

subsection \<open>strconv\<close>

abbreviation digits :: string where
  "digits \<equiv> ''0123456789''"

definition digit_char :: "nat \<Rightarrow> char" where
  "digit_char d = digits ! d"

definition digit_val :: "char \<Rightarrow> nat option" where
  "digit_val c = map_of (zip digits [0, 1, 2, 3, 4, 5, 6, 7, 8, 9]) c"

fun nat_digits :: "nat \<Rightarrow> string" where
  "nat_digits n = (if n < 10 then [digit_char n] else nat_digits (n div 10) @ [digit_char (n mod 10)])"

declare nat_digits.simps [simp del]

definition strconv_Itoa :: "int \<Rightarrow> string" where
  "strconv_Itoa i = (if i < 0 then CHR ''-'' # nat_digits (nat (- i)) else nat_digits (nat i))"

fun parse_nat :: "nat \<Rightarrow> string \<Rightarrow> nat option" where
  "parse_nat acc [] = Some acc"
| "parse_nat acc (c # cs) =
     (case digit_val c of None \<Rightarrow> None | Some d \<Rightarrow> parse_nat (10 * acc + d) cs)"

definition in_int64 :: "int \<Rightarrow> bool" where
  "in_int64 i = (- 9223372036854775808 \<le> i \<and> i < 9223372036854775808)"

text \<open>\<open>None\<close> stands for both errors of \<open>strconv.Atoi\<close>: bad syntax and value out of range.\<close>

definition strconv_Atoi :: "string \<Rightarrow> int option" where
  "strconv_Atoi s =
     (let (neg, ds) = (case s of c # cs \<Rightarrow> if c = CHR ''-'' then (True, cs)
                                            else if c = CHR ''+'' then (False, cs) else (False, s)
                       | [] \<Rightarrow> (False, []))
      in if ds = [] then None
         else case parse_nat 0 ds of None \<Rightarrow> None
              | Some n \<Rightarrow> let i = (if neg then - int n else int n)
                          in if in_int64 i then Some i else None)"

lemma digit_val_char: "d < 10 \<Longrightarrow> digit_val (digit_char d) = Some d"
proof -
  assume "d < 10"
  then have "d \<in> {0, 1, 2, 3, 4, 5, 6, 7, 8, 9}" by auto
  then show ?thesis by (auto simp: digit_val_def digit_char_def)
qed

lemma nat_digits_digit: "c \<in> set (nat_digits n) \<Longrightarrow> digit_val c \<noteq> None"
proof (induction n rule: nat_digits.induct)
  case (1 n)
  show ?case
  proof (cases "n < 10")
    case True
    with 1 have "c = digit_char n" by (simp add: nat_digits.simps [of n])
    with True show ?thesis by (simp add: digit_val_char)
  next
    case False
    with 1 have "c \<in> set (nat_digits (n div 10)) \<or> c = digit_char (n mod 10)"
      by (auto simp: nat_digits.simps [of n])
    with False 1 show ?thesis by (auto simp: digit_val_char)
  qed
qed

lemma nat_digits_nonempty [simp]: "nat_digits n \<noteq> []"
  by (subst nat_digits.simps) simp

lemma parse_nat_append:
  "parse_nat acc (xs @ ys) = (case parse_nat acc xs of None \<Rightarrow> None | Some a \<Rightarrow> parse_nat a ys)"
  by (induction xs arbitrary: acc) (auto split: option.splits)

lemma parse_nat_digits: "parse_nat 0 (nat_digits n) = Some n"
proof (induction n rule: nat_digits.induct)
  case (1 n)
  show ?case
  proof (cases "n < 10")
    case True
    then show ?thesis by (subst nat_digits.simps) (simp add: digit_val_char)
  next
    case False
    with 1 show ?thesis
      by (subst nat_digits.simps) (simp add: parse_nat_append digit_val_char)
  qed
qed

lemma nat_digits_hd: "hd (nat_digits n) \<noteq> CHR ''-'' \<and> hd (nat_digits n) \<noteq> CHR ''+''"
proof -
  have "digit_val (hd (nat_digits n)) \<noteq> None"
    by (rule nat_digits_digit) (rule hd_in_set, rule nat_digits_nonempty)
  moreover have "digit_val (CHR ''-'') = None" "digit_val (CHR ''+'') = None"
    by (simp_all add: digit_val_def)
  ultimately show ?thesis by metis
qed

lemma strconv_Atoi_Itoa:
  assumes i: "in_int64 i"
  shows "strconv_Atoi (strconv_Itoa i) = Some i"
proof (cases "i < 0")
  case True
  with i parse_nat_digits [of "nat (- i)"] show ?thesis
    by (simp add: strconv_Atoi_def strconv_Itoa_def Let_def)
next
  case False
  obtain c cs where cs: "nat_digits (nat i) = c # cs"
    by (cases "nat_digits (nat i)") auto
  have "parse_nat 0 (c # cs) = Some (nat i)" "c \<noteq> CHR ''-''" "c \<noteq> CHR ''+''"
    using parse_nat_digits [of "nat i"] nat_digits_hd [of "nat i"] by (simp_all add: cs del: parse_nat.simps)
  with False i show ?thesis
    by (simp add: strconv_Atoi_def strconv_Itoa_def cs Let_def del: parse_nat.simps)
qed

lemma strconv_Itoa_inj: "in_int64 i \<Longrightarrow> in_int64 j \<Longrightarrow> strconv_Itoa i = strconv_Itoa j \<Longrightarrow> i = j"
  by (metis strconv_Atoi_Itoa option.inject)

subsection \<open>path\<close>

abbreviation slash :: char where
  "slash \<equiv> CHR ''/''"

text \<open>\<open>path.Clean\<close> over the components of the path: the stack is the output so far, top first.\<close>

fun clean_comp :: "bool \<Rightarrow> string list \<Rightarrow> string \<Rightarrow> string list" where
  "clean_comp rooted st w =
     (if w = [] \<or> w = ''.'' then st
      else if w = ''..'' then
        (case st of v # vs \<Rightarrow> if v = ''..'' then w # st else vs
         | [] \<Rightarrow> if rooted then [] else [w])
      else w # st)"

definition path_IsAbs :: "string \<Rightarrow> bool" where
  "path_IsAbs p = strings_HasPrefix p ''/''"

definition path_Clean :: "string \<Rightarrow> string" where
  "path_Clean p =
     (if p = [] then ''.''
      else let rooted = path_IsAbs p;
               out = strings_Join ''/'' (rev (foldl (clean_comp rooted) [] (strings_Split slash p)))
           in if rooted then slash # out else if out = [] then ''.'' else out)"

fun path_Join :: "string list \<Rightarrow> string" where
  "path_Join [] = []"
| "path_Join (w # ws) = (if w = [] then path_Join ws else path_Clean (strings_Join ''/'' (w # ws)))"

declare path_Join.simps [simp del]

definition path_Dir :: "string \<Rightarrow> string" where
  "path_Dir p = path_Clean (rev (dropWhile (\<lambda>c. c \<noteq> slash) (rev p)))"

text \<open>\<open>filepath.Abs\<close>: the working directory is a system call and may fail.\<close>

definition filepath_Abs :: "(string + string) \<Rightarrow> string \<Rightarrow> string + string" where
  "filepath_Abs getwd p =
     (if path_IsAbs p then Inr (path_Clean p)
      else case getwd of Inl e \<Rightarrow> Inl e | Inr wd \<Rightarrow> Inr (path_Join [wd, p]))"

lemma path_IsAbs_Cons [simp]: "path_IsAbs (c # cs) \<longleftrightarrow> c = slash"
  by (simp add: path_IsAbs_def strings_HasPrefix_def)

lemma path_IsAbs_Nil [simp]: "\<not> path_IsAbs []"
  by (simp add: path_IsAbs_def strings_HasPrefix_def)

lemma path_IsAbs_append: "w \<noteq> [] \<Longrightarrow> path_IsAbs (w @ s) \<longleftrightarrow> path_IsAbs w"
  by (cases w) auto

lemma path_IsAbs_Clean: "path_IsAbs p \<Longrightarrow> path_IsAbs (path_Clean p)"
  by (cases p) (simp_all add: path_Clean_def Let_def)

lemma path_IsAbs_Join: "path_IsAbs w \<Longrightarrow> path_IsAbs (path_Join (w # ws))"
proof -
  assume w: "path_IsAbs w"
  then have "w \<noteq> []" by auto
  moreover have "path_IsAbs (strings_Join ''/'' (w # ws))"
    using w \<open>w \<noteq> []\<close> by (cases ws) (auto simp: path_IsAbs_append)
  ultimately show ?thesis by (simp add: path_IsAbs_Clean path_Join.simps)
qed

lemma filepath_Abs_IsAbs:
  "filepath_Abs getwd p = Inr q \<Longrightarrow> (\<And>wd. getwd = Inr wd \<Longrightarrow> path_IsAbs wd) \<Longrightarrow> path_IsAbs q"
  by (auto simp: filepath_Abs_def path_IsAbs_Clean path_IsAbs_Join
           split: if_splits sum.splits)

subsection \<open>bufio.Scanner over lines\<close>

definition drop_cr :: "string \<Rightarrow> string" where
  "drop_cr l = (if l \<noteq> [] \<and> last l = CHR 0x0D then butlast l else l)"

definition scan_lines :: "string \<Rightarrow> string list" where
  "scan_lines s =
     (let ls = strings_Split (CHR 0x0A) s
      in map drop_cr (if last ls = [] then butlast ls else ls))"

end
