(* ===== verification/HandlerState.thy ===== *)
theory HandlerState
  imports OLPrelude
begin

text \<open>
  The state of a sandbox (\<open>worker/handler/state/handlerState.go\<close>) and the \<open>Container\<close>
  interface (\<open>worker/sandbox/sandbox.go\<close>).  A Go interface value is a value together with its
  method table; here a container type \<open>'c\<close> comes with a record of methods.  A method that acts on
  the container returns its error and the container it leaves behind; \<open>Start\<close> and \<open>RunServer\<close> can
  also end the process (\<open>log.Fatalf\<close> when a pipe cannot be opened or read).
\<close>

datatype HandlerState = Unitialized | Stopped | Running | Paused

fun HandlerState_String :: "HandlerState \<Rightarrow> string" where
  "HandlerState_String Unitialized = ''unitialized''"
| "HandlerState_String Stopped = ''stopped''"
| "HandlerState_String Running = ''running''"
| "HandlerState_String Paused = ''paused''"

text \<open>The names are told apart, so a printed state determines the state.\<close>

lemma HandlerState_String_inj: "inj HandlerState_String"
proof (rule injI)
  fix a b
  assume "HandlerState_String a = HandlerState_String b"
  then show "a = b" by (cases a; cases b) auto
qed

record 'c container =
  c_Start :: "'c \<Rightarrow> ('c, goerror) outcome"
  c_Stop :: "'c \<Rightarrow> goerror \<times> 'c"
  c_Pause :: "'c \<Rightarrow> goerror \<times> 'c"
  c_Unpause :: "'c \<Rightarrow> goerror \<times> 'c"
  c_Remove :: "'c \<Rightarrow> goerror \<times> 'c"
  c_State :: "'c \<Rightarrow> string + HandlerState"
  c_Channel :: "'c \<Rightarrow> string + string"
  c_ID :: "'c \<Rightarrow> string"
  c_RunServer :: "'c \<Rightarrow> ('c, goerror) outcome"
  c_MemoryCGroupPath :: "'c \<Rightarrow> string"
  c_HostDir :: "'c \<Rightarrow> string"

text \<open>
  What a container promises of its state, as far as the handlers rely on it: a successful pause
  leaves it paused, a successful unpause or start leaves it running, a failed pause does not change
  the state that is reported, and pausing never changes where its memory is accounted.
\<close>

locale container_contract =
  fixes ops :: "'c container"
  assumes pause_ok: "c_Pause ops c = (None, c') \<Longrightarrow> c_State ops c' = Inr Paused"
    and unpause_ok: "c_Unpause ops c = (None, c') \<Longrightarrow> c_State ops c' = Inr Running"
    and pause_failed: "c_Pause ops c = (Some e, c') \<Longrightarrow> c_State ops c' = c_State ops c"
    and pause_cgroup: "c_MemoryCGroupPath ops (snd (c_Pause ops c)) = c_MemoryCGroupPath ops c"
begin

lemma pause_then_unpause:
  "c_Pause ops c = (None, c1) \<Longrightarrow> c_Unpause ops c1 = (None, c2) \<Longrightarrow> c_State ops c2 = Inr Running"
  by (rule unpause_ok)

lemma pause_state:
  "c_State ops (snd (c_Pause ops c)) =
     (if fst (c_Pause ops c) = None then Inr Paused else c_State ops c)"
proof (cases "c_Pause ops c")
  case (Pair e c')
  then show ?thesis
    using pause_ok [of c c'] pause_failed [of c _ c'] by (cases e) auto
qed

end

end
