(* ===== verification/HandlerLRU.thy ===== *)
theory HandlerLRU
  imports GoList GoStrings HandlerState
begin

text \<open>
  The LRU list of idle handlers (\<open>worker/handler/handlerLru.go\<close>) and the structures it shares with
  the handler managers (\<open>Handler\<close>, \<open>HandlerManager\<close> and \<open>HandlerManagerSet\<close> of
  \<open>worker/handler/handler.go\<close>).

  A handler pointer is an index into the heap.  A field \<open>_locked\<close> says that the object's mutex is
  held by a goroutine that has already returned, panicked or is waiting for ever: within one
  operation the lock discipline is that of the code, and only a mutex that is left locked is visible
  afterwards.  \<open>spawned\<close> are the handlers whose \<open>go h.nuke()\<close> has been started.
\<close>

type_synonym haddr = nat

record 'c handler =
  h_name :: string
  h_id :: string
  h_sandbox :: "'c option"
  h_hostDir :: string
  h_runners :: int
  h_usage :: int
  h_locked :: bool

record handlerManager =
  hm_name :: string
  hm_handlers :: "haddr golist"
  hm_hElements :: "haddr \<rightharpoonup> nat"
  hm_workingDir :: string
  hm_maxHandlers :: int
  hm_pulled :: bool
  hm_codeDir :: string
  hm_imports :: "string list"
  hm_installs :: "string list"
  hm_locked :: bool

record handlerLRU =
  hmap :: "haddr \<rightharpoonup> nat"
  hqueue :: "haddr golist"
  soft_limit :: int
  lru_size :: int
  last_add_time :: int

record 'c handlerManagerSet =
  hmMap :: "string \<rightharpoonup> handlerManager"
  heap :: "'c handler list"
  lru :: handlerLRU
  maxRunners :: int
  workerDir :: string
  hhits :: int
  ihits :: int
  misses :: int
  sbHardLimit :: int
  numSbCreating :: int
  avgHandlerMemUsage :: int
  sbCreatingQueue :: "haddr list"
  hms_locked :: bool
  spawned :: "haddr list"

abbreviation upd_handler :: "haddr \<Rightarrow> ('c handler \<Rightarrow> 'c handler) \<Rightarrow> 'c handlerManagerSet \<Rightarrow> 'c handlerManagerSet" where
  "upd_handler h f s \<equiv> s\<lparr>heap := (heap s)[h := f (heap s ! h)]\<rparr>"

abbreviation usages :: "'c handlerManagerSet \<Rightarrow> haddr \<Rightarrow> int" where
  "usages s \<equiv> \<lambda>h. h_usage (heap s ! h)"

subsection \<open>handlerUsage\<close>

text \<open>
  The memory a sandbox uses, read from the accounting file of its cgroup.  \<open>readFile\<close> is the file
  system: \<open>None\<close> is a read error.
\<close>

definition handlerUsage :: "'c container \<Rightarrow> (string \<Rightarrow> string option) \<Rightarrow> 'c handler \<Rightarrow> int res" where
  "handlerUsage ops readFile h =
     (case h_sandbox h of
        None \<Rightarrow> nil_deref
      | Some c \<Rightarrow>
          (case readFile (path_Join [c_MemoryCGroupPath ops c, ''memory.usage_in_bytes'']) of
             None \<Rightarrow> Panic ''get usage failed''
           | Some buf \<Rightarrow>
               (case strconv_Atoi (strings_TrimSpace buf) of
                  None \<Rightarrow> Panic ''atoi failed''
                | Some usage \<Rightarrow> Ret usage)))"

subsection \<open>The operations of HandlerLRU\<close>

definition NewHandlerLRU :: "int \<Rightarrow> handlerLRU" where
  "NewHandlerLRU limit =
     \<lparr>hmap = Map.empty, hqueue = list_New, soft_limit = limit * 1024, lru_size = 0, last_add_time = 0\<rparr>"

definition lru_Len :: "handlerLRU \<Rightarrow> int res" where
  "lru_Len l =
     (if list_Len (hqueue l) \<noteq> int (card (dom (hmap l))) then Panic ''length mismatch''
      else Ret (list_Len (hqueue l)))"

text \<open>
  \<open>Add\<close>: the flag returned with the state is whether the evictor is signalled.  A panic leaves
  the state as it was; the deferred unlock runs.
\<close>

definition lru_Add ::
  "'c container \<Rightarrow> (string \<Rightarrow> string option) \<Rightarrow> int \<Rightarrow> haddr \<Rightarrow> 'c handlerManagerSet \<Rightarrow>
   ('c handlerManagerSet, bool) outcome" where
  "lru_Add ops readFile now h s =
     (if hmap (lru s) h \<noteq> None then (Panic ''cannot double insert in LRU'', s)
      else
        let (entry, q) = list_PushFront h (hqueue (lru s)) in
        (case handlerUsage ops readFile (heap s ! h) of
           Ret u \<Rightarrow>
             let l = (lru s)\<lparr>hqueue := q, lru_size := lru_size (lru s) + u,
                             hmap := (hmap (lru s))(h \<mapsto> entry), last_add_time := now\<rparr>
             in (Ret (soft_limit l < lru_size l),
                 (upd_handler h (\<lambda>x. x\<lparr>h_usage := u\<rparr>) s)\<lparr>lru := l\<rparr>)
         | Panic m \<Rightarrow> (Panic m, s\<lparr>lru := (lru s)\<lparr>hqueue := q\<rparr>\<rparr>)
         | Exit m \<Rightarrow> (Exit m, s)
         | Block \<Rightarrow> (Block, s)))"

text \<open>\<open>Remove\<close>: the handler's usage is subtracted whether or not it was in the list.\<close>

definition lru_Remove :: "haddr \<Rightarrow> 'c handlerManagerSet \<Rightarrow> ('c handlerManagerSet, unit) outcome" where
  "lru_Remove h s =
     (let l = (lru s)\<lparr>hmap := (hmap (lru s))(h := None)\<rparr> in
      case hmap (lru s) h of
        None \<Rightarrow> (Ret (), s\<lparr>lru := l\<lparr>lru_size := lru_size l - h_usage (heap s ! h)\<rparr>\<rparr>)
      | Some entry \<Rightarrow>
          let (v, q) = list_Remove entry (hqueue l) in
          if v = None then (Panic ''queue entry not found'', s\<lparr>lru := l\<lparr>hqueue := q\<rparr>\<rparr>)
          else (Ret (), s\<lparr>lru := l\<lparr>hqueue := q, lru_size := lru_size l - h_usage (heap s ! h)\<rparr>\<rparr>))"

text \<open>
  The evictor pops the entry at the back of the queue; \<open>None\<close> is the empty queue.
\<close>

definition lru_pop :: "'c handlerManagerSet \<Rightarrow> (haddr \<times> 'c handlerManagerSet) option" where
  "lru_pop s =
     (case list_Back (hqueue (lru s)) of
        None \<Rightarrow> None
      | Some entry \<Rightarrow>
          (case list_Value (hqueue (lru s)) entry of
             None \<Rightarrow> None
           | Some h \<Rightarrow>
               Some (h, s\<lparr>lru := (lru s)\<lparr>hqueue := snd (list_Remove entry (hqueue (lru s))),
                                        hmap := (hmap (lru s))(h := None),
                                        lru_size := lru_size (lru s) - h_usage (heap s ! h)\<rparr>\<rparr>)))"

text \<open>
  One round of \<open>Evictor\<close> after the wait (the caller has seen \<open>size > soft_limit\<close>).  The manager of
  the victim is looked up by name.  A missing manager is a nil dereference, a missing element makes
  \<open>list.Remove\<close> dereference nil; both happen with the set's mutex (and the manager's) held.
\<close>

definition evict_from_manager ::
  "string \<Rightarrow> haddr \<Rightarrow> 'c handlerManagerSet \<Rightarrow> ('c handlerManagerSet, unit) outcome" where
  "evict_from_manager name h s =
     (case hmMap s name of
        None \<Rightarrow> (nil_deref, s\<lparr>hms_locked := True\<rparr>)
      | Some hm \<Rightarrow>
          if hm_locked hm then (Block, s\<lparr>hms_locked := True\<rparr>)
          else
            (case hm_hElements hm h of
               None \<Rightarrow>
                 (nil_deref,
                  s\<lparr>hms_locked := True, hmMap := (hmMap s)(name \<mapsto> hm\<lparr>hm_locked := True\<rparr>)\<rparr>)
             | Some hEle \<Rightarrow>
                 (Ret (),
                  s\<lparr>hmMap := (hmMap s)(name \<mapsto> hm\<lparr>hm_handlers := snd (list_Remove hEle (hm_handlers hm)),
                                                  hm_hElements := (hm_hElements hm)(h := None)\<rparr>),
                    spawned := h # spawned s\<rparr>)))"

definition Evictor_wakes :: "'c handlerManagerSet \<Rightarrow> bool" where
  "Evictor_wakes s = (soft_limit (lru s) < lru_size (lru s))"

definition Evictor :: "'c handlerManagerSet \<Rightarrow> ('c handlerManagerSet, unit) outcome" where
  "Evictor s =
     (if hms_locked s then (Block, s)
      else
        (case lru_pop s of
           None \<Rightarrow> (Ret (), s)
         | Some (h, s1) \<Rightarrow> evict_from_manager (h_name (heap s1 ! h)) h s1))"

subsection \<open>The list as an ordered set of handlers\<close>

definition lru_order :: "'c handlerManagerSet \<Rightarrow> haddr list" where
  "lru_order s = contents (hqueue (lru s))"

definition lru_ok :: "'c handlerManagerSet \<Rightarrow> bool" where
  "lru_ok s \<longleftrightarrow>
     lm_ok (hqueue (lru s)) (hmap (lru s)) \<and>
     lru_size (lru s) = sum_list (map (usages s) (lru_order s)) \<and>
     (\<forall>h \<in> set (lru_order s). h < length (heap s))"

lemma lru_okD:
  assumes "lru_ok s"
  shows "lm_ok (hqueue (lru s)) (hmap (lru s))"
    and "lru_size (lru s) = sum_list (map (usages s) (lru_order s))"
    and "\<And>h. h \<in> set (lru_order s) \<Longrightarrow> h < length (heap s)"
    and "distinct (lru_order s)"
  using assms lm_contents_distinct [of "hqueue (lru s)" "hmap (lru s)"]
  by (auto simp: lru_ok_def lru_order_def)

lemma hmap_None_iff: "lru_ok s \<Longrightarrow> hmap (lru s) h = None \<longleftrightarrow> h \<notin> set (lru_order s)"
  unfolding lru_order_def by (metis lru_okD(1) lm_lookup)

lemma hmap_SomeE:
  assumes "lru_ok s" and "h \<in> set (lru_order s)"
  obtains e where "hmap (lru s) h = Some e"
  using hmap_None_iff [OF assms(1), of h] assms(2) by auto

lemma lru_Len_ok: "lru_ok s \<Longrightarrow> lru_Len (lru s) = Ret (int (length (lru_order s)))"
  using lm_len [OF lru_okD(1)] by (simp add: lru_Len_def lru_order_def list_Len_contents)

text \<open>The operations of the list change nothing else of the state.\<close>

definition only_lru :: "'c handlerManagerSet \<Rightarrow> 'c handlerManagerSet \<Rightarrow> bool" where
  "only_lru s s' \<longleftrightarrow> (\<exists>l. s' = s\<lparr>lru := l\<rparr>)"

lemma only_lruD:
  assumes "only_lru s s'"
  shows "hmMap s' = hmMap s" and "heap s' = heap s" and "maxRunners s' = maxRunners s"
    and "spawned s' = spawned s" and "hms_locked s' = hms_locked s" and "workerDir s' = workerDir s"
    and "numSbCreating s' = numSbCreating s" and "sbCreatingQueue s' = sbCreatingQueue s"
  using assms by (auto simp: only_lru_def)

text \<open>The effect of the three operations on a list in order.\<close>

lemma lru_Add_effect:
  assumes ok: "lru_ok s" and new: "h \<notin> set (lru_order s)" and h: "h < length (heap s)"
    and u: "handlerUsage ops readFile (heap s ! h) = Ret u"
  obtains s' where "lru_Add ops readFile now h s = (Ret (soft_limit (lru s) < lru_size (lru s')), s')"
    and "lru_order s' = h # lru_order s" and "lru_ok s'"
    and "heap s' = (heap s)[h := (heap s ! h)\<lparr>h_usage := u\<rparr>]"
    and "only_lru (s\<lparr>heap := heap s'\<rparr>) s'"
    and "soft_limit (lru s') = soft_limit (lru s)"
proof -
  note lm = lru_okD(1)[OF ok]
  have none: "hmap (lru s) h = None" using hmap_None_iff [OF ok] new by blast
  obtain e q where pf: "list_PushFront h (hqueue (lru s)) = (e, q)" by fastforce
  obtain s' where add: "lru_Add ops readFile now h s = (Ret (soft_limit (lru s) < lru_size (lru s')), s')"
    and s': "s' = (upd_handler h (\<lambda>x. x\<lparr>h_usage := u\<rparr>) s)\<lparr>lru := (lru s)\<lparr>hqueue := q,
               lru_size := lru_size (lru s) + u, hmap := (hmap (lru s))(h \<mapsto> e), last_add_time := now\<rparr>\<rparr>"
    using none u pf by (simp add: lru_Add_def Let_def)
  have order: "lru_order s' = h # lru_order s"
    using contents_PushFront [OF lm_ok_golist [OF lm], of h] pf by (simp add: s' lru_order_def)
  have keep: "map (usages s') (lru_order s) = map (usages s) (lru_order s)"
    using new h by (auto simp: s' nth_list_update_if)
  have "lru_size (lru s') = sum_list (map (usages s') (h # lru_order s))"
    unfolding list.map keep using h lru_okD(2)[OF ok] by (simp add: s')
  then have "lru_ok s'"
    unfolding lru_ok_def order
    using lm_push [OF lm none] pf h lru_okD(3)[OF ok] by (auto simp: s')
  then show thesis
    by (rule that [OF add order]) (auto simp: s' only_lru_def)
qed

lemma lru_Remove_effect:
  assumes ok: "lru_ok s" and h: "h \<in> set (lru_order s)"
  obtains s' where "lru_Remove h s = (Ret (), s')" and "lru_order s' = remove1 h (lru_order s)"
    and "lru_ok s'" and "only_lru s s'" and "soft_limit (lru s') = soft_limit (lru s)"
proof -
  note lm = lru_okD(1)[OF ok]
  obtain e where e: "hmap (lru s) h = Some e" by (rule hmap_SomeE [OF ok h])
  have v: "list_Value (hqueue (lru s)) e = Some h"
    by (rule lm_value [OF lm e])
  obtain s' where rem: "lru_Remove h s = (Ret (), s')"
    and s': "s' = s\<lparr>lru := (lru s)\<lparr>hqueue := snd (list_Remove e (hqueue (lru s))),
                     hmap := (hmap (lru s))(h := None), lru_size := lru_size (lru s) - usages s h\<rparr>\<rparr>"
    using e v by (simp add: lru_Remove_def Let_def list_Remove_def)
  have order: "lru_order s' = remove1 h (lru_order s)"
    using contents_remove [OF lm e] by (simp add: s' lru_order_def)
  have "lru_ok s'"
    unfolding lru_ok_def order
    using lm_remove [OF lm e] lru_okD(2-4)[OF ok] h by (auto simp: s' sum_list_remove1_int)
  then show thesis
    by (rule that [OF rem order]) (auto simp: s' only_lru_def)
qed

lemma lru_pop_effect:
  assumes ok: "lru_ok s" and ne: "lru_order s \<noteq> []"
  obtains s' where "lru_pop s = Some (last (lru_order s), s')"
    and "lru_order s' = butlast (lru_order s)" and "lru_ok s'" and "only_lru s s'"
    and "soft_limit (lru s') = soft_limit (lru s)"
    and "lru_size (lru s') = lru_size (lru s) - usages s (last (lru_order s))"
proof -
  note lm = lru_okD(1)[OF ok]
  let ?h = "last (lru_order s)"
  have mem: "?h \<in> set (lru_order s)" using ne by simp
  obtain e where e: "hmap (lru s) ?h = Some e" by (rule hmap_SomeE [OF ok mem])
  have bk: "list_Back (hqueue (lru s)) = Some e"
    using lm_back [OF lm] ne e by (simp add: lru_order_def)
  have v: "list_Value (hqueue (lru s)) e = Some ?h"
    by (rule lm_value [OF lm e])
  obtain s' where pop: "lru_pop s = Some (?h, s')"
    and s': "s' = s\<lparr>lru := (lru s)\<lparr>hqueue := snd (list_Remove e (hqueue (lru s))),
                     hmap := (hmap (lru s))(?h := None), lru_size := lru_size (lru s) - usages s ?h\<rparr>\<rparr>"
    using bk v by (auto simp: lru_pop_def)
  have order: "lru_order s' = butlast (lru_order s)"
    using contents_remove [OF lm e] remove1_last [OF ne lru_okD(4)[OF ok]]
    by (simp add: s' lru_order_def)
  have size: "sum_list (map (usages s) (butlast (lru_order s))) =
             sum_list (map (usages s) (lru_order s)) - usages s ?h"
    using sum_list_remove1_int [OF mem, of "usages s"] remove1_last [OF ne lru_okD(4)[OF ok]] by simp
  have "lru_ok s'"
    unfolding lru_ok_def order
    using lm_remove [OF lm e] lru_okD(2,3)[OF ok] size
    by (auto simp: s' dest: in_set_butlastD)
  then show thesis
    by (rule that [OF pop order]) (auto simp: s' only_lru_def)
qed

end
