(* ===== verification/HandlerManager.thy ===== *)
theory HandlerManager
  imports HandlerLRU
begin

text \<open>
  The handlers of a worker (\<open>worker/handler/handler.go\<close>): \<open>HandlerManagerSet\<close> with \<open>Get\<close>,
  \<open>Handler\<close> with \<open>RunStart\<close>, \<open>RunFinish\<close> and \<open>nuke\<close>, and the admission of sandbox
  creations under the memory limit.

  Calls into other components (\<open>regMgr.Pull\<close>, \<open>pipMgr.Install\<close>, \<open>sbFactory.Create\<close>,
  \<open>cacheMgr.Provision\<close>) are Go interface calls; their answers are arguments, gathered in
  \<open>run_env\<close> for \<open>RunStart\<close>.  So are the clock, the memory readings and the cgroup files.
\<close>

subsection \<open>Managers\<close>

definition new_manager :: "string \<Rightarrow> string \<Rightarrow> handlerManager" where
  "new_manager wdir name =
     \<lparr>hm_name = name, hm_handlers = list_New, hm_hElements = Map.empty,
      hm_workingDir = path_Join [wdir, ''handlers'', name], hm_maxHandlers = 0, hm_pulled = False,
      hm_codeDir = [], hm_imports = [], hm_installs = [], hm_locked = False\<rparr>"

definition new_handler :: "string \<Rightarrow> 'c handler" where
  "new_handler name =
     \<lparr>h_name = name, h_id = [], h_sandbox = None, h_hostDir = [], h_runners = 1, h_usage = 0,
      h_locked = False\<rparr>"

definition hm_push :: "haddr \<Rightarrow> handlerManager \<Rightarrow> handlerManager" where
  "hm_push h hm =
     (let (e, l) = list_PushFront h (hm_handlers hm)
      in hm\<lparr>hm_handlers := l, hm_hElements := (hm_hElements hm)(h \<mapsto> e),
            hm_maxHandlers := max (hm_maxHandlers hm) (list_Len l)\<rparr>)"

definition hm_drop :: "haddr \<Rightarrow> nat \<Rightarrow> handlerManager \<Rightarrow> handlerManager" where
  "hm_drop h e hm =
     hm\<lparr>hm_handlers := snd (list_Remove e (hm_handlers hm)),
        hm_hElements := (hm_hElements hm)(h := None)\<rparr>"

definition put_manager :: "string \<Rightarrow> handlerManager \<Rightarrow> 'c handlerManagerSet \<Rightarrow> 'c handlerManagerSet" where
  "put_manager name hm s = s\<lparr>hmMap := (hmMap s)(name \<mapsto> hm)\<rparr>"

subsection \<open>Get\<close>

text \<open>The manager of a name, made on first use.\<close>

definition get_manager :: "string \<Rightarrow> 'c handlerManagerSet \<Rightarrow> handlerManager \<times> 'c handlerManagerSet" where
  "get_manager name s =
     (case hmMap s name of
        Some hm \<Rightarrow> (hm, s)
      | None \<Rightarrow> let hm = new_manager (workerDir s) name in (hm, put_manager name hm s))"

text \<open>No handler in the list: a new one, listed for reuse if it may take a second runner.\<close>

definition get_fresh ::
  "string \<Rightarrow> handlerManager \<Rightarrow> 'c handlerManagerSet \<Rightarrow> ('c handlerManagerSet, haddr) outcome" where
  "get_fresh name hm s =
     (let h = length (heap s);
          x = new_handler name;
          s1 = s\<lparr>heap := heap s @ [x]\<rparr>
      in (Ret h,
          if maxRunners s = 0 \<or> h_runners x < maxRunners s
          then put_manager name (hm_push h hm) s1 else s1))"

text \<open>
  The handler at the front of the list: it leaves the LRU list if it was idle, gets one more
  runner, and leaves the manager's list when it is full.
\<close>

definition get_front ::
  "string \<Rightarrow> handlerManager \<Rightarrow> nat \<Rightarrow> 'c handlerManagerSet \<Rightarrow> ('c handlerManagerSet, haddr) outcome" where
  "get_front name hm hEle s =
     (let h = vals (hm_handlers hm) ! hEle;
          stuck = (\<lambda>s'. put_manager name (hm\<lparr>hm_locked := True\<rparr>) (s'\<lparr>hms_locked := True\<rparr>))
      in if h_locked (heap s ! h) then (Block, stuck s)
         else
           (case (if h_runners (heap s ! h) = 0 then lru_Remove h s else (Ret (), s)) of
              (Ret _, s1) \<Rightarrow>
                let s2 = upd_handler h (\<lambda>x. x\<lparr>h_runners := h_runners x + 1\<rparr>) s1
                in (Ret h,
                    if maxRunners s2 \<noteq> 0 \<and> h_runners (heap s2 ! h) = maxRunners s2
                    then put_manager name (hm_drop h hEle hm) s2 else s2)
            | (Panic m, s1) \<Rightarrow> (Panic m, stuck (upd_handler h (\<lambda>x. x\<lparr>h_locked := True\<rparr>) s1))
            | (Exit m, s1) \<Rightarrow> (Exit m, s1)
            | (Block, s1) \<Rightarrow> (Block, stuck s1)))"

text \<open>
  The code is pulled on first use.  The error return leaves the manager's mutex locked
  (\<open>handler.go\<close>, the \<open>return nil, err\<close> before \<open>hm.mutex.Unlock()\<close>).
\<close>

definition get_code ::
  "(string \<Rightarrow> string + (string \<times> string list \<times> string list)) \<Rightarrow> string \<Rightarrow> haddr \<Rightarrow>
   'c handlerManagerSet \<Rightarrow> ('c handlerManagerSet, string + haddr) outcome" where
  "get_code pull name h s =
     (case hmMap s name of
        None \<Rightarrow> (nil_deref, s)
      | Some hm \<Rightarrow>
          if hm_pulled hm then (Ret (Inr h), s)
          else
            (case pull (hm_name hm) of
               Inl e \<Rightarrow> (Ret (Inl e), put_manager name (hm\<lparr>hm_locked := True\<rparr>) s)
             | Inr (codeDir, imports, installs) \<Rightarrow>
                 (Ret (Inr h),
                  put_manager name (hm\<lparr>hm_pulled := True, hm_codeDir := codeDir,
                                       hm_imports := imports, hm_installs := installs\<rparr>) s)))"

definition Get ::
  "(string \<Rightarrow> string + (string \<times> string list \<times> string list)) \<Rightarrow> string \<Rightarrow> 'c handlerManagerSet \<Rightarrow>
   ('c handlerManagerSet, string + haddr) outcome" where
  "Get pull name s =
     (if hms_locked s then (Block, s)
      else
        let (hm, s1) = get_manager name s in
        if hm_locked hm then (Block, s1\<lparr>hms_locked := True\<rparr>)
        else
          (case (case list_Front (hm_handlers hm) of
                   None \<Rightarrow> get_fresh name hm s1
                 | Some hEle \<Rightarrow> get_front name hm hEle s1) of
             (Ret h, s2) \<Rightarrow> get_code pull name h s2
           | (Panic m, s2) \<Rightarrow> (Panic m, s2)
           | (Exit m, s2) \<Rightarrow> (Exit m, s2)
           | (Block, s2) \<Rightarrow> (Block, s2)))"

subsection \<open>AddHandler, TryRemoveHandler and RunFinish\<close>

definition AddHandler :: "haddr \<Rightarrow> 'c handlerManagerSet \<Rightarrow> ('c handlerManagerSet, unit) outcome" where
  "AddHandler h s =
     (if maxRunners s \<noteq> 0 \<and> h_runners (heap s ! h) = maxRunners s - 1
      then
        (case hmMap s (h_name (heap s ! h)) of
           None \<Rightarrow> (nil_deref, s)
         | Some hm \<Rightarrow>
             if hm_locked hm then (Block, s)
             else (Ret (), put_manager (h_name (heap s ! h)) (hm_push h hm) s))
      else (Ret (), s))"

definition TryRemoveHandler :: "haddr \<Rightarrow> 'c handlerManagerSet \<Rightarrow> ('c handlerManagerSet, goerror) outcome" where
  "TryRemoveHandler h s =
     (case hmMap s (h_name (heap s ! h)) of
        None \<Rightarrow> (nil_deref, s)
      | Some hm \<Rightarrow>
          if hm_locked hm then (Block, s)
          else if h_locked (heap s ! h)
          then (Block, put_manager (h_name (heap s ! h)) (hm\<lparr>hm_locked := True\<rparr>) s)
          else if 0 < h_runners (heap s ! h)
          then (Ret (Some ''concurrent runner entered system''), s)
          else
            (case hm_hElements hm h of
               None \<Rightarrow> (Ret None, s)
             | Some hEle \<Rightarrow> (Ret None, put_manager (h_name (heap s ! h)) (hm_drop h hEle hm) s)))"

text \<open>
  The part of \<open>RunFinish\<close> under the handler's mutex.  The result says whether the mutex was
  released early, for the handler to be removed.  A failed \<open>Pause\<close> is only logged.  The usage is
  read twice, by \<open>RunFinish\<close> and by \<open>lru.Add\<close>, hence the two file systems.
\<close>

definition RunFinish_locked ::
  "'c container \<Rightarrow> (string \<Rightarrow> string option) \<Rightarrow> (string \<Rightarrow> string option) \<Rightarrow> int \<Rightarrow> haddr \<Rightarrow>
   'c handlerManagerSet \<Rightarrow> ('c handlerManagerSet, bool) outcome" where
  "RunFinish_locked ops rf1 rf2 now h s =
     (let lock = upd_handler h (\<lambda>x. x\<lparr>h_locked := True\<rparr>);
          s1 = upd_handler h (\<lambda>x. x\<lparr>h_runners := h_runners x - 1\<rparr>) s
      in if h_locked (heap s ! h) then (Block, s)
         else if h_runners (heap s1 ! h) = 0
         then
           (case h_sandbox (heap s1 ! h) of
              None \<Rightarrow> (nil_deref, lock s1)
            | Some c \<Rightarrow>
                let s2 = upd_handler h (\<lambda>x. x\<lparr>h_sandbox := Some (snd (c_Pause ops c))\<rparr>) s1 in
                (case handlerUsage ops rf1 (heap s2 ! h) of
                   Ret u \<Rightarrow>
                     if soft_limit (lru s2) < u then (Ret True, s2)
                     else
                       (case AddHandler h s2 of
                          (Ret _, s3) \<Rightarrow>
                            (case lru_Add ops rf2 now h s3 of
                               (Ret _, s4) \<Rightarrow> (Ret False, s4)
                             | (Panic m, s4) \<Rightarrow> (Panic m, lock s4)
                             | (Exit m, s4) \<Rightarrow> (Exit m, s4)
                             | (Block, s4) \<Rightarrow> (Block, lock s4))
                        | (Panic m, s3) \<Rightarrow> (Panic m, lock s3)
                        | (Exit m, s3) \<Rightarrow> (Exit m, s3)
                        | (Block, s3) \<Rightarrow> (Block, lock s3))
                 | Panic m \<Rightarrow> (Panic m, lock s2)
                 | Exit m \<Rightarrow> (Exit m, s2)
                 | Block \<Rightarrow> (Block, lock s2)))
         else
           (case AddHandler h s1 of
              (Ret _, s3) \<Rightarrow> (Ret False, s3)
            | (Panic m, s3) \<Rightarrow> (Panic m, lock s3)
            | (Exit m, s3) \<Rightarrow> (Exit m, s3)
            | (Block, s3) \<Rightarrow> (Block, lock s3)))"

text \<open>
  After the mutex was released early: try to take the handler out of its manager and, if nobody
  came in between, spawn its end.
\<close>

definition RunFinish_remove :: "haddr \<Rightarrow> 'c handlerManagerSet \<Rightarrow> ('c handlerManagerSet, unit) outcome" where
  "RunFinish_remove h s =
     (case TryRemoveHandler h s of
        (Ret None, s1) \<Rightarrow> (Ret (), s1\<lparr>spawned := h # spawned s1\<rparr>)
      | (Ret (Some _), s1) \<Rightarrow> (Ret (), s1)
      | (Panic m, s1) \<Rightarrow> (Panic m, s1)
      | (Exit m, s1) \<Rightarrow> (Exit m, s1)
      | (Block, s1) \<Rightarrow> (Block, s1))"

definition RunFinish ::
  "'c container \<Rightarrow> (string \<Rightarrow> string option) \<Rightarrow> (string \<Rightarrow> string option) \<Rightarrow> int \<Rightarrow> haddr \<Rightarrow>
   'c handlerManagerSet \<Rightarrow> ('c handlerManagerSet, unit) outcome" where
  "RunFinish ops rf1 rf2 now h s =
     (case RunFinish_locked ops rf1 rf2 now h s of
        (Ret over, s1) \<Rightarrow> if over then RunFinish_remove h s1 else (Ret (), s1)
      | (Panic m, s1) \<Rightarrow> (Panic m, s1)
      | (Exit m, s1) \<Rightarrow> (Exit m, s1)
      | (Block, s1) \<Rightarrow> (Block, s1))"

subsection \<open>nuke\<close>

definition nuke_container :: "'c container \<Rightarrow> 'c \<Rightarrow> 'c" where
  "nuke_container ops c = snd (c_Remove ops (snd (c_Stop ops (snd (c_Unpause ops c)))))"

definition nuke :: "'c container \<Rightarrow> haddr \<Rightarrow> 'c handlerManagerSet \<Rightarrow> ('c handlerManagerSet, unit) outcome" where
  "nuke ops h s =
     (case h_sandbox (heap s ! h) of
        None \<Rightarrow> (nil_deref, s)
      | Some c \<Rightarrow> (Ret (), upd_handler h (\<lambda>x. x\<lparr>h_sandbox := Some (nuke_container ops c)\<rparr>) s))"

subsection \<open>RunStart\<close>

text \<open>
  The answers \<open>RunStart\<close> gets: from \<open>pipMgr.Install\<close>, \<open>sbFactory.Create\<close>,
  \<open>cacheMgr.Provision\<close> (\<open>None\<close> is a nil \<open>cacheMgr\<close>; the flag is \<open>hit\<close>), the successive
  readings of \<open>getMemUsage\<close>, and whether the server wrote \<open>ready\<close> within 20 seconds.  The first
  and the third may panic or never return.
\<close>

record 'c run_env =
  e_install :: "string list \<Rightarrow> goerror res"
  e_create :: "string \<Rightarrow> string \<Rightarrow> string + 'c"
  e_provision :: "('c \<Rightarrow> string list \<Rightarrow> (string + bool) res) option"
  e_memUsage :: "int list"
  e_ready :: bool

definition over_hard_limit :: "int \<Rightarrow> 'c handlerManagerSet \<Rightarrow> bool" where
  "over_hard_limit m s =
     (sbHardLimit s \<noteq> 0 \<and> sbHardLimit s < m + (numSbCreating s + 1) * avgHandlerMemUsage s)"

text \<open>
  The admission loop: as long as the estimate is over the limit the handler queues itself and waits
  for the scheduler's signal, which takes it out of the queue again.  One reading of the memory per
  round; when the readings end, the handler is still waiting.
\<close>

fun await_memory :: "int list \<Rightarrow> haddr \<Rightarrow> 'c handlerManagerSet \<Rightarrow> ('c handlerManagerSet, unit) outcome" where
  "await_memory ms h s =
     (if sbHardLimit s = 0 then (Ret (), s)
      else
        (case ms of
           [] \<Rightarrow> (Block, s\<lparr>sbCreatingQueue := sbCreatingQueue s @ [h]\<rparr>)
         | m # ms' \<Rightarrow> if over_hard_limit m s then await_memory ms' h s else (Ret (), s)))"

declare await_memory.simps [simp del]

text \<open>The sandbox is started or unpaused according to its state.\<close>

definition start_sandbox :: "'c container \<Rightarrow> 'c \<Rightarrow> ('c, goerror) outcome" where
  "start_sandbox ops c =
     (case c_State ops c of
        Inl e \<Rightarrow> (Ret (Some e), c)
      | Inr st \<Rightarrow>
          if st = Stopped then c_Start ops c
          else if st = Paused then (case c_Unpause ops c of (e, c') \<Rightarrow> (Ret e, c'))
          else (Ret None, c))"

text \<open>The server inside: run directly, or forked from the import cache.\<close>

definition launch_server ::
  "'c container \<Rightarrow> 'c run_env \<Rightarrow> string list \<Rightarrow> 'c \<Rightarrow> 'c handlerManagerSet \<Rightarrow>
   ('c \<times> 'c handlerManagerSet, goerror) outcome" where
  "launch_server ops env imports c s =
     (case e_provision env of
        None \<Rightarrow> (case c_RunServer ops c of (e, c') \<Rightarrow> (e, c', s))
      | Some provision \<Rightarrow>
          (case provision c imports of
             Ret (Inl e) \<Rightarrow> (Ret (Some e), c, s)
           | Ret (Inr hit) \<Rightarrow>
               (Ret None, c, if hit then s\<lparr>ihits := ihits s + 1\<rparr> else s\<lparr>misses := misses s + 1\<rparr>)
           | Panic m \<Rightarrow> (Panic m, c, s)
           | Exit m \<Rightarrow> (Exit m, c, s)
           | Block \<Rightarrow> (Block, c, s)))"

definition set_sandbox :: "haddr \<Rightarrow> 'c \<Rightarrow> 'c handlerManagerSet \<Rightarrow> 'c handlerManagerSet" where
  "set_sandbox h c s = upd_handler h (\<lambda>x. x\<lparr>h_sandbox := Some c\<rparr>) s"

text \<open>
  Creating the sandbox, from the increment of \<open>numSbCreating\<close> to its decrement.  Every error return
  in between leaves the counter incremented.
\<close>

definition create_sandbox ::
  "'c container \<Rightarrow> 'c run_env \<Rightarrow> handlerManager \<Rightarrow> haddr \<Rightarrow> 'c handlerManagerSet \<Rightarrow>
   ('c handlerManagerSet, goerror) outcome" where
  "create_sandbox ops env hm h s =
     (let s1 = s\<lparr>numSbCreating := numSbCreating s + 1\<rparr> in
      case e_install env (hm_installs hm) of
        Ret (Some e) \<Rightarrow> (Ret (Some e), s1)
      | Panic m \<Rightarrow> (Panic m, s1)
      | Exit m \<Rightarrow> (Exit m, s1)
      | Block \<Rightarrow> (Block, s1)
      | Ret None \<Rightarrow>
          (case e_create env (hm_codeDir hm) (hm_workingDir hm) of
             Inl e \<Rightarrow> (Ret (Some e), s1)
           | Inr c \<Rightarrow>
               let s2 = upd_handler h (\<lambda>x. x\<lparr>h_sandbox := Some c, h_id := c_ID ops c,
                                             h_hostDir := c_HostDir ops c\<rparr>) s1 in
               (case start_sandbox ops c of
                  (Ret None, c') \<Rightarrow>
                    (case launch_server ops env (hm_imports hm) c' (set_sandbox h c' s2) of
                       (Ret None, c'', s3) \<Rightarrow>
                         (Ret None, (set_sandbox h c'' s3)\<lparr>numSbCreating := numSbCreating s3 - 1\<rparr>)
                     | (r, c'', s3) \<Rightarrow> (r, set_sandbox h c'' s3))
                | (r, c') \<Rightarrow> (r, set_sandbox h c' s2))))"

text \<open>A sandbox that exists is unpaused if it is paused; an error of \<open>State\<close> is ignored.\<close>

definition resume_sandbox ::
  "'c container \<Rightarrow> haddr \<Rightarrow> 'c \<Rightarrow> 'c handlerManagerSet \<Rightarrow> goerror \<times> 'c handlerManagerSet" where
  "resume_sandbox ops h c s =
     (let s1 = s\<lparr>hhits := hhits s + 1\<rparr> in
      if c_State ops c = Inr Paused
      then (case c_Unpause ops c of (e, c') \<Rightarrow> (e, set_sandbox h c' s1))
      else (None, s1))"

definition RunStart ::
  "'c container \<Rightarrow> 'c run_env \<Rightarrow> haddr \<Rightarrow> 'c handlerManagerSet \<Rightarrow>
   ('c handlerManagerSet, string + string) outcome" where
  "RunStart ops env h s =
     (let channel = (\<lambda>s'. case h_sandbox (heap s' ! h) of
                            None \<Rightarrow> (nil_deref, s')
                          | Some c \<Rightarrow> (Ret (c_Channel ops c), s'))
      in if h_locked (heap s ! h) then (Block, s)
         else
           (case h_sandbox (heap s ! h) of
              Some c \<Rightarrow>
                (case resume_sandbox ops h c s of
                   (Some e, s1) \<Rightarrow> (Ret (Inl e), s1)
                 | (None, s1) \<Rightarrow> channel s1)
            | None \<Rightarrow>
                (case hmMap s (h_name (heap s ! h)) of
                   None \<Rightarrow> (nil_deref, s)
                 | Some hm \<Rightarrow>
                     (case await_memory (e_memUsage env) h s of
                        (Ret _, s1) \<Rightarrow>
                          (case create_sandbox ops env hm h s1 of
                             (Ret (Some e), s2) \<Rightarrow> (Ret (Inl e), s2)
                           | (Ret None, s2) \<Rightarrow>
                               if e_ready env then channel s2
                               else (Ret (Inl ''handler server failed to initialize after 20s''), s2)
                           | (Panic m, s2) \<Rightarrow> (Panic m, s2)
                           | (Exit m, s2) \<Rightarrow> (Exit m, s2)
                           | (Block, s2) \<Rightarrow> (Block, upd_handler h (\<lambda>x. x\<lparr>h_locked := True\<rparr>) s2))
                      | (Panic m, s1) \<Rightarrow> (Panic m, s1)
                      | (Exit m, s1) \<Rightarrow> (Exit m, s1)
                      | (Block, s1) \<Rightarrow>
                          (Block, upd_handler h (\<lambda>x. x\<lparr>h_locked := True\<rparr>) s1)))))"

subsection \<open>The background goroutines\<close>

text \<open>
  One round of \<open>scheduleSbCreatingReqs\<close>: the handler that is woken, if any.
\<close>

definition scheduleSbCreatingReqs :: "int \<Rightarrow> 'c handlerManagerSet \<Rightarrow> haddr option \<times> 'c handlerManagerSet" where
  "scheduleSbCreatingReqs m s =
     (if sbHardLimit s \<noteq> 0 \<and> m + (numSbCreating s + 1) * avgHandlerMemUsage s \<le> sbHardLimit s
      then (case sbCreatingQueue s of
              [] \<Rightarrow> (None, s)
            | h # hs \<Rightarrow> (Some h, s\<lparr>sbCreatingQueue := hs\<rparr>))
      else (None, s))"

text \<open>
  One round of \<open>updateAvgHandlerMemUsage\<close>, over the handlers of the managers in the order
  \<open>names\<close> of the map iteration.  Go's integer division truncates.
\<close>

fun mem_usages ::
  "'c container \<Rightarrow> (string \<Rightarrow> string option) \<Rightarrow> 'c handler list \<Rightarrow> int \<Rightarrow> int \<Rightarrow> (int \<times> int) res" where
  "mem_usages ops rf [] n tot = Ret (n, tot)"
| "mem_usages ops rf (h # hs) n tot =
     (case h_sandbox h of
        None \<Rightarrow> mem_usages ops rf hs n tot
      | Some c \<Rightarrow>
          (case c_State ops c of
             Inl _ \<Rightarrow> mem_usages ops rf hs n tot
           | Inr st \<Rightarrow>
               if st = Stopped then mem_usages ops rf hs n tot
               else
                 (case handlerUsage ops rf h of
                    Ret u \<Rightarrow> mem_usages ops rf hs (n + 1) (tot + u)
                  | Panic m \<Rightarrow> Panic m
                  | Exit m \<Rightarrow> Exit m
                  | Block \<Rightarrow> Block)))"

definition managed_handlers :: "string list \<Rightarrow> 'c handlerManagerSet \<Rightarrow> haddr list" where
  "managed_handlers names s =
     concat (map (\<lambda>name. case hmMap s name of None \<Rightarrow> [] | Some hm \<Rightarrow> contents (hm_handlers hm)) names)"

definition go_div :: "int \<Rightarrow> int \<Rightarrow> int" where
  "go_div a b = sgn a * sgn b * (\<bar>a\<bar> div \<bar>b\<bar>)"

definition updateAvgHandlerMemUsage ::
  "'c container \<Rightarrow> (string \<Rightarrow> string option) \<Rightarrow> string list \<Rightarrow> 'c handlerManagerSet \<Rightarrow>
   ('c handlerManagerSet, unit) outcome" where
  "updateAvgHandlerMemUsage ops rf names s =
     (if hms_locked s then (Block, s)
      else
        (case mem_usages ops rf (map (\<lambda>h. heap s ! h) (managed_handlers names s)) 0 0 of
           Ret (n, tot) \<Rightarrow>
             (Ret (), if n \<noteq> 0 then s\<lparr>avgHandlerMemUsage := go_div tot n\<rparr> else s)
         | Panic m \<Rightarrow> (Panic m, s\<lparr>hms_locked := True\<rparr>)
         | Exit m \<Rightarrow> (Exit m, s)
         | Block \<Rightarrow> (Block, s\<lparr>hms_locked := True\<rparr>)))"

subsection \<open>Dump and Cleanup\<close>

text \<open>
  \<open>Dump\<close> asks every listed handler for its sandbox state, over the managers in map order.  The
  output is the list of lines.  The set's mutex is released by a deferred unlock, the manager's is
  not: a panic leaves it locked.
\<close>

fun dump_handlers :: "'c container \<Rightarrow> 'c handler list \<Rightarrow> string list \<Rightarrow> string list res" where
  "dump_handlers ops [] out = Ret out"
| "dump_handlers ops (h # hs) out =
     (case h_sandbox h of
        None \<Rightarrow> nil_deref
      | Some c \<Rightarrow>
          let st = (case c_State ops c of Inl _ \<Rightarrow> Unitialized | Inr st \<Rightarrow> st)
          in dump_handlers ops hs (out @ [h_id h @ '': '' @ HandlerState_String st]))"

fun Dump_managers ::
  "'c container \<Rightarrow> string list \<Rightarrow> string list \<Rightarrow> 'c handlerManagerSet \<Rightarrow>
   ('c handlerManagerSet, string list) outcome" where
  "Dump_managers ops [] out s = (Ret out, s)"
| "Dump_managers ops (name # names) out s =
     (case hmMap s name of
        None \<Rightarrow> Dump_managers ops names out s
      | Some hm \<Rightarrow>
          if hm_locked hm then (Block, s\<lparr>hms_locked := True\<rparr>)
          else
            (case dump_handlers ops (map (\<lambda>h. heap s ! h) (contents (hm_handlers hm)))
                    (out @ [name @ '': '' @ strconv_Itoa (hm_maxHandlers hm)]) of
               Ret out' \<Rightarrow> Dump_managers ops names out' s
             | Panic m \<Rightarrow> (Panic m, put_manager name (hm\<lparr>hm_locked := True\<rparr>) s)
             | Exit m \<Rightarrow> (Exit m, s)
             | Block \<Rightarrow> (Block, s)))"

definition Dump ::
  "'c container \<Rightarrow> string list \<Rightarrow> 'c handlerManagerSet \<Rightarrow> ('c handlerManagerSet, string list) outcome" where
  "Dump ops names s = (if hms_locked s then (Block, s) else Dump_managers ops names [] s)"

text \<open>\<open>Cleanup\<close> nukes every listed handler; the factory and the cache are cleaned up by the caller.\<close>

fun nuke_all :: "'c container \<Rightarrow> haddr list \<Rightarrow> 'c handlerManagerSet \<Rightarrow> ('c handlerManagerSet, unit) outcome" where
  "nuke_all ops [] s = (Ret (), s)"
| "nuke_all ops (h # hs) s =
     (case nuke ops h s of
        (Ret _, s1) \<Rightarrow> nuke_all ops hs s1
      | (Panic m, s1) \<Rightarrow> (Panic m, s1)
      | (Exit m, s1) \<Rightarrow> (Exit m, s1)
      | (Block, s1) \<Rightarrow> (Block, s1))"

definition Cleanup_handlers ::
  "'c container \<Rightarrow> string list \<Rightarrow> 'c handlerManagerSet \<Rightarrow> ('c handlerManagerSet, unit) outcome" where
  "Cleanup_handlers ops names s =
     (if hms_locked s then (Block, s) else nuke_all ops (managed_handlers names s) s)"

subsection \<open>NewHandlerManagerSet\<close>

definition NewHandlerManagerSet :: "string \<Rightarrow> int \<Rightarrow> int \<Rightarrow> int \<Rightarrow> 'c handlerManagerSet" where
  "NewHandlerManagerSet wdir max_runners handler_cache_size hard_limit =
     \<lparr>hmMap = Map.empty, heap = [], lru = NewHandlerLRU handler_cache_size, maxRunners = max_runners,
      workerDir = wdir, hhits = 0, ihits = 0, misses = 0, sbHardLimit = hard_limit * 1024,
      numSbCreating = 0, avgHandlerMemUsage = 0, sbCreatingQueue = [], hms_locked = False,
      spawned = []\<rparr>"

end
