(* ===== verification/HandlerPool.thy ===== *)
theory HandlerPool
  imports HandlerManager
begin

text \<open>
  What the handler managers promise, abstracted from lists, element pointers and heap: a pool of
  handlers with a runner count each, of which some are listed for reuse, some of those are idle, in
  LRU order, and some have been given up.  The locale \<open>pool_simulation\<close> states that operations on a
  concrete state simulate the pool's, and derives once what holds of every sequence of operations.
\<close>

record pool =
  p_count :: nat
  p_max :: int
  p_run :: "haddr \<Rightarrow> int"
  p_list :: "haddr set"
  p_idle :: "haddr list"
  p_dead :: "haddr set"

definition has_room :: "int \<Rightarrow> int \<Rightarrow> bool" where
  "has_room mx r \<longleftrightarrow> mx = 0 \<or> r < mx"

text \<open>A request gets a new handler, or one that is listed.\<close>

definition p_new :: "pool \<Rightarrow> pool" where
  "p_new p = p\<lparr>p_count := Suc (p_count p), p_run := (p_run p)(p_count p := 1),
               p_list := (if has_room (p_max p) 1 then insert (p_count p) (p_list p) else p_list p)\<rparr>"

definition p_acquire :: "haddr \<Rightarrow> pool \<Rightarrow> pool" where
  "p_acquire h p = p\<lparr>p_run := (p_run p)(h := p_run p h + 1), p_idle := remove1 h (p_idle p),
                     p_list := (if has_room (p_max p) (p_run p h + 1) then p_list p else p_list p - {h})\<rparr>"

text \<open>A request is done: the handler is listed again, and idle if it was the last.\<close>

definition p_release :: "haddr \<Rightarrow> pool \<Rightarrow> pool" where
  "p_release h p = p\<lparr>p_run := (p_run p)(h := p_run p h - 1), p_list := insert h (p_list p),
                     p_idle := (if p_run p h = 1 then h # p_idle p else p_idle p)\<rparr>"

text \<open>The last runner leaves a handler that is too big to keep.\<close>

definition p_discard :: "haddr \<Rightarrow> pool \<Rightarrow> pool" where
  "p_discard h p = p\<lparr>p_run := (p_run p)(h := p_run p h - 1), p_list := p_list p - {h},
                     p_dead := insert h (p_dead p)\<rparr>"

definition p_evict :: "pool \<Rightarrow> pool" where
  "p_evict p = p\<lparr>p_idle := butlast (p_idle p), p_list := p_list p - {last (p_idle p)},
                 p_dead := insert (last (p_idle p)) (p_dead p)\<rparr>"

definition pool_inv :: "pool \<Rightarrow> bool" where
  "pool_inv p \<longleftrightarrow>
     0 \<le> p_max p \<and>
     (\<forall>h. 0 \<le> p_run p h) \<and>
     (\<forall>h \<ge> p_count p. p_run p h = 0) \<and>
     (\<forall>h. p_max p \<noteq> 0 \<longrightarrow> p_run p h \<le> p_max p) \<and>
     (\<forall>h \<in> p_list p. h < p_count p \<and> has_room (p_max p) (p_run p h)) \<and>
     (\<forall>h. 0 < p_run p h \<longrightarrow> has_room (p_max p) (p_run p h) \<longrightarrow> h \<in> p_list p) \<and>
     distinct (p_idle p) \<and>
     (\<forall>h. h \<in> set (p_idle p) \<longleftrightarrow> h \<in> p_list p \<and> p_run p h = 0) \<and>
     (\<forall>h \<in> p_dead p. h < p_count p \<and> p_run p h = 0 \<and> h \<notin> p_list p)"

lemma pool_invD:
  assumes "pool_inv p"
  shows "0 \<le> p_max p" and "0 \<le> p_run p h" and "p_count p \<le> h \<Longrightarrow> p_run p h = 0"
    and "p_max p \<noteq> 0 \<Longrightarrow> p_run p h \<le> p_max p"
    and "h \<in> p_list p \<Longrightarrow> h < p_count p \<and> has_room (p_max p) (p_run p h)"
    and "0 < p_run p h \<Longrightarrow> has_room (p_max p) (p_run p h) \<Longrightarrow> h \<in> p_list p"
    and "distinct (p_idle p)" and "h \<in> set (p_idle p) \<longleftrightarrow> h \<in> p_list p \<and> p_run p h = 0"
    and "h \<in> p_dead p \<Longrightarrow> h < p_count p \<and> p_run p h = 0 \<and> h \<notin> p_list p"
  using assms by (auto simp: pool_inv_def)

lemma pool_invI:
  assumes "0 \<le> p_max p" and "\<And>h. 0 \<le> p_run p h" and "\<And>h. p_count p \<le> h \<Longrightarrow> p_run p h = 0"
    and "\<And>h. p_max p \<noteq> 0 \<Longrightarrow> p_run p h \<le> p_max p"
    and "\<And>h. h \<in> p_list p \<Longrightarrow> h < p_count p \<and> has_room (p_max p) (p_run p h)"
    and "\<And>h. 0 < p_run p h \<Longrightarrow> has_room (p_max p) (p_run p h) \<Longrightarrow> h \<in> p_list p"
    and "distinct (p_idle p)" and "\<And>h. h \<in> set (p_idle p) \<longleftrightarrow> h \<in> p_list p \<and> p_run p h = 0"
    and "\<And>h. h \<in> p_dead p \<Longrightarrow> h < p_count p \<and> p_run p h = 0 \<and> h \<notin> p_list p"
  shows "pool_inv p"
  unfolding pool_inv_def using assms by (intro conjI allI ballI impI) auto

lemma pool_inv_new [step_intros]:
  assumes inv: "pool_inv p"
  shows "pool_inv (p_new p)"
proof (rule pool_invI)
  note D = pool_invD[OF inv]
  fix h
  show "0 \<le> p_max (p_new p)" "0 \<le> p_run (p_new p) h" "distinct (p_idle (p_new p))"
    using D(1,2,7) by (auto simp: p_new_def)
  show "p_count (p_new p) \<le> h \<Longrightarrow> p_run (p_new p) h = 0"
    using D(3)[of h] by (auto simp: p_new_def)
  show "p_max (p_new p) \<noteq> 0 \<Longrightarrow> p_run (p_new p) h \<le> p_max (p_new p)"
    using D(1) D(4)[of h] by (auto simp: p_new_def)
  show "h \<in> p_list (p_new p) \<Longrightarrow> h < p_count (p_new p) \<and> has_room (p_max (p_new p)) (p_run (p_new p) h)"
    using D(5)[of h] by (auto simp: p_new_def split: if_splits)
  show "0 < p_run (p_new p) h \<Longrightarrow> has_room (p_max (p_new p)) (p_run (p_new p) h) \<Longrightarrow> h \<in> p_list (p_new p)"
    using D(6)[of h] by (auto simp: p_new_def split: if_splits)
  show "h \<in> set (p_idle (p_new p)) \<longleftrightarrow> h \<in> p_list (p_new p) \<and> p_run (p_new p) h = 0"
    using D(8)[of h] D(5)[of h] by (auto simp: p_new_def)
  show "h \<in> p_dead (p_new p) \<Longrightarrow> h < p_count (p_new p) \<and> p_run (p_new p) h = 0 \<and> h \<notin> p_list (p_new p)"
    using D(9)[of h] by (auto simp: p_new_def)
qed

lemma pool_inv_acquire [step_intros]:
  assumes inv: "pool_inv p" and h: "h \<in> p_list p"
  shows "pool_inv (p_acquire h p)"
proof (rule pool_invI)
  note D = pool_invD[OF inv]
  let ?p = "p_acquire h p"
  fix k
  show "0 \<le> p_max ?p" "0 \<le> p_run ?p k" "distinct (p_idle ?p)"
    using D(1,2,7) by (auto simp: p_acquire_def add_nonneg_nonneg)
  show "p_count ?p \<le> k \<Longrightarrow> p_run ?p k = 0"
    using D(3)[of k] D(5)[of h] h by (auto simp: p_acquire_def)
  show "p_max ?p \<noteq> 0 \<Longrightarrow> p_run ?p k \<le> p_max ?p"
    using D(4)[of k] D(5)[of h] h by (auto simp: p_acquire_def has_room_def)
  show "k \<in> p_list ?p \<Longrightarrow> k < p_count ?p \<and> has_room (p_max ?p) (p_run ?p k)"
    using D(5)[of k] by (auto simp: p_acquire_def split: if_splits)
  show "0 < p_run ?p k \<Longrightarrow> has_room (p_max ?p) (p_run ?p k) \<Longrightarrow> k \<in> p_list ?p"
    using D(6)[of k] h by (auto simp: p_acquire_def split: if_splits)
  show "k \<in> set (p_idle ?p) \<longleftrightarrow> k \<in> p_list ?p \<and> p_run ?p k = 0"
    using D(8)[of k] D(7) D(2)[of h] by (auto simp: p_acquire_def)
  show "k \<in> p_dead ?p \<Longrightarrow> k < p_count ?p \<and> p_run ?p k = 0 \<and> k \<notin> p_list ?p"
    using D(9)[of k] h by (auto simp: p_acquire_def)
qed

lemma pool_inv_release [step_intros]:
  assumes inv: "pool_inv p" and h: "0 < p_run p h"
  shows "pool_inv (p_release h p)"
proof (rule pool_invI)
  note D = pool_invD[OF inv]
  let ?p = "p_release h p"
  have n: "h < p_count p" using D(3)[of h] h by force
  fix k
  show "0 \<le> p_max ?p" "0 \<le> p_run ?p k"
    using D(1) D(2)[of k] h by (auto simp: p_release_def)
  show "distinct (p_idle ?p)"
    using D(7) D(8)[of h] h by (auto simp: p_release_def)
  show "p_count ?p \<le> k \<Longrightarrow> p_run ?p k = 0"
    using D(3)[of k] n by (auto simp: p_release_def)
  show "p_max ?p \<noteq> 0 \<Longrightarrow> p_run ?p k \<le> p_max ?p"
    using D(4)[of k] by (auto simp: p_release_def)
  show "k \<in> p_list ?p \<Longrightarrow> k < p_count ?p \<and> has_room (p_max ?p) (p_run ?p k)"
    using D(5)[of k] D(4)[of h] n
    by (cases "p_max p = 0") (auto simp: p_release_def has_room_def)
  show "0 < p_run ?p k \<Longrightarrow> has_room (p_max ?p) (p_run ?p k) \<Longrightarrow> k \<in> p_list ?p"
    using D(6)[of k] by (cases "k = h") (auto simp: p_release_def)
  show "k \<in> set (p_idle ?p) \<longleftrightarrow> k \<in> p_list ?p \<and> p_run ?p k = 0"
    using D(8)[of k] h by (auto simp: p_release_def)
  show "k \<in> p_dead ?p \<Longrightarrow> k < p_count ?p \<and> p_run ?p k = 0 \<and> k \<notin> p_list ?p"
    using D(9)[of k] h by (auto simp: p_release_def)
qed

lemma pool_inv_discard [step_intros]:
  assumes inv: "pool_inv p" and h: "p_run p h = 1"
  shows "pool_inv (p_discard h p)"
proof (rule pool_invI)
  note D = pool_invD[OF inv]
  let ?p = "p_discard h p"
  have n: "h < p_count p" using D(3)[of h] h by force
  fix k
  show "0 \<le> p_max ?p" "0 \<le> p_run ?p k" "distinct (p_idle ?p)"
    using D(1,7) D(2)[of k] h by (auto simp: p_discard_def)
  show "p_count ?p \<le> k \<Longrightarrow> p_run ?p k = 0"
    using D(3)[of k] h by (auto simp: p_discard_def)
  show "p_max ?p \<noteq> 0 \<Longrightarrow> p_run ?p k \<le> p_max ?p"
    using D(4)[of k] D(1) h by (auto simp: p_discard_def)
  show "k \<in> p_list ?p \<Longrightarrow> k < p_count ?p \<and> has_room (p_max ?p) (p_run ?p k)"
    using D(5)[of k] by (auto simp: p_discard_def)
  show "0 < p_run ?p k \<Longrightarrow> has_room (p_max ?p) (p_run ?p k) \<Longrightarrow> k \<in> p_list ?p"
    using D(6)[of k] h by (auto simp: p_discard_def split: if_splits)
  show "k \<in> set (p_idle ?p) \<longleftrightarrow> k \<in> p_list ?p \<and> p_run ?p k = 0"
    using D(8)[of k] h by (auto simp: p_discard_def)
  show "k \<in> p_dead ?p \<Longrightarrow> k < p_count ?p \<and> p_run ?p k = 0 \<and> k \<notin> p_list ?p"
    using D(9)[of k] h n by (auto simp: p_discard_def)
qed

lemma pool_inv_evict [step_intros]:
  assumes inv: "pool_inv p" and ne: "p_idle p \<noteq> []"
  shows "pool_inv (p_evict p)"
proof (rule pool_invI)
  note D = pool_invD[OF inv]
  let ?p = "p_evict p" and ?h = "last (p_idle p)"
  have h: "?h \<in> p_list p" "p_run p ?h = 0"
    using D(8)[of ?h] ne by auto
  have idle: "set (butlast (p_idle p)) = set (p_idle p) - {?h}"
    using remove1_last [OF ne D(7)] D(7) by (metis distinct_remove1_set)
  fix k
  show "0 \<le> p_max ?p" "0 \<le> p_run ?p k" "distinct (p_idle ?p)"
    using D(1,7) D(2)[of k] by (auto simp: p_evict_def distinct_butlast)
  show "p_count ?p \<le> k \<Longrightarrow> p_run ?p k = 0"
    using D(3)[of k] by (auto simp: p_evict_def)
  show "p_max ?p \<noteq> 0 \<Longrightarrow> p_run ?p k \<le> p_max ?p"
    using D(4)[of k] by (auto simp: p_evict_def)
  show "k \<in> p_list ?p \<Longrightarrow> k < p_count ?p \<and> has_room (p_max ?p) (p_run ?p k)"
    using D(5)[of k] by (auto simp: p_evict_def)
  show "0 < p_run ?p k \<Longrightarrow> has_room (p_max ?p) (p_run ?p k) \<Longrightarrow> k \<in> p_list ?p"
    using D(6)[of k] h(2) by (auto simp: p_evict_def)
  show "k \<in> set (p_idle ?p) \<longleftrightarrow> k \<in> p_list ?p \<and> p_run ?p k = 0"
    using D(8)[of k] by (auto simp: p_evict_def idle)
  show "k \<in> p_dead ?p \<Longrightarrow> k < p_count ?p \<and> p_run ?p k = 0 \<and> k \<notin> p_list ?p"
    using D(9)[of k] D(5)[of ?h] h by (auto simp: p_evict_def)
qed

subsection \<open>Sequences of pool operations\<close>

inductive pool_step :: "pool \<Rightarrow> pool \<Rightarrow> bool" where
  step_same: "pool_step p p"
| step_new: "pool_step p (p_new p)"
| step_acquire: "h \<in> p_list p \<Longrightarrow> pool_step p (p_acquire h p)"
| step_release: "0 < p_run p h \<Longrightarrow> pool_step p (p_release h p)"
| step_discard: "p_run p h = 1 \<Longrightarrow> pool_step p (p_discard h p)"
| step_evict: "p_idle p \<noteq> [] \<Longrightarrow> pool_step p (p_evict p)"

inductive_cases pool_stepE: "pool_step p p'"

lemma pool_step_inv: "pool_step p p' \<Longrightarrow> pool_inv p \<Longrightarrow> pool_inv p'"
  by (induction rule: pool_step.induct) (auto intro: step_intros)

text \<open>A handler that was given up has no runner, is not listed, and stays that way.\<close>

lemma pool_step_dead: "pool_step p p' \<Longrightarrow> p_dead p \<subseteq> p_dead p'"
  by (erule pool_stepE)
     (auto simp: p_new_def p_acquire_def p_release_def p_discard_def p_evict_def)

lemma pool_step_max: "pool_step p p' \<Longrightarrow> p_max p' = p_max p"
  by (erule pool_stepE)
     (auto simp: p_new_def p_acquire_def p_release_def p_discard_def p_evict_def)

locale pool_simulation =
  fixes abs :: "'s \<Rightarrow> pool"
    and wf :: "'s \<Rightarrow> bool"
    and step :: "'s \<Rightarrow> 's \<Rightarrow> bool"
  assumes sim: "wf s \<Longrightarrow> pool_inv (abs s) \<Longrightarrow> step s s' \<Longrightarrow> wf s' \<and> pool_step (abs s) (abs s')"
begin

lemma run_invariant:
  "step\<^sup>*\<^sup>* s s' \<Longrightarrow> wf s \<Longrightarrow> pool_inv (abs s) \<Longrightarrow> wf s' \<and> pool_inv (abs s')"
  by (induction rule: rtranclp_induct) (auto dest: sim intro: pool_step_inv)

lemma run_dead:
  "step\<^sup>*\<^sup>* s s' \<Longrightarrow> wf s \<Longrightarrow> pool_inv (abs s) \<Longrightarrow> p_dead (abs s) \<subseteq> p_dead (abs s')"
proof (induction rule: rtranclp_induct)
  case (step t u)
  then have "wf t \<and> pool_inv (abs t)" by (auto dest: run_invariant)
  with step show ?case using sim [of t u] pool_step_dead [of "abs t" "abs u"] by blast
qed simp

lemma run_dead_unused:
  assumes "step\<^sup>*\<^sup>* s s'" and "wf s" and "pool_inv (abs s)" and "h \<in> p_dead (abs s)"
  shows "p_run (abs s') h = 0" and "h \<notin> p_list (abs s')"
proof -
  have "h \<in> p_dead (abs s')" using run_dead assms by blast
  moreover have "pool_inv (abs s')" using run_invariant assms by blast
  ultimately show "p_run (abs s') h = 0" "h \<notin> p_list (abs s')"
    using pool_invD(9) by auto
qed

lemma run_max: "step\<^sup>*\<^sup>* s s' \<Longrightarrow> wf s \<Longrightarrow> pool_inv (abs s) \<Longrightarrow> p_max (abs s') = p_max (abs s)"
proof (induction rule: rtranclp_induct)
  case (step t u)
  then have "wf t \<and> pool_inv (abs t)" by (auto dest: run_invariant)
  with step show ?case using sim [of t u] pool_step_max [of "abs t" "abs u"] by metis
qed simp

end

end
