(* ===== verification/HandlerRefine.thy ===== *)
theory HandlerRefine
  imports HandlerPool
begin

text \<open>
  The handler managers implement the pool: the abstraction function, the well-formedness of the
  concrete state, and one simulation lemma per operation.
\<close>

definition listed :: "'c handlerManagerSet \<Rightarrow> haddr set" where
  "listed s = {h. \<exists>name hm. hmMap s name = Some hm \<and> h \<in> set (contents (hm_handlers hm))}"

definition abs_pool :: "'c handlerManagerSet \<Rightarrow> pool" where
  "abs_pool s =
     \<lparr>p_count = length (heap s), p_max = maxRunners s,
      p_run = (\<lambda>h. if h < length (heap s) then h_runners (heap s ! h) else 0),
      p_list = listed s, p_idle = lru_order s, p_dead = set (spawned s)\<rparr>"

definition hm_wf :: "'c handler list \<Rightarrow> string \<Rightarrow> handlerManager \<Rightarrow> bool" where
  "hm_wf hp name hm \<longleftrightarrow>
     hm_name hm = name \<and> lm_ok (hm_handlers hm) (hm_hElements hm) \<and>
     (\<forall>h \<in> set (contents (hm_handlers hm)). h < length hp \<and> h_name (hp ! h) = name)"

definition hms_wf :: "'c handlerManagerSet \<Rightarrow> bool" where
  "hms_wf s \<longleftrightarrow>
     lru_ok s \<and>
     (\<forall>name hm. hmMap s name = Some hm \<longrightarrow> hm_wf (heap s) name hm) \<and>
     (\<forall>h < length (heap s). hmMap s (h_name (heap s ! h)) \<noteq> None) \<and>
     (\<forall>h \<in> set (lru_order s) \<union> set (spawned s). h < length (heap s) \<and> h_sandbox (heap s ! h) \<noteq> None)"

lemma hms_wfD:
  assumes "hms_wf s"
  shows "lru_ok s" and "hmMap s name = Some hm \<Longrightarrow> hm_wf (heap s) name hm"
    and "h < length (heap s) \<Longrightarrow> \<exists>hm. hmMap s (h_name (heap s ! h)) = Some hm"
    and "h \<in> set (lru_order s) \<union> set (spawned s) \<Longrightarrow> h < length (heap s) \<and> h_sandbox (heap s ! h) \<noteq> None"
  using assms unfolding hms_wf_def by blast+

lemma hms_wfI:
  assumes "lru_ok s" and "\<And>name hm. hmMap s name = Some hm \<Longrightarrow> hm_wf (heap s) name hm"
    and "\<And>h. h < length (heap s) \<Longrightarrow> hmMap s (h_name (heap s ! h)) \<noteq> None"
    and "\<And>h. h \<in> set (lru_order s) \<union> set (spawned s) \<Longrightarrow> h < length (heap s) \<and> h_sandbox (heap s ! h) \<noteq> None"
  shows "hms_wf s"
  using assms unfolding hms_wf_def by blast

lemma hm_wfD:
  assumes "hm_wf hp name hm"
  shows "hm_name hm = name" and "lm_ok (hm_handlers hm) (hm_hElements hm)"
    and "h \<in> set (contents (hm_handlers hm)) \<Longrightarrow> h < length hp \<and> h_name (hp ! h) = name"
  using assms unfolding hm_wf_def by blast+

lemma abs_pool_simps [simp]:
  "p_count (abs_pool s) = length (heap s)" "p_max (abs_pool s) = maxRunners s"
  "p_list (abs_pool s) = listed s" "p_idle (abs_pool s) = lru_order s"
  "p_dead (abs_pool s) = set (spawned s)"
  "p_run (abs_pool s) h = (if h < length (heap s) then h_runners (heap s ! h) else 0)"
  by (simp_all add: abs_pool_def)

text \<open>In a well-formed state a handler can only be listed by the manager of its own name.\<close>

lemma listed_iff:
  assumes "hms_wf s" and "hmMap s name = Some hm" and "h_name (heap s ! h) = name"
  shows "h \<in> listed s \<longleftrightarrow> h \<in> set (contents (hm_handlers hm))"
proof
  assume "h \<in> listed s"
  then obtain n m where "hmMap s n = Some m" "h \<in> set (contents (hm_handlers m))"
    by (auto simp: listed_def)
  moreover from this have "n = name"
    using hm_wfD(3)[OF hms_wfD(2)[OF assms(1)]] assms(3) by blast
  ultimately show "h \<in> set (contents (hm_handlers hm))" using assms(2) by simp
qed (use assms(2) in \<open>auto simp: listed_def\<close>)

lemma listed_bound: "hms_wf s \<Longrightarrow> h \<in> listed s \<Longrightarrow> h < length (heap s)"
  unfolding listed_def using hm_wfD(3)[OF hms_wfD(2)] by blast

subsection \<open>Changes to one manager\<close>

lemma hm_push_linked:
  "(hm_handlers (hm_push h hm), hm_hElements (hm_push h hm)) =
     lm_push_front h (hm_handlers hm, hm_hElements hm)"
  by (simp add: hm_push_def lm_push_front_def split_beta Let_def)

lemma hm_drop_linked:
  "hm_hElements hm h = Some e \<Longrightarrow>
   (hm_handlers (hm_drop h e hm), hm_hElements (hm_drop h e hm)) =
     lm_delete h (hm_handlers hm, hm_hElements hm)"
  by (simp add: hm_drop_def lm_delete_def)

lemma hm_push_simps [simp]:
  "hm_name (hm_push h hm) = hm_name hm" "hm_locked (hm_push h hm) = hm_locked hm"
  by (simp_all add: hm_push_def split_beta Let_def)

lemma hm_drop_simps [simp]:
  "hm_name (hm_drop h e hm) = hm_name hm" "hm_locked (hm_drop h e hm) = hm_locked hm"
  by (simp_all add: hm_drop_def)

lemma hm_push_contents:
  assumes "hm_wf hp name hm" and "h \<notin> set (contents (hm_handlers hm))"
  shows "contents (hm_handlers (hm_push h hm)) = h # contents (hm_handlers hm)"
  using lm.keys_push [of "(hm_handlers hm, hm_hElements hm)" h] hm_push_linked [of h hm] assms
  by (simp add: hm_wf_def prod_eq_iff)

lemma hm_drop_contents:
  assumes "hm_wf hp name hm" and "hm_hElements hm h = Some e"
  shows "contents (hm_handlers (hm_drop h e hm)) = remove1 h (contents (hm_handlers hm))"
  using lm.keys_del [of "(hm_handlers hm, hm_hElements hm)" h] hm_drop_linked [OF assms(2)] assms
  by (simp add: hm_wf_def prod_eq_iff)

lemma hm_wf_push:
  assumes "hm_wf hp name hm" and "h \<notin> set (contents (hm_handlers hm))"
    and "h < length hp" and "h_name (hp ! h) = name"
  shows "hm_wf hp name (hm_push h hm)"
  using lm.invar_push [of "(hm_handlers hm, hm_hElements hm)" h] hm_push_linked [of h hm]
    hm_push_contents [OF assms(1,2)] assms
  by (auto simp: hm_wf_def prod_eq_iff)

lemma hm_wf_drop:
  assumes "hm_wf hp name hm" and "hm_hElements hm h = Some e"
  shows "hm_wf hp name (hm_drop h e hm)"
  using lm.invar_del [of "(hm_handlers hm, hm_hElements hm)" h] hm_drop_linked [OF assms(2)]
    hm_drop_contents [OF assms] assms(1)
  by (auto simp: hm_wf_def prod_eq_iff dest: notin_set_remove1 [THEN contrapos_pp])

lemma hm_wf_heap:
  assumes "hm_wf hp name hm" and "length hp \<le> length hp'"
    and "\<And>h. h < length hp \<Longrightarrow> h_name (hp' ! h) = h_name (hp ! h)"
  shows "hm_wf hp' name hm"
  using assms unfolding hm_wf_def by (auto dest!: bspec)

lemma put_manager_simps [simp]:
  "heap (put_manager n hm s) = heap s" "lru (put_manager n hm s) = lru s"
  "maxRunners (put_manager n hm s) = maxRunners s" "spawned (put_manager n hm s) = spawned s"
  "hmMap (put_manager n hm s) = (hmMap s)(n \<mapsto> hm)" "hms_locked (put_manager n hm s) = hms_locked s"
  "workerDir (put_manager n hm s) = workerDir s" "lru_order (put_manager n hm s) = lru_order s"
  by (simp_all add: put_manager_def lru_order_def)

lemma lru_ok_put_manager [simp]: "lru_ok (put_manager n hm s) = lru_ok s"
  by (simp add: lru_ok_def)

lemma put_manager_wf:
  assumes "hms_wf s" and "hm_wf (heap s) name hm"
  shows "hms_wf (put_manager name hm s)"
  using assms unfolding hms_wf_def by auto

lemma put_manager_listed:
  assumes wf: "hms_wf s" and hm: "hmMap s name = Some hm" and hm': "hm_wf (heap s) name hm'"
  shows "listed (put_manager name hm' s) =
           listed s - set (contents (hm_handlers hm)) \<union> set (contents (hm_handlers hm'))"
proof -
  have other: "h \<notin> set (contents (hm_handlers hm))"
    if "hmMap s n = Some m" "h \<in> set (contents (hm_handlers m))" "n \<noteq> name" for n m h
    using hm_wfD(3)[OF hms_wfD(2)[OF wf that(1)] that(2)] hm_wfD(3)[OF hms_wfD(2)[OF wf hm], of h]
      that(3) by blast
  show ?thesis (is "?L = ?R")
  proof (intro set_eqI iffI)
    fix h assume "h \<in> ?L"
    then show "h \<in> ?R" using other unfolding listed_def by (fastforce split: if_splits)
  next
    fix h assume "h \<in> ?R"
    then consider "h \<in> set (contents (hm_handlers hm'))"
      | n m where "hmMap s n = Some m" "h \<in> set (contents (hm_handlers m))" "n \<noteq> name"
      using hm unfolding listed_def by force
    then show "h \<in> ?L"
    proof cases
      case 1
      then have "(hmMap (put_manager name hm' s)) name = Some hm' \<and> h \<in> set (contents (hm_handlers hm'))" by simp
      then show ?thesis unfolding listed_def by blast
    next
      case 2
      then have "(hmMap (put_manager name hm' s)) n = Some m" by simp
      with 2 show ?thesis unfolding listed_def by blast
    qed
  qed
qed

text \<open>Changes that touch neither the lists nor the counters are invisible.\<close>

lemma abs_poolI:
  assumes "length (heap s') = length (heap s)" and "maxRunners s' = maxRunners s"
    and "\<And>h. h < length (heap s) \<Longrightarrow> h_runners (heap s' ! h) = h_runners (heap s ! h)"
    and "listed s' = listed s" and "lru_order s' = lru_order s" and "set (spawned s') = set (spawned s)"
  shows "abs_pool s' = abs_pool s"
  using assms by (auto simp: abs_pool_def fun_eq_iff)

lemma put_manager_same:
  assumes wf: "hms_wf s" and hm: "hmMap s name = Some hm"
    and same: "hm_handlers hm' = hm_handlers hm" "hm_hElements hm' = hm_hElements hm" "hm_name hm' = hm_name hm"
  shows "hms_wf (put_manager name hm' s)" and "abs_pool (put_manager name hm' s) = abs_pool s"
proof -
  have hm': "hm_wf (heap s) name hm'"
    using hms_wfD(2)[OF wf hm] same by (simp add: hm_wf_def)
  then show "hms_wf (put_manager name hm' s)" by (rule put_manager_wf [OF wf])
  have "set (contents (hm_handlers hm)) \<subseteq> listed s" using hm by (auto simp: listed_def)
  then have "listed (put_manager name hm' s) = listed s"
    using put_manager_listed [OF wf hm hm'] same by auto
  then show "abs_pool (put_manager name hm' s) = abs_pool s"
    by (intro abs_poolI) auto
qed

text \<open>Changes to the fields of one handler other than its name, runners and usage.\<close>

lemma lru_order_heap [simp]: "lru_order (s\<lparr>heap := hp\<rparr>) = lru_order s"
  by (simp add: lru_order_def)

lemma listed_heap [simp]: "listed (s\<lparr>heap := hp\<rparr>) = listed s"
  by (simp add: listed_def)

lemma upd_handler_wf:
  assumes wf: "hms_wf s" and n: "h_name (f (heap s ! h)) = h_name (heap s ! h)"
    and u: "h_usage (f (heap s ! h)) = h_usage (heap s ! h)"
    and sb: "h_sandbox (heap s ! h) \<noteq> None \<Longrightarrow> h_sandbox (f (heap s ! h)) \<noteq> None"
  shows "hms_wf (upd_handler h f s)"
proof -
  let ?hp = "(heap s)[h := f (heap s ! h)]"
  have name: "h_name (?hp ! k) = h_name (heap s ! k)" and usage: "h_usage (?hp ! k) = h_usage (heap s ! k)"
    and box: "h_sandbox (heap s ! k) \<noteq> None \<Longrightarrow> h_sandbox (?hp ! k) \<noteq> None" for k
    using n u sb by (cases "h < length (heap s)"; cases "k = h"; auto simp: nth_list_update_if list_update_beyond)+
  have "lru_ok (upd_handler h f s)"
    using hms_wfD(1)[OF wf] by (simp add: lru_ok_def usage)
  moreover have "hm_wf ?hp m hm" if "hmMap s m = Some hm" for m hm
    using hm_wf_heap [OF hms_wfD(2)[OF wf that], of ?hp] name by simp
  ultimately show ?thesis
    using wf name box unfolding hms_wf_def by auto
qed

end
