(* ===== verification/HandlerSim.thy ===== *)
theory HandlerSim
  imports HandlerRefine
begin

text \<open>
  The simulation lemmas: every operation of \<open>HandlerManager\<close> and \<open>HandlerLRU\<close> that returns keeps
  the state well formed and acts on the pool as the corresponding pool operation does.
\<close>

lemma listed_cong: "hmMap s' = hmMap s \<Longrightarrow> listed s' = listed s"
  by (simp add: listed_def)

lemma lru_change_wf:
  assumes wf: "hms_wf s" and o: "only_lru s s'" and ok: "lru_ok s'"
    and sub: "set (lru_order s') \<subseteq> set (lru_order s)"
  shows "hms_wf s'" and "listed s' = listed s"
proof -
  note same = only_lruD [OF o]
  show "listed s' = listed s" by (rule listed_cong [OF same(1)])
  show "hms_wf s'"
    using wf ok sub unfolding hms_wf_def same by blast
qed

subsection \<open>Get\<close>

lemma put_manager_new_listed:
  assumes "hmMap s name = None"
  shows "listed (put_manager name hm s) = listed s \<union> set (contents (hm_handlers hm))"
proof -
  have "ran (hmMap (put_manager name hm s)) = insert hm (ran (hmMap s))"
    using assms by simp
  moreover have "listed t = (\<Union>m \<in> ran (hmMap t). set (contents (hm_handlers m)))" for t :: "'a handlerManagerSet"
    by (auto simp: listed_def ran_def)
  ultimately show ?thesis by auto
qed

lemma get_manager_sim:
  assumes wf: "hms_wf s" and g: "get_manager name s = (hm, s1)"
  shows "hms_wf s1" and "hmMap s1 name = Some hm" and "abs_pool s1 = abs_pool s"
    and "hms_locked s1 = hms_locked s" and "heap s1 = heap s" and "lru s1 = lru s"
    and "maxRunners s1 = maxRunners s" and "spawned s1 = spawned s"
proof -
  have "hms_wf s1 \<and> hmMap s1 name = Some hm \<and> abs_pool s1 = abs_pool s"
  proof (cases "hmMap s name")
    case (Some m)
    with g wf show ?thesis by (simp add: get_manager_def)
  next
    case None
    have hm: "hm = new_manager (workerDir s) name" and s1: "s1 = put_manager name hm s"
      using g None by (auto simp: get_manager_def Let_def)
    have w: "hm_wf (heap s) name hm"
      by (simp add: hm hm_wf_def new_manager_def)
    have "contents (hm_handlers hm) = []" by (simp add: hm new_manager_def)
    then have "listed s1 = listed s"
      using put_manager_new_listed [of s name hm] None by (simp add: s1)
    then have "abs_pool s1 = abs_pool s"
      by (intro abs_poolI) (simp_all add: s1)
    then show ?thesis using put_manager_wf [OF wf w] by (simp add: s1)
  qed
  then show "hms_wf s1" "hmMap s1 name = Some hm" "abs_pool s1 = abs_pool s" by auto
  show "hms_locked s1 = hms_locked s" "heap s1 = heap s" "lru s1 = lru s"
    "maxRunners s1 = maxRunners s" "spawned s1 = spawned s"
    using g by (auto simp: get_manager_def Let_def split: option.splits)
qed

lemma append_heap_wf:
  assumes wf: "hms_wf s" and m: "hmMap s (h_name x) \<noteq> None"
  shows "hms_wf (s\<lparr>heap := heap s @ [x]\<rparr>)"
proof -
  let ?s = "s\<lparr>heap := heap s @ [x]\<rparr>"
  have old: "(heap s @ [x]) ! h = heap s ! h" if "h < length (heap s)" for h
    using that by (simp add: nth_append)
  have "hm_wf (heap s @ [x]) n hm" if "hmMap s n = Some hm" for n hm
    using hm_wf_heap [OF hms_wfD(2)[OF wf that], of "heap s @ [x]"] old by simp
  moreover have "map (usages ?s) (lru_order s) = map (usages s) (lru_order s)"
    using lru_okD(3)[OF hms_wfD(1)[OF wf]] by (auto simp: nth_append)
  then have "lru_ok ?s"
    using hms_wfD(1)[OF wf] unfolding lru_ok_def lru_order_heap by (simp only:) auto
  ultimately show ?thesis
    using wf m unfolding hms_wf_def by (auto simp: nth_append less_Suc_eq)
qed

lemma new_handler_simps [simp]:
  "h_name (new_handler n) = n" "h_runners (new_handler n) = 1" "h_sandbox (new_handler n) = None"
  "h_locked (new_handler n) = False"
  by (simp_all add: new_handler_def)

lemma get_fresh_sim:
  assumes wf: "hms_wf s" and hm: "hmMap s name = Some hm" and g: "get_fresh name hm s = (r, s')"
  shows "r = Ret (length (heap s))" and "hms_wf s'" and "abs_pool s' = p_new (abs_pool s)"
    and "h_name (heap s' ! length (heap s)) = name" and "hmMap s' name \<noteq> None"
    and "lru_order s' = lru_order s" and "heap s' = heap s @ [new_handler name]"
proof -
  let ?h = "length (heap s)" and ?s1 = "s\<lparr>heap := heap s @ [new_handler name]\<rparr>"
  have wf1: "hms_wf ?s1" by (rule append_heap_wf [OF wf]) (simp add: hm)
  have new: "?h \<notin> set (contents (hm_handlers hm))" and new': "?h \<notin> listed s"
    using hm_wfD(3)[OF hms_wfD(2)[OF wf hm], of ?h] listed_bound [OF wf, of ?h] by auto
  have hmwf: "hm_wf (heap ?s1) name hm" using hms_wfD(2)[OF wf1, of name hm] hm by simp
  have push: "hm_wf (heap ?s1) name (hm_push ?h hm)"
    by (rule hm_wf_push [OF hmwf new]) simp_all
  define s2 where "s2 = put_manager name (hm_push ?h hm) ?s1"
  have wf2: "hms_wf s2" unfolding s2_def by (rule put_manager_wf [OF wf1 push])
  have "set (contents (hm_handlers hm)) \<subseteq> listed s" using hm by (auto simp: listed_def)
  then have l2: "listed s2 = insert ?h (listed s)"
    using put_manager_listed [OF wf1 _ push, of hm] hm hm_push_contents [OF hmwf new]
    by (auto simp: s2_def)
  have s': "s' = (if has_room (maxRunners s) 1 then s2 else ?s1)"
    using g by (auto simp: get_fresh_def Let_def has_room_def s2_def)
  show "r = Ret ?h" using g by (simp add: get_fresh_def Let_def)
  show "hms_wf s'" using s' wf1 wf2 by simp
  show "abs_pool s' = p_new (abs_pool s)"
    using l2 by (auto simp: s' p_new_def abs_pool_def s2_def fun_eq_iff nth_append less_Suc_eq)
  show "h_name (heap s' ! ?h) = name" "hmMap s' name \<noteq> None" "lru_order s' = lru_order s"
    "heap s' = heap s @ [new_handler name]"
    using s' hm by (auto simp: s2_def)
qed

lemma get_front_runner:
  assumes wf: "hms_wf s" and inv: "pool_inv (abs_pool s)" and h: "h \<in> listed s"
  obtains s1 where "(if h_runners (heap s ! h) = 0 then lru_Remove h s else (Ret (), s)) = (Ret (), s1)"
    and "hms_wf s1" and "listed s1 = listed s" and "lru_order s1 = remove1 h (lru_order s)"
    and "heap s1 = heap s" and "hmMap s1 = hmMap s" and "maxRunners s1 = maxRunners s"
    and "spawned s1 = spawned s" and "hms_locked s1 = hms_locked s"
proof (cases "h_runners (heap s ! h) = 0")
  case True
  have "h \<in> set (lru_order s)"
    using pool_invD(8)[OF inv, of h] h True listed_bound [OF wf h] by simp
  then obtain s1 where r: "lru_Remove h s = (Ret (), s1)" "lru_order s1 = remove1 h (lru_order s)"
      "lru_ok s1" "only_lru s s1"
    by (rule lru_Remove_effect [OF hms_wfD(1)[OF wf]])
  have "set (lru_order s1) \<subseteq> set (lru_order s)" unfolding r(2) by (rule set_remove1_subset)
  note l = lru_change_wf [OF wf r(4,3) this]
  show thesis
    by (rule that [of s1]) (use True r l only_lruD [OF r(4)] in \<open>auto\<close>)
next
  case False
  then have "h \<notin> set (lru_order s)"
    using pool_invD(8)[OF inv, of h] listed_bound [OF wf h] by simp
  with False wf show thesis by (intro that [of s]) (auto simp: remove1_idem)
qed

lemma get_front_sim:
  assumes wf: "hms_wf s" and inv: "pool_inv (abs_pool s)" and hm: "hmMap s name = Some hm"
    and e: "list_Front (hm_handlers hm) = Some e" and h: "h = vals (hm_handlers hm) ! e"
    and free: "\<not> h_locked (heap s ! h)" and g: "get_front name hm e s = (r, s')"
  shows "r = Ret h" and "h \<in> listed s" and "hms_wf s'" and "abs_pool s' = p_acquire h (abs_pool s)"
    and "h_name (heap s' ! h) = name" and "hmMap s' name \<noteq> None"
    and "length (heap s') = length (heap s)" and "h_name (heap s ! h) = name"
proof -
  note hmwf = hms_wfD(2)[OF wf hm]
  note lm = hm_wfD(2)[OF hmwf]
  have ne: "contents (hm_handlers hm) \<noteq> []" and he: "hm_hElements hm (hd (contents (hm_handlers hm))) = Some e"
    using lm_front [OF lm] e by (auto split: if_splits)
  then have "h = hd (contents (hm_handlers hm))" using lm_Some [OF lm he] h by simp
  then have hin: "h \<in> set (contents (hm_handlers hm))" and hE: "hm_hElements hm h = Some e"
    using ne he by auto
  have hname: "h_name (heap s ! h) = name" and hlen: "h < length (heap s)"
    using hm_wfD(3)[OF hmwf hin] by auto
  show lst: "h \<in> listed s" using hm hin by (auto simp: listed_def)
  show "h_name (heap s ! h) = name" by (rule hname)
  obtain s1 where r1: "(if h_runners (heap s ! h) = 0 then lru_Remove h s else (Ret (), s)) = (Ret (), s1)"
    and wf1: "hms_wf s1" and s1: "listed s1 = listed s" "lru_order s1 = remove1 h (lru_order s)"
      "heap s1 = heap s" "hmMap s1 = hmMap s" "maxRunners s1 = maxRunners s" "spawned s1 = spawned s"
    using get_front_runner [OF wf inv lst] by metis
  let ?s2 = "upd_handler h (\<lambda>x. x\<lparr>h_runners := h_runners x + 1\<rparr>) s1"
  have wf2: "hms_wf ?s2" by (rule upd_handler_wf [OF wf1]) simp_all
  have l2: "listed ?s2 = listed s" by (simp add: s1(1))
  have hm2: "hmMap ?s2 name = Some hm" using s1(4) hm by simp
  define s3 where "s3 = put_manager name (hm_drop h e hm) ?s2"
  note hmwf2 = hms_wfD(2)[OF wf2 hm2]
  have wf3: "hms_wf s3"
    unfolding s3_def by (rule put_manager_wf [OF wf2 hm_wf_drop [OF hmwf2 hE]])
  have "set (contents (hm_handlers (hm_drop h e hm))) = set (contents (hm_handlers hm)) - {h}"
    using hm_drop_contents [OF hmwf hE] lm_contents_distinct [OF lm] by simp
  moreover have "set (contents (hm_handlers hm)) \<subseteq> listed s" using hm by (auto simp: listed_def)
  ultimately have l3: "listed s3 = listed s - {h}"
    using put_manager_listed [OF wf2 hm2 hm_wf_drop [OF hmwf2 hE]] l2 hin by (auto simp: s3_def)
  have room: "has_room (maxRunners s) (h_runners (heap s ! h))"
    using pool_invD(5)[OF inv, of h] lst hlen by simp
  then have full: "(maxRunners s \<noteq> 0 \<and> h_runners (heap s ! h) + 1 = maxRunners s) \<longleftrightarrow>
                   \<not> has_room (maxRunners s) (h_runners (heap s ! h) + 1)"
    by (auto simp: has_room_def)
  have g': "r = Ret h" "s' = (if \<not> has_room (maxRunners s) (h_runners (heap s ! h) + 1) then s3 else ?s2)"
    using g free hlen full by (auto simp: get_front_def Let_def h [symmetric] r1 s1(3,5) s3_def)
  then show "r = Ret h" "hms_wf s'" using wf2 wf3 by auto
  show "abs_pool s' = p_acquire h (abs_pool s)"
    using g'(2) l2 l3 hlen s1
    by (auto simp: abs_pool_def p_acquire_def s3_def fun_eq_iff nth_list_update_if lru_order_def)
  show "h_name (heap s' ! h) = name" "hmMap s' name \<noteq> None" "length (heap s') = length (heap s)"
    using g'(2) hname hm2 hlen s1 by (auto simp: s3_def)
qed

lemma get_code_sim:
  assumes wf: "hms_wf s" and hm: "hmMap s name \<noteq> None" and g: "get_code pull name h s = (r, s')"
  shows "hms_wf s'" and "abs_pool s' = abs_pool s" and "heap s' = heap s"
    and "r = Ret (Inr h) \<or> (\<exists>e. r = Ret (Inl e))" and "lru_order s' = lru_order s"
proof -
  obtain m where m: "hmMap s name = Some m" using hm by auto
  note same = put_manager_same [OF wf m]
  have "hms_wf s' \<and> abs_pool s' = abs_pool s \<and> heap s' = heap s \<and>
        (r = Ret (Inr h) \<or> (\<exists>e. r = Ret (Inl e))) \<and> lru_order s' = lru_order s"
    using g m wf by (auto simp: get_code_def same split: if_splits sum.splits)
  then show "hms_wf s'" "abs_pool s' = abs_pool s" "heap s' = heap s"
    "r = Ret (Inr h) \<or> (\<exists>e. r = Ret (Inl e))" "lru_order s' = lru_order s" by auto
qed

text \<open>
  \<open>Get\<close> as a whole: a call that returns has taken a new handler or a listed one, of the name that
  was asked for.
\<close>

lemma Get_sim:
  assumes wf: "hms_wf s" and inv: "pool_inv (abs_pool s)" and g: "Get pull name s = (Ret r, s')"
  obtains h where "hms_wf s'" and "r = Inr h \<or> (\<exists>e. r = Inl e)" and "h_name (heap s' ! h) = name"
    and "(h = length (heap s) \<and> abs_pool s' = p_new (abs_pool s) \<and>
          (\<forall>k \<in> listed s. h_name (heap s ! k) \<noteq> name)) \<or>
         (h \<in> listed s \<and> h_name (heap s ! h) = name \<and> abs_pool s' = p_acquire h (abs_pool s))"
proof -
  obtain hm s1 where m: "get_manager name s = (hm, s1)" by fastforce
  note M = get_manager_sim [OF wf m]
  have inv1: "pool_inv (abs_pool s1)" using inv M(3) by simp
  have free: "\<not> hms_locked s" "\<not> hm_locked hm"
    using g by (auto simp: Get_def m split: if_splits)
  have l1: "listed s1 = listed s" using M(3) by (metis abs_pool_simps(3))
  show thesis
  proof (cases "list_Front (hm_handlers hm)")
    case None
    obtain q s2 where f: "get_fresh name hm s1 = (q, s2)" by fastforce
    note F = get_fresh_sim [OF M(1,2) f]
    have "get_code pull name (length (heap s1)) s2 = (Ret r, s')"
      using g free None m f F(1) by (simp add: Get_def)
    note C = get_code_sim [OF F(2,5) this]
    have "contents (hm_handlers hm) = []"
      using None lm_front [OF hm_wfD(2)[OF hms_wfD(2)[OF M(1,2)]]]
        lm_lookup [OF hm_wfD(2)[OF hms_wfD(2)[OF M(1,2)]], of "hd (contents (hm_handlers hm))"]
      by (auto split: if_splits)
    then have none: "h_name (heap s ! k) \<noteq> name" if "k \<in> listed s" for k
      using listed_iff [OF M(1,2), of k] that l1 M(5) by auto
    show thesis
      using that [of "length (heap s)"] C F(3,4) M(3,5) none by auto
  next
    case (Some e)
    let ?h = "vals (hm_handlers hm) ! e"
    obtain q s2 where f: "get_front name hm e s1 = (q, s2)" by fastforce
    have hfree: "\<not> h_locked (heap s1 ! ?h)"
      using g free Some m by (auto simp: Get_def get_front_def Let_def split: if_splits)
    note F = get_front_sim [OF M(1) inv1 M(2) Some refl hfree f]
    have "get_code pull name ?h s2 = (Ret r, s')"
      using g free Some m f F(1) by (simp add: Get_def)
    note C = get_code_sim [OF F(3,6) this]
    show thesis
      using that [of ?h] C F(2,4,5,8) M(3,5) l1 by auto
  qed
qed

subsection \<open>RunFinish\<close>

text \<open>
  \<open>AddHandler\<close> lists the handler exactly when it comes back from being full; in a state that
  satisfies the pool invariant it is listed afterwards in any case.
\<close>

lemma AddHandler_sim:
  assumes wf: "hms_wf s" and h: "h < length (heap s)" and a: "AddHandler h s = (Ret (), s')"
    and full: "maxRunners s \<noteq> 0 \<Longrightarrow> h_runners (heap s ! h) = maxRunners s - 1 \<Longrightarrow> h \<notin> listed s"
  shows "hms_wf s'" and "heap s' = heap s" and "lru s' = lru s" and "maxRunners s' = maxRunners s"
    and "spawned s' = spawned s"
    and "listed s' = (if maxRunners s \<noteq> 0 \<and> h_runners (heap s ! h) = maxRunners s - 1
                      then insert h (listed s) else listed s)"
proof -
  let ?n = "h_name (heap s ! h)" and ?c = "maxRunners s \<noteq> 0 \<and> h_runners (heap s ! h) = maxRunners s - 1"
  obtain hm where hm: "hmMap s ?n = Some hm" using hms_wfD(3)[OF wf h] by blast
  have s': "s' = (if ?c then put_manager ?n (hm_push h hm) s else s)"
    using a hm by (auto simp: AddHandler_def split: if_splits)
  have new: "h \<notin> set (contents (hm_handlers hm))" if ?c
    using that full listed_iff [OF wf hm refl] by blast
  have push: "hm_wf (heap s) ?n (hm_push h hm)" if ?c
    by (rule hm_wf_push [OF hms_wfD(2)[OF wf hm] new [OF that] h refl])
  show "hms_wf s'" using s' put_manager_wf [OF wf push] wf by auto
  show "heap s' = heap s" "lru s' = lru s" "maxRunners s' = maxRunners s" "spawned s' = spawned s"
    using s' by simp_all
  have "set (contents (hm_handlers hm)) \<subseteq> listed s" using hm by (auto simp: listed_def)
  then show "listed s' = (if ?c then insert h (listed s) else listed s)"
    using s' put_manager_listed [OF wf hm push] hm_push_contents [OF hms_wfD(2)[OF wf hm] new]
    by auto
qed

lemma TryRemoveHandler_sim:
  assumes wf: "hms_wf s" and h: "h < length (heap s)" and a: "TryRemoveHandler h s = (Ret None, s')"
  shows "hms_wf s'" and "heap s' = heap s" and "lru s' = lru s" and "maxRunners s' = maxRunners s"
    and "spawned s' = spawned s" and "listed s' = listed s - {h}" and "h_runners (heap s ! h) \<le> 0"
proof -
  let ?n = "h_name (heap s ! h)"
  obtain hm where hm: "hmMap s ?n = Some hm" using hms_wfD(3)[OF wf h] by blast
  note hmwf = hms_wfD(2)[OF wf hm]
  note lm = hm_wfD(2)[OF hmwf]
  show "h_runners (heap s ! h) \<le> 0"
    using a hm by (auto simp: TryRemoveHandler_def split: if_splits)
  have s': "s' = (case hm_hElements hm h of None \<Rightarrow> s | Some e \<Rightarrow> put_manager ?n (hm_drop h e hm) s)"
    using a hm by (auto simp: TryRemoveHandler_def split: if_splits option.splits)
  have sub: "set (contents (hm_handlers hm)) \<subseteq> listed s" using hm by (auto simp: listed_def)
  have "hms_wf s' \<and> heap s' = heap s \<and> lru s' = lru s \<and> maxRunners s' = maxRunners s \<and>
        spawned s' = spawned s \<and> listed s' = listed s - {h}"
  proof (cases "hm_hElements hm h")
    case None
    then have "h \<notin> listed s" using lm_lookup [OF lm, of h] listed_iff [OF wf hm refl] by simp
    with None wf s' show ?thesis by simp
  next
    case (Some e)
    note d = hm_wf_drop [OF hmwf Some]
    have "h \<in> set (contents (hm_handlers hm))" using Some lm_lookup [OF lm, of h] by simp
    then have "listed s' = listed s - {h}"
      using put_manager_listed [OF wf hm d] hm_drop_contents [OF hmwf Some]
        lm_contents_distinct [OF lm] sub s' Some by auto
    then show ?thesis using s' Some put_manager_wf [OF wf d] by simp
  qed
  then show "hms_wf s'" "heap s' = heap s" "lru s' = lru s" "maxRunners s' = maxRunners s"
    "spawned s' = spawned s" "listed s' = listed s - {h}" by auto
qed

text \<open>The handler after its runner left and its sandbox was paused.\<close>

abbreviation rested :: "'c container \<Rightarrow> 'c handler \<Rightarrow> 'c handler" where
  "rested ops x \<equiv>
     x\<lparr>h_runners := h_runners x - 1, h_sandbox := map_option (\<lambda>c. snd (c_Pause ops c)) (h_sandbox x)\<rparr>"

lemma RunFinish_busy:
  assumes free: "\<not> h_locked (heap s ! h)" and h: "h < length (heap s)" and r: "h_runners (heap s ! h) \<noteq> 1"
    and f: "RunFinish ops rf1 rf2 now h s = (Ret (), s')"
  shows "AddHandler h (upd_handler h (\<lambda>x. x\<lparr>h_runners := h_runners x - 1\<rparr>) s) = (Ret (), s')"
  using assms
  by (auto simp: RunFinish_def RunFinish_locked_def Let_def split: prod.splits res.splits)

lemma RunFinish_last:
  assumes free: "\<not> h_locked (heap s ! h)" and h: "h < length (heap s)" and r: "h_runners (heap s ! h) = 1"
    and c: "h_sandbox (heap s ! h) = Some c"
    and f: "RunFinish ops rf1 rf2 now h s = (Ret (), s')"
  obtains u s3 b where "handlerUsage ops rf1 (rested ops (heap s ! h)) = Ret u" and "u \<le> soft_limit (lru s)"
      and "AddHandler h (upd_handler h (rested ops) s) = (Ret (), s3)"
      and "lru_Add ops rf2 now h s3 = (Ret b, s')"
  | u where "handlerUsage ops rf1 (rested ops (heap s ! h)) = Ret u" and "soft_limit (lru s) < u"
      and "RunFinish_remove h (upd_handler h (rested ops) s) = (Ret (), s')"
  using assms
  by (auto simp: RunFinish_def RunFinish_locked_def Let_def split: prod.splits res.splits if_splits)

lemma runner_was_full:
  assumes inv: "pool_inv (abs_pool s)" and h: "h < length (heap s)" "0 < h_runners (heap s ! h)"
  shows "(maxRunners s \<noteq> 0 \<and> h_runners (heap s ! h) - 1 = maxRunners s - 1) \<longleftrightarrow> h \<notin> listed s"
  using pool_invD(4-6)[OF inv, of h] h
  by (cases "maxRunners s = 0"; cases "h \<in> listed s") (force simp: has_room_def)+

lemma release_abs:
  assumes inv: "pool_inv (abs_pool s)" and h: "h < length (heap s)" "0 < h_runners (heap s ! h)"
    and len: "length (heap s') = length (heap s)" and mx: "maxRunners s' = maxRunners s"
    and sp: "spawned s' = spawned s"
    and run: "\<And>k. k < length (heap s) \<Longrightarrow>
                h_runners (heap s' ! k) = (if k = h then h_runners (heap s ! h) - 1 else h_runners (heap s ! k))"
    and lst: "listed s' = insert h (listed s)"
    and ord: "lru_order s' = (if h_runners (heap s ! h) = 1 then h # lru_order s else lru_order s)"
  shows "abs_pool s' = p_release h (abs_pool s)"
  using assms by (auto simp: abs_pool_def p_release_def fun_eq_iff)

lemma rested_wf:
  assumes "hms_wf s" and "h_sandbox (heap s ! h) \<noteq> None"
  shows "hms_wf (upd_handler h (rested ops) s)"
  by (rule upd_handler_wf [OF assms(1)]) (use assms(2) in auto)

text \<open>
  \<open>RunFinish\<close> without another request in between: the handler is released, or, if it was the
  last runner of a handler over the limit, given up.
\<close>

lemma RunFinish_release:
  assumes wf: "hms_wf s" and inv: "pool_inv (abs_pool s)" and h: "h < length (heap s)"
    and r: "h_runners (heap s ! h) = 1" and c: "h_sandbox (heap s ! h) \<noteq> None"
    and a: "AddHandler h (upd_handler h (rested ops) s) = (Ret (), s3)"
    and l: "lru_Add ops rf now h s3 = (Ret b, s')"
  shows "hms_wf s'" and "abs_pool s' = p_release h (abs_pool s)"
proof -
  let ?s2 = "upd_handler h (rested ops) s"
  note full = runner_was_full [OF inv h]
  have wf2: "hms_wf ?s2" by (rule rested_wf [OF wf c])
  have A': "h < length (heap ?s2)" "maxRunners ?s2 \<noteq> 0 \<Longrightarrow>
      h_runners (heap ?s2 ! h) = maxRunners ?s2 - 1 \<Longrightarrow> h \<notin> listed ?s2"
    using full h r by auto
  note AH = AddHandler_sim [OF wf2 A'(1) a A'(2)]
  have A: "hms_wf s3" "heap s3 = heap ?s2" "lru s3 = lru s" "maxRunners s3 = maxRunners s"
      "spawned s3 = spawned s"
    using AH(1-5) by simp_all
  have A6: "listed s3 = insert h (listed s)"
    using AH(6) full h r by auto
  have o3: "lru_order s3 = lru_order s" using A(3) by (simp add: lru_order_def)
  have new: "h \<notin> set (lru_order s3)" using pool_invD(8)[OF inv, of h] h r o3 by simp
  obtain u where u: "handlerUsage ops rf (heap s3 ! h) = Ret u"
    using l by (auto simp: lru_Add_def Let_def split: prod.splits if_splits res.splits)
  obtain s4 where L: "lru_order s4 = h # lru_order s3" "lru_ok s4"
      "heap s4 = (heap s3)[h := (heap s3 ! h)\<lparr>h_usage := u\<rparr>]" "only_lru (s3\<lparr>heap := heap s4\<rparr>) s4"
    and s4: "s4 = s'"
    using lru_Add_effect [OF hms_wfD(1)[OF A(1)] new _ u, of now] h l A(2) by force
  note same = only_lruD [OF L(4)]
  have names: "h_name (heap s4 ! k) = h_name (heap s3 ! k)"
    and boxes: "h_sandbox (heap s4 ! k) = h_sandbox (heap s3 ! k)" for k
    using h A(2) by (auto simp: L(3) nth_list_update_if)
  have "hm_wf (heap s4) n m" if "hmMap s3 n = Some m" for n m
    by (rule hm_wf_heap [OF hms_wfD(2)[OF A(1) that]]) (simp_all add: L(3), simp add: names [unfolded L(3)])
  note hms4 = this
  have len: "length (heap s4) = length (heap s3)" "h < length (heap s3)" using L(3) A(2) h by simp_all
  have box: "h_sandbox (heap s3 ! h) \<noteq> None" using A(2) c h by simp
  show "hms_wf s'"
    unfolding s4 [symmetric]
  proof (rule hms_wfI [OF L(2)])
    show "hm_wf (heap s4) n m" if "hmMap s4 n = Some m" for n m
      using that hms4 same(1) by simp
    show "hmMap s4 (h_name (heap s4 ! k)) \<noteq> None" if "k < length (heap s4)" for k
      using that hms_wfD(3)[OF A(1), of k] same(1) by (auto simp: names len)
    show "k < length (heap s4) \<and> h_sandbox (heap s4 ! k) \<noteq> None"
      if "k \<in> set (lru_order s4) \<union> set (spawned s4)" for k
      using that hms_wfD(4)[OF A(1), of k] box same(4) by (auto simp: L(1) boxes len)
  qed
  show "abs_pool s' = p_release h (abs_pool s)"
  proof (rule release_abs [OF inv h])
    show "0 < h_runners (heap s ! h)" using r by simp
    show "listed s' = insert h (listed s)"
      using A6 listed_cong [of s4 s3] same(1) s4 by simp
    show "lru_order s' = (if h_runners (heap s ! h) = 1 then h # lru_order s else lru_order s)"
      using L(1) o3 r s4 by simp
    show "length (heap s') = length (heap s)" "maxRunners s' = maxRunners s" "spawned s' = spawned s"
      using same A L(3) s4 by auto
    show "h_runners (heap s' ! k) =
            (if k = h then h_runners (heap s ! h) - 1 else h_runners (heap s ! k))" for k
      using L(3) A(2) h s4 by (auto simp: nth_list_update_if)
  qed
qed

lemma RunFinish_discard:
  assumes wf: "hms_wf s" and inv: "pool_inv (abs_pool s)" and h: "h < length (heap s)"
    and r: "h_runners (heap s ! h) = 1" and c: "h_sandbox (heap s ! h) \<noteq> None"
    and f: "RunFinish_remove h (upd_handler h (rested ops) s) = (Ret (), s')"
  shows "hms_wf s'" and "abs_pool s' = p_discard h (abs_pool s)"
proof -
  let ?s2 = "upd_handler h (rested ops) s"
  have wf2: "hms_wf ?s2" by (rule rested_wf [OF wf c])
  have "0 = h_runners (heap ?s2 ! h)" using r h by simp
  then obtain s3 where t: "TryRemoveHandler h ?s2 = (Ret None, s3)" and s': "s' = s3\<lparr>spawned := h # spawned s3\<rparr>"
    using f by (auto simp: RunFinish_remove_def TryRemoveHandler_def
        split: prod.splits res.splits option.splits if_splits)
  have T: "hms_wf s3" "heap s3 = heap ?s2" "lru s3 = lru s" "maxRunners s3 = maxRunners s"
      "spawned s3 = spawned s" "listed s3 = listed s - {h}"
    using TryRemoveHandler_sim [OF wf2 _ t] h by auto
  have eq: "lru_order s' = lru_order s" "listed s' = listed s - {h}" "heap s' = heap ?s2"
    using T listed_cong [of s' s3] by (auto simp: s' lru_order_def)
  have "h_sandbox (heap s3 ! h) \<noteq> None" using T(2) c h by simp
  then show "hms_wf s'"
    using T(1) h T(2) unfolding hms_wf_def s' by (auto simp: lru_ok_def lru_order_def)
  show "abs_pool s' = p_discard h (abs_pool s)"
    using eq T(4,5) h r by (auto simp: abs_pool_def p_discard_def fun_eq_iff s' nth_list_update_if)
qed

lemma RunFinish_sim:
  assumes wf: "hms_wf s" and inv: "pool_inv (abs_pool s)" and h: "h < length (heap s)"
    and r: "0 < h_runners (heap s ! h)" and c: "h_sandbox (heap s ! h) \<noteq> None"
    and f: "RunFinish ops rf1 rf2 now h s = (Ret (), s')"
  shows "hms_wf s'"
    and "abs_pool s' = p_release h (abs_pool s) \<or>
         h_runners (heap s ! h) = 1 \<and> abs_pool s' = p_discard h (abs_pool s)"
proof -
  have free: "\<not> h_locked (heap s ! h)"
    using f by (auto simp: RunFinish_def RunFinish_locked_def Let_def split: if_splits)
  have "hms_wf s' \<and> (abs_pool s' = p_release h (abs_pool s) \<or>
         h_runners (heap s ! h) = 1 \<and> abs_pool s' = p_discard h (abs_pool s))"
  proof (cases "h_runners (heap s ! h) = 1")
    case True
    obtain cc where cc: "h_sandbox (heap s ! h) = Some cc" using c by auto
    show ?thesis
      by (rule RunFinish_last [OF free h True cc f])
         (use RunFinish_release [OF wf inv h True c] RunFinish_discard [OF wf inv h True c] True in blast)+
  next
    case False
    let ?s1 = "upd_handler h (\<lambda>x. x\<lparr>h_runners := h_runners x - 1\<rparr>) s"
    have wf1: "hms_wf ?s1" by (rule upd_handler_wf [OF wf]) simp_all
    have "AddHandler h ?s1 = (Ret (), s')" by (rule RunFinish_busy [OF free h False f])
    note a = this
    have A': "h < length (heap ?s1)" "maxRunners ?s1 \<noteq> 0 \<Longrightarrow>
        h_runners (heap ?s1 ! h) = maxRunners ?s1 - 1 \<Longrightarrow> h \<notin> listed ?s1"
      using runner_was_full [OF inv h r] h by auto
    note A = AddHandler_sim [OF wf1 A'(1) a A'(2)]
    have hp: "heap s' = heap ?s1"
      and rest: "lru s' = lru s" "maxRunners s' = maxRunners s" "spawned s' = spawned s" "hms_wf s'"
      using A(1-5) by simp_all
    have lst: "listed s' = insert h (listed s)"
      using A(6) runner_was_full [OF inv h r] h by auto
    have "abs_pool s' = p_release h (abs_pool s)"
      by (rule release_abs [OF inv h r])
         (use rest lst hp h False in \<open>auto simp: nth_list_update_if lru_order_def\<close>)
    with rest(4) show ?thesis by blast
  qed
  then show "hms_wf s'" "abs_pool s' = p_release h (abs_pool s) \<or>
      h_runners (heap s ! h) = 1 \<and> abs_pool s' = p_discard h (abs_pool s)" by auto
qed

end
