(* ===== verification/CgroupFactory.thy ===== *)
theory CgroupFactory
  imports GoList GoStrings "HOL-Library.AList" "HOL-Library.Multiset"
begin

text \<open>
  The pool of cgroups (\<open>worker/sandbox/cgroupFactory.go\<close>).  A container takes a cgroup from the
  front of the free list, or makes one under its own id when the list is empty or absent, and gives
  it back by comparing the two ids.  The system calls \<open>MkdirAll\<close> and \<open>Remove\<close> are arguments that
  answer per path.
\<close>

record cgroupFactory =
  poolSize :: int
  freeCg :: "string golist option"

definition CGroupList :: "string list" where
  "CGroupList = [''blkio'', ''cpu'', ''devices'', ''freezer'', ''hugetlb'', ''memory'', ''perf_event'', ''systemd'']"

definition OLCGroupName :: string where
  "OLCGroupName = ''openlambda''"

text \<open>\<open>CreateCg\<close> and \<open>DestroyCg\<close> stop at the first error.\<close>

fun first_error :: "(string \<Rightarrow> goerror) \<Rightarrow> string list \<Rightarrow> goerror" where
  "first_error act [] = None"
| "first_error act (p # ps) = (case act p of Some e \<Rightarrow> Some e | None \<Rightarrow> first_error act ps)"

definition cg_paths :: "string \<Rightarrow> string list" where
  "cg_paths cgId = map (\<lambda>cg. path_Join [''/sys/fs/cgroup/'', cg, OLCGroupName, cgId]) CGroupList"

definition CreateCg :: "(string \<Rightarrow> goerror) \<Rightarrow> string \<Rightarrow> goerror" where
  "CreateCg mkdirAll cgId = first_error mkdirAll (cg_paths cgId)"

definition DestroyCg :: "(string \<Rightarrow> goerror) \<Rightarrow> string \<Rightarrow> goerror" where
  "DestroyCg remove cgId = first_error remove (cg_paths cgId)"

definition pool_id :: "string \<Rightarrow> nat \<Rightarrow> string" where
  "pool_id pre i = pre @ ''-'' @ strconv_Itoa (int i)"

fun init_pool :: "(string \<Rightarrow> goerror) \<Rightarrow> string \<Rightarrow> nat list \<Rightarrow> string golist \<Rightarrow> string + string golist" where
  "init_pool mkdirAll pre [] l = Inr l"
| "init_pool mkdirAll pre (i # is) l =
     (case CreateCg mkdirAll (pool_id pre i) of
        Some e \<Rightarrow> Inl e
      | None \<Rightarrow> init_pool mkdirAll pre is (snd (list_PushBack (pool_id pre i) l)))"

definition NewCgroupFactory :: "(string \<Rightarrow> goerror) \<Rightarrow> string \<Rightarrow> int \<Rightarrow> string + cgroupFactory" where
  "NewCgroupFactory mkdirAll pre npool =
     (if npool \<noteq> 0
      then (case init_pool mkdirAll pre [1..<Suc (nat npool)] list_New of
              Inl e \<Rightarrow> Inl e
            | Inr l \<Rightarrow> Inr \<lparr>poolSize = npool, freeCg = Some l\<rparr>)
      else Inr \<lparr>poolSize = npool, freeCg = None\<rparr>)"

definition GetCg :: "(string \<Rightarrow> goerror) \<Rightarrow> string \<Rightarrow> cgroupFactory \<Rightarrow> (string \<times> goerror) \<times> cgroupFactory" where
  "GetCg mkdirAll cid cgf =
     (let (cgId, cgf1) =
        (case freeCg cgf of
           None \<Rightarrow> ([], cgf)
         | Some l \<Rightarrow>
             (case list_Front l of
                None \<Rightarrow> ([], cgf)
              | Some e \<Rightarrow> (vals l ! e, cgf\<lparr>freeCg := Some (snd (list_Remove e l))\<rparr>)))
      in if cgId = [] then ((cid, CreateCg mkdirAll cid), cgf1) else ((cgId, None), cgf1))"

definition PutCg :: "(string \<Rightarrow> goerror) \<Rightarrow> string \<Rightarrow> string \<Rightarrow> cgroupFactory \<Rightarrow> (cgroupFactory, goerror) outcome" where
  "PutCg remove cid cgId cgf =
     (if cid = cgId then (Ret (DestroyCg remove cgId), cgf)
      else
        (case freeCg cgf of
           None \<Rightarrow> (nil_deref, cgf)
         | Some l \<Rightarrow> (Ret None, cgf\<lparr>freeCg := Some (snd (list_PushBack cgId l))\<rparr>)))"

subsection \<open>The pool is conserved\<close>

definition free_cgs :: "cgroupFactory \<Rightarrow> string list" where
  "free_cgs cgf = (case freeCg cgf of None \<Rightarrow> [] | Some l \<Rightarrow> contents l)"

definition cgf_ok :: "cgroupFactory \<Rightarrow> bool" where
  "cgf_ok cgf \<longleftrightarrow> (case freeCg cgf of None \<Rightarrow> True | Some l \<Rightarrow> golist_ok l) \<and> [] \<notin> set (free_cgs cgf)"

lemma contents_front_remove:
  assumes ok: "golist_ok l" and ne: "elems l = e # es"
  shows "contents (snd (list_Remove e l)) = tl (contents l)" and "hd (contents l) = vals l ! e"
  using assms by (auto simp: contents_def list_Remove_def golist_ok_def)

lemma GetCg_pool:
  assumes ok: "cgf_ok cgf" and ne: "free_cgs cgf \<noteq> []"
  shows "fst (GetCg mk cid cgf) = (hd (free_cgs cgf), None)"
    and "free_cgs (snd (GetCg mk cid cgf)) = tl (free_cgs cgf)"
    and "cgf_ok (snd (GetCg mk cid cgf))"
proof -
  obtain l where l: "freeCg cgf = Some l" "golist_ok l" "contents l \<noteq> []" "[] \<notin> set (contents l)"
    using ok ne by (auto simp: cgf_ok_def free_cgs_def split: option.splits)
  then obtain e es where e: "elems l = e # es" by (cases "elems l") (auto simp: contents_def)
  note R = contents_front_remove [OF l(2) e]
  have v: "vals l ! e \<noteq> []" using R(2) l(3,4) by (metis hd_in_set)
  have tl: "[] \<notin> set (tl (contents l))" using l(4) by (metis list.set_sel(2) tl_Nil)
  show "fst (GetCg mk cid cgf) = (hd (free_cgs cgf), None)"
    "free_cgs (snd (GetCg mk cid cgf)) = tl (free_cgs cgf)" "cgf_ok (snd (GetCg mk cid cgf))"
    using l e R v tl golist_ok_Remove [OF l(2), of e]
    by (simp_all add: GetCg_def Let_def list_Front_def free_cgs_def cgf_ok_def)
qed

lemma GetCg_empty:
  assumes "free_cgs cgf = []"
  shows "GetCg mk cid cgf = ((cid, CreateCg mk cid), cgf)"
proof -
  have "list_Front l = None" if "freeCg cgf = Some l" for l
    using assms that by (cases "elems l") (auto simp: free_cgs_def contents_def list_Front_def)
  then show ?thesis by (auto simp: GetCg_def Let_def split: option.splits)
qed

lemma PutCg_pool:
  assumes "cgf_ok cgf" and "freeCg cgf \<noteq> None" and "cid \<noteq> cgId" and "cgId \<noteq> []"
  shows "fst (PutCg rm cid cgId cgf) = Ret None"
    and "free_cgs (snd (PutCg rm cid cgId cgf)) = free_cgs cgf @ [cgId]"
    and "cgf_ok (snd (PutCg rm cid cgId cgf))"
  using assms by (auto simp: PutCg_def free_cgs_def cgf_ok_def split: option.splits)

text \<open>
  Container ids are decimal numbers, pool ids contain a hyphen after a prefix that starts with a
  letter, so the comparison in \<open>PutCg\<close> tells them apart.
\<close>

lemma pool_id_not_number:
  assumes "c \<in> set pre" and "digit_val c = None" and "c \<noteq> CHR ''-''"
  shows "pool_id pre i \<noteq> strconv_Itoa j"
proof
  assume "pool_id pre i = strconv_Itoa j"
  then have "c \<in> set (strconv_Itoa j)" using assms(1) by (simp flip: \<open>pool_id pre i = strconv_Itoa j\<close> add: pool_id_def)
  then show False
    using nat_digits_digit [of c] assms(2,3) by (auto simp: strconv_Itoa_def split: if_splits)
qed

lemma pool_id_inj: "int i < 9223372036854775808 \<Longrightarrow> int j < 9223372036854775808 \<Longrightarrow> pool_id pre i = pool_id pre j \<Longrightarrow> i = j"
  using strconv_Itoa_inj [of "int i" "int j"] by (auto simp: pool_id_def in_int64_def)

lemma init_pool_contents:
  "init_pool mk pre is l = Inr l' \<Longrightarrow> golist_ok l \<Longrightarrow>
   golist_ok l' \<and> contents l' = contents l @ map (pool_id pre) is"
  by (induction "is" arbitrary: l) (auto split: option.splits)

lemma pool_id_nonempty [simp]: "pool_id pre i \<noteq> []" "[] \<noteq> pool_id pre i"
  by (simp_all add: pool_id_def)

lemma NewCgroupFactory_pool:
  assumes "NewCgroupFactory mk pre npool = Inr cgf" and "0 \<le> npool"
  shows "cgf_ok cgf" and "free_cgs cgf = map (pool_id pre) [1..<Suc (nat npool)]"
    and "freeCg cgf = None \<longleftrightarrow> npool = 0"
  using assms init_pool_contents [of mk pre "[1..<Suc (nat npool)]" list_New]
  by (auto simp: NewCgroupFactory_def cgf_ok_def free_cgs_def simp del: upt_Suc split: if_splits sum.splits)

text \<open>
  A history of takings and givings back: the cgroups from the pool that are in use, and those that
  are free, together are always the initial pool.  \<open>used\<close> lists the containers with their cgroups.
\<close>

datatype cg_op = CgTake string | CgGive string

fun cg_step :: "cg_op \<Rightarrow> cgroupFactory \<times> (string \<times> string) list \<Rightarrow> cgroupFactory \<times> (string \<times> string) list" where
  "cg_step (CgTake cid) (cgf, used) =
     (let r = GetCg (\<lambda>_. None) cid cgf in (snd r, (cid, fst (fst r)) # used))"
| "cg_step (CgGive cid) (cgf, used) =
     (case map_of used cid of
        None \<Rightarrow> (cgf, used)
      | Some cg \<Rightarrow> (snd (PutCg (\<lambda>_. None) cid cg cgf), AList.delete cid used))"

definition pooled :: "(string \<times> string) list \<Rightarrow> string list" where
  "pooled used = map snd (filter (\<lambda>(cid, cg). cg \<noteq> cid) used)"

definition cg_inv :: "string list \<Rightarrow> cgroupFactory \<times> (string \<times> string) list \<Rightarrow> bool" where
  "cg_inv P st \<longleftrightarrow>
     (case st of (cgf, used) \<Rightarrow>
        cgf_ok cgf \<and> freeCg cgf \<noteq> None \<and> [] \<notin> set P \<and>
        distinct (map fst used) \<and> fst ` set used \<inter> set P = {} \<and>
        mset (free_cgs cgf) + mset (pooled used) = mset P)"

text \<open>A container that is taken on has an id no container in use and no pool cgroup has.\<close>

fun cg_fresh :: "string list \<Rightarrow> cg_op \<Rightarrow> cgroupFactory \<times> (string \<times> string) list \<Rightarrow> bool" where
  "cg_fresh P (CgTake cid) (cgf, used) = (cid \<notin> set P \<and> cid \<notin> fst ` set used)"
| "cg_fresh P (CgGive cid) (cgf, used) = True"

lemma pooled_delete:
  assumes "distinct (map fst used)" and "map_of used cid = Some cg"
  shows "mset (pooled used) = mset (pooled (AList.delete cid used)) + (if cg = cid then {#} else {#cg#})"
  using assms
proof (induction used)
  case (Cons x xs)
  then show ?case
    by (cases x) (auto simp: pooled_def split: if_splits)
qed simp

lemma cg_step_inv:
  assumes inv: "cg_inv P (cgf, used)" and fresh: "cg_fresh P op (cgf, used)"
  shows "cg_inv P (cg_step op (cgf, used))"
proof (cases op)
  case (CgTake cid)
  show ?thesis
  proof (cases "free_cgs cgf = []")
    case True
    with inv fresh CgTake show ?thesis
      by (simp add: cg_inv_def GetCg_empty pooled_def)
  next
    case False
    have ok: "cgf_ok cgf" using inv by (simp add: cg_inv_def)
    note G = GetCg_pool [OF ok False, of "\<lambda>_. None" cid]
    have some: "freeCg (snd (GetCg (\<lambda>_. None) cid cgf)) \<noteq> None"
      using inv by (auto simp: cg_inv_def GetCg_def Let_def split: option.splits prod.splits)
    have eq: "mset (free_cgs cgf) + mset (pooled used) = mset P" using inv by (simp add: cg_inv_def)
    have "hd (free_cgs cgf) \<in># mset P"
      using False unfolding eq [symmetric] by simp
    then have ne: "hd (free_cgs cgf) \<noteq> cid" using fresh CgTake by auto
    have "mset (free_cgs cgf) = {#hd (free_cgs cgf)#} + mset (tl (free_cgs cgf))"
      using False by (cases "free_cgs cgf") auto
    with inv fresh CgTake G some ne show ?thesis
      by (simp add: cg_inv_def pooled_def Let_def)
  qed
next
  case (CgGive cid)
  show ?thesis
  proof (cases "map_of used cid")
    case None
    with inv CgGive show ?thesis by simp
  next
    case (Some cg)
    have d: "distinct (map fst (AList.delete cid used))" "fst ` set (AList.delete cid used) \<inter> set P = {}"
      using inv AList.dom_delete_subset [of cid used] by (auto simp: cg_inv_def AList.distinct_delete)
    have del: "mset (pooled used) = mset (pooled (AList.delete cid used)) + (if cg = cid then {#} else {#cg#})"
      using pooled_delete [OF _ Some] inv by (simp add: cg_inv_def)
    show ?thesis
    proof (cases "cg = cid")
      case True
      with inv d del CgGive Some show ?thesis by (simp add: cg_inv_def PutCg_def)
    next
      case False
      have eq: "mset (free_cgs cgf) + mset (pooled used) = mset P" using inv by (simp add: cg_inv_def)
      have "cg \<in># mset P" unfolding eq [symmetric] del using False by simp
      then have "cg \<noteq> []" using inv by (auto simp: cg_inv_def)
      note Q = PutCg_pool [of cgf cid cg "\<lambda>_. None"]
      have "freeCg (snd (PutCg (\<lambda>_. None) cid cg cgf)) \<noteq> None"
        using inv False by (auto simp: cg_inv_def PutCg_def split: option.splits)
      with inv d del CgGive Some False \<open>cg \<noteq> []\<close> Q show ?thesis by (simp add: cg_inv_def)
    qed
  qed
qed

fun cg_run :: "cg_op list \<Rightarrow> cgroupFactory \<times> (string \<times> string) list \<Rightarrow> cgroupFactory \<times> (string \<times> string) list" where
  "cg_run [] st = st"
| "cg_run (op # ops) st = cg_run ops (cg_step op st)"

fun cg_all_fresh :: "string list \<Rightarrow> cg_op list \<Rightarrow> cgroupFactory \<times> (string \<times> string) list \<Rightarrow> bool" where
  "cg_all_fresh P [] st = True"
| "cg_all_fresh P (op # ops) st = (cg_fresh P op st \<and> cg_all_fresh P ops (cg_step op st))"

lemma cg_run_inv: "cg_inv P st \<Longrightarrow> cg_all_fresh P ops st \<Longrightarrow> cg_inv P (cg_run ops st)"
proof (induction ops arbitrary: st)
  case (Cons op ops)
  then show ?case using cg_step_inv [of P "fst st" "snd st" op] by simp
qed simp

text \<open>
  C29.  Over every history of containers that come and go, with ids that no container in use and no
  pool cgroup has, the cgroups of the pool are neither lost nor handed out twice: those that are free
  and those in use are together the initial pool, each once.
\<close>

theorem cgroup_pool_conserved:
  assumes "NewCgroupFactory mk pre npool = Inr cgf" and "0 < npool" and "npool < 9223372036854775808"
    and "cg_all_fresh (map (pool_id pre) [1..<Suc (nat npool)]) ops (cgf, [])"
    and "cg_run ops (cgf, []) = (cgf', used)"
  shows "mset (free_cgs cgf') + mset (pooled used) = mset (map (pool_id pre) [1..<Suc (nat npool)]) \<and>
         distinct (free_cgs cgf' @ pooled used)"
proof -
  let ?P = "map (pool_id pre) [1..<Suc (nat npool)]"
  have n: "0 \<le> npool" "npool \<noteq> 0" using assms(2) by simp_all
  note N = NewCgroupFactory_pool [OF assms(1) n(1)]
  have "[] \<notin> set ?P" by (auto simp del: upt_Suc)
  then have "cg_inv ?P (cgf, [])"
    using N n(2) by (simp add: cg_inv_def pooled_def del: upt_Suc)
  from cg_run_inv [OF this assms(4)] have eq: "mset (free_cgs cgf' @ pooled used) = mset ?P"
    unfolding assms(5) cg_inv_def by simp
  have "inj_on (pool_id pre) (set [1..<Suc (nat npool)])"
    by (rule inj_onI, rule pool_id_inj [of _ _ pre]) (use assms(3) in auto)
  then have "distinct ?P" by (simp add: distinct_map del: upt_Suc)
  then have "distinct (free_cgs cgf' @ pooled used)"
    using mset_eq_imp_distinct_iff [OF eq] by blast
  with eq show ?thesis by simp
qed

theorem cgroup_pool_conserved_witness:
  "\<exists>cgf used. cg_run [CgTake ''0'', CgTake ''1'', CgTake ''2'', CgGive ''0''] (projr (NewCgroupFactory (\<lambda>_. None) ''h'' 2), []) = (cgf, used) \<and>
     distinct (free_cgs cgf @ pooled used)"
proof -
  have "case NewCgroupFactory (\<lambda>_. None) ''h'' 2 of Inl _ \<Rightarrow> False | Inr _ \<Rightarrow> True" by code_simp
  then have e: "NewCgroupFactory (\<lambda>_. None) ''h'' 2 = Inr (projr (NewCgroupFactory (\<lambda>_. None) ''h'' 2))"
    by (simp split: sum.splits)
  have f: "cg_all_fresh (map (pool_id ''h'') [1..<Suc (nat 2)]) [CgTake ''0'', CgTake ''1'', CgTake ''2'', CgGive ''0'']
      (projr (NewCgroupFactory (\<lambda>_. None) ''h'' 2), [])" by code_simp
  obtain cgf used where r: "cg_run [CgTake ''0'', CgTake ''1'', CgTake ''2'', CgGive ''0'']
      (projr (NewCgroupFactory (\<lambda>_. None) ''h'' 2), []) = (cgf, used)" by fastforce
  from cgroup_pool_conserved [OF e _ _ f r] show ?thesis using r by simp
qed

end
