(* ===== verification/SockContainer.thy ===== *)
theory SockContainer
  imports CgroupFactory HandlerState
begin

text \<open>
  The SOCK container (\<open>worker/sandbox/sock.go\<close>) and the factory that makes them
  (\<open>worker/sandbox/sockFactory.go\<close>).  The operating system answers through \<open>sock_os\<close>: file
  reads and writes, the start of \<open>sock-init\<close>, what the pipes deliver before their time-outs, the
  mounts, the processes.
\<close>

record sockContainer =
  sc_id :: string
  sc_cgId :: string
  sc_rootDir :: string
  sc_hostDir :: string
  sc_status :: HandlerState
  sc_initPid :: string
  sc_unshareFlags :: string
  sc_startCmd :: "string list"

text \<open>
  \<open>os_initMsg\<close> is the five-byte message of \<open>sock-init\<close>, \<open>None\<close> if none came within 5 seconds;
  \<open>os_serverMsg\<close> the same for \<open>RunServer\<close>, where a read can also fail; \<open>os_timeo\<close> the answer to
  writing \<open>timeo\<close>; \<open>os_selfFreezing\<close> the successive reads of \<open>freezer.self_freezing\<close> before
  \<open>waitForUnpause\<close> times out.
\<close>

record sock_os =
  os_writeFile :: "string \<Rightarrow> string \<Rightarrow> goerror"
  os_readFile :: "string \<Rightarrow> string + string"
  os_openPipe :: "string \<Rightarrow> goerror"
  os_startInit :: "string list \<Rightarrow> goerror"
  os_initMsg :: "string option"
  os_serverMsg :: "(string + string) option"
  os_timeo :: "string + int"
  os_selfFreezing :: "(string + string) list"
  os_findProcess :: "int \<Rightarrow> goerror"
  os_signal :: "int \<Rightarrow> string \<Rightarrow> goerror"
  os_mkdir :: "string \<Rightarrow> goerror"
  os_mkdirAll :: "string \<Rightarrow> goerror"
  os_mkfifo :: "string \<Rightarrow> goerror"
  os_mount :: "string \<Rightarrow> string \<Rightarrow> string \<Rightarrow> goerror"
  os_remove :: "string \<Rightarrow> goerror"

definition freezer_path :: "sockContainer \<Rightarrow> string \<Rightarrow> string" where
  "freezer_path c file = path_Join [''/sys/fs/cgroup/freezer'', OLCGroupName, sc_cgId c, file]"

subsection \<open>Creation\<close>

definition NewSOCKContainer ::
  "sock_os \<Rightarrow> string \<Rightarrow> string \<Rightarrow> string \<Rightarrow> string list \<Rightarrow> cgroupFactory \<Rightarrow>
   (string + sockContainer) \<times> cgroupFactory" where
  "NewSOCKContainer os rootDir cid unshareFlags startCmd cgf =
     (case GetCg (os_mkdirAll os) cid cgf of
        ((cgId, Some e), cgf1) \<Rightarrow> (Inl e, cgf1)
      | ((cgId, None), cgf1) \<Rightarrow>
          (Inr \<lparr>sc_id = cid, sc_cgId = cgId, sc_rootDir = rootDir, sc_hostDir = [], sc_status = Stopped,
                sc_initPid = [], sc_unshareFlags = unshareFlags, sc_startCmd = startCmd\<rparr>, cgf1))"

definition sock_State :: "sockContainer \<Rightarrow> string + HandlerState" where
  "sock_State c = Inr (sc_status c)"

text \<open>A Unix socket path holds at most 108 bytes.\<close>

definition sock_Channel :: "sockContainer \<Rightarrow> string + string" where
  "sock_Channel c =
     (if sc_hostDir c = [] then Inl ''cannot call channel before calling mountDirs''
      else if 108 < length (path_Join [sc_hostDir c, ''ol.sock''])
      then Inl ''socket path length cannot exceed 108 characters (try moving cluster closer to the root directory''
      else Inr ''http://container/'')"

subsection \<open>Life cycle\<close>

definition timeo_error :: "sock_os \<Rightarrow> string" where
  "timeo_error os =
     (case os_timeo os of
        Inl e \<Rightarrow> e
      | Inr n \<Rightarrow> if n \<noteq> 5 then ''Cannot write `timeo` to pipe'' else ''sock_init failed to spawn after 5s'')"

definition CGroupEnter :: "sock_os \<Rightarrow> sockContainer \<Rightarrow> string \<Rightarrow> goerror" where
  "CGroupEnter os c pid =
     (if pid = [] then Some ''empty pid passed to cgroupenter''
      else first_error (\<lambda>p. os_writeFile os p pid)
             (map (\<lambda>cg. path_Join [''/sys/fs/cgroup/'', cg, OLCGroupName, sc_cgId c, ''tasks'']) CGroupList))"

definition sock_Start :: "sock_os \<Rightarrow> sockContainer \<Rightarrow> (sockContainer, goerror) outcome" where
  "sock_Start os c =
     (case os_openPipe os (path_Join [sc_hostDir c, ''init_pipe'']) of
        Some e \<Rightarrow> (Exit ''Cannot open pipe'', c)
      | None \<Rightarrow>
          (case os_startInit os ([sc_unshareFlags c, sc_rootDir c] @ sc_startCmd c) of
             Some e \<Rightarrow> (Ret (Some e), c)
           | None \<Rightarrow>
               (case os_initMsg os of
                  None \<Rightarrow> (Ret (Some (timeo_error os)), c)
                | Some msg \<Rightarrow>
                    let c1 = c\<lparr>sc_initPid := takeWhile (\<lambda>b. b \<noteq> CHR 0x00) msg\<rparr> in
                    (case CGroupEnter os c1 (sc_initPid c1) of
                       Some e \<Rightarrow> (Ret (Some e), c1)
                     | None \<Rightarrow> (Ret None, c1\<lparr>sc_status := Running\<rparr>)))))"

text \<open>
  \<open>Stop\<close>: the init process of a PID namespace is signalled, otherwise every process of the
  memory cgroup is killed.  Failures to kill are only logged, so they leave no trace here.
\<close>

definition sock_Stop :: "sock_os \<Rightarrow> sockContainer \<Rightarrow> goerror \<times> sockContainer" where
  "sock_Stop os c =
     (if strings_Contains (sc_unshareFlags c) ''p''
      then
        (let pid = (case strconv_Atoi (sc_initPid c) of None \<Rightarrow> 0 | Some n \<Rightarrow> n) in
         case os_findProcess os pid of
           Some e \<Rightarrow> (Some (''failed to find init process with pid='' @ strconv_Itoa pid @ '' :: '' @ e), c)
         | None \<Rightarrow> (None, c\<lparr>sc_status := Stopped\<rparr>))
      else
        (case os_readFile os (path_Join [''/sys/fs/cgroup/memory'', OLCGroupName, sc_cgId c, ''cgroup.procs'']) of
           Inl e \<Rightarrow> (Some e, c)
         | Inr pids \<Rightarrow> (None, c\<lparr>sc_status := Stopped\<rparr>)))"

text \<open>The processes \<open>Stop\<close> kills in a cgroup without PID namespace: up to the first empty line.\<close>

definition stop_pids :: "string \<Rightarrow> string list" where
  "stop_pids pids = takeWhile (\<lambda>p. p \<noteq> []) (strings_Split (CHR 0x0A) (strings_TrimSpace pids))"

definition sock_Pause :: "sock_os \<Rightarrow> sockContainer \<Rightarrow> goerror \<times> sockContainer" where
  "sock_Pause os c =
     (case os_writeFile os (freezer_path c ''freezer.state'') ''FROZEN'' of
        Some e \<Rightarrow> (Some e, c)
      | None \<Rightarrow> (None, c\<lparr>sc_status := Paused\<rparr>))"

fun waitForUnpause :: "(string + string) list \<Rightarrow> sockContainer \<Rightarrow> goerror \<times> sockContainer" where
  "waitForUnpause [] c = (Some ''sock didn't unpause after 5s'', c)"
| "waitForUnpause (r # rs) c =
     (case r of
        Inl e \<Rightarrow> (Some (''failed to check self_freezing state :: '' @ e), c)
      | Inr st \<Rightarrow>
          if strings_TrimSpace st = ''0'' then (None, c\<lparr>sc_status := Running\<rparr>)
          else waitForUnpause rs c)"

definition sock_Unpause :: "sock_os \<Rightarrow> sockContainer \<Rightarrow> goerror \<times> sockContainer" where
  "sock_Unpause os c =
     (case os_writeFile os (freezer_path c ''freezer.state'') ''THAWED'' of
        Some e \<Rightarrow> (Some e, c)
      | None \<Rightarrow> waitForUnpause (os_selfFreezing os) c)"

text \<open>
  \<open>Remove\<close> unmounts and deletes the directories and gives the cgroup back; every failure is only
  logged, except that giving a pool cgroup back to a factory without pool dereferences nil.
\<close>

definition sock_Remove ::
  "sock_os \<Rightarrow> sockContainer \<Rightarrow> cgroupFactory \<Rightarrow> (cgroupFactory, goerror) outcome" where
  "sock_Remove os c cgf =
     (case PutCg (os_remove os) (sc_id c) (sc_cgId c) cgf of
        (Ret _, cgf1) \<Rightarrow> (Ret None, cgf1)
      | (Panic m, cgf1) \<Rightarrow> (Panic m, cgf1)
      | (Exit m, cgf1) \<Rightarrow> (Exit m, cgf1)
      | (Block, cgf1) \<Rightarrow> (Block, cgf1))"

definition sock_RunServer :: "sock_os \<Rightarrow> sockContainer \<Rightarrow> (sockContainer, goerror) outcome" where
  "sock_RunServer os c =
     (case strconv_Atoi (sc_initPid c) of
        None \<Rightarrow> (Ret (Some (''bad initPid string: '' @ sc_initPid c)), c)
      | Some pid \<Rightarrow>
          (case os_findProcess os pid of
             Some e \<Rightarrow> (Ret (Some e), c)
           | None \<Rightarrow>
               (case os_serverMsg os of
                  None \<Rightarrow> (Ret (Some (timeo_error os)), c)
                | Some (Inl e) \<Rightarrow> (Exit ''Cannot read from stdout of sock'', c)
                | Some (Inr msg) \<Rightarrow>
                    if msg \<noteq> ''ready'' then (Exit ''In sockContainer: Expect to see `ready`'', c)
                    else (Ret (os_signal os pid ''SIGUSR1''), c))))"

definition sock_MemoryCGroupPath :: "sockContainer \<Rightarrow> string" where
  "sock_MemoryCGroupPath c = ''/sys/fs/cgroup/memory/'' @ OLCGroupName @ ''/'' @ sc_cgId c @ ''/''"

definition MountDirs :: "sock_os \<Rightarrow> string \<Rightarrow> string \<Rightarrow> sockContainer \<Rightarrow> goerror \<times> sockContainer" where
  "MountDirs os hostDir handlerDir c =
     (let c1 = c\<lparr>sc_hostDir := hostDir\<rparr>;
          tmpDir = path_Join [hostDir, ''tmp''];
          sbHandlerDir = path_Join [sc_rootDir c, ''handler'']
      in case os_mkdir os tmpDir of
           Some e \<Rightarrow> (Some e, c1)
         | None \<Rightarrow>
             (case os_mount os hostDir (path_Join [sc_rootDir c, ''host'']) ''BIND'' of
                Some e \<Rightarrow> (Some (''failed to bind host dir: '' @ e), c1)
              | None \<Rightarrow>
                  (case os_mount os tmpDir (path_Join [sc_rootDir c, ''tmp'']) ''BIND'' of
                     Some e \<Rightarrow> (Some (''failed to bind tmp dir: '' @ e), c1)
                   | None \<Rightarrow>
                       if handlerDir = [] then (None, c1)
                       else
                         (case os_mount os handlerDir sbHandlerDir ''BIND'' of
                            Some e \<Rightarrow> (Some (''failed to bind handler dir: '' @ handlerDir @ '' -> '' @ sbHandlerDir @ '' :: '' @ e), c1)
                          | None \<Rightarrow>
                              (case os_mount os ''none'' sbHandlerDir ''BIND_RO'' of
                                 Some e \<Rightarrow> (Some (''failed to bind handler dir RO: '' @ e), c1)
                               | None \<Rightarrow> (None, c1))))))"

subsection \<open>The factory\<close>

record sockFactory =
  sf_cgf :: cgroupFactory
  sf_idx :: int
  sf_rootDir :: string
  sf_baseDir :: string
  sf_unshareFlags :: string
  sf_initArgs :: "string list"

definition NewSOCKContainerFactory ::
  "sock_os \<Rightarrow> string \<Rightarrow> int \<Rightarrow> string \<Rightarrow> string \<Rightarrow> string \<Rightarrow> string list \<Rightarrow> string + sockFactory" where
  "NewSOCKContainerFactory os baseDir cg_pool_size rootDir pre unshareFlags initArgs =
     (case os_mkdirAll os rootDir of
        Some e \<Rightarrow> Inl (''failed to make root container dir :: '' @ e)
      | None \<Rightarrow>
          (case os_mount os rootDir rootDir ''BIND'' of
             Some e \<Rightarrow> Inl (''failed to bind root container dir: '' @ e)
           | None \<Rightarrow>
               (case os_mount os ''none'' rootDir ''PRIVATE'' of
                  Some e \<Rightarrow> Inl (''failed to make root container dir private :: '' @ e)
                | None \<Rightarrow>
                    (case NewCgroupFactory (os_mkdirAll os) pre cg_pool_size of
                       Inl e \<Rightarrow> Inl e
                     | Inr cgf \<Rightarrow>
                         Inr \<lparr>sf_cgf = cgf, sf_idx = - 1, sf_rootDir = rootDir, sf_baseDir = baseDir,
                              sf_unshareFlags = unshareFlags, sf_initArgs = initArgs\<rparr>))))"

text \<open>
  \<open>Create\<close> numbers the containers; the counter moves on even when the creation fails.
\<close>

definition bind_root :: "sock_os \<Rightarrow> string \<Rightarrow> string \<Rightarrow> goerror" where
  "bind_root os baseDir rootDir =
     (case os_mkdir os rootDir of
        Some e \<Rightarrow> Some e
      | None \<Rightarrow>
          (case os_mount os baseDir rootDir ''BIND'' of
             Some e \<Rightarrow> Some (''failed to bind root dir: '' @ baseDir @ '' -> '' @ rootDir @ '' :: '' @ e)
           | None \<Rightarrow>
               (case os_mount os ''none'' rootDir ''BIND_RO'' of
                  Some e \<Rightarrow> Some (''failed to bind root dir RO: '' @ rootDir @ '' :: '' @ e)
                | None \<Rightarrow>
                    (case os_mount os ''none'' rootDir ''PRIVATE'' of
                       Some e \<Rightarrow> Some (''failed to make root dir private :: '' @ e)
                     | None \<Rightarrow> None))))"

definition sock_Create ::
  "sock_os \<Rightarrow> string \<Rightarrow> string \<Rightarrow> sockFactory \<Rightarrow> (string + sockContainer) \<times> sockFactory" where
  "sock_Create os handlerDir workingDir sf =
     (let sf1 = sf\<lparr>sf_idx := sf_idx sf + 1\<rparr>;
          cid = strconv_Itoa (sf_idx sf1);
          rootDir = path_Join [sf_rootDir sf, cid];
          hostDir = path_Join [workingDir, cid]
      in case bind_root os (sf_baseDir sf) rootDir of
           Some e \<Rightarrow> (Inl e, sf1)
         | None \<Rightarrow>
             (case os_mkdirAll os hostDir of
                Some e \<Rightarrow> (Inl e, sf1)
              | None \<Rightarrow>
                  (case first_error (os_mkfifo os) [path_Join [hostDir, ''init_pipe''], path_Join [hostDir, ''server_pipe'']] of
                     Some e \<Rightarrow> (Inl e, sf1)
                   | None \<Rightarrow>
                       (case NewSOCKContainer os rootDir cid (sf_unshareFlags sf) (''/ol-init'' # sf_initArgs sf) (sf_cgf sf1) of
                          (Inl e, cgf) \<Rightarrow> (Inl e, sf1\<lparr>sf_cgf := cgf\<rparr>)
                        | (Inr c, cgf) \<Rightarrow>
                            (case MountDirs os hostDir handlerDir c of
                               (Some e, _) \<Rightarrow> (Inl e, sf1\<lparr>sf_cgf := cgf\<rparr>)
                             | (None, c1) \<Rightarrow> (Inr c1, sf1\<lparr>sf_cgf := cgf\<rparr>))))))"

subsection \<open>The method table and its contract\<close>

text \<open>
  The container as a value of the \<open>Container\<close> interface.  \<open>Remove\<close> acts on the factory's pool
  and not on the container.
\<close>

definition sock_container :: "sock_os \<Rightarrow> sockContainer container" where
  "sock_container os =
     \<lparr>c_Start = sock_Start os, c_Stop = sock_Stop os, c_Pause = sock_Pause os, c_Unpause = sock_Unpause os,
      c_Remove = (\<lambda>c. (None, c)), c_State = sock_State, c_Channel = sock_Channel, c_ID = sc_id,
      c_RunServer = sock_RunServer os, c_MemoryCGroupPath = sock_MemoryCGroupPath, c_HostDir = sc_hostDir\<rparr>"

lemma sock_container_simps [simp]:
  "c_Pause (sock_container os) = sock_Pause os" "c_Unpause (sock_container os) = sock_Unpause os"
  "c_State (sock_container os) = sock_State" "c_Start (sock_container os) = sock_Start os"
  "c_Stop (sock_container os) = sock_Stop os" "c_Channel (sock_container os) = sock_Channel"
  "c_MemoryCGroupPath (sock_container os) = sock_MemoryCGroupPath" "c_ID (sock_container os) = sc_id"
  "c_HostDir (sock_container os) = sc_hostDir" "c_RunServer (sock_container os) = sock_RunServer os"
  by (simp_all add: sock_container_def)

lemma waitForUnpause_running: "waitForUnpause rs c = (None, c') \<Longrightarrow> c' = c\<lparr>sc_status := Running\<rparr>"
  by (induction rs) (auto split: sum.splits if_splits)

lemma waitForUnpause_error: "waitForUnpause rs c = (Some e, c') \<Longrightarrow> c' = c"
  by (induction rs) (auto split: sum.splits if_splits)

interpretation sock: container_contract "sock_container os" for os
proof (unfold_locales, goal_cases)
  case (1 c c')
  then show ?case by (auto simp: sock_Pause_def sock_State_def split: option.splits)
next
  case (2 c c')
  then show ?case
    by (auto simp: sock_Unpause_def sock_State_def dest: waitForUnpause_running split: option.splits)
next
  case (3 c e c')
  then show ?case by (auto simp: sock_Pause_def split: option.splits)
next
  case (4 c)
  then show ?case by (auto simp: sock_Pause_def sock_MemoryCGroupPath_def split: option.splits)
qed

lemma sock_Create_idx: "sf_idx (snd (sock_Create os hdir wd sf)) = sf_idx sf + 1"
  unfolding sock_Create_def Let_def
  by (simp del: first_error.simps split: option.split sum.split prod.split)

lemma MountDirs_keeps:
  assumes "MountDirs os hostDir handlerDir c = (e, c')"
  shows "c' = c\<lparr>sc_hostDir := hostDir\<rparr>"
  using assms by (auto simp: MountDirs_def Let_def split: option.splits if_splits)

lemma sock_Create_container:
  assumes "sock_Create os hdir wd sf = (Inr c, sf')"
  shows "sc_id c = strconv_Itoa (sf_idx sf + 1)" and "sc_status c = Stopped"
    and "sc_hostDir c = path_Join [wd, sc_id c]"
proof -
  obtain c0 cgf e where "NewSOCKContainer os (path_Join [sf_rootDir sf, strconv_Itoa (sf_idx sf + 1)])
        (strconv_Itoa (sf_idx sf + 1)) (sf_unshareFlags sf) (''/ol-init'' # sf_initArgs sf) (sf_cgf sf) = (Inr c0, cgf)"
    and "MountDirs os (path_Join [wd, strconv_Itoa (sf_idx sf + 1)]) hdir c0 = (e, c)"
    using assms
    by (auto simp: sock_Create_def Let_def simp del: first_error.simps split: option.splits sum.splits prod.splits)
  then show "sc_id c = strconv_Itoa (sf_idx sf + 1)" "sc_status c = Stopped"
    "sc_hostDir c = path_Join [wd, sc_id c]"
    by (auto simp: NewSOCKContainer_def dest!: MountDirs_keeps split: prod.splits option.splits)
qed


definition calm_os :: sock_os where
  "calm_os = \<lparr>os_writeFile = (\<lambda>_ _. None), os_readFile = (\<lambda>_. Inr ''''), os_openPipe = (\<lambda>_. None),
     os_startInit = (\<lambda>_. None), os_initMsg = Some ''7'', os_serverMsg = Some (Inr ''ready''),
     os_timeo = Inr 5, os_selfFreezing = [Inr ''0''], os_findProcess = (\<lambda>_. None),
     os_signal = (\<lambda>_ _. None), os_mkdir = (\<lambda>_. None), os_mkdirAll = (\<lambda>_. None),
     os_mkfifo = (\<lambda>_. None), os_mount = (\<lambda>_ _ _. None), os_remove = (\<lambda>_. None)\<rparr>"

definition fresh_box :: sockContainer where
  "fresh_box = \<lparr>sc_id = ''0'', sc_cgId = ''0'', sc_rootDir = ''/r'', sc_hostDir = ''/w/0'',
     sc_status = Stopped, sc_initPid = [], sc_unshareFlags = ''-ipu'', sc_startCmd = []\<rparr>"


text \<open>
  A creation that fails when the directories are mounted does not give its cgroup back: the pool
  of free cgroups has one less, and the container that holds it is dropped.
\<close>

theorem sock_Create_mount_failure_leaks_cgroup:
  assumes "cgf_ok (sf_cgf sf)" and "free_cgs (sf_cgf sf) = cg # cgs"
    and "bind_root os (sf_baseDir sf) (path_Join [sf_rootDir sf, strconv_Itoa (sf_idx sf + 1)]) = None"
    and "\<forall>d. os_mkdirAll os d = None" and "\<forall>d. os_mkfifo os d = None"
    and "os_mkdir os (path_Join [path_Join [wd, strconv_Itoa (sf_idx sf + 1)], ''tmp'']) = Some err"
  shows "\<exists>sf'. sock_Create os hdir wd sf = (Inl err, sf') \<and> free_cgs (sf_cgf sf') = cgs"
proof -
  let ?id = "strconv_Itoa (sf_idx sf + 1)"
  have ne: "free_cgs (sf_cgf sf) \<noteq> []" using assms(2) by simp
  note G = GetCg_pool [OF assms(1) ne, of "os_mkdirAll os" ?id]
  obtain cgf where g: "GetCg (os_mkdirAll os) ?id (sf_cgf sf) = ((cg, None), cgf)" "free_cgs cgf = cgs"
    using G(1,2) assms(2) by (metis list.sel(1,3) prod.collapse)
  obtain c where c: "NewSOCKContainer os (path_Join [sf_rootDir sf, ?id]) ?id (sf_unshareFlags sf)
      (''/ol-init'' # sf_initArgs sf) (sf_cgf sf) = (Inr c, cgf)"
    using g(1) by (simp add: NewSOCKContainer_def)
  obtain c1 where "MountDirs os (path_Join [wd, ?id]) hdir c = (Some err, c1)"
    using assms(6) by (simp add: MountDirs_def Let_def)
  then have "sock_Create os hdir wd sf = (Inl err, sf\<lparr>sf_idx := sf_idx sf + 1, sf_cgf := cgf\<rparr>)"
    using assms(3-5) c by (simp add: sock_Create_def Let_def)
  with g(2) show ?thesis by simp
qed

definition tmpless_os :: sock_os where
  "tmpless_os = calm_os\<lparr>os_mkdir := (\<lambda>d. if strings_HasSuffix d ''/tmp'' then Some ''ENOSPC'' else None)\<rparr>"

definition small_factory :: sockFactory where
  "small_factory = projr (NewSOCKContainerFactory calm_os ''/b'' 1 ''/r'' ''h'' ''-ipu'' [])"

theorem sock_Create_mount_failure_leaks_cgroup_witness:
  "\<exists>sf'. sock_Create tmpless_os [] ''/w'' small_factory = (Inl ''ENOSPC'', sf') \<and> free_cgs (sf_cgf sf') = []"
proof -
  have "free_cgs (sf_cgf small_factory) = [''h-1'']"
    and "bind_root tmpless_os (sf_baseDir small_factory) (path_Join [sf_rootDir small_factory, strconv_Itoa (sf_idx small_factory + 1)]) = None"
    and "os_mkdir tmpless_os (path_Join [path_Join [''/w'', strconv_Itoa (sf_idx small_factory + 1)], ''tmp'']) = Some ''ENOSPC''"
    by code_simp+
  moreover have "case freeCg (sf_cgf small_factory) of None \<Rightarrow> False | Some l \<Rightarrow> distinct (elems l) \<and> list_all (\<lambda>e. e < length (vals l)) (elems l)"
    by code_simp
  then have "cgf_ok (sf_cgf small_factory)"
    using \<open>free_cgs (sf_cgf small_factory) = [''h-1'']\<close>
    by (auto simp: cgf_ok_def golist_ok_def list_all_iff split: option.splits)
  moreover have "\<forall>d. os_mkdirAll tmpless_os d = None" "\<forall>d. os_mkfifo tmpless_os d = None"
    by (simp_all add: tmpless_os_def calm_os_def)
  ultimately show ?thesis
    using sock_Create_mount_failure_leaks_cgroup [of small_factory "''h-1''" "[]" tmpless_os] by blast
qed

end
