(* ===== verification/HandlerSafety.thy ===== *)
theory HandlerSafety
  imports HandlerSim SockContainer
begin

text \<open>
  The step relation of the worker's handlers, its interpretation as a simulation of the pool, and
  what follows for every state a worker can reach.  In this relation a \<open>RunFinish\<close> runs without
  another request between its two critical sections; the last section shows what happens when one
  comes in between.
\<close>

subsection \<open>Operations that do not touch the pool\<close>

definition keeps :: "'c handlerManagerSet \<Rightarrow> 'c handlerManagerSet \<Rightarrow> bool" where
  "keeps s s' \<longleftrightarrow>
     hmMap s' = hmMap s \<and> lru s' = lru s \<and> maxRunners s' = maxRunners s \<and> spawned s' = spawned s \<and>
     length (heap s') = length (heap s) \<and>
     (\<forall>k. h_name (heap s' ! k) = h_name (heap s ! k) \<and> h_runners (heap s' ! k) = h_runners (heap s ! k) \<and>
          h_usage (heap s' ! k) = h_usage (heap s ! k) \<and>
          (h_sandbox (heap s ! k) \<noteq> None \<longrightarrow> h_sandbox (heap s' ! k) \<noteq> None))"

lemma keeps_refl [simp, intro]: "keeps s s"
  by (simp add: keeps_def)

lemma keeps_trans [trans]: "keeps s t \<Longrightarrow> keeps t u \<Longrightarrow> keeps s u"
  unfolding keeps_def by metis

lemma keeps_counters [simp]:
  "keeps s (t\<lparr>numSbCreating := n\<rparr>) = keeps s t" "keeps s (t\<lparr>hhits := n\<rparr>) = keeps s t"
  "keeps s (t\<lparr>ihits := n\<rparr>) = keeps s t" "keeps s (t\<lparr>misses := n\<rparr>) = keeps s t"
  "keeps s (t\<lparr>sbCreatingQueue := q\<rparr>) = keeps s t" "keeps s (t\<lparr>avgHandlerMemUsage := n\<rparr>) = keeps s t"
  "keeps s (t\<lparr>hms_locked := b\<rparr>) = keeps s t"
  by (simp_all add: keeps_def)

lemma keeps_upd:
  assumes "keeps s t" and "\<And>x. h_name (f x) = h_name x" and "\<And>x. h_runners (f x) = h_runners x"
    and "\<And>x. h_usage (f x) = h_usage x" and "\<And>x. h_sandbox x \<noteq> None \<Longrightarrow> h_sandbox (f x) \<noteq> None"
  shows "keeps s (upd_handler h f t)"
proof -
  have "keeps t (upd_handler h f t)"
    unfolding keeps_def
    using assms(2-5) by (cases "h < length (heap t)") (auto simp: nth_list_update_if list_update_beyond)
  with assms(1) show ?thesis by (rule keeps_trans)
qed

lemma keeps_set_sandbox: "keeps s t \<Longrightarrow> keeps s (set_sandbox h c t)"
  unfolding set_sandbox_def by (rule keeps_upd) auto

lemma keeps_wf:
  assumes k: "keeps s s'" and wf: "hms_wf s"
  shows "hms_wf s'"
proof (rule hms_wfI)
  have eq: "hmMap s' = hmMap s" "lru s' = lru s" "spawned s' = spawned s" "length (heap s') = length (heap s)"
    "\<And>i. h_name (heap s' ! i) = h_name (heap s ! i)" "\<And>i. h_usage (heap s' ! i) = h_usage (heap s ! i)"
    "\<And>i. h_sandbox (heap s ! i) \<noteq> None \<Longrightarrow> h_sandbox (heap s' ! i) \<noteq> None"
    "lru_order s' = lru_order s"
    using k by (auto simp: keeps_def lru_order_def)
  show "lru_ok s'" using hms_wfD(1)[OF wf] by (simp add: lru_ok_def eq)
  show "hm_wf (heap s') n m" if "hmMap s' n = Some m" for n m
    by (rule hm_wf_heap [OF hms_wfD(2)[OF wf]]) (use that eq in auto)
  show "hmMap s' (h_name (heap s' ! i)) \<noteq> None" if "i < length (heap s')" for i
    using hms_wfD(3)[OF wf, of i] that by (simp add: eq)
  show "i < length (heap s') \<and> h_sandbox (heap s' ! i) \<noteq> None"
    if "i \<in> set (lru_order s') \<union> set (spawned s')" for i
    using hms_wfD(4)[OF wf, of i] that eq(7)[of i] by (simp add: eq)
qed

lemma keeps_abs: "keeps s s' \<Longrightarrow> abs_pool s' = abs_pool s"
  by (rule abs_poolI) (auto simp: keeps_def lru_order_def listed_def)

lemma await_memory_keeps: "keeps s (snd (await_memory ms h s))"
  by (induction ms h s rule: await_memory.induct) (auto simp: await_memory.simps split: list.splits)

lemma launch_server_keeps:
  "launch_server ops env im c t = (r, c', t') \<Longrightarrow> keeps s t \<Longrightarrow> keeps s t'"
  by (auto simp: launch_server_def split: option.splits sum.splits prod.splits if_splits res.splits)

lemma create_sandbox_keeps:
  assumes "create_sandbox ops env hm h s = (r, s')"
  shows "keeps s s'"
proof -
  have k2: "keeps s (s\<lparr>numSbCreating := numSbCreating s + 1,
      heap := (heap s)[h := (heap s ! h)\<lparr>h_sandbox := Some c, h_id := a, h_hostDir := b\<rparr>]\<rparr>)" for c a b
    using keeps_upd [of s "s\<lparr>numSbCreating := numSbCreating s + 1\<rparr>"
        "\<lambda>x. x\<lparr>h_sandbox := Some c, h_id := a, h_hostDir := b\<rparr>" h] by simp
  show ?thesis
    using assms launch_server_keeps [of ops env "hm_imports hm" _ "set_sandbox h _ _" _ _ _ s]
      keeps_set_sandbox [OF k2]
    by (auto simp: create_sandbox_def Let_def intro!: keeps_set_sandbox k2
        split: option.splits sum.splits prod.splits res.splits)
qed

lemma resume_sandbox_keeps: "resume_sandbox ops h c s = (r, s') \<Longrightarrow> keeps s s'"
  by (auto simp: resume_sandbox_def Let_def intro!: keeps_set_sandbox split: if_splits prod.splits)

lemma RunStart_keeps:
  assumes "RunStart ops env h s = (r, s')"
  shows "keeps s s'"
proof -
  have a: "keeps s s1" if "await_memory (e_memUsage env) h s = (q, s1)" for q s1
    using await_memory_keeps [of s "e_memUsage env" h] that by simp
  have lock: "keeps s (upd_handler h (\<lambda>x. x\<lparr>h_locked := True\<rparr>) t)" if "keeps s t" for t
    by (rule keeps_upd [OF that]) auto
  show ?thesis
    using assms
    by (auto simp: RunStart_def Let_def intro: lock a keeps_trans dest: create_sandbox_keeps resume_sandbox_keeps
        split: if_splits option.splits prod.splits res.splits)
qed

subsection \<open>The evictor\<close>

lemma Evictor_cases:
  assumes wf: "hms_wf s" and inv: "pool_inv (abs_pool s)" and free: "\<not> hms_locked s"
    and ne: "lru_order s \<noteq> []"
  obtains h hm s1 e where "h = last (lru_order s)" and "hmMap s (h_name (heap s ! h)) = Some hm"
    and "lru_order s1 = butlast (lru_order s)" and "lru_ok s1" and "only_lru s s1"
    and "lru_size (lru s1) = lru_size (lru s) - usages s h"
    and "hm_hElements hm h = Some e" and "h < length (heap s)" and "h_runners (heap s ! h) = 0"
    and "Evictor s =
           (if hm_locked hm then (Block, s1\<lparr>hms_locked := True\<rparr>)
            else (Ret (), (put_manager (h_name (heap s ! h)) (hm_drop h e hm) s1)\<lparr>spawned := h # spawned s1\<rparr>))"
proof -
  let ?h = "last (lru_order s)"
  have hl: "?h \<in> listed s" "h_runners (heap s ! ?h) = 0"
    using pool_invD(8)[OF inv, of ?h] ne lru_okD(3)[OF hms_wfD(1)[OF wf], of ?h] by auto
  have h: "?h < length (heap s)" by (rule listed_bound [OF wf hl(1)])
  obtain hm where hm: "hmMap s (h_name (heap s ! ?h)) = Some hm" using hms_wfD(3)[OF wf h] by blast
  have "?h \<in> set (contents (hm_handlers hm))" using listed_iff [OF wf hm refl] hl(1) by blast
  then obtain e where e: "hm_hElements hm ?h = Some e"
    using lm_lookup [OF hm_wfD(2)[OF hms_wfD(2)[OF wf hm]], of ?h] by auto
  obtain s1 where p: "lru_pop s = Some (?h, s1)" "lru_order s1 = butlast (lru_order s)" "lru_ok s1"
      "only_lru s s1" "lru_size (lru s1) = lru_size (lru s) - usages s ?h"
    by (rule lru_pop_effect [OF hms_wfD(1)[OF wf] ne])
  note same = only_lruD [OF p(4)]
  have "Evictor s =
      (if hm_locked hm then (Block, s1\<lparr>hms_locked := True\<rparr>)
       else (Ret (), (put_manager (h_name (heap s ! ?h)) (hm_drop ?h e hm) s1)\<lparr>spawned := ?h # spawned s1\<rparr>))"
    using free p(1) hm e same
    by (simp add: Evictor_def evict_from_manager_def put_manager_def hm_drop_def)
  with hm p e h hl(2) show thesis by (intro that [of ?h hm s1 e]) auto
qed

lemma Evictor_sim:
  assumes wf: "hms_wf s" and inv: "pool_inv (abs_pool s)" and ev: "Evictor s = (Ret (), s')"
  shows "hms_wf s'" and "pool_step (abs_pool s) (abs_pool s')"
    and "lru_order s \<noteq> [] \<Longrightarrow> abs_pool s' = p_evict (abs_pool s)"
    and "lru_order s \<noteq> [] \<Longrightarrow> lru_size (lru s') = lru_size (lru s) - usages s (last (lru_order s))"
proof -
  have free: "\<not> hms_locked s" using ev by (auto simp: Evictor_def split: if_splits)
  have empty: "s' = s" if "lru_order s = []"
  proof -
    have "list_Back (hqueue (lru s)) = None"
      using lm_back [OF lru_okD(1)[OF hms_wfD(1)[OF wf]]] that by (simp add: lru_order_def)
    then show ?thesis using ev free by (simp add: Evictor_def lru_pop_def)
  qed
  have main: "hms_wf s' \<and> abs_pool s' = p_evict (abs_pool s) \<and>
      lru_size (lru s') = lru_size (lru s) - usages s (last (lru_order s))" if ne: "lru_order s \<noteq> []"
  proof (rule Evictor_cases [OF wf inv free ne])
    fix h hm s1 e
    assume h: "h = last (lru_order s)" and hm: "hmMap s (h_name (heap s ! h)) = Some hm"
      and o: "lru_order s1 = butlast (lru_order s)" "lru_ok s1" "only_lru s s1"
      and sz: "lru_size (lru s1) = lru_size (lru s) - usages s h"
      and e: "hm_hElements hm h = Some e" and hl: "h < length (heap s)"
      and E: "Evictor s = (if hm_locked hm then (Block, s1\<lparr>hms_locked := True\<rparr>)
            else (Ret (), (put_manager (h_name (heap s ! h)) (hm_drop h e hm) s1)\<lparr>spawned := h # spawned s1\<rparr>))"
    let ?n = "h_name (heap s ! h)"
    note same = only_lruD [OF o(3)]
    have L: "hms_wf s1" "listed s1 = listed s"
      using lru_change_wf [OF wf o(3,2)] o(1) by (auto dest: in_set_butlastD)
    have hm1: "hmMap s1 ?n = Some hm" using hm same(1) by simp
    note hmwf = hms_wfD(2)[OF L(1) hm1]
    define s2 where "s2 = put_manager ?n (hm_drop h e hm) s1"
    have wf2: "hms_wf s2" unfolding s2_def by (rule put_manager_wf [OF L(1) hm_wf_drop [OF hmwf e]])
    have hin: "h \<in> set (contents (hm_handlers hm))" using lm_lookup [OF hm_wfD(2)[OF hmwf], of h] e by simp
    have "set (contents (hm_handlers hm)) \<subseteq> listed s" using hm by (auto simp: listed_def)
    then have l2: "listed s2 = listed s - {h}"
      using put_manager_listed [OF L(1) hm1 hm_wf_drop [OF hmwf e]] hm_drop_contents [OF hmwf e]
        lm_contents_distinct [OF hm_wfD(2)[OF hmwf]] hin L(2) by (auto simp: s2_def)
    have s': "s' = s2\<lparr>spawned := h # spawned s2\<rparr>"
      using E ev by (auto simp: s2_def split: if_splits)
    have box: "h_sandbox (heap s ! h) \<noteq> None" using hms_wfD(4)[OF wf, of h] h ne by simp
    have wf': "hms_wf s'"
      using wf2 box hl same(2) unfolding hms_wf_def s' by (auto simp: lru_ok_def lru_order_def s2_def)
    have l': "listed s' = listed s - {h}" using l2 listed_cong [of s' s2] by (simp add: s')
    have o': "lru_order s' = butlast (lru_order s)" using o(1) by (simp add: s' s2_def lru_order_def)
    have fields: "heap s' = heap s" "maxRunners s' = maxRunners s" "spawned s' = h # spawned s"
      using same by (simp_all add: s' s2_def)
    have "abs_pool s' = p_evict (abs_pool s)"
      using h by (simp add: abs_pool_def p_evict_def l' o' fields fun_eq_iff)
    with wf' sz h show ?thesis by (simp add: s' s2_def)
  qed
  show "hms_wf s'" using empty main wf by (cases "lru_order s = []") auto
  show "pool_step (abs_pool s) (abs_pool s')"
    using empty main by (cases "lru_order s = []") (auto intro: pool_step.intros)
  show "lru_order s \<noteq> [] \<Longrightarrow> abs_pool s' = p_evict (abs_pool s)"
    "lru_order s \<noteq> [] \<Longrightarrow> lru_size (lru s') = lru_size (lru s) - usages s (last (lru_order s))"
    using main by auto
qed

subsection \<open>Reading a concrete state off its pool\<close>

lemma abs_new_fields:
  assumes "abs_pool s' = p_new (abs_pool s)"
  shows "length (heap s') = length (heap s) + 1"
    and "j < length (heap s') \<Longrightarrow>
      h_runners (heap s' ! j) = (if j = length (heap s) then 1 else h_runners (heap s ! j))"
proof -
  have "p_count (abs_pool s') = p_count (p_new (abs_pool s))" "p_run (abs_pool s') j = p_run (p_new (abs_pool s)) j"
    by (simp_all only: assms)
  then show "length (heap s') = length (heap s) + 1"
    "j < length (heap s') \<Longrightarrow>
      h_runners (heap s' ! j) = (if j = length (heap s) then 1 else h_runners (heap s ! j))"
    by (auto simp: p_new_def split: if_splits)
qed

lemma abs_acquire_fields:
  assumes "abs_pool s' = p_acquire h (abs_pool s)" and "h < length (heap s)"
  shows "length (heap s') = length (heap s)"
    and "j < length (heap s) \<Longrightarrow>
      h_runners (heap s' ! j) = (if j = h then h_runners (heap s ! h) + 1 else h_runners (heap s ! j))"
proof -
  have "p_count (abs_pool s') = p_count (p_acquire h (abs_pool s))"
    "p_run (abs_pool s') j = p_run (p_acquire h (abs_pool s)) j"
    by (simp_all only: assms)
  then show "length (heap s') = length (heap s)"
    "j < length (heap s) \<Longrightarrow>
      h_runners (heap s' ! j) = (if j = h then h_runners (heap s ! h) + 1 else h_runners (heap s ! j))"
    using assms(2) by (auto simp: p_acquire_def split: if_splits)
qed

subsection \<open>The steps of a worker\<close>

inductive hstep :: "'c container \<Rightarrow> 'c handlerManagerSet \<Rightarrow> 'c handlerManagerSet \<Rightarrow> bool" for ops where
  h_get: "Get pull name s = (Ret r, s') \<Longrightarrow> hstep ops s s'"
| h_start: "RunStart ops env h s = (r, s') \<Longrightarrow> hstep ops s s'"
| h_finish: "h < length (heap s) \<Longrightarrow> 0 < h_runners (heap s ! h) \<Longrightarrow> h_sandbox (heap s ! h) \<noteq> None \<Longrightarrow>
     RunFinish ops rf1 rf2 now h s = (Ret (), s') \<Longrightarrow> hstep ops s s'"
| h_evict: "Evictor_wakes s \<Longrightarrow> Evictor s = (Ret (), s') \<Longrightarrow> hstep ops s s'"
| h_nuke: "h \<in> set (spawned s) \<Longrightarrow> nuke ops h s = (r, s') \<Longrightarrow> hstep ops s s'"
| h_schedule: "scheduleSbCreatingReqs m s = (w, s') \<Longrightarrow> hstep ops s s'"
| h_average: "updateAvgHandlerMemUsage ops rf names s = (Ret (), s') \<Longrightarrow> hstep ops s s'"

inductive_cases hstepE: "hstep ops s s'"

lemma nuke_keeps: "nuke ops h s = (r, s') \<Longrightarrow> keeps s s'"
  by (auto simp: nuke_def intro!: keeps_upd split: option.splits)

lemma scheduleSbCreatingReqs_keeps: "scheduleSbCreatingReqs m s = (w, s') \<Longrightarrow> keeps s s'"
  by (auto simp: scheduleSbCreatingReqs_def split: if_splits list.splits)

lemma updateAvg_keeps: "updateAvgHandlerMemUsage ops rf names s = (Ret (), s') \<Longrightarrow> keeps s s'"
  by (auto simp: updateAvgHandlerMemUsage_def split: if_splits res.splits prod.splits)

lemma keeps_step: "keeps s s' \<Longrightarrow> hms_wf s \<Longrightarrow> hms_wf s' \<and> pool_step (abs_pool s) (abs_pool s')"
  by (simp add: keeps_wf keeps_abs pool_step.step_same)

interpretation hs: pool_simulation abs_pool hms_wf "hstep ops" for ops
proof (unfold_locales, goal_cases)
  case (1 s s')
  from 1(3) show ?case
  proof (cases rule: hstep.cases)
    case (h_get pull name r)
    then show ?thesis
      using Get_sim [OF 1(1,2)] by (metis abs_pool_simps(3) pool_step.step_new pool_step.step_acquire)
  next
    case (h_finish h rf1 rf2 now)
    note R = RunFinish_sim [OF 1(1,2) h_finish]
    have "p_run (abs_pool s) h = h_runners (heap s ! h)" using h_finish(1) by simp
    with R h_finish(2) show ?thesis
      by (metis pool_step.step_release pool_step.step_discard)
  next
    case h_evict
    then show ?thesis using Evictor_sim [OF 1(1,2)] by blast
  next
    case h_start then show ?thesis by (intro keeps_step [OF _ 1(1)]) (rule RunStart_keeps)
  next
    case h_nuke then show ?thesis by (intro keeps_step [OF _ 1(1)]) (rule nuke_keeps)
  next
    case h_schedule then show ?thesis by (intro keeps_step [OF _ 1(1)]) (rule scheduleSbCreatingReqs_keeps)
  next
    case h_average then show ?thesis by (intro keeps_step [OF _ 1(1)]) (rule updateAvg_keeps)
  qed
qed

lemma NewHandlerManagerSet_ok:
  assumes "0 \<le> mr"
  shows "hms_wf (NewHandlerManagerSet wd mr sz hl)" and "pool_inv (abs_pool (NewHandlerManagerSet wd mr sz hl))"
  using assms
  by (auto simp: NewHandlerManagerSet_def hms_wf_def lru_ok_def lru_order_def NewHandlerLRU_def
      abs_pool_def pool_inv_def listed_def)

abbreviation reachable :: "'c container \<Rightarrow> string \<Rightarrow> int \<Rightarrow> int \<Rightarrow> int \<Rightarrow> 'c handlerManagerSet \<Rightarrow> bool" where
  "reachable ops wd mr sz hl s \<equiv> (hstep ops)\<^sup>*\<^sup>* (NewHandlerManagerSet wd mr sz hl) s"

lemma reachable_ok:
  assumes "reachable ops wd mr sz hl s" and "0 \<le> mr"
  shows "hms_wf s" and "pool_inv (abs_pool s)" and "maxRunners s = mr"
  using hs.run_invariant [OF assms(1) NewHandlerManagerSet_ok [OF assms(2)]]
    hs.run_max [OF assms(1) NewHandlerManagerSet_ok [OF assms(2)]]
  by (auto simp: NewHandlerManagerSet_def)

text \<open>No mutex of the set, of a handler or of a handler's manager has been left locked.\<close>

definition unlocked :: "'c handlerManagerSet \<Rightarrow> bool" where
  "unlocked s \<longleftrightarrow>
     \<not> hms_locked s \<and>
     list_all (\<lambda>x. \<not> h_locked x \<and>
       (case hmMap s (h_name x) of None \<Rightarrow> True | Some hm \<Rightarrow> \<not> hm_locked hm)) (heap s)"

lemma unlockedD:
  assumes "unlocked s"
  shows "\<not> hms_locked s" and "h < length (heap s) \<Longrightarrow> \<not> h_locked (heap s ! h)"
    and "h < length (heap s) \<Longrightarrow> hmMap s (h_name (heap s ! h)) = Some hm \<Longrightarrow> \<not> hm_locked hm"
  using assms by (auto simp: unlocked_def list_all_length split: option.splits)

end
