(* ===== verification/HandlerExamples.thy ===== *)
theory HandlerExamples
  imports HandlerSafety
begin

text \<open>
  A small worker with SOCK containers, and some of the states it reaches: the inputs at which the
  properties of the handlers are applied.
\<close>

subsection \<open>A worker for the witnesses\<close>

definition ex_env :: "sockContainer run_env" where
  "ex_env = \<lparr>e_install = (\<lambda>_. Ret None), e_create = (\<lambda>_ _. Inr fresh_box), e_provision = None,
     e_memUsage = [], e_ready = True\<rparr>"

definition ex_pull :: "string \<Rightarrow> string + (string \<times> string list \<times> string list)" where
  "ex_pull n = Inr (n, [], [])"

abbreviation ex_ops :: "sockContainer container" where
  "ex_ops \<equiv> sock_container calm_os"

text \<open>A lambda \<open>f\<close> has run once and its handler is idle; a second one, \<open>g\<close>, too.\<close>

definition ex_new :: "sockContainer handlerManagerSet" where
  "ex_new = NewHandlerManagerSet ''/w'' 0 1 0"

definition ex_got :: "sockContainer handlerManagerSet" where
  "ex_got = snd (Get ex_pull ''f'' ex_new)"

definition ex_started :: "sockContainer handlerManagerSet" where
  "ex_started = snd (RunStart ex_ops ex_env 0 ex_got)"

definition ex_idle :: "sockContainer handlerManagerSet" where
  "ex_idle = snd (RunFinish ex_ops (\<lambda>_. Some ''800'') (\<lambda>_. Some ''800'') 7 0 ex_started)"

text \<open>The handler has grown between the reading of \<open>RunFinish\<close> and that of \<open>Add\<close>: the list is over its limit.\<close>

definition ex_full :: "sockContainer handlerManagerSet" where
  "ex_full = snd (RunFinish ex_ops (\<lambda>_. Some ''800'') (\<lambda>_. Some ''2000'') 7 0 ex_started)"

definition ex_evicted :: "sockContainer handlerManagerSet" where
  "ex_evicted = snd (Evictor ex_full)"

lemma reach_get:
  assumes "reachable ops wd mr sz hl s" and "returns (fst (Get pull name s))"
  shows "reachable ops wd mr sz hl (snd (Get pull name s))"
proof -
  obtain r where "Get pull name s = (Ret r, snd (Get pull name s))"
    using assms(2) by (metis prod.collapse returns_iff)
  then show ?thesis by (rule rtranclp.rtrancl_into_rtrancl [OF assms(1) hstep.h_get])
qed

lemma reach_start:
  assumes "reachable ops wd mr sz hl s"
  shows "reachable ops wd mr sz hl (snd (RunStart ops env h s))"
  by (rule rtranclp.rtrancl_into_rtrancl [OF assms hstep.h_start]) (rule prod.collapse [symmetric])

lemma reach_finish:
  assumes "reachable ops wd mr sz hl s" and "fst (RunFinish ops rf1 rf2 now h s) = Ret ()"
    and "h < length (heap s)" and "0 < h_runners (heap s ! h)" and "h_sandbox (heap s ! h) \<noteq> None"
  shows "reachable ops wd mr sz hl (snd (RunFinish ops rf1 rf2 now h s))"
  using assms(2) by (intro rtranclp.rtrancl_into_rtrancl [OF assms(1) hstep.h_finish [OF assms(3-5)]]) (simp add: prod_eq_iff)

lemma reach_evict:
  assumes "reachable ops wd mr sz hl s" and "fst (Evictor s) = Ret ()" and "Evictor_wakes s"
  shows "reachable ops wd mr sz hl (snd (Evictor s))"
  using assms(2) by (intro rtranclp.rtrancl_into_rtrancl [OF assms(1) hstep.h_evict [OF assms(3)]]) (simp add: prod_eq_iff)

lemma ex_new_reachable: "reachable ex_ops ''/w'' 0 1 0 ex_new"
  unfolding ex_new_def by (rule rtranclp.rtrancl_refl)

lemma ex_got_reachable: "reachable ex_ops ''/w'' 0 1 0 ex_got"
  unfolding ex_got_def by (rule reach_get [OF ex_new_reachable]) code_simp

lemma ex_started_reachable: "reachable ex_ops ''/w'' 0 1 0 ex_started"
  unfolding ex_started_def by (rule reach_start [OF ex_got_reachable])

lemma ex_idle_reachable: "reachable ex_ops ''/w'' 0 1 0 ex_idle"
  unfolding ex_idle_def by (rule reach_finish [OF ex_started_reachable]) code_simp+

lemma ex_full_reachable: "reachable ex_ops ''/w'' 0 1 0 ex_full"
  unfolding ex_full_def by (rule reach_finish [OF ex_started_reachable]) code_simp+

lemma ex_evicted_reachable: "reachable ex_ops ''/w'' 0 1 0 ex_evicted"
  unfolding ex_evicted_def by (rule reach_evict [OF ex_full_reachable]) code_simp+

end
