(* ===== verification/HandlerProps.thy ===== *)
theory HandlerProps
  imports HandlerExamples
begin

text \<open>
  The properties of the handler managers over the states a worker reaches.
\<close>

subsection \<open>What holds of every reachable state\<close>







end
