(* ===== verification/HandlerRequests.thy ===== *)
theory HandlerRequests
  imports HandlerExamples
begin

text \<open>
  What the operations on the path of a request do: \<open>Get\<close>, \<open>RunStart\<close>, \<open>RunFinish\<close> and the
  admission of sandbox creations.
\<close>

subsection \<open>Get\<close>

lemma Get_returns:
  assumes wf: "hms_wf s" and inv: "pool_inv (abs_pool s)" and free: "unlocked s"
    and mgr: "\<And>hm. hmMap s name = Some hm \<Longrightarrow> \<not> hm_locked hm" and p: "pull name = Inr code"
  shows "\<exists>h s'. Get pull name s = (Ret (Inr h), s')"
proof -
  obtain hm s1 where m: "get_manager name s = (hm, s1)" by fastforce
  note M = get_manager_sim [OF wf m]
  have inv1: "pool_inv (abs_pool s1)" using inv M(3) by simp
  have lk: "\<not> hm_locked hm"
    using m mgr by (auto simp: get_manager_def Let_def new_manager_def split: option.splits)
  have code: "\<exists>s'. get_code pull name h s2 = (Ret (Inr h), s')" if "hmMap s2 name \<noteq> None" "hms_wf s2" for h s2
    using that p hm_wfD(1)[OF hms_wfD(2)[OF that(2)], of name]
    by (cases code) (auto simp: get_code_def split: option.splits)
  note G = Get_def unlockedD(1)[OF free] m lk
  show ?thesis
  proof (cases "list_Front (hm_handlers hm)")
    case None
    obtain q s2 where f: "get_fresh name hm s1 = (q, s2)" by fastforce
    note F = get_fresh_sim [OF M(1,2) f]
    show ?thesis using None f F(1) code [OF F(5) F(2), of "length (heap s1)"] by (auto simp: G)
  next
    case (Some e)
    let ?h = "vals (hm_handlers hm) ! e"
    note lm = hm_wfD(2)[OF hms_wfD(2)[OF M(1,2)]]
    have ne: "contents (hm_handlers hm) \<noteq> []" and he: "hm_hElements hm (hd (contents (hm_handlers hm))) = Some e"
      using lm_front [OF lm] Some by (auto split: if_splits)
    have "?h = hd (contents (hm_handlers hm))" using lm_Some [OF lm he] by simp
    then have "?h < length (heap s1)" using hm_wfD(3)[OF hms_wfD(2)[OF M(1,2)], of ?h] ne by simp
    then have hf: "\<not> h_locked (heap s1 ! ?h)" using unlockedD(2)[OF free, of ?h] M(5) by simp
    obtain q s2 where f: "get_front name hm e s1 = (q, s2)" by fastforce
    note F = get_front_sim [OF M(1) inv1 M(2) Some refl hf f]
    show ?thesis using Some f F(1) code [OF F(6) F(3), of ?h] by (auto simp: G)
  qed
qed

text \<open>
  C14.  \<open>Get\<close> in a reachable state with no mutex held and a registry that has the code returns a
  handler of the name that was asked for, with one runner more than before, that is not idle and not
  given up.  It is a listed handler of that name if there is one, else a new one; no other handler's
  runners change.
\<close>

theorem Get_takes_handler:
  assumes "reachable ops wd mr sz hl s" and "0 \<le> mr" and "unlocked s"
    and "\<forall>hm. hmMap s name = Some hm \<longrightarrow> \<not> hm_locked hm" and "pull name = Inr code"
  shows "\<exists>h s'. Get pull name s = (Ret (Inr h), s') \<and> h_name (heap s' ! h) = name \<and>
           h \<notin> set (lru_order s') \<and> h \<notin> set (spawned s') \<and>
           (if \<exists>k \<in> listed s. h_name (heap s ! k) = name
            then h \<in> listed s \<and> length (heap s') = length (heap s) \<and>
                 h_runners (heap s' ! h) = h_runners (heap s ! h) + 1
            else h = length (heap s) \<and> length (heap s') = length (heap s) + 1 \<and>
                 h_runners (heap s' ! h) = 1) \<and>
           (\<forall>k < length (heap s). k \<noteq> h \<longrightarrow> h_runners (heap s' ! k) = h_runners (heap s ! k))"
proof -
  note R = reachable_ok [OF assms(1,2)]
  obtain h s' where g: "Get pull name s = (Ret (Inr h), s')"
    using Get_returns [of s name pull code, OF R(1,2) assms(3)] assms(4,5) by blast
  obtain k where hk: "Inr h = (Inr k :: string + haddr) \<or> (\<exists>e. Inr h = (Inl e :: string + haddr))"
      and nm: "h_name (heap s' ! k) = name"
    and alt: "(k = length (heap s) \<and> abs_pool s' = p_new (abs_pool s) \<and> (\<forall>j \<in> listed s. h_name (heap s ! j) \<noteq> name)) \<or>
         (k \<in> listed s \<and> h_name (heap s ! k) = name \<and> abs_pool s' = p_acquire k (abs_pool s))"
    by (rule Get_sim [OF R(1,2) g])
  then have kh: "k = h" by simp
  note alt = alt [unfolded kh]
  have inv': "pool_inv (abs_pool s')"
    using alt pool_inv_new [OF R(2)] pool_inv_acquire [OF R(2), of h] by fastforce
  have away: "h \<notin> set (lru_order s')" "h \<notin> set (spawned s')"
    if "0 < h_runners (heap s' ! h)" "h < length (heap s')"
    using pool_invD(8,9)[OF inv', of h] that by auto
  show ?thesis
    using alt
  proof
    assume n: "h = length (heap s) \<and> abs_pool s' = p_new (abs_pool s) \<and> (\<forall>j \<in> listed s. h_name (heap s ! j) \<noteq> name)"
    note N = abs_new_fields [OF n [THEN conjunct2, THEN conjunct1]]
    have "h_runners (heap s' ! h) = 1" "h < length (heap s')" using N(1) N(2)[of h] n by auto
    with away n g nm kh N show ?thesis by (intro exI [of _ h] exI [of _ s']) auto
  next
    assume n: "h \<in> listed s \<and> h_name (heap s ! h) = name \<and> abs_pool s' = p_acquire h (abs_pool s)"
    then have hl: "h < length (heap s)" using listed_bound [OF R(1)] by blast
    note N = abs_acquire_fields [OF n [THEN conjunct2, THEN conjunct2] hl]
    have "0 \<le> h_runners (heap s ! h)" using pool_invD(2)[OF R(2), of h] hl by simp
    then have "0 < h_runners (heap s' ! h)" "h < length (heap s')" using N(1) N(2)[of h] hl by auto
    with away have "h \<notin> set (lru_order s')" "h \<notin> set (spawned s')" by auto
    moreover have ex: "\<exists>k \<in> listed s. h_name (heap s ! k) = name" using n by blast
    ultimately show ?thesis
      unfolding if_P [OF ex] using n g nm kh N hl by (intro exI [of _ h] exI [of _ s']) auto
  qed
qed

text \<open>The handler of \<open>f\<close>, idle after its first request, is taken for the second.\<close>

theorem Get_takes_handler_witness:
  "\<exists>h s'. Get ex_pull ''f'' ex_idle = (Ret (Inr h), s') \<and> h \<in> listed ex_idle \<and> h \<notin> set (lru_order s')"
proof -
  have u: "unlocked ex_idle" by code_simp
  have "case hmMap ex_idle ''f'' of None \<Rightarrow> False
      | Some hm \<Rightarrow> \<not> hm_locked hm \<and> 0 \<in> set (contents (hm_handlers hm))" by code_simp
  then obtain hm where hm: "hmMap ex_idle ''f'' = Some hm" "\<not> hm_locked hm" "0 \<in> set (contents (hm_handlers hm))"
    by (auto split: option.splits)
  have "h_name (heap ex_idle ! 0) = ''f''" by code_simp
  with hm have l: "\<exists>k \<in> listed ex_idle. h_name (heap ex_idle ! k) = ''f''"
    by (intro bexI [of _ 0]) (auto simp: listed_def)
  have m: "\<forall>hm. hmMap ex_idle ''f'' = Some hm \<longrightarrow> \<not> hm_locked hm" using hm(1,2) by simp
  show ?thesis
    using Get_takes_handler [where pull = ex_pull, OF ex_idle_reachable order_refl u m ex_pull_def [of "''f''"]] unfolding if_P [OF l] by blast
qed

subsection \<open>RunFinish\<close>

lemma AddHandler_returns:
  assumes "hms_wf s" and "h < length (heap s)" and "unlocked s"
  shows "\<exists>s'. AddHandler h s = (Ret (), s')"
  using hms_wfD(3)[OF assms(1,2)] unlockedD(3)[OF assms(3,2)] by (auto simp: AddHandler_def)

lemma rested_unlocked: "unlocked s \<Longrightarrow> unlocked (upd_handler h (rested ops) s)"
  by (cases "h < length (heap s)") (auto simp: unlocked_def list_all_length nth_list_update_if list_update_beyond)

lemma RunFinish_keeps_handler:
  assumes wf: "hms_wf s" and inv: "pool_inv (abs_pool s)" and free: "unlocked s"
    and h: "h < length (heap s)" and r: "h_runners (heap s ! h) = 1" and c: "h_sandbox (heap s ! h) = Some c"
    and u1: "handlerUsage ops rf1 (rested ops (heap s ! h)) = Ret u1" and le: "u1 \<le> soft_limit (lru s)"
    and u2: "handlerUsage ops rf2 (rested ops (heap s ! h)) = Ret u2"
  shows "\<exists>s'. RunFinish ops rf1 rf2 now h s = (Ret (), s') \<and> abs_pool s' = p_release h (abs_pool s) \<and>
              heap s' ! h = (rested ops (heap s ! h))\<lparr>h_usage := u2\<rparr>"
proof -
  let ?s2 = "upd_handler h (rested ops) s"
  have cn: "h_sandbox (heap s ! h) \<noteq> None" using c by simp
  have wf2: "hms_wf ?s2" by (rule rested_wf [OF wf cn])
  obtain s3 where a: "AddHandler h ?s2 = (Ret (), s3)"
    using AddHandler_returns [OF wf2 _ rested_unlocked [OF free]] h by fastforce
  have A': "h < length (heap ?s2)" "maxRunners ?s2 \<noteq> 0 \<Longrightarrow>
      h_runners (heap ?s2 ! h) = maxRunners ?s2 - 1 \<Longrightarrow> h \<notin> listed ?s2"
    using runner_was_full [OF inv h] h r by auto
  note A = AddHandler_sim [OF wf2 A'(1) a A'(2)]
  have hp: "heap s3 ! h = rested ops (heap s ! h)" "h < length (heap s3)" using A(2) h by auto
  have "h \<notin> set (lru_order s3)"
    using pool_invD(8)[OF inv, of h] h r A(3) by (simp add: lru_order_def)
  then obtain b s' where l: "lru_Add ops rf2 now h s3 = (Ret b, s')"
    and hp': "heap s' = (heap s3)[h := (heap s3 ! h)\<lparr>h_usage := u2\<rparr>]"
    using lru_Add_effect [OF hms_wfD(1)[OF A(1)] _ hp(2)] u2 hp(1) by metis
  have "RunFinish ops rf1 rf2 now h s = (Ret (), s')"
    using a l u1 le r c h unlockedD(2)[OF free h]
    by (simp add: RunFinish_def RunFinish_locked_def Let_def)
  then show ?thesis
    using RunFinish_release(2)[OF wf inv h r cn a l] hp' hp by simp
qed

lemma RunFinish_drops_handler:
  assumes wf: "hms_wf s" and inv: "pool_inv (abs_pool s)" and free: "unlocked s"
    and h: "h < length (heap s)" and r: "h_runners (heap s ! h) = 1" and c: "h_sandbox (heap s ! h) = Some c"
    and u1: "handlerUsage ops rf1 (rested ops (heap s ! h)) = Ret u1" and gt: "soft_limit (lru s) < u1"
  shows "\<exists>s'. RunFinish ops rf1 rf2 now h s = (Ret (), s') \<and> abs_pool s' = p_discard h (abs_pool s) \<and>
              heap s' ! h = rested ops (heap s ! h)"
proof -
  let ?s2 = "upd_handler h (rested ops) s"
  have cn: "h_sandbox (heap s ! h) \<noteq> None" using c by simp
  have wf2: "hms_wf ?s2" by (rule rested_wf [OF wf cn])
  have free2: "unlocked ?s2" by (rule rested_unlocked [OF free])
  obtain hm where hm: "hmMap ?s2 (h_name (heap ?s2 ! h)) = Some hm" using hms_wfD(3)[OF wf2, of h] h by auto
  obtain s3 where t: "TryRemoveHandler h ?s2 = (Ret None, s3)"
    using hm unlockedD(2)[OF free2, of h] unlockedD(3)[OF free2 _ hm] h r
    by (cases "hm_hElements hm h") (auto simp: TryRemoveHandler_def)
  let ?s' = "s3\<lparr>spawned := h # spawned s3\<rparr>"
  have rem: "RunFinish_remove h ?s2 = (Ret (), ?s')" using t by (simp add: RunFinish_remove_def)
  have "RunFinish ops rf1 rf2 now h s = (Ret (), ?s')"
    using rem u1 gt r c h unlockedD(2)[OF free h]
    by (simp add: RunFinish_def RunFinish_locked_def Let_def)
  then show ?thesis
    using RunFinish_discard(2)[OF wf inv h r cn rem] TryRemoveHandler_sim(2)[OF wf2 _ t] h by simp
qed



end
