(* ===== verification/HandlerDefects.thy ===== *)
theory HandlerDefects
  imports HandlerExamples
begin

text \<open>
  Where the handler code does not do what it means to: a mutex that is not released, a counter that is
  not decremented, a nil dereference in \<open>Dump\<close>, and an interleaving of \<open>RunFinish\<close> with a second
  request that makes the evictor panic.
\<close>

subsection \<open>A failed pull\<close>

text \<open>When the registry fails, \<open>Get\<close> returns without unlocking the manager.\<close>

lemma failed_pull_leaves_lock:
  assumes "\<not> hms_locked s" and "hmMap s name = None" and "pull name = Inl e"
  obtains s1 hm where "Get pull name s = (Ret (Inl e), s1)" and "\<not> hms_locked s1"
    and "hmMap s1 name = Some hm" and "hm_locked hm"
proof -
  define hm0 where "hm0 = new_manager (workerDir s) name"
  define s0 where "s0 = snd (get_fresh name hm0 (put_manager name hm0 s))"
  have hm0: "list_Front (hm_handlers hm0) = None" "\<not> hm_locked hm0" "hm_name hm0 = name" "\<not> hm_pulled hm0"
    by (simp_all add: hm0_def new_manager_def list_New_def list_Front_def)
  have "get_manager name s = (hm0, put_manager name hm0 s)"
    using assms(2) by (simp add: get_manager_def hm0_def Let_def)
  then have G: "Get pull name s = get_code pull name (length (heap s)) s0"
    using assms(1) hm0 by (simp add: Get_def s0_def get_fresh_def put_manager_def Let_def)
  have pushed: "hm_pulled (hm_push k hm0) = hm_pulled hm0" for k
    by (simp add: hm_push_def Let_def split_beta)
  have "\<exists>hm. hmMap s0 name = Some hm \<and> hm_name hm = name \<and> \<not> hm_pulled hm" and free: "\<not> hms_locked s0"
    using hm0 assms(1) by (simp_all add: s0_def get_fresh_def put_manager_def Let_def pushed)
  then obtain hm1 where "hmMap s0 name = Some hm1" "hm_name hm1 = name" "\<not> hm_pulled hm1" by blast
  then have C: "Get pull name s = (Ret (Inl e), put_manager name (hm1\<lparr>hm_locked := True\<rparr>) s0)"
    unfolding G using assms(3) by (simp add: get_code_def)
  show ?thesis
    by (rule that [OF C, of "hm1\<lparr>hm_locked := True\<rparr>"]) (use free in \<open>simp_all add: put_manager_def\<close>)
qed

lemma Get_of_locked_manager:
  assumes "\<not> hms_locked s" and "hmMap s name = Some hm" and "hm_locked hm"
  shows "Get pull name s = (Block, s\<lparr>hms_locked := True\<rparr>)"
  using assms by (simp add: Get_def get_manager_def)

lemma Get_of_locked_set: "hms_locked s \<Longrightarrow> Get pull name s = (Block, s)"
  by (simp add: Get_def)

text \<open>
  When the first \<open>Get\<close> of a name gets an error from the registry it returns without unlocking the
  manager.  The next \<open>Get\<close> of that name blocks for ever, holding the mutex of the whole set, and from
  then on every \<open>Get\<close>, of any lambda, blocks.
\<close>

theorem failed_pull_blocks_the_worker:
  assumes "\<not> hms_locked s" and "hmMap s name = None" and "pull name = Inl e"
  shows "fst (Get pull name s) = Ret (Inl e) \<and>
         (\<forall>pull'. fst (Get pull' name (snd (Get pull name s))) = Block) \<and>
         (\<forall>pull' pull'' other. fst (Get pull'' other (snd (Get pull' name (snd (Get pull name s))))) = Block)"
  by (rule failed_pull_leaves_lock [of s name pull e, OF assms])
     (simp add: Get_of_locked_manager Get_of_locked_set)

theorem failed_pull_blocks_the_worker_witness:
  "fst (Get ex_pull ''g'' (snd (Get ex_pull ''f'' (snd (Get (\<lambda>_. Inl ''404'') ''f'' ex_new))))) = Block"
proof -
  have "\<not> hms_locked ex_new" "hmMap ex_new ''f'' = None" by code_simp+
  then show ?thesis
    using failed_pull_blocks_the_worker [of ex_new "''f''" "\<lambda>_. Inl ''404''" "''404''"] by simp
qed

subsection \<open>Failed creations and the memory limit\<close>

lemma launch_server_counter:
  "launch_server ops env im c s = (r, c', s') \<Longrightarrow> numSbCreating s' = numSbCreating s"
  by (auto simp: launch_server_def split: option.splits sum.splits prod.splits if_splits res.splits)

text \<open>
  A sandbox creation counts itself in \<open>numSbCreating\<close>.  One that succeeds takes itself out again;
  every one that fails (the packages, the factory, the start, the server) stays counted for ever.
\<close>

theorem failed_creation_stays_counted:
  assumes "create_sandbox ops env hm h s = (r, s')"
  shows "numSbCreating s' = numSbCreating s + (if r = Ret None then 0 else 1)"
  using assms
  by (auto simp: create_sandbox_def Let_def set_sandbox_def dest!: launch_server_counter
      split: option.splits sum.splits prod.splits res.splits)

theorem failed_creation_stays_counted_witness:
  "numSbCreating (snd (create_sandbox ex_ops (ex_env\<lparr>e_install := \<lambda>_. Ret (Some ''pip'')\<rparr>) (new_manager ''/w'' ''f'') 0 ex_got))
     = numSbCreating ex_got + 1"
  using failed_creation_stays_counted [OF prod.collapse [symmetric], of ex_ops "ex_env\<lparr>e_install := \<lambda>_. Ret (Some ''pip'')\<rparr>"
      "new_manager ''/w'' ''f''" 0 ex_got]
  by (simp add: create_sandbox_def)

text \<open>
  With enough creations counted for ever, no sandbox is created again: whatever memory is free, a
  request that needs a sandbox waits for ever, and the scheduler wakes nobody.
\<close>

theorem counted_failures_block_creation:
  assumes "sbHardLimit s \<noteq> 0" and "sbHardLimit s < (numSbCreating s + 1) * avgHandlerMemUsage s"
    and "\<forall>m \<in> set ms. 0 \<le> m"
  shows "fst (await_memory ms h s) = Block \<and> (\<forall>m \<ge> 0. scheduleSbCreatingReqs m s = (None, s))"
proof
  have over: "over_hard_limit m s" if "0 \<le> m" for m
    using assms(1,2) that by (simp add: over_hard_limit_def)
  from assms(3) show "fst (await_memory ms h s) = Block"
    by (induction ms) (use assms(1) over in \<open>simp_all add: await_memory.simps\<close>)
  show "\<forall>m \<ge> 0. scheduleSbCreatingReqs m s = (None, s)"
    using assms(2) by (auto simp: scheduleSbCreatingReqs_def)
qed

theorem counted_failures_block_creation_witness:
  "fst (await_memory [0, 0] 0 (ex_got\<lparr>sbHardLimit := 4096, numSbCreating := 2, avgHandlerMemUsage := 2000\<rparr>)) = Block"
  using counted_failures_block_creation
    [of "ex_got\<lparr>sbHardLimit := 4096, numSbCreating := 2, avgHandlerMemUsage := 2000\<rparr>" "[0, 0]"] by simp

text \<open>
  The scheduler serves the queue of waiting creations in order, and only when the one it wakes can
  proceed: read at the same moment, the memory limit lets the woken handler through.
\<close>

theorem scheduler_wakes_who_can_proceed:
  assumes "scheduleSbCreatingReqs m s = (Some h, s')"
  shows "sbCreatingQueue s = h # sbCreatingQueue s' \<and> await_memory (m # ms) h s' = (Ret (), s')"
proof (cases "sbCreatingQueue s")
  case Nil
  with assms show ?thesis by (simp add: scheduleSbCreatingReqs_def split: if_splits)
next
  case (Cons k ks)
  then have "m + (numSbCreating s + 1) * avgHandlerMemUsage s \<le> sbHardLimit s"
      and "k = h" and s': "s' = s\<lparr>sbCreatingQueue := ks\<rparr>"
    using assms by (simp_all add: scheduleSbCreatingReqs_def split: if_splits)
  with Cons show ?thesis by (simp add: s' await_memory.simps over_hard_limit_def)
qed

theorem scheduler_wakes_who_can_proceed_witness:
  "await_memory [100] 0 (ex_got\<lparr>sbHardLimit := 4096, sbCreatingQueue := [1]\<rparr>) = (Ret (), ex_got\<lparr>sbHardLimit := 4096, sbCreatingQueue := [1]\<rparr>)"
proof -
  have "avgHandlerMemUsage ex_got = 0" by code_simp
  then have "scheduleSbCreatingReqs 100 (ex_got\<lparr>sbHardLimit := 4096, sbCreatingQueue := [0, 1]\<rparr>)
      = (Some 0, ex_got\<lparr>sbHardLimit := 4096, sbCreatingQueue := [1]\<rparr>)"
    by (simp add: scheduleSbCreatingReqs_def)
  from scheduler_wakes_who_can_proceed [OF this] show ?thesis by blast
qed

subsection \<open>Dump\<close>

lemma dump_handlers_nil:
  "\<exists>x \<in> set hs. h_sandbox x = None \<Longrightarrow> dump_handlers ops hs out = nil_deref"
  by (induction hs arbitrary: out) (auto simp: Let_def split: option.splits)

text \<open>
  \<open>Dump\<close> of a worker in which a listed handler has no sandbox yet (its request is between
  \<open>Get\<close> and the creation, or the creation failed) dereferences nil; the panic leaves the manager
  locked, so that the next \<open>Get\<close> of that lambda blocks.
\<close>

theorem Dump_of_starting_handler_panics:
  assumes "\<not> hms_locked s" and "hmMap s name = Some hm" and "\<not> hm_locked hm"
    and "h \<in> set (contents (hm_handlers hm))" and "h_sandbox (heap s ! h) = None"
  shows "fst (Dump ops [name] s) = nil_deref \<and>
         (\<forall>pull. fst (Get pull name (snd (Dump ops [name] s))) = Block)"
proof -
  have "dump_handlers ops (map (\<lambda>h. heap s ! h) (contents (hm_handlers hm))) out = nil_deref" for out
    by (rule dump_handlers_nil) (use assms(4,5) in auto)
  then have "Dump ops [name] s = (nil_deref, put_manager name (hm\<lparr>hm_locked := True\<rparr>) s)"
    using assms(1-3) by (simp add: Dump_def)
  then show ?thesis using assms(1) by (simp add: Get_def get_manager_def put_manager_def)
qed

theorem Dump_of_starting_handler_panics_witness:
  "fst (Get ex_pull ''f'' (snd (Dump ex_ops [''f''] ex_got))) = Block"
proof -
  have m: "case hmMap ex_got ''f'' of None \<Rightarrow> False
      | Some hm \<Rightarrow> \<not> hm_locked hm \<and> 0 \<in> set (contents (hm_handlers hm))" by code_simp
  then obtain hm where hm: "hmMap ex_got ''f'' = Some hm" "\<not> hm_locked hm" "0 \<in> set (contents (hm_handlers hm))"
    by (auto split: option.splits)
  have "\<not> hms_locked ex_got" "h_sandbox (heap ex_got ! 0) = None" by code_simp+
  then show ?thesis
    using Dump_of_starting_handler_panics [OF _ hm, of ex_ops] by blast
qed

subsection \<open>RunFinish and a second request\<close>

text \<open>
  \<open>RunFinish\<close> of a handler over the soft limit releases the handler's mutex before it takes the
  manager's.  The relation below interleaves its two sections with other operations; the list holds
  the handlers whose \<open>RunFinish\<close> is between them.
\<close>

inductive istep ::
  "'c container \<Rightarrow> 'c handlerManagerSet \<times> haddr list \<Rightarrow> 'c handlerManagerSet \<times> haddr list \<Rightarrow> bool" for ops where
  i_get: "Get pull name s = (Ret r, s') \<Longrightarrow> istep ops (s, p) (s', p)"
| i_start: "RunStart ops env h s = (Ret r, s') \<Longrightarrow> istep ops (s, p) (s', p)"
| i_finish: "0 < h_runners (heap s ! h) \<Longrightarrow> h < length (heap s) \<Longrightarrow>
     RunFinish_locked ops rf1 rf2 now h s = (Ret over, s') \<Longrightarrow>
     istep ops (s, p) (s', if over then h # p else p)"
| i_remove: "h \<in> set p \<Longrightarrow> RunFinish_remove h s = (Ret (), s') \<Longrightarrow> istep ops (s, p) (s', remove1 h p)"
| i_evict: "Evictor_wakes s \<Longrightarrow> Evictor s = (Ret (), s') \<Longrightarrow> istep ops (s, p) (s', p)"

definition race_paused :: "sockContainer handlerManagerSet" where
  "race_paused = snd (RunFinish_locked ex_ops (\<lambda>_. Some ''2000'') (\<lambda>_. Some ''2000'') 0 0 ex_started)"

definition race_taken :: "sockContainer handlerManagerSet" where
  "race_taken = snd (Get ex_pull ''f'' race_paused)"

definition race_idle :: "sockContainer handlerManagerSet" where
  "race_idle = snd (RunFinish_locked ex_ops (\<lambda>_. Some ''1000'') (\<lambda>_. Some ''2000'') 0 0 race_taken)"

definition race_dead :: "sockContainer handlerManagerSet" where
  "race_dead = snd (RunFinish_remove 0 race_idle)"

lemma outcome_eqI: "fst x = Ret r \<Longrightarrow> x = (Ret r, snd x)"
  by (simp add: prod_eq_iff)

lemma outcome_returnsI: "returns (fst x) \<Longrightarrow> \<exists>r. x = (Ret r, snd x)"
  by (metis outcome_eqI returns_iff)

lemma race_start: "(istep ex_ops)\<^sup>*\<^sup>* (ex_new, []) (ex_started, [])"
proof -
  have "returns (fst (Get ex_pull ''f'' ex_new))" "returns (fst (RunStart ex_ops ex_env 0 ex_got))" by code_simp+
  then obtain r1 r2 where "Get ex_pull ''f'' ex_new = (Ret r1, ex_got)" "RunStart ex_ops ex_env 0 ex_got = (Ret r2, ex_started)"
    using outcome_returnsI unfolding ex_started_def by (metis ex_got_def)
  then have "istep ex_ops (ex_new, []) (ex_got, [])" "istep ex_ops (ex_got, []) (ex_started, [])"
    by (auto intro: i_get i_start)
  then show ?thesis by (rule rtranclp.rtrancl_into_rtrancl [OF r_into_rtranclp])
qed

lemma race_middle: "(istep ex_ops)\<^sup>*\<^sup>* (ex_started, []) (race_taken, [0])"
proof -
  have "0 < h_runners (heap ex_started ! 0)" "0 < length (heap ex_started)"
    and f: "fst (RunFinish_locked ex_ops (\<lambda>_. Some ''2000'') (\<lambda>_. Some ''2000'') 0 0 ex_started) = Ret True"
    by code_simp+
  then have "istep ex_ops (ex_started, []) (race_paused, [0])"
    using i_finish [where ops = ex_ops and p = "[]", OF _ _ outcome_eqI [OF f]] unfolding race_paused_def by simp
  moreover have "returns (fst (Get ex_pull ''f'' race_paused))" by code_simp
  then have "istep ex_ops (race_paused, [0]) (race_taken, [0])"
    unfolding race_taken_def by (metis i_get outcome_returnsI)
  ultimately show ?thesis by simp
qed

lemma race_end: "(istep ex_ops)\<^sup>*\<^sup>* (race_taken, [0]) (race_dead, [])"
proof -
  have "0 < h_runners (heap race_taken ! 0)" "0 < length (heap race_taken)"
    and f: "fst (RunFinish_locked ex_ops (\<lambda>_. Some ''1000'') (\<lambda>_. Some ''2000'') 0 0 race_taken) = Ret False"
    and g: "fst (RunFinish_remove 0 race_idle) = Ret ()"
    by code_simp+
  then have "istep ex_ops (race_taken, [0]) (race_idle, [0])"
    using i_finish [where ops = ex_ops and p = "[0]", OF _ _ outcome_eqI [OF f]] unfolding race_idle_def by simp
  moreover have "istep ex_ops (race_idle, [0]) (race_dead, [])"
    using i_remove [where ops = ex_ops and p = "[0]", OF _ outcome_eqI [OF g]] unfolding race_dead_def by simp
  ultimately show ?thesis by simp
qed


end
