(* ===== verification/IdleEvictor.thy ===== *)
theory IdleEvictor
  imports HandlerRefine
begin

text \<open>
  The evictor by idle time of one manager (\<open>NewHmHandlerLRU\<close>, \<open>evictLastHandler\<close> and
  \<open>EvictorByIdleTime\<close> of \<open>worker/handler/handlerLru.go\<close>): a list of idle handlers without a size
  limit, of which the older half goes every minute.  The code is complete but its only starter is
  commented out.  The usages are those of the handlers; the clock is an argument.
\<close>

record idle_lru =
  il_lru :: handlerLRU
  il_hm :: handlerManager
  il_spawned :: "haddr list"

definition NewHmHandlerLRU :: "handlerManager \<Rightarrow> idle_lru" where
  "NewHmHandlerLRU hm =
     \<lparr>il_lru = \<lparr>hmap = Map.empty, hqueue = list_New, soft_limit = 0, lru_size = 0, last_add_time = 0\<rparr>,
      il_hm = hm, il_spawned = []\<rparr>"

definition evictLastHandler :: "(haddr \<Rightarrow> int) \<Rightarrow> idle_lru \<Rightarrow> (idle_lru, unit) outcome" where
  "evictLastHandler usage s =
     (let l = il_lru s; hm = il_hm s in
      case list_Back (hqueue l) of
        None \<Rightarrow> (nil_deref, s)
      | Some entry \<Rightarrow>
          (case list_Value (hqueue l) entry of
             None \<Rightarrow> (nil_deref, s)
           | Some h \<Rightarrow>
               let s1 = s\<lparr>il_lru := l\<lparr>hqueue := snd (list_Remove entry (hqueue l)),
                                     hmap := (hmap l)(h := None), lru_size := lru_size l - usage h\<rparr>\<rparr>
               in if hm_locked hm then (Block, s1)
                  else
                    (case hm_hElements hm h of
                       None \<Rightarrow> (nil_deref, s1\<lparr>il_hm := hm\<lparr>hm_locked := True\<rparr>\<rparr>)
                     | Some hEle \<Rightarrow>
                         (Ret (), s1\<lparr>il_hm := hm\<lparr>hm_handlers := snd (list_Remove hEle (hm_handlers hm)),
                                                  hm_hElements := (hm_hElements hm)(h := None)\<rparr>,
                                     il_spawned := h # il_spawned s\<rparr>))))"

primrec evict_times :: "(haddr \<Rightarrow> int) \<Rightarrow> nat \<Rightarrow> idle_lru \<Rightarrow> (idle_lru, unit) outcome" where
  "evict_times usage 0 s = (Ret (), s)"
| "evict_times usage (Suc n) s =
     (case evictLastHandler usage s of
        (Ret _, s1) \<Rightarrow> evict_times usage n s1
      | (Panic m, s1) \<Rightarrow> (Panic m, s1)
      | (Exit m, s1) \<Rightarrow> (Exit m, s1)
      | (Block, s1) \<Rightarrow> (Block, s1))"

text \<open>One round, \<open>idle\<close> minutes after the last \<open>Add\<close>.\<close>

definition EvictorByIdleTime :: "(haddr \<Rightarrow> int) \<Rightarrow> int \<Rightarrow> idle_lru \<Rightarrow> (idle_lru, unit) outcome" where
  "EvictorByIdleTime usage idle s =
     (let len = list_Len (hqueue (il_lru s)) in
      if len \<le> 1
      then (if len = 1 \<and> 5 < idle then evictLastHandler usage s else (Ret (), s))
      else evict_times usage (nat (len div 2)) s)"

definition il_ok :: "idle_lru \<Rightarrow> bool" where
  "il_ok s \<longleftrightarrow>
     lm_ok (hqueue (il_lru s)) (hmap (il_lru s)) \<and> lm_ok (hm_handlers (il_hm s)) (hm_hElements (il_hm s)) \<and>
     set (contents (hqueue (il_lru s))) \<subseteq> set (contents (hm_handlers (il_hm s))) \<and> \<not> hm_locked (il_hm s)"

abbreviation il_queue :: "idle_lru \<Rightarrow> haddr list" where
  "il_queue s \<equiv> contents (hqueue (il_lru s))"

abbreviation il_handlers :: "idle_lru \<Rightarrow> haddr list" where
  "il_handlers s \<equiv> contents (hm_handlers (il_hm s))"

lemma evictLastHandler_effect:
  assumes ok: "il_ok s" and ne: "il_queue s \<noteq> []"
  obtains s' where "evictLastHandler usage s = (Ret (), s')" and "il_ok s'"
    and "il_queue s' = butlast (il_queue s)"
    and "il_handlers s' = remove1 (last (il_queue s)) (il_handlers s)"
    and "il_spawned s' = last (il_queue s) # il_spawned s"
proof -
  let ?h = "last (il_queue s)"
  note lq = ok [unfolded il_ok_def, THEN conjunct1]
  note lh = ok [unfolded il_ok_def, THEN conjunct2, THEN conjunct1]
  have sub: "set (il_queue s) \<subseteq> set (il_handlers s)" and free: "\<not> hm_locked (il_hm s)"
    using ok by (simp_all add: il_ok_def)
  have mem: "?h \<in> set (il_queue s)" using ne by simp
  obtain e where e: "hmap (il_lru s) ?h = Some e" using lm_lookup [OF lq, of ?h] mem by auto
  obtain e' where e': "hm_hElements (il_hm s) ?h = Some e'"
    using lm_lookup [OF lh, of ?h] mem sub by auto
  have bk: "list_Back (hqueue (il_lru s)) = Some e" using lm_back [OF lq] ne e by simp
  obtain s' where ev: "evictLastHandler usage s = (Ret (), s')"
    and q': "hqueue (il_lru s') = snd (list_Remove e (hqueue (il_lru s)))" "hmap (il_lru s') = (hmap (il_lru s))(?h := None)"
    and h': "hm_handlers (il_hm s') = snd (list_Remove e' (hm_handlers (il_hm s)))"
      "hm_hElements (il_hm s') = (hm_hElements (il_hm s))(?h := None)" "hm_locked (il_hm s') = hm_locked (il_hm s)"
    and sp: "il_spawned s' = ?h # il_spawned s"
    using bk lm_value [OF lq e] e' free by (simp add: evictLastHandler_def Let_def)
  have dq: "distinct (il_queue s)" "distinct (il_handlers s)"
    using lm_contents_distinct lq lh by blast+
  have Q: "il_queue s' = butlast (il_queue s)"
    using contents_remove [OF lq e] remove1_last [OF ne dq(1)] by (simp add: q')
  have H: "il_handlers s' = remove1 ?h (il_handlers s)" using contents_remove [OF lh e'] by (simp add: h')
  have "set (butlast (il_queue s)) \<subseteq> set (il_handlers s) - {?h}"
    using remove1_last [OF ne dq(1)] dq(1) sub by (metis Diff_mono distinct_remove1_set order_refl)
  then have "il_ok s'"
    unfolding il_ok_def Q H using lm_remove [OF lq e] lm_remove [OF lh e'] free dq(2) by (simp add: q' h')
  then show thesis by (rule that [OF ev _ Q H sp])
qed

lemma evict_times_effect:
  assumes "il_ok s" and "n \<le> length (il_queue s)"
  shows "\<exists>s'. evict_times usage n s = (Ret (), s') \<and> il_ok s' \<and>
           il_queue s' = take (length (il_queue s) - n) (il_queue s) \<and>
           il_spawned s' = drop (length (il_queue s) - n) (il_queue s) @ il_spawned s \<and>
           set (il_handlers s') = set (il_handlers s) - set (drop (length (il_queue s) - n) (il_queue s))"
  using assms
proof (induction n arbitrary: s)
  case (Suc n)
  let ?q = "il_queue s"
  have ne: "?q \<noteq> []" using Suc.prems(2) by auto
  obtain s1 where s1: "evictLastHandler usage s = (Ret (), s1)" "il_ok s1" "il_queue s1 = butlast ?q"
      "il_handlers s1 = remove1 (last ?q) (il_handlers s)" "il_spawned s1 = last ?q # il_spawned s"
    by (rule evictLastHandler_effect [OF Suc.prems(1) ne])
  have dh: "distinct (il_handlers s)"
    using Suc.prems(1) lm_contents_distinct by (auto simp: il_ok_def)
  have len: "length (il_queue s1) - n = length ?q - Suc n" and le: "n \<le> length (il_queue s1)"
    using Suc.prems(2) s1(3) by auto
  obtain k where k: "length ?q - Suc n = k" "k < length ?q" using Suc.prems(2) by auto
  have split: "drop k ?q = drop k (butlast ?q) @ [last ?q]"
    using k(2) ne by (cases ?q rule: rev_cases) auto
  have tk: "take k (butlast ?q) = take k ?q" using k(2) by (simp add: take_butlast)
  note IH = Suc.IH [OF s1(2) le, unfolded len k(1), unfolded s1(3-5) tk distinct_remove1_set [OF dh]]
  from IH obtain s' where "evict_times usage n s1 = (Ret (), s')" "il_ok s'"
      "il_queue s' = take k ?q" "il_spawned s' = drop k (butlast ?q) @ last ?q # il_spawned s"
      "set (il_handlers s') = set (il_handlers s) - {last ?q} - set (drop k (butlast ?q))"
    by blast
  then show ?case using s1(1) by (intro exI [of _ s']) (auto simp: k(1) split)
qed simp

text \<open>
  One round of the evictor by idle time on a well-formed list always returns.  It gives up the
  older half of the idle handlers, or the only one once it has been idle for more than five minutes,
  oldest first, takes exactly these out of the manager, and keeps the order of the others.
\<close>

theorem EvictorByIdleTime_evicts_older_half:
  assumes "il_ok s"
  shows "\<exists>s' k. k = (if length (il_queue s) = 1 then (if 5 < idle then 1 else 0) else length (il_queue s) div 2) \<and>
           EvictorByIdleTime usage idle s = (Ret (), s') \<and> il_ok s' \<and>
           il_queue s' = take (length (il_queue s) - k) (il_queue s) \<and>
           il_spawned s' = drop (length (il_queue s) - k) (il_queue s) @ il_spawned s \<and>
           set (il_handlers s') = set (il_handlers s) - set (drop (length (il_queue s) - k) (il_queue s))"
proof -
  define k where "k = (if length (il_queue s) = 1 then (if 5 < idle then 1 else 0) else length (il_queue s) div 2)"
  have one: "evictLastHandler usage s = evict_times usage 1 s"
    by (simp split: prod.splits res.splits)
  have "EvictorByIdleTime usage idle s = evict_times usage k s"
    using one by (auto simp: EvictorByIdleTime_def Let_def list_Len_contents nat_div_distrib k_def)
  moreover have "k \<le> length (il_queue s)" by (simp add: k_def)
  ultimately show ?thesis using evict_times_effect [OF assms, of k usage] unfolding k_def by auto
qed

definition ex_queue :: "haddr golist \<times> (haddr \<rightharpoonup> nat)" where
  "ex_queue = lm_push_front 2 (lm_push_front 1 (lm_push_front 0 (list_New, Map.empty)))"

definition ex_il :: idle_lru where
  "ex_il =
     \<lparr>il_lru = \<lparr>hmap = snd ex_queue, hqueue = fst ex_queue, soft_limit = 0, lru_size = 0, last_add_time = 0\<rparr>,
      il_hm = (new_manager ''/w'' ''f'')\<lparr>hm_handlers := fst ex_queue, hm_hElements := snd ex_queue\<rparr>,
      il_spawned = []\<rparr>"

theorem EvictorByIdleTime_evicts_older_half_witness:
  "\<exists>s'. EvictorByIdleTime (\<lambda>_. 0) 1 ex_il = (Ret (), s') \<and> il_queue s' = [2, 1] \<and> il_spawned s' = [0]"
proof -
  have "lm_ok (fst ex_queue) (snd ex_queue)"
    unfolding ex_queue_def by (intro lm.invar_push) (simp_all add: lm.keys_push lm.invar_push)
  then have "il_ok ex_il" by (simp add: il_ok_def ex_il_def new_manager_def)
  moreover have "il_queue ex_il = [2, 1, 0]" "il_spawned ex_il = []" by code_simp+
  ultimately show ?thesis
    using EvictorByIdleTime_evicts_older_half [of ex_il 1 "\<lambda>_. 0"] by auto
qed

end
