(* ===== verification/GoFloat.thy ===== *)
theory GoFloat
  imports Complex_Main
begin

text \<open>
  Go's \<open>float64\<close> as far as the sources use it: conversion from integers, addition, multiplication,
  division and comparison.  A finite value is a rational number with exact arithmetic (rounding and the
  sign of zero are not modelled); the infinities and NaN behave as IEEE 754 says, in particular for
  division by zero and for comparisons.
\<close>

datatype float64 = Fin rat | PInf | NInf | NaN

definition float_of :: "int \<Rightarrow> float64" where
  "float_of n = Fin (of_int n)"

fun fadd :: "float64 \<Rightarrow> float64 \<Rightarrow> float64" where
  "fadd (Fin a) (Fin b) = Fin (a + b)"
| "fadd NaN _ = NaN"
| "fadd _ NaN = NaN"
| "fadd PInf NInf = NaN"
| "fadd NInf PInf = NaN"
| "fadd PInf _ = PInf"
| "fadd _ PInf = PInf"
| "fadd NInf _ = NInf"
| "fadd _ NInf = NInf"

definition finf :: "rat \<Rightarrow> float64" where
  "finf a = (if a = 0 then NaN else if 0 < a then PInf else NInf)"

fun fdiv :: "float64 \<Rightarrow> float64 \<Rightarrow> float64" where
  "fdiv (Fin a) (Fin b) = (if b = 0 then finf a else Fin (a / b))"
| "fdiv (Fin a) PInf = Fin 0"
| "fdiv (Fin a) NInf = Fin 0"
| "fdiv PInf (Fin b) = (if b < 0 then NInf else PInf)"
| "fdiv NInf (Fin b) = (if b < 0 then PInf else NInf)"
| "fdiv _ _ = NaN"

text \<open>\<open>a < b\<close> in Go: false as soon as one side is NaN.\<close>

fun flt :: "float64 \<Rightarrow> float64 \<Rightarrow> bool" where
  "flt NaN _ = False"
| "flt _ NaN = False"
| "flt (Fin a) (Fin b) = (a < b)"
| "flt NInf b = (b \<noteq> NInf)"
| "flt _ NInf = False"
| "flt (Fin a) PInf = True"
| "flt PInf _ = False"

lemma flt_PInf_iff: "flt x PInf \<longleftrightarrow> x = NInf \<or> (\<exists>a. x = Fin a)"
  by (cases x) auto

lemma flt_trans: "flt x y \<Longrightarrow> flt y z \<Longrightarrow> flt x z"
  by (cases x; cases y; cases z) auto

lemma flt_irrefl [simp]: "\<not> flt x x"
  by (cases x) auto

lemma flt_cotrans: "flt x y \<Longrightarrow> z \<noteq> NaN \<Longrightarrow> flt x z \<or> flt z y"
  by (cases x; cases y; cases z) auto

lemma fdiv_zero: "fdiv (Fin a) (Fin 0) = finf a"
  by simp

text \<open>A nonnegative count divided by zero never compares below positive infinity.\<close>

lemma count_by_zero_not_less: "0 \<le> a \<Longrightarrow> \<not> flt (fdiv (Fin a) (Fin 0)) PInf"
  by (simp add: finf_def)

fun fneg :: "float64 \<Rightarrow> float64" where
  "fneg (Fin a) = Fin (- a)"
| "fneg PInf = NInf"
| "fneg NInf = PInf"
| "fneg NaN = NaN"

definition fsub :: "float64 \<Rightarrow> float64 \<Rightarrow> float64" where
  "fsub a b = fadd a (fneg b)"

fun fmul :: "float64 \<Rightarrow> float64 \<Rightarrow> float64" where
  "fmul (Fin a) (Fin b) = Fin (a * b)"
| "fmul (Fin a) PInf = finf a"
| "fmul (Fin a) NInf = fneg (finf a)"
| "fmul PInf (Fin b) = finf b"
| "fmul NInf (Fin b) = fneg (finf b)"
| "fmul PInf PInf = PInf"
| "fmul PInf NInf = NInf"
| "fmul NInf PInf = NInf"
| "fmul NInf NInf = PInf"
| "fmul _ _ = NaN"

text \<open>\<open>a >= b\<close> in Go, and \<open>math.Max\<close>.\<close>

definition fge :: "float64 \<Rightarrow> float64 \<Rightarrow> bool" where
  "fge a b = (flt b a \<or> a = b \<and> a \<noteq> NaN)"

definition math_Max :: "float64 \<Rightarrow> float64 \<Rightarrow> float64" where
  "math_Max a b =
     (if a = PInf \<or> b = PInf then PInf
      else if a = NaN \<or> b = NaN then NaN
      else if flt a b then b else a)"

end
