(* ===== verification/CacheMatcher.thy ===== *)
theory CacheMatcher
  imports OLPrelude GoFloat HandlerState "HOL-Library.AList"
begin

text \<open>
  Fork servers and the matcher of the import cache (\<open>worker/import-cache/forkServer.go\<close>,
  \<open>policy.go\<close> and \<open>subsetMatcher.go\<close>).  A fork server is an interpreter that has some packages
  imported and forks into the container of a lambda that needs them.

  The servers live in a heap and are named by their index.  The set of imports, a Go
  \<open>map[string]bool\<close>, is an association list without repeated keys, so that its length is Go's
  \<open>len\<close>.  \<open>fs_locked\<close> is the mutex left locked by a goroutine that has returned.
\<close>

type_synonym fsaddr = nat

record 'c forkServer =
  fs_Sandbox :: "'c option"
  fs_Pid :: string
  fs_SockPath :: string
  fs_Imports :: "(string \<times> bool) list"
  fs_Hits :: float64
  fs_Parent :: "fsaddr option"
  fs_Children :: int
  fs_Size :: float64
  fs_Dead :: bool
  fs_locked :: bool

definition has_import :: "(string \<times> bool) list \<Rightarrow> string \<Rightarrow> bool" where
  "has_import m k = (map_of m k = Some True)"

definition import_keys :: "'c forkServer \<Rightarrow> string set" where
  "import_keys f = fst ` set (fs_Imports f)"

definition imports_ok :: "'c forkServer \<Rightarrow> bool" where
  "imports_ok f \<longleftrightarrow> distinct (map fst (fs_Imports f)) \<and> (\<forall>kv \<in> set (fs_Imports f). snd kv)"

lemma has_import_iff: "imports_ok f \<Longrightarrow> has_import (fs_Imports f) k \<longleftrightarrow> k \<in> import_keys f"
  by (force simp: imports_ok_def has_import_def import_keys_def map_of_eq_Some_iff)

lemma length_imports: "imports_ok f \<Longrightarrow> length (fs_Imports f) = card (import_keys f)"
  unfolding imports_ok_def import_keys_def by (metis distinct_card length_map list.set_map)

subsection \<open>The interface\<close>

text \<open>
  What the cache manager relies on when it asks a matcher: it gets one of its servers, one that has
  imported nothing the lambda did not ask for, and the list of what is left to import.
\<close>

definition servers_ok :: "'c forkServer list \<Rightarrow> fsaddr list \<Rightarrow> bool" where
  "servers_ok hp srv \<longleftrightarrow>
     srv \<noteq> [] \<and> fs_Imports (hp ! hd srv) = [] \<and> (\<forall>i \<in> set srv. imports_ok (hp ! i))"

locale cache_matcher =
  fixes match :: "'c forkServer list \<Rightarrow> fsaddr list \<Rightarrow> string list \<Rightarrow> (fsaddr \<times> string list \<times> bool) res"
  assumes match_total:
    "servers_ok hp srv \<Longrightarrow> \<exists>fs tc hit. match hp srv imps = Ret (fs, tc, hit) \<and> fs \<in> set srv"
    and match_sound:
    "servers_ok hp srv \<Longrightarrow> distinct imps \<Longrightarrow> match hp srv imps = Ret (fs, tc, hit) \<Longrightarrow>
       import_keys (hp ! fs) \<subseteq> set imps \<and> set tc = set imps - import_keys (hp ! fs)"
begin

lemma match_covers:
  assumes "servers_ok hp srv" and "distinct imps" and "match hp srv imps = Ret (fs, tc, hit)"
  shows "import_keys (hp ! fs) \<union> set tc = set imps" and "import_keys (hp ! fs) \<subseteq> set imps"
  using match_sound [OF assms] by auto

lemma match_member:
  "servers_ok hp srv \<Longrightarrow> match hp srv imps = Ret (fs, tc, hit) \<Longrightarrow> fs \<in> set srv"
  using match_total [of hp srv imps] by auto

end

subsection \<open>SubsetMatcher\<close>

text \<open>The inner loop: the number of imports the server has, and the others in order.\<close>

fun match_score :: "(string \<times> bool) list \<Rightarrow> string list \<Rightarrow> int \<times> string list" where
  "match_score m [] = (0, [])"
| "match_score m (i # is) =
     (case match_score m is of (n, tc) \<Rightarrow> if has_import m i then (n + 1, tc) else (n, i # tc))"

text \<open>The outer loop over \<open>servers[1:]\<close>.\<close>

fun match_loop ::
  "'c forkServer list \<Rightarrow> string list \<Rightarrow> fsaddr list \<Rightarrow> fsaddr \<times> int \<times> string list \<Rightarrow> fsaddr \<times> int \<times> string list" where
  "match_loop hp imports [] best = best"
| "match_loop hp imports (s # ss) (best_fs, best_score, best_toCache) =
     (case match_score (fs_Imports (hp ! s)) imports of
        (matched, toCache) \<Rightarrow>
          if best_score < matched \<and> int (length (fs_Imports (hp ! s))) \<le> matched
          then match_loop hp imports ss (s, matched, toCache)
          else match_loop hp imports ss (best_fs, best_score, best_toCache))"

definition SubsetMatcher_Match ::
  "'c forkServer list \<Rightarrow> fsaddr list \<Rightarrow> string list \<Rightarrow> (fsaddr \<times> string list \<times> bool) res" where
  "SubsetMatcher_Match hp servers imports =
     (case servers of
        [] \<Rightarrow> Panic ''index out of range''
      | r0 # ss \<Rightarrow>
          (case match_loop hp imports ss (r0, - 1, imports) of
             (best_fs, best_score, best_toCache) \<Rightarrow> Ret (best_fs, best_toCache, best_score \<noteq> - 1)))"

lemma match_score_filter:
  "match_score m is = (int (length (filter (has_import m) is)), filter (\<lambda>i. \<not> has_import m i) is)"
  by (induction "is") auto

definition fits :: "'c forkServer list \<Rightarrow> string list \<Rightarrow> fsaddr \<Rightarrow> bool" where
  "fits hp imports s \<longleftrightarrow> length (fs_Imports (hp ! s)) \<le> length (filter (has_import (fs_Imports (hp ! s))) imports)"

definition score :: "'c forkServer list \<Rightarrow> string list \<Rightarrow> fsaddr \<Rightarrow> int" where
  "score hp imports s = int (length (filter (has_import (fs_Imports (hp ! s))) imports))"

text \<open>The loop as a search: the first fitting server with the largest score.\<close>

definition best_of :: "'c forkServer list \<Rightarrow> string list \<Rightarrow> fsaddr list \<Rightarrow> fsaddr \<times> int \<times> string list \<Rightarrow> fsaddr \<times> int \<times> string list \<Rightarrow> bool" where
  "best_of hp imports ss old new \<longleftrightarrow>
     (case (old, new) of ((b, n, t), (b', n', t')) \<Rightarrow>
        n \<le> n' \<and> (\<forall>s \<in> set ss. fits hp imports s \<longrightarrow> score hp imports s \<le> n') \<and>
        (if n' = n then (b', t') = (b, t)
         else b' \<in> set ss \<and> fits hp imports b' \<and> n' = score hp imports b' \<and>
              t' = filter (\<lambda>i. \<not> has_import (fs_Imports (hp ! b')) i) imports))"

lemma match_loop_best: "best_of hp imports ss old (match_loop hp imports ss old)"
proof (induction ss arbitrary: old)
  case Nil
  show ?case by (cases old) (simp add: best_of_def)
next
  case (Cons s ss)
  obtain b n t where old: "old = (b, n, t)" by (cases old)
  let ?new = "(s, score hp imports s, filter (\<lambda>i. \<not> has_import (fs_Imports (hp ! s)) i) imports)"
  have step: "match_loop hp imports (s # ss) old =
      match_loop hp imports ss (if n < score hp imports s \<and> fits hp imports s then ?new else old)"
    by (simp add: old match_score_filter score_def fits_def)
  show ?case
  proof (cases "n < score hp imports s \<and> fits hp imports s")
    case True
    with Cons.IH [of ?new] show ?thesis
      unfolding step by (auto simp: best_of_def old split: prod.splits if_splits)
  next
    case False
    with Cons.IH [of old] show ?thesis
      unfolding step by (auto simp: best_of_def old split: prod.splits if_splits)
  qed
qed

text \<open>For a list of imports without repetitions, a server fits when its imports are a subset.\<close>

lemma filter_has_import:
  assumes "imports_ok (hp ! s)" and "distinct imports"
  shows "length (filter (has_import (fs_Imports (hp ! s))) imports) = card (import_keys (hp ! s) \<inter> set imports)"
  using assms by (simp add: has_import_iff distinct_length_filter)

lemma finite_import_keys [simp]: "finite (import_keys f)"
  by (simp add: import_keys_def)

lemma fits_iff_subset:
  assumes "imports_ok (hp ! s)" and "distinct imports"
  shows "fits hp imports s \<longleftrightarrow> import_keys (hp ! s) \<subseteq> set imports"
proof -
  have "card (import_keys (hp ! s)) \<le> card (import_keys (hp ! s) \<inter> set imports) \<longleftrightarrow>
        import_keys (hp ! s) \<inter> set imports = import_keys (hp ! s)"
    by (metis card_seteq finite_import_keys inf_le1 order_refl)
  then show ?thesis
    unfolding fits_def filter_has_import [OF assms] length_imports [OF assms(1)] by blast
qed

lemma score_subset:
  assumes "imports_ok (hp ! s)" and "distinct imports" and "import_keys (hp ! s) \<subseteq> set imports"
  shows "score hp imports s = int (card (import_keys (hp ! s)))"
  using filter_has_import [OF assms(1,2)] assms(3) by (simp add: score_def inf.absorb1)

lemma Match_cases:
  assumes ok: "servers_ok hp srv" and d: "distinct imports"
    and m: "SubsetMatcher_Match hp srv imports = Ret (fs, tc, hit)"
  shows "hit \<longleftrightarrow> (\<exists>s \<in> set (tl srv). import_keys (hp ! s) \<subseteq> set imports)"
    and "hit \<Longrightarrow> fs \<in> set (tl srv) \<and> import_keys (hp ! fs) \<subseteq> set imports \<and>
           (\<forall>s \<in> set (tl srv). import_keys (hp ! s) \<subseteq> set imports \<longrightarrow> card (import_keys (hp ! s)) \<le> card (import_keys (hp ! fs))) \<and>
           set tc = set imports - import_keys (hp ! fs)"
    and "\<not> hit \<Longrightarrow> fs = hd srv \<and> tc = imports"
proof -
  obtain r0 ss where srv: "srv = r0 # ss" using ok by (cases srv) (auto simp: servers_ok_def)
  obtain n where L: "match_loop hp imports ss (r0, - 1, imports) = (fs, n, tc)" and hit: "hit \<longleftrightarrow> n \<noteq> - 1"
    using m by (auto simp: SubsetMatcher_Match_def srv split: prod.splits)
  have B: "\<forall>s \<in> set ss. fits hp imports s \<longrightarrow> score hp imports s \<le> n"
      "if n = - 1 then (fs, tc) = (r0, imports)
       else fs \<in> set ss \<and> fits hp imports fs \<and> n = score hp imports fs \<and>
            tc = filter (\<lambda>i. \<not> has_import (fs_Imports (hp ! fs)) i) imports"
    using match_loop_best [of hp "imports" ss "(r0, - 1, imports)"] by (auto simp: L best_of_def)
  have oks: "imports_ok (hp ! s)" if "s \<in> set ss" for s using ok that by (simp add: servers_ok_def srv)
  note F = fits_iff_subset [OF oks d] and S = score_subset [OF oks d]
  have pos: "0 \<le> score hp imports s" for s by (simp add: score_def)
  show no: "fs = hd srv \<and> tc = imports" if "\<not> hit"
    using B(2) hit that by (simp add: srv)
  have yes: "fs \<in> set ss \<and> fits hp imports fs \<and> n = score hp imports fs \<and>
      tc = filter (\<lambda>i. \<not> has_import (fs_Imports (hp ! fs)) i) imports" if "hit"
    using B(2) hit that by simp
  show "hit \<longleftrightarrow> (\<exists>s \<in> set (tl srv). import_keys (hp ! s) \<subseteq> set imports)"
  proof
    assume hit then show "\<exists>s \<in> set (tl srv). import_keys (hp ! s) \<subseteq> set imports"
      using yes F by (auto simp: srv)
  next
    assume "\<exists>s \<in> set (tl srv). import_keys (hp ! s) \<subseteq> set imports"
    then obtain s where "s \<in> set ss" "fits hp imports s" using F by (auto simp: srv)
    then have "score hp imports s \<le> n" using B(1) by blast
    then show hit using pos [of s] hit by auto
  qed
  show "fs \<in> set (tl srv) \<and> import_keys (hp ! fs) \<subseteq> set imports \<and>
      (\<forall>s \<in> set (tl srv). import_keys (hp ! s) \<subseteq> set imports \<longrightarrow> card (import_keys (hp ! s)) \<le> card (import_keys (hp ! fs))) \<and>
      set tc = set imports - import_keys (hp ! fs)" if h: hit
  proof (intro conjI ballI impI)
    show "fs \<in> set (tl srv)" "import_keys (hp ! fs) \<subseteq> set imports" using yes [OF h] F by (auto simp: srv)
    show "set tc = set imports - import_keys (hp ! fs)"
      using yes [OF h] has_import_iff [OF oks] by auto
    fix s assume s: "s \<in> set (tl srv)" "import_keys (hp ! s) \<subseteq> set imports"
    then have "score hp imports s \<le> n" using B(1) F by (auto simp: srv)
    then show "card (import_keys (hp ! s)) \<le> card (import_keys (hp ! fs))"
      using yes [OF h] S s F by (auto simp: srv)
  qed
qed

lemma Match_returns: "servers_ok hp srv \<Longrightarrow> \<exists>fs tc hit. SubsetMatcher_Match hp srv imports = Ret (fs, tc, hit)"
  by (cases srv) (auto simp: servers_ok_def SubsetMatcher_Match_def split: prod.splits)

lemma match_loop_member: "fst (match_loop hp imps ss (b, n, t)) \<in> insert b (set ss)"
proof -
  obtain b' n' t' where m: "match_loop hp imps ss (b, n, t) = (b', n', t')" by (metis prod_cases3)
  then show ?thesis using match_loop_best [of hp imps ss "(b, n, t)"] by (auto simp: best_of_def split: if_splits)
qed

interpretation subset: cache_matcher SubsetMatcher_Match
proof (unfold_locales, goal_cases)
  case (1 hp srv imps)
  then obtain r0 ss where srv: "srv = r0 # ss" by (cases srv) (auto simp: servers_ok_def)
  show ?case
    using match_loop_member [of hp imps ss r0 "- 1" imps]
    by (auto simp: srv SubsetMatcher_Match_def split: prod.splits)
next
  case (2 hp srv imps fs tc hit)
  note M = Match_cases [OF 2]
  have "import_keys (hp ! hd srv) = {}"
    using 2(1) by (simp add: servers_ok_def import_keys_def)
  with M(2,3) show ?case by (cases hit) auto
qed

text \<open>
  C23.  The subset matcher on a list of imports without repetitions: it reports a hit exactly if some
  cached server has imported a subset of them, and then returns one with the most imports among these,
  together with the imports that are missing; otherwise the root server with everything to import.
\<close>

theorem SubsetMatcher_best_subset:
  assumes "servers_ok hp srv" and "distinct imps"
  shows "\<exists>fs tc hit. SubsetMatcher_Match hp srv imps = Ret (fs, tc, hit) \<and>
           hit = (\<exists>s \<in> set (tl srv). import_keys (hp ! s) \<subseteq> set imps) \<and>
           (if hit
            then fs \<in> set (tl srv) \<and> import_keys (hp ! fs) \<subseteq> set imps \<and>
                 (\<forall>s \<in> set (tl srv). import_keys (hp ! s) \<subseteq> set imps \<longrightarrow>
                    card (import_keys (hp ! s)) \<le> card (import_keys (hp ! fs))) \<and>
                 set tc = set imps - import_keys (hp ! fs)
            else fs = hd srv \<and> tc = imps)"
proof -
  obtain fs tc hit where m: "SubsetMatcher_Match hp srv imps = Ret (fs, tc, hit)"
    using Match_returns [OF assms(1)] by blast
  show ?thesis using m Match_cases [OF assms m] by auto
qed

definition ex_server :: "string list \<Rightarrow> unit forkServer" where
  "ex_server ks = \<lparr>fs_Sandbox = None, fs_Pid = [], fs_SockPath = [], fs_Imports = map (\<lambda>k. (k, True)) ks,
     fs_Hits = Fin 0, fs_Parent = None, fs_Children = 0, fs_Size = Fin 1, fs_Dead = False, fs_locked = False\<rparr>"

definition ex_servers :: "unit forkServer list" where
  "ex_servers = [ex_server [], ex_server [''numpy''], ex_server [''numpy'', ''scipy''], ex_server [''jinja2'']]"

lemma ex_servers_ok: "servers_ok ex_servers [0, 1, 2, 3]"
  by (auto simp: servers_ok_def ex_servers_def ex_server_def imports_ok_def)

theorem SubsetMatcher_best_subset_witness:
  "\<exists>tc. SubsetMatcher_Match ex_servers [0, 1, 2, 3] [''scipy'', ''requests'', ''numpy''] = Ret (2, tc, True) \<and>
     set tc = {''requests''}"
proof -
  have d: "distinct [''scipy'', ''requests'', ''numpy'']" by simp
  have r: "SubsetMatcher_Match ex_servers [0, 1, 2, 3] [''scipy'', ''requests'', ''numpy''] = Ret (2, [''requests''], True)"
    by code_simp
  show ?thesis using SubsetMatcher_best_subset [OF ex_servers_ok d] unfolding r
    by (auto simp: ex_servers_def ex_server_def import_keys_def)
qed

text \<open>
  With a repeated import the constraint to subsets fails: the matched imports are counted with
  repetitions, and a server that has imported a package the lambda did not ask for is reported as a hit.
\<close>

theorem repeated_import_defeats_subset:
  "SubsetMatcher_Match ex_servers [0, 2] [''numpy'', ''numpy''] = Ret (2, [], True) \<and>
   ''scipy'' \<in> import_keys (ex_servers ! 2) \<and> ''scipy'' \<notin> set [''numpy'', ''numpy'']"
proof (intro conjI)
  show "SubsetMatcher_Match ex_servers [0, 2] [''numpy'', ''numpy''] = Ret (2, [], True)" by code_simp
  show "''scipy'' \<in> import_keys (ex_servers ! 2)" by (simp add: ex_servers_def ex_server_def import_keys_def)
qed simp

end
