(* ===== verification/CacheManager.thy ===== *)
theory CacheManager
  imports CacheMatcher GoStrings
begin

text \<open>
  The import cache (\<open>worker/import-cache/cacheManager.go\<close>, \<open>forkServer.go\<close>, \<open>forkRequest.go\<close>
  and \<open>evictor.go\<close>): a tree of fork servers, grown by \<open>Provision\<close> and cut back by the evictor
  when the memory of the cache's cgroup is over its limit.

  \<open>doomed\<close> are the servers whose \<open>go victim.Kill()\<close> is still to run.  \<open>cm_locked\<close> is the
  manager's mutex left locked by a goroutine that waits for ever or has panicked.  The container
  factory, the processes, the pipes and the replies of \<open>sendFds\<close> (C code) are arguments.
\<close>

record 'c cacheManager =
  servers :: "fsaddr list"
  fheap :: "'c forkServer list"
  cseq :: int
  csizes :: "string \<rightharpoonup> float64"
  cfull :: int
  cm_locked :: bool
  doomed :: "fsaddr list"

abbreviation upd_fs :: "fsaddr \<Rightarrow> ('c forkServer \<Rightarrow> 'c forkServer) \<Rightarrow> 'c cacheManager \<Rightarrow> 'c cacheManager" where
  "upd_fs i f s \<equiv> s\<lparr>fheap := (fheap s)[i := f (fheap s ! i)]\<rparr>"

subsection \<open>ForkServer\<close>

text \<open>
  \<open>Hit\<close> counts on the server and all its ancestors.  The loop is cut off by a bound: \<open>None\<close> is
  a chain of parents longer than that.
\<close>

fun Hit :: "nat \<Rightarrow> fsaddr option \<Rightarrow> 'c forkServer list \<Rightarrow> 'c forkServer list option" where
  "Hit fuel None hp = Some hp"
| "Hit 0 (Some i) hp = None"
| "Hit (Suc fuel) (Some i) hp =
     Hit fuel (fs_Parent (hp ! i)) (hp[i := (hp ! i)\<lparr>fs_Hits := fadd (fs_Hits (hp ! i)) (Fin 1)\<rparr>])"

definition Kill ::
  "'c container \<Rightarrow> (int \<Rightarrow> goerror) \<Rightarrow> fsaddr \<Rightarrow> 'c cacheManager \<Rightarrow> ('c cacheManager, goerror) outcome" where
  "Kill ops findProcess i s =
     (let s1 = upd_fs i (\<lambda>f. f\<lparr>fs_Dead := True\<rparr>) s in
      case strconv_Atoi (fs_Pid (fheap s ! i)) of
        None \<Rightarrow> (Ret (Some ''strconv.Atoi: parsing: invalid syntax''), s1)
      | Some pid \<Rightarrow>
          (case findProcess pid of
             Some e \<Rightarrow> (Ret (Some e), s1)
           | None \<Rightarrow>
               let s2 = (case fs_Parent (fheap s ! i) of
                           None \<Rightarrow> s1
                         | Some p \<Rightarrow> upd_fs p (\<lambda>f. f\<lparr>fs_Children := fs_Children f - 1\<rparr>) s1)
               in case fs_Sandbox (fheap s ! i) of
                    None \<Rightarrow> (nil_deref, s2)
                  | Some c \<Rightarrow>
                      (Ret None,
                       upd_fs i (\<lambda>f. f\<lparr>fs_Sandbox := Some (snd (c_Remove ops (snd (c_Stop ops (snd (c_Unpause ops c))))))\<rparr>) s2)))"

text \<open>
  \<open>WaitForEntryInit\<close>: what arrived on the pipe within five seconds, if anything, and the result of
  writing \<open>timeo\<close> after that (the number of bytes).
\<close>

definition WaitForEntryInit :: "(string + string) option \<Rightarrow> string + int \<Rightarrow> goerror" where
  "WaitForEntryInit msg timeo =
     (if msg = Some (Inr ''ready'') then None
      else (case timeo of
              Inl e \<Rightarrow> Some e
            | Inr n \<Rightarrow> if n \<noteq> 5 then Some ''Cannot write `timeo` to pipe''
                      else Some ''Cache entry failed to initialize after 5s''))"

subsection \<open>forkRequest\<close>

text \<open>
  The request string, and five attempts of \<open>sendFds\<close>: \<open>Inl\<close> is a call that set \<open>errno\<close>,
  \<open>Inr\<close> the string it returned.  The error variable assigned in the loop is a new one, so that the
  last line returns the outer one, which is nil.
\<close>

definition forkRequest_signal :: "string list \<Rightarrow> bool \<Rightarrow> string" where
  "forkRequest_signal imps is_handler = strings_Join '' '' (imps @ [if is_handler then ''serve'' else ''cache''])"

fun forkRequest_loop :: "(string + string) list \<Rightarrow> string \<times> goerror" where
  "forkRequest_loop [] = ([], None)"
| "forkRequest_loop (Inl e # rs) = forkRequest_loop rs"
| "forkRequest_loop (Inr pid # rs) = (if pid = [] then forkRequest_loop rs else (pid, None))"

definition forkRequest :: "(string \<Rightarrow> (string + string) list) \<Rightarrow> string list \<Rightarrow> bool \<Rightarrow> string \<times> goerror" where
  "forkRequest sendFds imps is_handler = forkRequest_loop (take 5 (sendFds (forkRequest_signal imps is_handler)))"

subsection \<open>Provision\<close>

record 'c cache_env =
  ce_create :: "string + 'c"
  ce_openPipe :: goerror
  ce_hostDir :: "'c \<Rightarrow> string"
  ce_sendFds :: "string \<Rightarrow> string \<Rightarrow> (string + string) list"
  ce_initMsg :: "(string + string) option"
  ce_timeo :: "string + int"
  ce_enter :: "string \<Rightarrow> goerror"
  ce_findProcess :: "int \<Rightarrow> goerror"

text \<open>
  A new entry below \<open>base\<close>.  The size of the packages is summed up and not stored.
\<close>

definition add_imports :: "(string \<times> bool) list \<Rightarrow> string list \<Rightarrow> (string \<times> bool) list" where
  "add_imports m ks = fold (\<lambda>k m. AList.update k True m) ks m"

definition newCacheEntry ::
  "'c container \<Rightarrow> 'c cache_env \<Rightarrow> fsaddr \<Rightarrow> string list \<Rightarrow> 'c cacheManager \<Rightarrow>
   ('c cacheManager, string + fsaddr) outcome" where
  "newCacheEntry ops env base toCache s =
     (let i = length (fheap s);
          f = \<lparr>fs_Sandbox = None, fs_Pid = [], fs_SockPath = [],
               fs_Imports = add_imports (fs_Imports (fheap s ! base)) toCache, fs_Hits = Fin 0,
               fs_Parent = Some base, fs_Children = 0, fs_Size = Fin 0, fs_Dead = False, fs_locked = False\<rparr>;
          s1 = upd_fs base (\<lambda>b. b\<lparr>fs_Children := fs_Children b + 1\<rparr>) (s\<lparr>fheap := fheap s @ [f]\<rparr>);
          fail = (\<lambda>e. case Kill ops (ce_findProcess env) i s1 of
                        (Ret _, s2) \<Rightarrow> (Ret (Inl e), s2)
                      | (Panic m, s2) \<Rightarrow> (Panic m, s2)
                      | (Exit m, s2) \<Rightarrow> (Exit m, s2)
                      | (Block, s2) \<Rightarrow> (Block, s2))
      in case ce_create env of
           Inl e \<Rightarrow> fail e
         | Inr c \<Rightarrow>
             if ce_openPipe env \<noteq> None then (Exit ''Cannot open pipe'', s1)
             else
               (case forkRequest (ce_sendFds env (fs_SockPath (fheap s ! base))) toCache False of
                  (pid, Some e) \<Rightarrow> fail e
                | (pid, None) \<Rightarrow>
                    (Ret (Inr i),
                     upd_fs i (\<lambda>x. x\<lparr>fs_Sandbox := Some c, fs_Pid := pid,
                                     fs_SockPath := ce_hostDir env c @ ''/fs.sock''\<rparr>) s1)))"

definition cm_Full :: "'c cacheManager \<Rightarrow> bool" where
  "cm_Full s = (cfull s = 1)"

text \<open>The end of \<open>Provision\<close>, with the server's mutex held.\<close>

definition serve_from ::
  "'c cache_env \<Rightarrow> fsaddr \<Rightarrow> string list \<Rightarrow> bool \<Rightarrow> 'c cacheManager \<Rightarrow>
   ('c cacheManager, string + (fsaddr \<times> bool)) outcome" where
  "serve_from env fs toCache hit s =
     (case Hit (length (fheap s)) (Some fs) (fheap s) of
        None \<Rightarrow> (Block, upd_fs fs (\<lambda>f. f\<lparr>fs_locked := True\<rparr>) s)
      | Some hp \<Rightarrow>
          let s1 = s\<lparr>fheap := hp\<rparr> in
          (case forkRequest (ce_sendFds env (fs_SockPath (hp ! fs))) toCache True of
             (pid, Some e) \<Rightarrow> (Ret (Inl e), s1)
           | (pid, None) \<Rightarrow>
               (case ce_enter env pid of
                  Some e \<Rightarrow> (Ret (Inl e), s1)
                | None \<Rightarrow> (Ret (Inr (fs, hit)), s1))))"

definition Provision ::
  "('c forkServer list \<Rightarrow> fsaddr list \<Rightarrow> string list \<Rightarrow> (fsaddr \<times> string list \<times> bool) res) \<Rightarrow>
   'c container \<Rightarrow> 'c cache_env \<Rightarrow> string list \<Rightarrow> 'c cacheManager \<Rightarrow>
   ('c cacheManager, string + (fsaddr \<times> bool)) outcome" where
  "Provision match ops env imps s =
     (let stuck = (\<lambda>s'. s'\<lparr>cm_locked := True\<rparr>) in
      if cm_locked s then (Block, s)
      else
        (case match (fheap s) (servers s) imps of
           Ret (fs, toCache, hit) \<Rightarrow>
             if fs_locked (fheap s ! fs) then (Block, stuck s)
             else if toCache \<noteq> [] \<and> \<not> cm_Full s
             then
               (case newCacheEntry ops env fs toCache s of
                  (Ret (Inl e), s1) \<Rightarrow> (Ret (Inl e), s1)
                | (Ret (Inr i), s1) \<Rightarrow>
                    let s2 = s1\<lparr>servers := servers s1 @ [i], cseq := cseq s1 + 1\<rparr> in
                    (case WaitForEntryInit (ce_initMsg env) (ce_timeo env) of
                       Some e \<Rightarrow> (Ret (Inl e), upd_fs i (\<lambda>f. f\<lparr>fs_locked := True\<rparr>) s2)
                     | None \<Rightarrow> serve_from env i [] hit s2)
                | (Panic m, s1) \<Rightarrow> (Panic m, stuck (upd_fs fs (\<lambda>f. f\<lparr>fs_locked := True\<rparr>) s1))
                | (Exit m, s1) \<Rightarrow> (Exit m, s1)
                | (Block, s1) \<Rightarrow> (Block, stuck (upd_fs fs (\<lambda>f. f\<lparr>fs_locked := True\<rparr>) s1)))
             else serve_from env fs toCache hit s
         | Panic m \<Rightarrow> (Panic m, stuck s)
         | Exit m \<Rightarrow> (Exit m, s)
         | Block \<Rightarrow> (Block, stuck s)))"

subsection \<open>The evictor\<close>

text \<open>The search for the childless server with the smallest ratio of hits to size, over \<open>servers[1:]\<close>.\<close>

definition evict_ratio :: "'c forkServer \<Rightarrow> float64" where
  "evict_ratio f = fdiv (fs_Hits f) (fs_Size f)"

fun evict_search :: "'c forkServer list \<Rightarrow> nat \<Rightarrow> fsaddr list \<Rightarrow> int \<times> float64 \<Rightarrow> int \<times> float64" where
  "evict_search hp k [] best = best"
| "evict_search hp k (i # is) (idx, worst) =
     (if fs_Children (hp ! i) = 0 \<and> flt (evict_ratio (hp ! i)) worst
      then evict_search hp (Suc k) is (int k, evict_ratio (hp ! i))
      else evict_search hp (Suc k) is (idx, worst))"

definition cache_evict :: "'c cacheManager \<Rightarrow> ('c cacheManager, unit) outcome" where
  "cache_evict s =
     (let idx = fst (evict_search (fheap s) 1 (tl (servers s)) (- 1, PInf)) in
      if idx \<noteq> - 1
      then
        let victim = servers s ! nat idx in
        if fs_locked (fheap s ! victim) then (Block, s\<lparr>cm_locked := True\<rparr>)
        else (Ret (), s\<lparr>servers := take (nat idx) (servers s) @ drop (Suc (nat idx)) (servers s),
                       doomed := victim # doomed s\<rparr>)
      else (Ret (), s))"

definition cache_usage :: "string option \<Rightarrow> int res" where
  "cache_usage file =
     (case file of
        None \<Rightarrow> Ret 0
      | Some buf \<Rightarrow>
          (case strconv_Atoi (strings_TrimSpace buf) of
             None \<Rightarrow> Panic ''atoi failed''
           | Some u \<Rightarrow> Ret u))"

definition CheckUsage :: "string option \<Rightarrow> int \<Rightarrow> 'c cacheManager \<Rightarrow> ('c cacheManager, unit) outcome" where
  "CheckUsage file limit s =
     (if cm_locked s then (Block, s)
      else
        (case cache_usage file of
           Ret u \<Rightarrow> if limit < u then cache_evict (s\<lparr>cfull := 1\<rparr>) else (Ret (), s\<lparr>cfull := 0\<rparr>)
         | Panic m \<Rightarrow> (Panic m, s)
         | Exit m \<Rightarrow> (Exit m, s)
         | Block \<Rightarrow> (Block, s)))"

text \<open>The spawned \<open>Kill\<close> of a victim.\<close>

definition run_doomed ::
  "'c container \<Rightarrow> (int \<Rightarrow> goerror) \<Rightarrow> fsaddr \<Rightarrow> 'c cacheManager \<Rightarrow> ('c cacheManager, goerror) outcome" where
  "run_doomed ops findProcess i s = Kill ops findProcess i (s\<lparr>doomed := remove1 i (doomed s)\<rparr>)"

subsection \<open>Initialisation\<close>

text \<open>\<open>readPkgSizes\<close> on the lines of the file; \<open>None\<close> is a file that cannot be opened.\<close>

fun read_sizes :: "string list \<Rightarrow> (string \<rightharpoonup> float64) \<Rightarrow> string + (string \<rightharpoonup> float64)" where
  "read_sizes [] m = Inr m"
| "read_sizes (l # ls) m =
     (let split = strings_Split CHR '':'' l in
      if length split \<noteq> 2 then Inl ''malformed package size file''
      else
        (case strconv_Atoi (split ! 1) of
           None \<Rightarrow> Inl ''strconv.Atoi: invalid syntax''
         | Some n \<Rightarrow> read_sizes ls (m(strings_ToLower (split ! 1) \<mapsto> float_of n))))"

definition readPkgSizes :: "string list option \<Rightarrow> string + (string \<rightharpoonup> float64)" where
  "readPkgSizes file = (case file of None \<Rightarrow> Inr Map.empty | Some ls \<Rightarrow> read_sizes ls Map.empty)"

text \<open>
  \<open>initCacheRoot\<close>: the factory's result (the root container with its directory and the pid of its
  process), the pipe, and whether anything arrived on it within five seconds.
\<close>

definition initCacheRoot ::
  "string + ('c \<times> string \<times> string) \<Rightarrow> goerror \<Rightarrow> bool \<Rightarrow> string + int \<Rightarrow> 'c cacheManager \<Rightarrow>
   ('c cacheManager, goerror) outcome" where
  "initCacheRoot made openPipe got timeo s =
     (case made of
        Inl e \<Rightarrow> (Ret (Some e), s)
      | Inr (c, pid, rootDir) \<Rightarrow>
          if openPipe \<noteq> None then (Exit ''Cannot open pipe'', s)
          else if \<not> got
          then (Ret (Some (case timeo of
                             Inl e \<Rightarrow> e
                           | Inr n \<Rightarrow> if n \<noteq> 5 then ''Cannot write `timeo` to pipe''
                                     else ''root forkserver failed to start after 5s'')), s)
          else
            (Ret None,
             s\<lparr>servers := servers s @ [length (fheap s)],
               fheap := fheap s @
                 [\<lparr>fs_Sandbox = Some c, fs_Pid = pid, fs_SockPath = rootDir @ ''/fs.sock'', fs_Imports = [],
                   fs_Hits = Fin 0, fs_Parent = None, fs_Children = 0, fs_Size = Fin 1, fs_Dead = False,
                   fs_locked = False\<rparr>]\<rparr>))"

definition NewEvictor :: "goerror \<Rightarrow> goerror \<Rightarrow> goerror \<Rightarrow> int \<Rightarrow> string + int" where
  "NewEvictor eventfd_err open_err echo_err kb_limit =
     (case eventfd_err of
        Some e \<Rightarrow> Inl e
      | None \<Rightarrow>
          (case open_err of
             Some e \<Rightarrow> Inl e
           | None \<Rightarrow> (case echo_err of Some e \<Rightarrow> Inl e | None \<Rightarrow> Inr (1024 * kb_limit))))"

text \<open>
  \<open>InitCacheManager\<close>: \<open>None\<close> is the nil manager of a cache of size 0.  The result carries the
  evictor's limit.
\<close>

definition InitCacheManager ::
  "int \<Rightarrow> string list option \<Rightarrow> string + ('c \<times> string \<times> string) \<Rightarrow> goerror \<Rightarrow> bool \<Rightarrow> string + int \<Rightarrow>
   goerror \<times> goerror \<times> goerror \<Rightarrow> (string + ('c cacheManager \<times> int) option) res" where
  "InitCacheManager cache_size sizefile made openPipe got timeo ev =
     (if cache_size = 0 then Ret (Inr None)
      else
        (case readPkgSizes sizefile of
           Inl e \<Rightarrow> Ret (Inl e)
         | Inr sizes \<Rightarrow>
             (case initCacheRoot made openPipe got timeo
                     \<lparr>servers = [], fheap = [], cseq = 0, csizes = sizes, cfull = 0, cm_locked = False, doomed = []\<rparr> of
                (Ret (Some e), s) \<Rightarrow> Ret (Inl e)
              | (Ret None, s) \<Rightarrow>
                  (case ev of (e1, e2, e3) \<Rightarrow>
                     (case NewEvictor e1 e2 e3 cache_size of
                        Inl e \<Rightarrow> Ret (Inl e)
                      | Inr limit \<Rightarrow> Ret (Inr (Some (s, limit)))))
              | (Panic m, s) \<Rightarrow> Panic m
              | (Exit m, s) \<Rightarrow> Exit m
              | (Block, s) \<Rightarrow> Block)))"

fun kill_all ::
  "'c container \<Rightarrow> (int \<Rightarrow> goerror) \<Rightarrow> fsaddr list \<Rightarrow> 'c cacheManager \<Rightarrow> ('c cacheManager, unit) outcome" where
  "kill_all ops fp [] s = (Ret (), s)"
| "kill_all ops fp (i # is) s =
     (case Kill ops fp i s of
        (Ret _, s1) \<Rightarrow> kill_all ops fp is s1
      | (Panic m, s1) \<Rightarrow> (Panic m, s1)
      | (Exit m, s1) \<Rightarrow> (Exit m, s1)
      | (Block, s1) \<Rightarrow> (Block, s1))"

definition cache_Cleanup ::
  "'c container \<Rightarrow> (int \<Rightarrow> goerror) \<Rightarrow> 'c cacheManager \<Rightarrow> ('c cacheManager, unit) outcome" where
  "cache_Cleanup ops fp s = kill_all ops fp (servers s) s"

subsection \<open>The factory of cache containers\<close>

text \<open>
  \<open>cacheFactory.Create\<close>: the delegate makes a container, which is started; if that fails it is
  stopped and removed in the background.
\<close>

definition cacheFactory_Create ::
  "'c container \<Rightarrow> (string \<Rightarrow> string \<Rightarrow> string + 'c) \<Rightarrow> string \<Rightarrow> (string + 'c) res" where
  "cacheFactory_Create ops delegate cacheDir =
     (case delegate [] cacheDir of
        Inl e \<Rightarrow> Ret (Inl (''failed to create cache entry sandbox :: '' @ e))
      | Inr c \<Rightarrow>
          (case c_Start ops c of
             (Ret None, c1) \<Rightarrow> Ret (Inr c1)
           | (Ret (Some e), c1) \<Rightarrow> Ret (Inl e)
           | (Panic m, c1) \<Rightarrow> Panic m
           | (Exit m, c1) \<Rightarrow> Exit m
           | (Block, c1) \<Rightarrow> Block))"

definition NewCacheFactory ::
  "'c container \<Rightarrow> (string \<Rightarrow> goerror) \<Rightarrow> string + (string \<Rightarrow> string \<Rightarrow> string + 'c) \<Rightarrow> string \<Rightarrow>
   (string + ('c \<times> string)) res" where
  "NewCacheFactory ops mkdirAll init_factory worker_dir =
     (let cacheDir = path_Join [worker_dir, ''import-cache''] in
      case mkdirAll cacheDir of
        Some e \<Rightarrow> Ret (Inl (''failed to create pool directory at '' @ cacheDir @ '' :: '' @ e))
      | None \<Rightarrow>
          (case init_factory of
             Inl e \<Rightarrow> Ret (Inl (''failed to initialize cache sandbox factory :: '' @ e))
           | Inr delegate \<Rightarrow>
               (case cacheFactory_Create ops delegate cacheDir of
                  Ret (Inl e) \<Rightarrow> Ret (Inl (''failed to create root cache entry :: '' @ e))
                | Ret (Inr c) \<Rightarrow>
                    (case c_RunServer ops c of
                       (Ret None, c1) \<Rightarrow> Ret (Inr (c1, path_Join [cacheDir, ''0'']))
                     | (Ret (Some e), c1) \<Rightarrow> Ret (Inl (''failed to start server in root cache entry :: '' @ e))
                     | (Panic m, c1) \<Rightarrow> Panic m
                     | (Exit m, c1) \<Rightarrow> Exit m
                     | (Block, c1) \<Rightarrow> Block)
                | Panic m \<Rightarrow> Panic m
                | Exit m \<Rightarrow> Exit m
                | Block \<Rightarrow> Block)))"

end
