(* ===== verification/CacheProps.thy ===== *)
theory CacheProps
  imports CacheManager
begin

text \<open>
  The invariant of the import cache and what follows for provisioning and eviction.  The lemmas on
  \<open>Provision\<close> are proved once for every matcher that keeps the contract, in the locale, and used at
  the subset matcher.
\<close>

subsection \<open>The invariant\<close>

definition kids :: "'c forkServer list \<Rightarrow> fsaddr list \<Rightarrow> fsaddr \<Rightarrow> int" where
  "kids hp is p = int (length (filter (\<lambda>i. fs_Parent (hp ! i) = Some p) is))"

text \<open>
  With the flag \<open>z\<close> the invariant says also that every entry but the root has size 0, which is how
  the code leaves them.
\<close>

definition fs_ok :: "bool \<Rightarrow> nat \<Rightarrow> 'c forkServer \<Rightarrow> bool" where
  "fs_ok z i f \<longleftrightarrow>
     imports_ok f \<and> (\<exists>a \<ge> 0. fs_Hits f = Fin a) \<and> (\<forall>p. fs_Parent f = Some p \<longrightarrow> p < i) \<and>
     (z \<longrightarrow> i \<noteq> 0 \<longrightarrow> fs_Size f = Fin 0)"

definition cache_wf :: "bool \<Rightarrow> 'c cacheManager \<Rightarrow> bool" where
  "cache_wf z s \<longleftrightarrow>
     (\<forall>i < length (fheap s). fs_ok z i (fheap s ! i)) \<and>
     (\<exists>ss. servers s = 0 # ss) \<and> fs_Imports (fheap s ! 0) = [] \<and>
     distinct (servers s @ doomed s) \<and> (\<forall>i \<in> set (servers s @ doomed s). i < length (fheap s)) \<and>
     (\<forall>p < length (fheap s). kids (fheap s) (servers s @ doomed s) p \<le> fs_Children (fheap s ! p)) \<and>
     (\<forall>i \<in> set (servers s). \<forall>p. fs_Parent (fheap s ! i) = Some p \<longrightarrow> p \<in> set (servers s))"

lemma cache_wfD:
  assumes "cache_wf z s"
  shows "i < length (fheap s) \<Longrightarrow> fs_ok z i (fheap s ! i)" and "\<exists>ss. servers s = 0 # ss"
    and "fs_Imports (fheap s ! 0) = []" and "distinct (servers s @ doomed s)"
    and "i \<in> set (servers s) \<union> set (doomed s) \<Longrightarrow> i < length (fheap s)"
    and "p < length (fheap s) \<Longrightarrow> kids (fheap s) (servers s @ doomed s) p \<le> fs_Children (fheap s ! p)"
    and "i \<in> set (servers s) \<Longrightarrow> fs_Parent (fheap s ! i) = Some p \<Longrightarrow> p \<in> set (servers s)"
  using assms unfolding cache_wf_def by auto

lemma cache_wfI:
  assumes "\<And>i. i < length (fheap s) \<Longrightarrow> fs_ok z i (fheap s ! i)" and "\<exists>ss. servers s = 0 # ss"
    and "fs_Imports (fheap s ! 0) = []" and "distinct (servers s @ doomed s)"
    and "\<And>i. i \<in> set (servers s) \<union> set (doomed s) \<Longrightarrow> i < length (fheap s)"
    and "\<And>p. p < length (fheap s) \<Longrightarrow> kids (fheap s) (servers s @ doomed s) p \<le> fs_Children (fheap s ! p)"
    and "\<And>i p. i \<in> set (servers s) \<Longrightarrow> fs_Parent (fheap s ! i) = Some p \<Longrightarrow> p \<in> set (servers s)"
  shows "cache_wf z s"
  unfolding cache_wf_def using assms by auto

lemma cache_wf_servers_ok: "cache_wf z s \<Longrightarrow> servers_ok (fheap s) (servers s)"
  using cache_wfD(2,3)[of z s] cache_wfD(1,5)[of z s] by (auto simp: servers_ok_def fs_ok_def)

text \<open>
  Changes that keep a server's imports, parent and size, and do not touch its children or raise them.
\<close>

definition fs_steady :: "'c forkServer \<Rightarrow> 'c forkServer \<Rightarrow> bool" where
  "fs_steady f f' \<longleftrightarrow>
     fs_Imports f' = fs_Imports f \<and> fs_Parent f' = fs_Parent f \<and> fs_Size f' = fs_Size f \<and>
     fs_Children f \<le> fs_Children f' \<and> ((\<exists>a \<ge> 0. fs_Hits f = Fin a) \<longrightarrow> (\<exists>a \<ge> 0. fs_Hits f' = Fin a))"

definition heap_steady :: "'c forkServer list \<Rightarrow> 'c forkServer list \<Rightarrow> bool" where
  "heap_steady hp hp' \<longleftrightarrow> length hp' = length hp \<and> (\<forall>i < length hp. fs_steady (hp ! i) (hp' ! i))"

lemma heap_steady_refl [simp]: "heap_steady hp hp"
  by (simp add: heap_steady_def fs_steady_def)

lemma fs_steady_trans: "fs_steady f g \<Longrightarrow> fs_steady g h \<Longrightarrow> fs_steady f h"
  by (auto simp: fs_steady_def)

lemma heap_steady_trans: "heap_steady a b \<Longrightarrow> heap_steady b c \<Longrightarrow> heap_steady a c"
  unfolding heap_steady_def using fs_steady_trans by fastforce

lemma heap_steady_update: "fs_steady (hp ! i) f \<Longrightarrow> heap_steady hp (hp[i := f])"
  by (cases "i < length hp") (auto simp: heap_steady_def fs_steady_def nth_list_update)

lemma heap_steady_keys: "heap_steady hp hp' \<Longrightarrow> i < length hp \<Longrightarrow> import_keys (hp' ! i) = import_keys (hp ! i)"
  by (simp add: heap_steady_def fs_steady_def import_keys_def)

lemma kids_cong: "(\<And>i. i \<in> set is \<Longrightarrow> fs_Parent (hp' ! i) = fs_Parent (hp ! i)) \<Longrightarrow> kids hp' is p = kids hp is p"
  unfolding kids_def by (metis (mono_tags, lifting) filter_cong)

lemma heap_steady_wf:
  assumes wf: "cache_wf z s" and st: "heap_steady (fheap s) hp'"
    and same: "servers s' = servers s" "doomed s' = doomed s" "fheap s' = hp'"
  shows "cache_wf z s'"
proof (rule cache_wfI)
  have len: "length (fheap s') = length (fheap s)" using st same by (simp add: heap_steady_def)
  have f: "fs_steady (fheap s ! i) (fheap s' ! i)" if "i < length (fheap s)" for i
    using st same that by (simp add: heap_steady_def)
  have z: "0 < length (fheap s)" using cache_wfD(2)[OF wf] cache_wfD(5)[OF wf, of 0] by auto
  show "fs_ok z i (fheap s' ! i)" if "i < length (fheap s')" for i
    using cache_wfD(1)[OF wf, of i] f [of i] that len by (auto simp: fs_ok_def fs_steady_def imports_ok_def)
  show "fs_Imports (fheap s' ! 0) = []" using cache_wfD(3)[OF wf] f [OF z] by (simp add: fs_steady_def)
  show "\<exists>ss. servers s' = 0 # ss" "distinct (servers s' @ doomed s')"
    using cache_wfD(2,4)[OF wf] same by simp_all
  show "i < length (fheap s')" if "i \<in> set (servers s') \<union> set (doomed s')" for i
    using cache_wfD(5)[OF wf] that same len by simp
  show "p \<in> set (servers s')" if "i \<in> set (servers s')" "fs_Parent (fheap s' ! i) = Some p" for i p
    using cache_wfD(7)[OF wf, of i p] cache_wfD(5)[OF wf, of i] f [of i] that same by (simp add: fs_steady_def)
  show "kids (fheap s') (servers s' @ doomed s') p \<le> fs_Children (fheap s' ! p)" if "p < length (fheap s')" for p
  proof -
    have "kids (fheap s') (servers s @ doomed s) p = kids (fheap s) (servers s @ doomed s) p"
      by (rule kids_cong) (use cache_wfD(5)[OF wf] f in \<open>auto simp: fs_steady_def\<close>)
    then show ?thesis using cache_wfD(6)[OF wf, of p] f [of p] that len same by (simp add: fs_steady_def)
  qed
qed

subsection \<open>Hit\<close>

text \<open>Parents are older than their children, so the walk to the root ends.\<close>

lemma Hit_returns:
  assumes "\<And>i. i < length hp \<Longrightarrow> fs_ok z i (hp ! i)" and "i < length hp" and "i < fuel"
  shows "\<exists>hp'. Hit fuel (Some i) hp = Some hp' \<and> heap_steady hp hp'"
  using assms
proof (induction fuel arbitrary: i hp)
  case (Suc fuel)
  let ?f = "(hp ! i)\<lparr>fs_Hits := fadd (fs_Hits (hp ! i)) (Fin 1)\<rparr>"
  let ?hp = "hp[i := ?f]"
  obtain a where a: "0 \<le> a" "fs_Hits (hp ! i) = Fin a" using Suc.prems(1,2) by (auto simp: fs_ok_def)
  have st: "heap_steady hp ?hp"
    by (rule heap_steady_update) (use a in \<open>auto simp: fs_steady_def\<close>)
  have ok: "fs_ok z j (?hp ! j)" if "j < length ?hp" for j
    using Suc.prems(1)[of j] that a by (cases "j = i") (auto simp: fs_ok_def imports_ok_def)
  show ?case
  proof (cases "fs_Parent (hp ! i)")
    case None
    then show ?thesis using st Suc.prems(2) by simp
  next
    case (Some p)
    then have p: "p < i" using Suc.prems(1,2) by (auto simp: fs_ok_def)
    obtain hp' where h: "Hit fuel (Some p) ?hp = Some hp'" "heap_steady ?hp hp'"
      using Suc.IH [OF ok, of p] p Suc.prems(2,3) by auto
    then show ?thesis using Some heap_steady_trans [OF st h(2)] Suc.prems(2) by simp
  qed
qed simp

subsection \<open>New entries\<close>

lemma import_keys_add: "fst ` set (add_imports m ks) = fst ` set m \<union> set ks"
proof (induction ks arbitrary: m)
  case (Cons k ks)
  then show ?case by (auto simp: add_imports_def AList.dom_update)
qed (simp add: add_imports_def)

lemma imports_ok_add:
  assumes "distinct (map fst m)" and "\<forall>kv \<in> set m. snd kv"
  shows "distinct (map fst (add_imports m ks)) \<and> (\<forall>kv \<in> set (add_imports m ks). snd kv)"
  using assms
proof (induction ks arbitrary: m)
  case (Cons k ks)
  have "\<forall>kv \<in> set (AList.update k True m). snd kv"
    using Cons.prems(2) by (induction m) auto
  with Cons.IH [of "AList.update k True m"] Cons.prems(1) show ?case
    by (simp add: add_imports_def AList.distinct_update)
qed (simp add: add_imports_def)

abbreviation new_fs :: "'c cacheManager \<Rightarrow> fsaddr \<Rightarrow> string list \<Rightarrow> 'c forkServer" where
  "new_fs s base toCache \<equiv>
     \<lparr>fs_Sandbox = None, fs_Pid = [], fs_SockPath = [],
      fs_Imports = add_imports (fs_Imports (fheap s ! base)) toCache, fs_Hits = Fin 0,
      fs_Parent = Some base, fs_Children = 0, fs_Size = Fin 0, fs_Dead = False, fs_locked = False\<rparr>"

abbreviation with_new :: "'c cacheManager \<Rightarrow> fsaddr \<Rightarrow> string list \<Rightarrow> 'c forkServer list" where
  "with_new s base toCache \<equiv>
     (fheap s @ [new_fs s base toCache])[base := (fheap s ! base)\<lparr>fs_Children := fs_Children (fheap s ! base) + 1\<rparr>]"

text \<open>The heap with the new server, which may be listed as a child of its base.\<close>

lemma with_new_wf:
  assumes wf: "cache_wf z s" and live: "base \<in> set (servers s)"
    and h: "fheap s' = with_new s base toCache" and d: "doomed s' = doomed s"
    and srv: "servers s' = servers s \<or> servers s' = servers s @ [length (fheap s)]"
  shows "cache_wf z s'"
proof (rule cache_wfI)
  let ?n = "length (fheap s)"
  have b: "base < ?n" using cache_wfD(5)[OF wf] live by blast
  obtain ss where ss: "servers s = 0 # ss" using cache_wfD(2)[OF wf] by blast
  have z: "0 < ?n" using cache_wfD(5)[OF wf, of 0] ss by simp
  have len: "length (fheap s') = Suc ?n" by (simp add: h)
  have old: "fheap s' ! i = (if i = base then (fheap s ! base)\<lparr>fs_Children := fs_Children (fheap s ! base) + 1\<rparr> else fheap s ! i)"
    if "i < ?n" for i using that b by (auto simp: h nth_append)
  have new: "fheap s' ! ?n = new_fs s base toCache" using b by (simp add: h nth_append)
  have par: "fs_Parent (fheap s' ! i) = fs_Parent (fheap s ! i)" if "i < ?n" for i using old [OF that] by simp
  note bok = cache_wfD(1)[OF wf b]
  show "fs_ok z i (fheap s' ! i)" if "i < length (fheap s')" for i
  proof (cases "i = ?n")
    case True
    have "imports_ok (new_fs s base toCache)"
      using imports_ok_add [of "fs_Imports (fheap s ! base)" toCache] bok by (simp add: fs_ok_def imports_ok_def)
    then show ?thesis using b by (simp add: True new fs_ok_def)
  next
    case False
    then have "i < ?n" using that len by simp
    then show ?thesis using cache_wfD(1)[OF wf, of i] old [of i] by (auto simp: fs_ok_def imports_ok_def)
  qed
  show "\<exists>ss. servers s' = 0 # ss" using srv ss by auto
  show "fs_Imports (fheap s' ! 0) = []" using old [OF z] cache_wfD(3)[OF wf] by simp
  have fresh: "?n \<notin> set (servers s) \<union> set (doomed s)" using cache_wfD(5)[OF wf, of ?n] by auto
  then show "distinct (servers s' @ doomed s')" using srv d cache_wfD(4)[OF wf] by auto
  show "i < length (fheap s')" if "i \<in> set (servers s') \<union> set (doomed s')" for i
    using that srv d cache_wfD(5)[OF wf, of i] len by auto
  show "p \<in> set (servers s')" if "i \<in> set (servers s')" "fs_Parent (fheap s' ! i) = Some p" for i p
    using that srv cache_wfD(7)[OF wf, of i p] cache_wfD(5)[OF wf, of i] par [of i] new live by auto
  show "kids (fheap s') (servers s' @ doomed s') p \<le> fs_Children (fheap s' ! p)" if p: "p < length (fheap s')" for p
  proof -
    have same: "kids (fheap s') (servers s @ doomed s) p = kids (fheap s) (servers s @ doomed s) p"
      by (rule kids_cong) (use cache_wfD(5)[OF wf] par in auto)
    have up: "kids (fheap s') (servers s' @ doomed s') p \<le> kids (fheap s) (servers s @ doomed s) p + (if p = base then 1 else 0)"
      using srv same by (auto simp: kids_def d new)
    show ?thesis
    proof (cases "p = ?n")
      case True
      have noparent: "fs_Parent (fheap s ! i) \<noteq> Some ?n" if "i \<in> set (servers s @ doomed s)" for i
        using cache_wfD(5)[OF wf, of i] cache_wfD(1)[OF wf, of i] that by (force simp: fs_ok_def)
      have "kids (fheap s) (servers s @ doomed s) ?n = 0"
        unfolding kids_def using noparent by (simp add: filter_False)
      then show ?thesis using up b True by (simp add: new)
    next
      case False
      then have "p < ?n" using p len by simp
      then show ?thesis using up cache_wfD(6)[OF wf, of p] old [of p] by auto
    qed
  qed
qed

lemma strconv_Atoi_Nil [simp]: "strconv_Atoi [] = None"
  by (simp add: strconv_Atoi_def)

lemma forkRequest_no_error: "snd (forkRequest sendFds imps b) = None"
proof -
  have "snd (forkRequest_loop rs) = None" for rs
    by (induction rs rule: forkRequest_loop.induct) auto
  then show ?thesis by (simp add: forkRequest_def)
qed

text \<open>
  \<open>newCacheEntry\<close>: the only failure that returns is that of the factory, and it leaves the base with
  a child too many.
\<close>

lemma newCacheEntry_effect:
  assumes "base < length (fheap s)"
  shows "newCacheEntry ops env base toCache s =
     (case ce_create env of
        Inl e \<Rightarrow> (Ret (Inl e), s\<lparr>fheap := (with_new s base toCache)[length (fheap s) := (new_fs s base toCache)\<lparr>fs_Dead := True\<rparr>]\<rparr>)
      | Inr c \<Rightarrow>
          if ce_openPipe env \<noteq> None then (Exit ''Cannot open pipe'', s\<lparr>fheap := with_new s base toCache\<rparr>)
          else (Ret (Inr (length (fheap s))),
                s\<lparr>fheap := (with_new s base toCache)[length (fheap s) := (new_fs s base toCache)\<lparr>
                     fs_Sandbox := Some c,
                     fs_Pid := fst (forkRequest (ce_sendFds env (fs_SockPath (fheap s ! base))) toCache False),
                     fs_SockPath := ce_hostDir env c @ ''/fs.sock''\<rparr>]\<rparr>))"
proof -
  have new: "with_new s base toCache ! length (fheap s) = new_fs s base toCache"
    using assms by (simp add: nth_append)
  have old: "(fheap s @ [new_fs s base toCache]) ! base = fheap s ! base"
    using assms by (simp add: nth_append)
  obtain pid where pid: "forkRequest (ce_sendFds env (fs_SockPath (fheap s ! base))) toCache False = (pid, None)"
    using forkRequest_no_error [of "ce_sendFds env (fs_SockPath (fheap s ! base))" toCache False]
    by (metis prod.collapse)
  show ?thesis
    using new old pid by (simp add: newCacheEntry_def Let_def Kill_def split: sum.split)
qed

subsection \<open>The steps of the cache\<close>

lemma serve_from_effect:
  assumes wf: "cache_wf z s" and i: "i < length (fheap s)"
  shows "\<exists>r s'. serve_from env i toCache hit s = (Ret r, s') \<and> cache_wf z s' \<and> (r = Inr (i, hit) \<or> (\<exists>e. r = Inl e)) \<and>
           servers s' = servers s \<and> heap_steady (fheap s) (fheap s')"
proof -
  obtain hp where h: "Hit (length (fheap s)) (Some i) (fheap s) = Some hp" "heap_steady (fheap s) hp"
    using Hit_returns [where hp = "fheap s" and i = i and fuel = "length (fheap s)", OF cache_wfD(1)[OF wf]] i by blast
  have w: "cache_wf z (s\<lparr>fheap := hp\<rparr>)" by (rule heap_steady_wf [OF wf h(2)]) simp_all
  obtain pid where "forkRequest (ce_sendFds env (fs_SockPath (hp ! i))) toCache True = (pid, None)"
    using forkRequest_no_error [of "ce_sendFds env (fs_SockPath (hp ! i))" toCache True] by (metis prod.collapse)
  then show ?thesis
    using h w by (cases "ce_enter env pid") (auto simp: serve_from_def Let_def)
qed

lemma heap_steady_lock: "heap_steady hp (hp[i := (hp ! i)\<lparr>fs_locked := b\<rparr>])"
  by (rule heap_steady_update) (simp add: fs_steady_def)

lemma entry_added_wf:
  assumes wf: "cache_wf z s" and live: "base \<in> set (servers s)"
    and h: "fheap s' = (with_new s base toCache)[length (fheap s) := x]"
    and x: "fs_steady (new_fs s base toCache) x"
    and d: "doomed s' = doomed s" and srv: "servers s' = servers s \<or> servers s' = servers s @ [length (fheap s)]"
  shows "cache_wf z s'"
proof -
  let ?s = "s'\<lparr>fheap := with_new s base toCache\<rparr>"
  have b: "base < length (fheap s)" using cache_wfD(5)[OF wf] live by blast
  have w: "cache_wf z ?s" by (rule with_new_wf [OF wf live]) (use d srv in auto)
  have "with_new s base toCache ! length (fheap s) = new_fs s base toCache" using b by (simp add: nth_append)
  then have "heap_steady (with_new s base toCache) (fheap s')"
    unfolding h by (intro heap_steady_update) (use x in simp)
  then show ?thesis by (intro heap_steady_wf [OF w]) simp_all
qed

text \<open>The cache with a new entry listed, and the three ways \<open>Provision\<close> goes once the server is chosen.\<close>

definition grown :: "'c cache_env \<Rightarrow> fsaddr \<Rightarrow> string list \<Rightarrow> 'c \<Rightarrow> 'c cacheManager \<Rightarrow> 'c cacheManager" where
  "grown env base tc c s =
     s\<lparr>fheap := (with_new s base tc)[length (fheap s) := (new_fs s base tc)\<lparr>
          fs_Sandbox := Some c,
          fs_Pid := fst (forkRequest (ce_sendFds env (fs_SockPath (fheap s ! base))) tc False),
          fs_SockPath := ce_hostDir env c @ ''/fs.sock''\<rparr>],
       servers := servers s @ [length (fheap s)], cseq := cseq s + 1\<rparr>"

lemma grown_wf: "cache_wf z s \<Longrightarrow> base \<in> set (servers s) \<Longrightarrow> cache_wf z (grown env base tc c s)"
  by (rule entry_added_wf [where s = s and base = base and toCache = tc]) (auto simp: grown_def fs_steady_def)

lemma grown_simps:
  assumes "base < length (fheap s)"
  shows "servers (grown env base tc c s) = servers s @ [length (fheap s)]"
    and "length (fheap (grown env base tc c s)) = Suc (length (fheap s))"
    and "import_keys (fheap (grown env base tc c s) ! length (fheap s)) = import_keys (fheap s ! base) \<union> set tc"
    and "cm_locked (grown env base tc c s) = cm_locked s" and "cfull (grown env base tc c s) = cfull s"
    and "doomed (grown env base tc c s) = doomed s"
    and "i < length (fheap s) \<Longrightarrow> import_keys (fheap (grown env base tc c s) ! i) = import_keys (fheap s ! i)"
  using assms by (auto simp: grown_def import_keys_def import_keys_add nth_append nth_list_update)

lemma Provision_reuse:
  assumes "\<not> cm_locked s" and "match (fheap s) (servers s) imps = Ret (fs, tc, hit)"
    and "\<not> fs_locked (fheap s ! fs)" and "tc = [] \<or> cm_Full s"
  shows "Provision match ops env imps s = serve_from env fs tc hit s"
  using assms by (auto simp: Provision_def)

lemma Provision_grow:
  assumes "\<not> cm_locked s" and "match (fheap s) (servers s) imps = Ret (fs, tc, hit)"
    and "\<not> fs_locked (fheap s ! fs)" and "tc \<noteq> []" and "\<not> cm_Full s" and "fs < length (fheap s)"
  shows "Provision match ops env imps s =
     (case ce_create env of
        Inl e \<Rightarrow> (Ret (Inl e), s\<lparr>fheap := (with_new s fs tc)[length (fheap s) := (new_fs s fs tc)\<lparr>fs_Dead := True\<rparr>]\<rparr>)
      | Inr c \<Rightarrow>
          if ce_openPipe env \<noteq> None then (Exit ''Cannot open pipe'', s\<lparr>fheap := with_new s fs tc\<rparr>)
          else (case WaitForEntryInit (ce_initMsg env) (ce_timeo env) of
                  Some e \<Rightarrow> (Ret (Inl e), upd_fs (length (fheap s)) (\<lambda>f. f\<lparr>fs_locked := True\<rparr>) (grown env fs tc c s))
                | None \<Rightarrow> serve_from env (length (fheap s)) [] hit (grown env fs tc c s)))"
  using assms(1-5)
  by (simp add: Provision_def newCacheEntry_effect [OF assms(6)] grown_def split: sum.split option.split)

context cache_matcher
begin

text \<open>
  \<open>Provision\<close> with any matcher that keeps the contract keeps the invariant, and when it succeeds
  with memory left the lambda runs in a fork of a server that has imported exactly what it asked for.
\<close>

lemma Provision_wf:
  assumes wf: "cache_wf z s" and p: "Provision match ops env imps s = (Ret r, s')"
  shows "cache_wf z s'"
proof -
  have free: "\<not> cm_locked s" using p by (auto simp: Provision_def split: if_splits)
  obtain fs tc hit where m: "match (fheap s) (servers s) imps = Ret (fs, tc, hit)" "fs \<in> set (servers s)"
    using match_total [OF cache_wf_servers_ok [OF wf]] by blast
  have b: "fs < length (fheap s)" using cache_wfD(5)[OF wf] m(2) by blast
  have nl: "\<not> fs_locked (fheap s ! fs)" using p free m by (auto simp: Provision_def split: if_splits)
  show ?thesis
  proof (cases "tc = [] \<or> cm_Full s")
    case True
    then have "serve_from env fs tc hit s = (Ret r, s')"
      using p Provision_reuse [of s match imps fs tc hit ops env] free m(1) nl by simp
    then show ?thesis using serve_from_effect [OF wf b, of env tc hit] by auto
  next
    case False
    then have P: "Provision match ops env imps s = (case ce_create env of
        Inl e \<Rightarrow> (Ret (Inl e), s\<lparr>fheap := (with_new s fs tc)[length (fheap s) := (new_fs s fs tc)\<lparr>fs_Dead := True\<rparr>]\<rparr>)
      | Inr c \<Rightarrow>
          if ce_openPipe env \<noteq> None then (Exit ''Cannot open pipe'', s\<lparr>fheap := with_new s fs tc\<rparr>)
          else (case WaitForEntryInit (ce_initMsg env) (ce_timeo env) of
                  Some e \<Rightarrow> (Ret (Inl e), upd_fs (length (fheap s)) (\<lambda>f. f\<lparr>fs_locked := True\<rparr>) (grown env fs tc c s))
                | None \<Rightarrow> serve_from env (length (fheap s)) [] hit (grown env fs tc c s)))"
      by (intro Provision_grow) (use free m(1) nl b in auto)
    show ?thesis
    proof (cases "ce_create env")
      case (Inl e)
      show ?thesis
        by (rule entry_added_wf [OF wf m(2), of s' tc "(new_fs s fs tc)\<lparr>fs_Dead := True\<rparr>"])
           (use p P Inl in \<open>auto simp: fs_steady_def\<close>)
    next
      case (Inr c)
      note g = grown_wf [OF wf m(2), of env tc c]
      have l: "length (fheap s) < length (fheap (grown env fs tc c s))" using grown_simps(2)[OF b] by simp
      show ?thesis
      proof (cases "WaitForEntryInit (ce_initMsg env) (ce_timeo env)")
        case (Some e)
        then have "s' = upd_fs (length (fheap s)) (\<lambda>f. f\<lparr>fs_locked := True\<rparr>) (grown env fs tc c s)"
          using p P Inr by (auto split: if_splits)
        then show ?thesis
          by (intro heap_steady_wf [OF g heap_steady_lock [of _ "length (fheap s)" True]]) auto
      next
        case None
        then have "serve_from env (length (fheap s)) [] hit (grown env fs tc c s) = (Ret r, s')"
          using p P Inr by (auto split: if_splits)
        then show ?thesis using serve_from_effect [OF g l, of env "[]" hit] by auto
      qed
    qed
  qed
qed

lemma Provision_preloads:
  assumes wf: "cache_wf z s" and d: "distinct imps"
    and p: "Provision match ops env imps s = (Ret (Inr (i, hit)), s')"
  shows "i \<in> set (servers s')" and "import_keys (fheap s' ! i) \<subseteq> set imps"
    and "\<not> cm_Full s \<Longrightarrow> import_keys (fheap s' ! i) = set imps"
proof -
  have free: "\<not> cm_locked s" using p by (auto simp: Provision_def split: if_splits)
  obtain fs tc h where m: "match (fheap s) (servers s) imps = Ret (fs, tc, h)" "fs \<in> set (servers s)"
    using match_total [OF cache_wf_servers_ok [OF wf]] by blast
  note C = match_covers [OF cache_wf_servers_ok [OF wf] d m(1)]
  have b: "fs < length (fheap s)" using cache_wfD(5)[OF wf] m(2) by blast
  have nl: "\<not> fs_locked (fheap s ! fs)" using p free m by (auto simp: Provision_def split: if_splits)
  have "i \<in> set (servers s') \<and> import_keys (fheap s' ! i) \<subseteq> set imps \<and>
        (\<not> cm_Full s \<longrightarrow> import_keys (fheap s' ! i) = set imps)"
  proof (cases "tc = [] \<or> cm_Full s")
    case True
    then have "serve_from env fs tc h s = (Ret (Inr (i, hit)), s')"
      using p Provision_reuse [of s match imps fs tc h ops env] free m(1) nl by simp
    then have i: "i = fs" "servers s' = servers s" "heap_steady (fheap s) (fheap s')"
      using serve_from_effect [OF wf b, of env tc h] by auto
    then show ?thesis using C heap_steady_keys [OF i(3) b] m(2) True by auto
  next
    case False
    then have ne: "tc \<noteq> []" "\<not> cm_Full s" by auto
    obtain c where sf: "serve_from env (length (fheap s)) [] h (grown env fs tc c s) = (Ret (Inr (i, hit)), s')"
      using p unfolding Provision_grow [where match = match, OF free m(1) nl ne b]
      by (auto split: sum.splits if_splits option.splits)
    have l: "length (fheap s) < length (fheap (grown env fs tc c s))" using grown_simps(2)[OF b] by simp
    have i: "i = length (fheap s)" "servers s' = servers (grown env fs tc c s)"
        "heap_steady (fheap (grown env fs tc c s)) (fheap s')"
      using sf serve_from_effect [OF grown_wf [OF wf m(2)] l, of env "[]" h] by auto
    have "import_keys (fheap s' ! i) = set imps"
      using heap_steady_keys [OF i(3) l] grown_simps(3)[OF b] C(1) by (simp add: i(1))
    then show ?thesis using i(1,2) grown_simps(1)[OF b] by simp
  qed
  then show "i \<in> set (servers s')" "import_keys (fheap s' ! i) \<subseteq> set imps"
    "\<not> cm_Full s \<Longrightarrow> import_keys (fheap s' ! i) = set imps" by auto
qed

end

subsection \<open>Eviction\<close>

text \<open>The search finds a childless server below the bound whose ratio none is below, if there is one.\<close>

lemma evict_search_spec:
  assumes "evict_search hp k is (idx, worst) = (idx', worst')" and "worst \<noteq> NaN"
  shows "worst' \<noteq> NaN \<and>
         (\<forall>i \<in> set is. fs_Children (hp ! i) = 0 \<longrightarrow> \<not> flt (evict_ratio (hp ! i)) worst') \<and>
         (worst' = worst \<or> flt worst' worst) \<and>
         ((idx', worst') = (idx, worst) \<or>
          (\<exists>j < length is. idx' = int (k + j) \<and> fs_Children (hp ! (is ! j)) = 0 \<and> worst' = evict_ratio (hp ! (is ! j))))"
  using assms
proof (induction "is" arbitrary: k idx worst)
  case (Cons i "is")
  show ?case
  proof (cases "fs_Children (hp ! i) = 0 \<and> flt (evict_ratio (hp ! i)) worst")
    case True
    have nn: "evict_ratio (hp ! i) \<noteq> NaN" using True by auto
    have s: "evict_search hp (Suc k) is (int k, evict_ratio (hp ! i)) = (idx', worst')" using Cons.prems(1) True by simp
    note I = Cons.IH [OF s nn]
    have lt: "flt worst' worst" using I True flt_trans by blast
    have "\<not> flt (evict_ratio (hp ! i)) worst'" using I flt_trans [of "evict_ratio (hp ! i)" worst' "evict_ratio (hp ! i)"] by auto
    moreover have "\<exists>j < length (i # is). idx' = int (k + j) \<and> fs_Children (hp ! ((i # is) ! j)) = 0 \<and> worst' = evict_ratio (hp ! ((i # is) ! j))"
      using I True by (metis Suc_less_eq add_Suc_right add_Suc length_Cons nth_Cons_0 nth_Cons_Suc prod.inject zero_less_Suc add.right_neutral)
    ultimately show ?thesis using I lt by simp
  next
    case False
    have s: "evict_search hp (Suc k) is (idx, worst) = (idx', worst')" using Cons.prems(1) False by auto
    note I = Cons.IH [OF s Cons.prems(2)]
    have "\<not> flt (evict_ratio (hp ! i)) worst'" if "fs_Children (hp ! i) = 0"
      using I False that flt_trans by blast
    moreover have "(idx', worst') = (idx, worst) \<or> (\<exists>j < length (i # is). idx' = int (k + j) \<and> fs_Children (hp ! ((i # is) ! j)) = 0 \<and> worst' = evict_ratio (hp ! ((i # is) ! j)))"
      using I by (metis Suc_less_eq add_Suc_right add_Suc length_Cons nth_Cons_Suc)
    ultimately show ?thesis using I by simp
  qed
qed simp

lemma cache_evict_cases:
  assumes "cache_evict s = (Ret (), s')" and "servers s \<noteq> []"
  obtains "s' = s" and "\<forall>i \<in> set (tl (servers s)). fs_Children (fheap s ! i) = 0 \<longrightarrow> \<not> flt (evict_ratio (fheap s ! i)) PInf"
  | xs v ys where "servers s = xs @ v # ys" and "xs \<noteq> []" and "fs_Children (fheap s ! v) = 0"
      and "\<forall>i \<in> set (tl (servers s)). fs_Children (fheap s ! i) = 0 \<longrightarrow> \<not> flt (evict_ratio (fheap s ! i)) (evict_ratio (fheap s ! v))"
      and "s' = s\<lparr>servers := xs @ ys, doomed := v # doomed s\<rparr>"
proof -
  obtain idx worst where e: "evict_search (fheap s) 1 (tl (servers s)) (- 1, PInf) = (idx, worst)" by fastforce
  note E = evict_search_spec [OF e]
  show thesis
  proof (cases "idx = - 1")
    case True
    then have "s' = s" using assms(1) e by (simp add: cache_evict_def)
    moreover have "worst = PInf" using E True by auto
    ultimately show thesis using that(1) E by simp
  next
    case False
    then obtain j where j: "j < length (tl (servers s))" "idx = int (1 + j)"
        "fs_Children (fheap s ! (tl (servers s) ! j)) = 0" "worst = evict_ratio (fheap s ! (tl (servers s) ! j))"
      using E by auto
    have k: "1 + j < length (servers s)" using j(1) by simp
    have tl: "tl (servers s) ! j = servers s ! (1 + j)" using j(1) by (simp add: nth_tl)
    have n: "nat idx = 1 + j" using j(2) by simp
    show thesis
    proof (rule that(2) [of "take (1 + j) (servers s)" "servers s ! (1 + j)" "drop (Suc (1 + j)) (servers s)"])
      show "servers s = take (1 + j) (servers s) @ servers s ! (1 + j) # drop (Suc (1 + j)) (servers s)"
        by (rule id_take_nth_drop [OF k])
      show "s' = s\<lparr>servers := take (1 + j) (servers s) @ drop (Suc (1 + j)) (servers s), doomed := servers s ! (1 + j) # doomed s\<rparr>"
        using assms(1) e False n by (auto simp: cache_evict_def Let_def split: if_splits)
      show "take (1 + j) (servers s) \<noteq> []" using k by auto
    qed (use E j tl in auto)
  qed
qed

lemma kids_append: "kids hp (xs @ ys) p = kids hp xs p + kids hp ys p"
  by (simp add: kids_def)

lemma kids_Cons: "kids hp (x # xs) p = (if fs_Parent (hp ! x) = Some p then 1 else 0) + kids hp xs p"
  by (simp add: kids_def)

lemma kids_nonneg: "0 \<le> kids hp xs p"
  by (simp add: kids_def)

lemma kids_member: "x \<in> set xs \<Longrightarrow> fs_Parent (hp ! x) = Some p \<Longrightarrow> 1 \<le> kids hp xs p"
  by (induction xs) (auto simp: kids_Cons kids_nonneg)

text \<open>A server that has no child on its count has none that is live.\<close>

lemma childless_leaf:
  assumes "cache_wf z s" and "v < length (fheap s)" and "fs_Children (fheap s ! v) = 0" and "i \<in> set (servers s)"
  shows "fs_Parent (fheap s ! i) \<noteq> Some v"
  using cache_wfD(6)[OF assms(1,2)] kids_member [of i "servers s @ doomed s" "fheap s" v] assms(3,4) by fastforce

lemma cache_evict_wf:
  assumes wf: "cache_wf z s" and ev: "cache_evict s = (Ret (), s')"
  shows "cache_wf z s'"
proof -
  obtain ss where ss: "servers s = 0 # ss" using cache_wfD(2)[OF wf] by blast
  then have ne: "servers s \<noteq> []" by simp
  show ?thesis
  proof (rule cache_evict_cases [OF ev ne])
    assume "s' = s" then show ?thesis using wf by simp
  next
    fix xs v ys
    assume srv: "servers s = xs @ v # ys" and xs: "xs \<noteq> []" and c0: "fs_Children (fheap s ! v) = 0"
      and s': "s' = s\<lparr>servers := xs @ ys, doomed := v # doomed s\<rparr>"
    have vl: "v < length (fheap s)" using cache_wfD(5)[OF wf, of v] srv by simp
    show ?thesis
    proof (rule cache_wfI)
      show "fs_ok z i (fheap s' ! i)" if "i < length (fheap s')" for i
        using cache_wfD(1)[OF wf, of i] that by (simp add: s')
      show "\<exists>ss. servers s' = 0 # ss" using ss srv xs by (cases xs) (auto simp: s')
      show "fs_Imports (fheap s' ! 0) = []" using cache_wfD(3)[OF wf] by (simp add: s')
      show "distinct (servers s' @ doomed s')" using cache_wfD(4)[OF wf] srv by (auto simp: s')
      show "i < length (fheap s')" if "i \<in> set (servers s') \<union> set (doomed s')" for i
        using cache_wfD(5)[OF wf, of i] that srv by (auto simp: s')
      show "kids (fheap s') (servers s' @ doomed s') p \<le> fs_Children (fheap s' ! p)" if "p < length (fheap s')" for p
        using cache_wfD(6)[OF wf, of p] that by (simp add: s' srv kids_append kids_Cons)
      show "p \<in> set (servers s')" if "i \<in> set (servers s')" "fs_Parent (fheap s' ! i) = Some p" for i p
        using cache_wfD(7)[OF wf, of i p] childless_leaf [OF wf vl c0, of i] that srv by (auto simp: s')
    qed
  qed
qed

lemma CheckUsage_wf:
  assumes wf: "cache_wf z s" and c: "CheckUsage file limit s = (Ret (), s')"
  shows "cache_wf z s'"
proof -
  have w: "cache_wf z (s\<lparr>cfull := b\<rparr>)" for b using wf by (simp add: cache_wf_def)
  show ?thesis
    using c cache_evict_wf [OF w, of 1 s'] w
    by (auto simp: CheckUsage_def split: if_splits res.splits)
qed

text \<open>The spawned \<open>Kill\<close> takes the victim off its parent's count, or leaves the count too high.\<close>

lemma kill_heap_wf:
  assumes wf: "cache_wf z s" and i: "i \<in> set (doomed s)"
    and s': "servers s' = servers s" "doomed s' = remove1 i (doomed s)" "length (fheap s') = length (fheap s)"
    and f: "\<And>j. j < length (fheap s) \<Longrightarrow> fs_Imports (fheap s' ! j) = fs_Imports (fheap s ! j) \<and>
        fs_Parent (fheap s' ! j) = fs_Parent (fheap s ! j) \<and> fs_Size (fheap s' ! j) = fs_Size (fheap s ! j) \<and>
        fs_Hits (fheap s' ! j) = fs_Hits (fheap s ! j)"
    and ch: "\<And>j. j < length (fheap s) \<Longrightarrow>
        fs_Children (fheap s ! j) - (if fs_Parent (fheap s ! i) = Some j then 1 else 0) \<le> fs_Children (fheap s' ! j)"
  shows "cache_wf z s'"
proof (rule cache_wfI)
  have mem: "set (servers s' @ doomed s') \<subseteq> set (servers s @ doomed s)"
    using s' by (auto dest: in_set_remove1 [THEN iffD1, rotated] set_remove1_subset [THEN subsetD])
  have z: "0 < length (fheap s)" using cache_wfD(2)[OF wf] cache_wfD(5)[OF wf, of 0] by auto
  show "fs_ok z j (fheap s' ! j)" if "j < length (fheap s')" for j
    using cache_wfD(1)[OF wf, of j] f [of j] that s'(3) by (simp add: fs_ok_def imports_ok_def)
  show "\<exists>ss. servers s' = 0 # ss" using cache_wfD(2)[OF wf] s' by simp
  show "fs_Imports (fheap s' ! 0) = []" using cache_wfD(3)[OF wf] f [OF z] by simp
  have dd: "distinct (doomed s)" using cache_wfD(4)[OF wf] by simp
  then show "distinct (servers s' @ doomed s')" using cache_wfD(4)[OF wf] s' by auto
  show "j < length (fheap s')" if "j \<in> set (servers s') \<union> set (doomed s')" for j
    using cache_wfD(5)[OF wf, of j] that mem s'(3) by auto
  show "p \<in> set (servers s')" if "j \<in> set (servers s')" "fs_Parent (fheap s' ! j) = Some p" for j p
    using cache_wfD(7)[OF wf, of j p] cache_wfD(5)[OF wf, of j] f [of j] that s'(1) by simp
  show "kids (fheap s') (servers s' @ doomed s') p \<le> fs_Children (fheap s' ! p)" if p: "p < length (fheap s')" for p
  proof -
    have "kids (fheap s') (servers s' @ doomed s') p = kids (fheap s) (servers s' @ doomed s') p"
    proof (rule kids_cong)
      fix j assume "j \<in> set (servers s' @ doomed s')"
      then have "j < length (fheap s)" using mem cache_wfD(5)[OF wf, of j] by auto
      then show "fs_Parent (fheap s' ! j) = fs_Parent (fheap s ! j)" using f by blast
    qed
    also have "\<dots> = kids (fheap s) (servers s @ doomed s) p - (if fs_Parent (fheap s ! i) = Some p then 1 else 0)"
    proof -
      have "kids (fheap s) xs p = (if fs_Parent (fheap s ! i) = Some p then 1 else 0) + kids (fheap s) (remove1 i xs) p"
        if "i \<in> set xs" for xs
        using that by (induction xs) (auto simp: kids_Cons)
      from this [OF i] show ?thesis by (simp add: s' kids_append)
    qed
    finally show ?thesis using cache_wfD(6)[OF wf, of p] ch [of p] p s'(3) by simp
  qed
qed

lemma run_doomed_wf:
  assumes wf: "cache_wf z s" and i: "i \<in> set (doomed s)" and k: "run_doomed ops fp i s = (r, s')"
  shows "cache_wf z s'"
proof (rule kill_heap_wf [OF wf i])
  have il: "i < length (fheap s)" using cache_wfD(5)[OF wf] i by blast
  have pl: "p < length (fheap s) \<and> p \<noteq> i" if "fs_Parent (fheap s ! i) = Some p" for p
    using cache_wfD(1)[OF wf il] that il by (auto simp: fs_ok_def)
  show "servers s' = servers s" "doomed s' = remove1 i (doomed s)" "length (fheap s') = length (fheap s)"
    using k by (auto simp: run_doomed_def Kill_def Let_def split: option.splits)
  show "fs_Imports (fheap s' ! j) = fs_Imports (fheap s ! j) \<and> fs_Parent (fheap s' ! j) = fs_Parent (fheap s ! j) \<and>
      fs_Size (fheap s' ! j) = fs_Size (fheap s ! j) \<and> fs_Hits (fheap s' ! j) = fs_Hits (fheap s ! j)"
    "fs_Children (fheap s ! j) - (if fs_Parent (fheap s ! i) = Some j then 1 else 0) \<le> fs_Children (fheap s' ! j)"
    if "j < length (fheap s)" for j
    using k that il pl by (auto simp: run_doomed_def Kill_def Let_def nth_list_update split: option.splits)
qed

subsection \<open>Histories\<close>

inductive cstep :: "'c container \<Rightarrow> 'c cacheManager \<Rightarrow> 'c cacheManager \<Rightarrow> bool" for ops where
  c_provision: "Provision SubsetMatcher_Match ops env imps s = (Ret r, s') \<Longrightarrow> cstep ops s s'"
| c_check: "CheckUsage file limit s = (Ret (), s') \<Longrightarrow> cstep ops s s'"
| c_kill: "i \<in> set (doomed s) \<Longrightarrow> run_doomed ops fp i s = (r, s') \<Longrightarrow> cstep ops s s'"

lemma cstep_wf: "cstep ops s s' \<Longrightarrow> cache_wf z s \<Longrightarrow> cache_wf z s'"
  by (induction rule: cstep.induct) (auto intro: subset.Provision_wf CheckUsage_wf run_doomed_wf)

lemma cache_run_wf: "(cstep ops)\<^sup>*\<^sup>* s s' \<Longrightarrow> cache_wf z s \<Longrightarrow> cache_wf z s'"
  by (induction rule: rtranclp_induct) (auto intro: cstep_wf)

lemma InitCacheManager_wf:
  "InitCacheManager sz file made op got timeo ev = Ret (Inr (Some (s, limit))) \<Longrightarrow> cache_wf z s"
  by (auto simp: InitCacheManager_def initCacheRoot_def cache_wf_def fs_ok_def imports_ok_def kids_def
      split: if_splits sum.splits prod.splits option.splits res.splits)

text \<open>
  C6.  In every state the import cache reaches, the root server comes first and is never evicted, no
  server is listed twice, the parent of a listed server is listed, is older, and has a child count at
  least the number of its listed children (so that the count of a server that may be evicted is never
  too low), and the hit counts are finite.
\<close>

theorem import_cache_tree:
  assumes "InitCacheManager sz file made op got timeo ev = Ret (Inr (Some (s0, limit)))" and "(cstep ops)\<^sup>*\<^sup>* s0 s"
  shows "(\<exists>ss. servers s = 0 # ss) \<and> distinct (servers s) \<and>
         (\<forall>i \<in> set (servers s). \<forall>p. fs_Parent (fheap s ! i) = Some p \<longrightarrow> p \<in> set (servers s) \<and> p < i) \<and>
         (\<forall>p \<in> set (servers s). kids (fheap s) (servers s) p \<le> fs_Children (fheap s ! p)) \<and>
         (\<forall>i \<in> set (servers s). \<exists>a \<ge> 0. fs_Hits (fheap s ! i) = Fin a)"
proof -
  have wf: "cache_wf True s" by (rule cache_run_wf [OF assms(2) InitCacheManager_wf [OF assms(1)]])
  have len: "i < length (fheap s)" if "i \<in> set (servers s)" for i using cache_wfD(5)[OF wf] that by blast
  show ?thesis
  proof (intro conjI ballI allI impI)
    show "\<exists>ss. servers s = 0 # ss" by (rule cache_wfD(2)[OF wf])
    show "distinct (servers s)" using cache_wfD(4)[OF wf] by simp
    fix i assume i: "i \<in> set (servers s)"
    show "p \<in> set (servers s)" "p < i" if "fs_Parent (fheap s ! i) = Some p" for p
      using cache_wfD(7)[OF wf i that] cache_wfD(1)[OF wf len [OF i]] that by (auto simp: fs_ok_def)
    show "kids (fheap s) (servers s) i \<le> fs_Children (fheap s ! i)"
      using cache_wfD(6)[OF wf len [OF i]] kids_nonneg [of "fheap s" "doomed s" i] by (simp add: kids_append)
    show "\<exists>a \<ge> 0. fs_Hits (fheap s ! i) = Fin a" using cache_wfD(1)[OF wf len [OF i]] by (simp add: fs_ok_def)
  qed
qed

text \<open>A cache for the witnesses: the root, and one entry for a lambda that imports two packages.\<close>

definition ex_box_ops :: "unit container" where
  "ex_box_ops = \<lparr>c_Start = (\<lambda>c. (Ret None, c)), c_Stop = (\<lambda>c. (None, c)), c_Pause = (\<lambda>c. (None, c)),
     c_Unpause = (\<lambda>c. (None, c)), c_Remove = (\<lambda>c. (None, c)), c_State = (\<lambda>_. Inr Running),
     c_Channel = (\<lambda>_. Inr []), c_ID = (\<lambda>_. []), c_RunServer = (\<lambda>c. (Ret None, c)),
     c_MemoryCGroupPath = (\<lambda>_. []), c_HostDir = (\<lambda>_. [])\<rparr>"

definition ex_cenv :: "unit cache_env" where
  "ex_cenv = \<lparr>ce_create = Inr (), ce_openPipe = None, ce_hostDir = (\<lambda>_. ''/c/1''), ce_sendFds = (\<lambda>_ _. [Inr ''7'']),
     ce_initMsg = Some (Inr ''ready''), ce_timeo = Inr 5, ce_enter = (\<lambda>_. None), ce_findProcess = (\<lambda>_. None)\<rparr>"

definition ex_init :: "(string + (unit cacheManager \<times> int) option) res" where
  "ex_init = InitCacheManager 1 None (Inr ((), ''5'', ''/c/0'')) None True (Inr 5) (None, None, None)"

definition ex_cache0 :: "unit cacheManager" where
  "ex_cache0 = (case ex_init of Ret (Inr (Some (s, limit))) \<Rightarrow> s | _ \<Rightarrow> undefined)"

lemma ex_init_ret: "InitCacheManager 1 None (Inr ((), ''5'', ''/c/0'')) None True (Inr 5) (None, None, None) = Ret (Inr (Some (ex_cache0, 1024)))"
  by (simp add: ex_cache0_def ex_init_def InitCacheManager_def readPkgSizes_def initCacheRoot_def NewEvictor_def)

definition ex_cache1 :: "unit cacheManager" where
  "ex_cache1 = snd (Provision SubsetMatcher_Match ex_box_ops ex_cenv [''numpy'', ''scipy''] ex_cache0)"

lemma ex_provision: "Provision SubsetMatcher_Match ex_box_ops ex_cenv [''numpy'', ''scipy''] ex_cache0 = (Ret (Inr (1, False)), ex_cache1)"
proof -
  have "fst (Provision SubsetMatcher_Match ex_box_ops ex_cenv [''numpy'', ''scipy''] ex_cache0) = Ret (Inr (1, False))"
    by code_simp
  then show ?thesis by (simp add: ex_cache1_def prod_eq_iff)
qed

lemma ex_cache1_reached: "(cstep ex_box_ops)\<^sup>*\<^sup>* ex_cache0 ex_cache1"
  by (rule r_into_rtranclp, rule c_provision, rule ex_provision)

lemma ex_cache1_servers: "servers ex_cache1 = [0, 1]"
  by code_simp

theorem import_cache_tree_witness:
  "distinct (servers ex_cache1) \<and> servers ex_cache1 = [0, 1]"
  using import_cache_tree [OF ex_init_ret ex_cache1_reached] ex_cache1_servers by simp

text \<open>
  C7.  Provisioning in a reachable state, for a list of imports without repetitions: the server that
  forked the lambda is listed and has imported nothing else; unless the cache is full, it has imported
  all of them.
\<close>

theorem Provision_gives_exact_server:
  assumes "InitCacheManager sz file made op got timeo ev = Ret (Inr (Some (s0, limit)))" and "(cstep ops)\<^sup>*\<^sup>* s0 s"
    and "distinct imps" and "Provision SubsetMatcher_Match ops env imps s = (Ret (Inr (i, hit)), s')"
  shows "i \<in> set (servers s') \<and> import_keys (fheap s' ! i) \<subseteq> set imps \<and>
         (\<not> cm_Full s \<longrightarrow> import_keys (fheap s' ! i) = set imps)"
  using subset.Provision_preloads [where z = True, OF cache_run_wf [OF assms(2) InitCacheManager_wf [OF assms(1)]] assms(3,4)] by blast

theorem Provision_gives_exact_server_witness:
  "import_keys (fheap ex_cache1 ! 1) = {''numpy'', ''scipy''}"
proof -
  have "\<not> cm_Full ex_cache0" "distinct [''numpy'', ''scipy'']" by code_simp+
  then show ?thesis
    using Provision_gives_exact_server [OF ex_init_ret rtranclp.rtrancl_refl _ ex_provision] by simp
qed

lemma sized_zero_not_less:
  assumes "fs_ok True i f" and "i \<noteq> 0"
  shows "\<not> flt (evict_ratio f) PInf"
proof -
  obtain a where "0 \<le> a" "fs_Hits f = Fin a" "fs_Size f = Fin 0" using assms by (auto simp: fs_ok_def)
  then show ?thesis using count_by_zero_not_less [of a] by (simp add: evict_ratio_def)
qed

text \<open>
  The evictor of the import cache never evicts: the size of an entry is summed up in
  \<open>newCacheEntry\<close> but not stored, so every entry but the root has size 0, its ratio is infinite or NaN,
  and no ratio is below the initial bound.  However full the cache is, a check changes only its flag.
\<close>

theorem import_cache_never_evicts:
  assumes "InitCacheManager sz file made op got timeo ev = Ret (Inr (Some (s0, limit)))" and "(cstep ops)\<^sup>*\<^sup>* s0 s"
  shows "cache_evict s = (Ret (), s)"
proof -
  have wf: "cache_wf True s" by (rule cache_run_wf [OF assms(2) InitCacheManager_wf [OF assms(1)]])
  obtain ss where ss: "servers s = 0 # ss" using cache_wfD(2)[OF wf] by blast
  have no: "\<not> flt (evict_ratio (fheap s ! i)) PInf" if "i \<in> set ss" for i
  proof -
    have "i \<noteq> 0" using cache_wfD(4)[OF wf] ss that by auto
    moreover have "i < length (fheap s)" using cache_wfD(5)[OF wf, of i] ss that by simp
    ultimately show ?thesis using sized_zero_not_less cache_wfD(1)[OF wf] by blast
  qed
  have "evict_search (fheap s) k is (- 1, PInf) = (- 1, PInf)" if "set is \<subseteq> set ss" for k "is"
    using that by (induction "is" arbitrary: k) (auto simp: no)
  from this [of ss 1] show ?thesis by (simp add: cache_evict_def ss)
qed

theorem import_cache_never_evicts_witness:
  "cache_evict ex_cache1 = (Ret (), ex_cache1) \<and> servers ex_cache1 = [0, 1]"
  using import_cache_never_evicts [OF ex_init_ret ex_cache1_reached] ex_cache1_servers by simp

text \<open>
  What the evictor does when sizes are set: the victim it removes is not the root, has no listed
  child, and has a ratio of hits to size that no other childless entry is below.
\<close>

theorem cache_evict_victim:
  assumes "cache_wf False s" and "cache_evict s = (Ret (), s')" and "servers s' \<noteq> servers s"
  shows "\<exists>v. v \<in> set (servers s) \<and> v \<noteq> hd (servers s) \<and> set (servers s') = set (servers s) - {v} \<and>
           doomed s' = v # doomed s \<and> (\<forall>i \<in> set (servers s). fs_Parent (fheap s ! i) \<noteq> Some v) \<and>
           (\<forall>i \<in> set (tl (servers s)). fs_Children (fheap s ! i) = 0 \<longrightarrow>
              \<not> flt (evict_ratio (fheap s ! i)) (evict_ratio (fheap s ! v)))"
proof -
  have ne: "servers s \<noteq> []" using cache_wfD(2)[OF assms(1)] by auto
  show ?thesis
  proof (rule cache_evict_cases [OF assms(2) ne])
    assume "s' = s" then show ?thesis using assms(3) by simp
  next
    fix xs v ys
    assume h: "servers s = xs @ v # ys" "xs \<noteq> []" "fs_Children (fheap s ! v) = 0"
      "\<forall>i \<in> set (tl (servers s)). fs_Children (fheap s ! i) = 0 \<longrightarrow> \<not> flt (evict_ratio (fheap s ! i)) (evict_ratio (fheap s ! v))"
      "s' = s\<lparr>servers := xs @ ys, doomed := v # doomed s\<rparr>"
    have d: "distinct (servers s)" using cache_wfD(4)[OF assms(1)] by simp
    have vl: "v < length (fheap s)" using cache_wfD(5)[OF assms(1), of v] h(1) by simp
    have "v \<noteq> hd (servers s)" using d h(1,2) by (cases xs) auto
    moreover have "set (servers s') = set (servers s) - {v}" using d h(1) by (auto simp: h(5))
    ultimately show ?thesis using h(1,4,5) childless_leaf [OF assms(1) vl h(3)] by auto
  qed
qed

lemma resized_wf:
  assumes wf: "cache_wf z s"
  shows "cache_wf False (s\<lparr>fheap := map (\<lambda>f. f\<lparr>fs_Size := x\<rparr>) (fheap s)\<rparr>)"
proof (rule cache_wfI)
  let ?s = "s\<lparr>fheap := map (\<lambda>f. f\<lparr>fs_Size := x\<rparr>) (fheap s)\<rparr>"
  note D = cache_wfD [OF wf]
  have par: "fs_Parent (fheap ?s ! i) = fs_Parent (fheap s ! i)" if "i < length (fheap s)" for i using that by simp
  have z0: "0 < length (fheap s)" using D(2) D(5)[of 0] by auto
  show "fs_ok False i (fheap ?s ! i)" if "i < length (fheap ?s)" for i
    using D(1)[of i] that by (simp add: fs_ok_def imports_ok_def)
  show "\<exists>ss. servers ?s = 0 # ss" "distinct (servers ?s @ doomed ?s)" using D(2,4) by simp_all
  show "fs_Imports (fheap ?s ! 0) = []" using D(3) z0 by simp
  show "i < length (fheap ?s)" if "i \<in> set (servers ?s) \<union> set (doomed ?s)" for i using D(5)[of i] that by simp
  show "p \<in> set (servers ?s)" if "i \<in> set (servers ?s)" "fs_Parent (fheap ?s ! i) = Some p" for i p
    using D(7)[of i p] D(5)[of i] that by simp
  show "kids (fheap ?s) (servers ?s @ doomed ?s) p \<le> fs_Children (fheap ?s ! p)" if "p < length (fheap ?s)" for p
  proof -
    have "kids (fheap ?s) (servers s @ doomed s) p = kids (fheap s) (servers s @ doomed s) p"
      by (rule kids_cong) (use D(5) par in auto)
    then show ?thesis using D(6)[of p] that by simp
  qed
qed

definition ex_sized :: "unit cacheManager" where
  "ex_sized = ex_cache1\<lparr>fheap := map (\<lambda>f. f\<lparr>fs_Size := Fin 4\<rparr>) (fheap ex_cache1)\<rparr>"

theorem cache_evict_victim_witness:
  "servers (snd (cache_evict ex_sized)) = [0] \<and>
   (\<exists>v. v \<in> set (servers ex_sized) \<and> doomed (snd (cache_evict ex_sized)) = v # doomed ex_sized)"
proof -
  have "cache_wf True ex_cache1" by (rule cache_run_wf [OF ex_cache1_reached InitCacheManager_wf [OF ex_init_ret]])
  then have wf: "cache_wf False ex_sized" unfolding ex_sized_def by (rule resized_wf)
  have sv: "servers (snd (cache_evict ex_sized)) = [0]" "servers ex_sized = [0, 1]" by code_simp+
  have "fst (cache_evict ex_sized) = Ret ()" by code_simp
  then have e: "cache_evict ex_sized = (Ret (), snd (cache_evict ex_sized))" by (simp add: prod_eq_iff)
  from cache_evict_victim [OF wf e] sv show ?thesis by auto
qed

subsection \<open>Failures\<close>

text \<open>
  \<open>forkRequest\<close> never returns an error: after five failed attempts it returns an empty pid and
  nil, since the error was assigned to a variable of the loop.  Otherwise the pid is the first
  non-empty answer.
\<close>

theorem forkRequest_never_fails:
  "snd (forkRequest sendFds imps is_handler) = None \<and>
   (fst (forkRequest sendFds imps is_handler) = [] \<longleftrightarrow>
      (\<forall>r \<in> set (take 5 (sendFds (forkRequest_signal imps is_handler))). \<exists>e. r = Inl e \<or> r = Inr []))"
proof -
  have "fst (forkRequest_loop rs) = [] \<longleftrightarrow> (\<forall>r \<in> set rs. \<exists>e. r = Inl e \<or> r = Inr [])" for rs
    by (induction rs rule: forkRequest_loop.induct) auto
  then show ?thesis using forkRequest_no_error by (simp add: forkRequest_def)
qed

theorem forkRequest_never_fails_witness:
  "forkRequest (\<lambda>_. [Inl ''ECONNREFUSED'', Inl ''ECONNREFUSED'']) [] True = ([], None)"
  using forkRequest_never_fails [of "\<lambda>_. [Inl ''ECONNREFUSED'', Inl ''ECONNREFUSED'']" "[]" True]
  by (simp add: prod_eq_iff)

text \<open>
  A container that cannot be created leaves the server the new entry was to be forked from with a
  child on its count that does not exist; \<open>Kill\<close> stops at the empty pid, before the count is taken
  back, so that server is never evicted.
\<close>

theorem failed_entry_keeps_parent_counted:
  assumes "cache_wf z s" and "base \<in> set (servers s)" and "ce_create env = Inl e"
    and "newCacheEntry ops env base toCache s = (r, s')"
  shows "r = Ret (Inl e) \<and> servers s' = servers s \<and>
         fs_Children (fheap s' ! base) = fs_Children (fheap s ! base) + 1 \<and>
         kids (fheap s') (servers s') base = kids (fheap s) (servers s) base"
proof -
  have b: "base < length (fheap s)" using cache_wfD(5)[OF assms(1)] assms(2) by blast
  have r: "r = Ret (Inl e)"
    and s': "s' = s\<lparr>fheap := (with_new s base toCache)[length (fheap s) := (new_fs s base toCache)\<lparr>fs_Dead := True\<rparr>]\<rparr>"
    using assms(3,4) newCacheEntry_effect [OF b, of ops env toCache] by auto
  have "fs_Parent (fheap s' ! i) = fs_Parent (fheap s ! i)" if "i \<in> set (servers s)" for i
    using cache_wfD(5)[OF assms(1), of i] that b by (auto simp: s' nth_append nth_list_update)
  then have "kids (fheap s') (servers s) base = kids (fheap s) (servers s) base" by (rule kids_cong)
  then show ?thesis using b r by (auto simp: s' nth_append nth_list_update)
qed

theorem failed_entry_keeps_parent_counted_witness:
  "fs_Children (fheap (snd (newCacheEntry ex_box_ops (ex_cenv\<lparr>ce_create := Inl ''ENOSPC''\<rparr>) 0 [''numpy''] ex_cache0)) ! 0)
     = fs_Children (fheap ex_cache0 ! 0) + 1"
proof -
  have "0 \<in> set (servers ex_cache0)" by code_simp
  then show ?thesis
    using failed_entry_keeps_parent_counted [OF InitCacheManager_wf [where z = True, OF ex_init_ret] _ _ prod.collapse [symmetric],
        of 0 "ex_cenv\<lparr>ce_create := Inl ''ENOSPC''\<rparr>" "''ENOSPC''" ex_box_ops "[''numpy'']"] by simp
qed

text \<open>Every string \<open>Atoi\<close> accepts consists of digits after a sign.\<close>

lemma parse_nat_digits_only: "parse_nat a w = Some n \<Longrightarrow> c \<in> set w \<Longrightarrow> digit_val c \<noteq> None"
  by (induction a w rule: parse_nat.induct) (auto split: option.splits)

lemma Atoi_chars:
  assumes "strconv_Atoi w = Some n" and "c \<in> set w"
  shows "digit_val c \<noteq> None \<or> c = CHR ''-'' \<or> c = CHR ''+''"
  using assms parse_nat_digits_only unfolding strconv_Atoi_def
  by (auto split: if_splits list.splits option.splits)

definition numeric_key :: "string \<Rightarrow> bool" where
  "numeric_key k \<longleftrightarrow> (\<exists>w n. k = strings_ToLower w \<and> strconv_Atoi w = Some n)"

lemma read_sizes_keys:
  assumes "read_sizes ls m = Inr m'" and "\<forall>k \<in> dom m. numeric_key k"
  shows "\<forall>k \<in> dom m'. numeric_key k"
  using assms
proof (induction ls arbitrary: m)
  case (Cons l ls)
  let ?k = "strings_ToLower (strings_Split CHR '':'' l ! 1)"
  obtain n where n: "strconv_Atoi (strings_Split CHR '':'' l ! 1) = Some n"
    and r: "read_sizes ls (m(?k \<mapsto> float_of n)) = Inr m'"
    using Cons.prems(1) by (auto simp: Let_def split: if_splits option.splits)
  have "numeric_key ?k" unfolding numeric_key_def using n by blast
  then have "\<forall>k \<in> dom (m(?k \<mapsto> float_of n)). numeric_key k" using Cons.prems(2) by simp
  then show ?case by (rule Cons.IH [OF r])
qed simp

lemma lower_digit: "digit_val d \<noteq> None \<Longrightarrow> lower d = d" "lower CHR ''-'' = CHR ''-''" "lower CHR ''+'' = CHR ''+''"
  unfolding lower_def digit_val_def by (simp_all split: if_splits)

lemma numeric_key_chars:
  assumes "numeric_key k" and "c \<in> set k"
  shows "digit_val c \<noteq> None \<or> c = CHR ''-'' \<or> c = CHR ''+''"
proof -
  obtain w n where w: "k = strings_ToLower w" "strconv_Atoi w = Some n" using assms(1) by (auto simp: numeric_key_def)
  then obtain d where d: "d \<in> set w" "c = lower d" using assms(2) by (auto simp: strings_ToLower_def)
  have "lower d = d" if "digit_val d \<noteq> None \<or> d = CHR ''-'' \<or> d = CHR ''+''"
    using that lower_digit by auto
  then show ?thesis using Atoi_chars [OF w(2) d(1)] d(2) by auto
qed

text \<open>
  The table of package sizes is keyed by the size and not by the name: no name with a letter in it
  is ever found, so that all packages count as size 0.
\<close>

theorem package_names_have_no_size:
  assumes "readPkgSizes file = Inr sizes" and "c \<in> set name" and "digit_val c = None" and "c \<noteq> CHR ''-''" and "c \<noteq> CHR ''+''"
  shows "sizes name = None"
proof -
  have "\<forall>k \<in> dom sizes. numeric_key k"
    using assms(1) read_sizes_keys [of _ Map.empty sizes] by (auto simp: readPkgSizes_def split: option.splits)
  then have "name \<notin> dom sizes" using numeric_key_chars assms(2-5) by blast
  then show ?thesis by (simp add: domIff)
qed

theorem package_names_have_no_size_witness:
  "readPkgSizes (Some [''numpy:52'']) = Inr [''52'' \<mapsto> Fin 52] \<and> [''52'' \<mapsto> Fin 52] ''numpy'' = None"
proof -
  have "strings_Split CHR '':'' ''numpy:52'' = [''numpy'', ''52'']" "strconv_Atoi ''52'' = Some 52" "strings_ToLower ''52'' = ''52''"
    by code_simp+
  then have r: "readPkgSizes (Some [''numpy:52'']) = Inr [''52'' \<mapsto> Fin 52]"
    by (simp add: readPkgSizes_def float_of_def)
  have "digit_val (CHR ''n'') = None" by code_simp
  then show ?thesis using package_names_have_no_size [OF r, of "CHR ''n''" "''numpy''"] r by simp
qed

lemma card_subset_same: "A \<subseteq> B \<Longrightarrow> finite B \<Longrightarrow> card B \<le> card A \<Longrightarrow> A = B"
  by (simp add: card_seteq)

text \<open>
  An entry whose interpreter does not come up within five seconds stays in the list of servers
  with its mutex locked.  The next \<open>Provision\<close> for the same imports chooses it and waits for ever with
  the manager's mutex held; from then on every \<open>Provision\<close> and every usage check waits too.
\<close>

theorem failed_init_blocks_cache:
  assumes "cache_wf z s" and "\<not> cm_locked s" and "distinct imps" and "\<not> cm_Full s"
    and "SubsetMatcher_Match (fheap s) (servers s) imps = Ret (fs, tc, hit)" and "tc \<noteq> []"
    and "\<not> fs_locked (fheap s ! fs)" and "ce_create env = Inr c" and "ce_openPipe env = None"
    and "WaitForEntryInit (ce_initMsg env) (ce_timeo env) = Some e"
  shows "\<exists>s1 s2. Provision SubsetMatcher_Match ops env imps s = (Ret (Inl e), s1) \<and>
           (\<forall>env'. Provision SubsetMatcher_Match ops env' imps s1 = (Block, s2)) \<and>
           (\<forall>env' imps'. fst (Provision SubsetMatcher_Match ops env' imps' s2) = Block) \<and>
           (\<forall>file limit. fst (CheckUsage file limit s2) = Block)"
proof -
  note wf = assms(1)
  have live: "fs \<in> set (servers s)" by (rule subset.match_member [OF cache_wf_servers_ok [OF wf] assms(5)])
  then have b: "fs < length (fheap s)" using cache_wfD(5)[OF wf] by blast
  let ?n = "length (fheap s)"
  define g where "g = grown env fs tc c s"
  define s1 where "s1 = upd_fs ?n (\<lambda>f. f\<lparr>fs_locked := True\<rparr>) g"
  have P: "Provision SubsetMatcher_Match ops env imps s = (Ret (Inl e), s1)"
    unfolding Provision_grow [where match = SubsetMatcher_Match, OF assms(2,5,7,6,4) b] s1_def g_def
    using assms(8-10) by simp
  note G = grown_simps [where env = env and tc = tc and c = c, OF b, folded g_def]
  have wf1: "cache_wf z s1" by (rule subset.Provision_wf [OF wf P])
  have keys1: "import_keys (fheap s1 ! i) = import_keys (fheap g ! i)" for i
    using G(2) by (cases "i = ?n") (auto simp: s1_def import_keys_def)
  note C = subset.match_covers [OF cache_wf_servers_ok [OF wf] assms(3,5)]
  have new: "import_keys (fheap s1 ! ?n) = set imps" using keys1 G(3) C(1) by simp
  have srv1: "servers s1 = servers s @ [?n]" using G(1) by (simp add: s1_def)
  have newtl: "?n \<in> set (tl (servers s1))" using srv1 cache_wfD(2)[OF wf] by auto
  obtain fs1 tc1 hit1 where m1: "SubsetMatcher_Match (fheap s1) (servers s1) imps = Ret (fs1, tc1, hit1)"
    using Match_returns [OF cache_wf_servers_ok [OF wf1]] by blast
  note M1 = Match_cases [OF cache_wf_servers_ok [OF wf1] assms(3) m1]
  have h1: hit1 using M1(1) newtl new by blast
  have k1: "import_keys (fheap s1 ! fs1) = set imps"
    using M1(2)[OF h1] newtl new by (intro card_subset_same) auto
  have "fs1 = ?n"
  proof (rule ccontr)
    assume "fs1 \<noteq> ?n"
    then have in0: "fs1 \<in> set (tl (servers s))" using M1(2)[OF h1] srv1 cache_wfD(2)[OF wf] by auto
    then have "fs1 < ?n" using cache_wfD(5)[OF wf, of fs1] list.set_sel(2)[of "servers s"] by (cases "servers s") auto
    then have k: "import_keys (fheap s ! fs1) = set imps" using k1 keys1 [of fs1] G(7)[of fs1] by simp
    note M0 = Match_cases [OF cache_wf_servers_ok [OF wf] assms(3,5)]
    have h0: hit using M0(1) in0 k by blast
    have "import_keys (fheap s ! fs) = set imps"
      using M0(2)[OF h0] in0 k by (intro card_subset_same) auto
    then have "set tc = {}" using M0(2)[OF h0] by simp
    then show False using assms(6) by simp
  qed
  then have "fs_locked (fheap s1 ! fs1)" using G(2) by (simp add: s1_def)
  moreover have "\<not> cm_locked s1" using assms(2) G(4) by (simp add: s1_def)
  ultimately have "\<forall>env'. Provision SubsetMatcher_Match ops env' imps s1 = (Block, s1\<lparr>cm_locked := True\<rparr>)"
    using m1 by (simp add: Provision_def)
  moreover have "\<forall>env' imps'. fst (Provision SubsetMatcher_Match ops env' imps' (s1\<lparr>cm_locked := True\<rparr>)) = Block"
    "\<forall>file limit. fst (CheckUsage file limit (s1\<lparr>cm_locked := True\<rparr>)) = Block"
    by (simp_all add: Provision_def CheckUsage_def)
  ultimately show ?thesis using P by blast
qed

theorem failed_init_blocks_cache_witness:
  "\<exists>s1 s2. Provision SubsetMatcher_Match ex_box_ops (ex_cenv\<lparr>ce_initMsg := None\<rparr>) [''numpy''] ex_cache0
       = (Ret (Inl ''Cache entry failed to initialize after 5s''), s1) \<and>
     (\<forall>env'. Provision SubsetMatcher_Match ex_box_ops env' [''numpy''] s1 = (Block, s2))"
proof -
  have m: "SubsetMatcher_Match (fheap ex_cache0) (servers ex_cache0) [''numpy''] = Ret (0, [''numpy''], False)" by code_simp
  have u: "\<not> cm_locked ex_cache0" "\<not> cm_Full ex_cache0" "\<not> fs_locked (fheap ex_cache0 ! 0)" by code_simp+
  have d: "distinct [''numpy'']" "[''numpy''] \<noteq> []" by simp_all
  have e: "ce_create (ex_cenv\<lparr>ce_initMsg := None\<rparr>) = Inr ()" "ce_openPipe (ex_cenv\<lparr>ce_initMsg := None\<rparr>) = None"
    "WaitForEntryInit (ce_initMsg (ex_cenv\<lparr>ce_initMsg := None\<rparr>)) (ce_timeo (ex_cenv\<lparr>ce_initMsg := None\<rparr>)) = Some ''Cache entry failed to initialize after 5s''"
    by (simp_all add: ex_cenv_def WaitForEntryInit_def)
  from failed_init_blocks_cache [OF InitCacheManager_wf [where z = True, OF ex_init_ret] u(1) d(1) u(2) m d(2) u(3) e]
  show ?thesis by blast
qed

end
