(* ===== verification/MetaRegistry.thy ===== *)
theory MetaRegistry
  imports OLPrelude GoStrings
begin

text \<open>
  The dependency registry of the load balancer (\<open>load_balancer/metaregistry.go\<close>): two tables that
  map handler names and package names to ids, each entry followed by the ids of its neighbours on the
  other side.

  A Go map of slices is a partial function to lists: an entry that was never assigned is a nil slice,
  and no entry is ever assigned an empty one.  The counters are Go \<open>int\<close>s that count entries of
  slices in memory, so their width plays no role.
\<close>

record metaRegistry =
  dep_map :: "string \<rightharpoonup> int list"
  pckg_lut :: "string \<rightharpoonup> int list"
  dep_names :: "string list"
  handler_names :: "string list"
  cur_did :: int
  cur_hid :: int

definition mr_slice :: "(string \<rightharpoonup> int list) \<Rightarrow> string \<Rightarrow> int list" where
  "mr_slice m k = (case m k of None \<Rightarrow> [] | Some xs \<Rightarrow> xs)"

text \<open>\<open>init\<close> on a zero value.\<close>

definition mr_init :: metaRegistry where
  "mr_init = \<lparr>dep_map = Map.empty, pckg_lut = Map.empty, dep_names = [], handler_names = [],
              cur_did = 0, cur_hid = 0\<rparr>"

text \<open>The first loop of \<open>push\<close>: ids for the packages that have none.\<close>

fun fill_ids :: "string list \<Rightarrow> metaRegistry \<Rightarrow> metaRegistry" where
  "fill_ids [] mr = mr"
| "fill_ids (p # ps) mr =
     fill_ids ps
       (if pckg_lut mr p = None
        then mr\<lparr>pckg_lut := (pckg_lut mr)(p \<mapsto> mr_slice (pckg_lut mr) p @ [cur_did mr]),
                dep_names := dep_names mr @ [p], cur_did := cur_did mr + 1\<rparr>
        else mr)"

text \<open>The second loop: the edges, in both directions.\<close>

fun link_deps :: "string \<Rightarrow> string list \<Rightarrow> metaRegistry \<Rightarrow> (metaRegistry, unit) outcome" where
  "link_deps h [] mr = (Ret (), mr)"
| "link_deps h (p # ps) mr =
     (case go_index (mr_slice (pckg_lut mr) p) 0 of
        Ret d \<Rightarrow>
          let mr1 = mr\<lparr>dep_map := (dep_map mr)(h \<mapsto> mr_slice (dep_map mr) h @ [d])\<rparr> in
          (case go_index (mr_slice (dep_map mr1) h) 0 of
             Ret hid \<Rightarrow>
               link_deps h ps (mr1\<lparr>pckg_lut := (pckg_lut mr1)(p \<mapsto> mr_slice (pckg_lut mr1) p @ [hid])\<rparr>)
           | Panic m \<Rightarrow> (Panic m, mr1)
           | Exit m \<Rightarrow> (Exit m, mr1)
           | Block \<Rightarrow> (Block, mr1))
      | Panic m \<Rightarrow> (Panic m, mr)
      | Exit m \<Rightarrow> (Exit m, mr)
      | Block \<Rightarrow> (Block, mr))"

definition push :: "string \<Rightarrow> string list \<Rightarrow> metaRegistry \<Rightarrow> (metaRegistry, int) outcome" where
  "push h ps mr =
     (if dep_map mr h = None
      then
        let mr1 = mr\<lparr>dep_map := (dep_map mr)(h \<mapsto> mr_slice (dep_map mr) h @ [cur_hid mr]),
                     handler_names := handler_names mr @ [h], cur_hid := cur_hid mr + 1\<rparr> in
        (case link_deps h ps (fill_ids ps mr1) of
           (Ret _, mr2) \<Rightarrow> (Ret 0, mr2)
         | (Panic m, mr2) \<Rightarrow> (Panic m, mr2)
         | (Exit m, mr2) \<Rightarrow> (Exit m, mr2)
         | (Block, mr2) \<Rightarrow> (Block, mr2))
      else (Ret (- 1), mr))"

text \<open>\<open>push_cluster_handler\<close>; \<open>readFile\<close> gives \<open>None\<close> for an error, which ends the process.\<close>

definition push_cluster_handler ::
  "(string \<Rightarrow> string option) \<Rightarrow> string \<Rightarrow> string \<Rightarrow> metaRegistry \<Rightarrow> (metaRegistry, int) outcome" where
  "push_cluster_handler readFile h clust mr =
     (case readFile (''../'' @ clust @ ''/registry/'' @ h @ ''/'' @ ''packages.txt'') of
        None \<Rightarrow> (Exit ''log.Fatal'', mr)
      | Some istre \<Rightarrow>
          let raw = strings_Split (CHR 0x0A) istre in
          if length raw \<le> 1 then (Ret (- 1), mr)
          else push h (butlast raw) mr)"

text \<open>The lookups: names for the ids after the first.\<close>

fun lut_names :: "string list \<Rightarrow> int list \<Rightarrow> string list \<Rightarrow> string list res" where
  "lut_names names [] sl = Ret sl"
| "lut_names names (i # is) sl =
     (case go_index names i of
        Ret n \<Rightarrow> lut_names names is (sl @ [n])
      | Panic m \<Rightarrow> Panic m
      | Exit m \<Rightarrow> Exit m
      | Block \<Rightarrow> Block)"

definition peek_handler_deps :: "string \<Rightarrow> metaRegistry \<Rightarrow> string list res" where
  "peek_handler_deps h mr =
     (case dep_map mr h of None \<Rightarrow> Ret [] | Some inds \<Rightarrow> lut_names (dep_names mr) (tl inds) [])"

definition peek_deps_used_by :: "string \<Rightarrow> metaRegistry \<Rightarrow> string list res" where
  "peek_deps_used_by p mr =
     (case pckg_lut mr p of None \<Rightarrow> Ret [] | Some inds \<Rightarrow> lut_names (handler_names mr) (tl inds) [])"

subsection \<open>The invariant\<close>

text \<open>
  A table is in order when its entries are exactly the names handed out, and the entry of the \<open>i\<close>-th
  name starts with \<open>i\<close> and goes on with ids of the other side.
\<close>

definition table_ok :: "(string \<rightharpoonup> int list) \<Rightarrow> string list \<Rightarrow> nat \<Rightarrow> bool" where
  "table_ok m names n \<longleftrightarrow>
     distinct names \<and> dom m = set names \<and>
     (\<forall>i < length names. \<exists>xs. m (names ! i) = Some (int i # xs) \<and> (\<forall>x \<in> set xs. 0 \<le> x \<and> x < int n))"

definition mr_ok :: "metaRegistry \<Rightarrow> bool" where
  "mr_ok mr \<longleftrightarrow>
     cur_hid mr = int (length (handler_names mr)) \<and> cur_did mr = int (length (dep_names mr)) \<and>
     table_ok (dep_map mr) (handler_names mr) (length (dep_names mr)) \<and>
     table_ok (pckg_lut mr) (dep_names mr) (length (handler_names mr))"

lemma mr_ok_init: "mr_ok mr_init"
  by (simp add: mr_ok_def mr_init_def table_ok_def)

lemma table_okE:
  assumes "table_ok m names n" and "k \<in> set names"
  obtains i xs where "i < length names" and "names ! i = k" and "m k = Some (int i # xs)"
    and "\<forall>x \<in> set xs. 0 \<le> x \<and> x < int n"
  using assms unfolding table_ok_def by (metis in_set_conv_nth)

lemma table_None: "table_ok m names n \<Longrightarrow> m k = None \<longleftrightarrow> k \<notin> set names"
  by (auto simp: table_ok_def)

lemma table_mono: "table_ok m names n \<Longrightarrow> n \<le> n' \<Longrightarrow> table_ok m names n'"
  unfolding table_ok_def by (meson of_nat_mono order_less_le_trans)

lemma table_new:
  assumes ok: "table_ok m names n" and k: "m k = None"
  shows "table_ok (m(k \<mapsto> [int (length names)])) (names @ [k]) n"
proof -
  have fresh: "k \<notin> set names" using table_None [OF ok] k by simp
  have "\<exists>xs. (m(k \<mapsto> [int (length names)])) ((names @ [k]) ! i) = Some (int i # xs) \<and> (\<forall>x \<in> set xs. 0 \<le> x \<and> x < int n)"
    if "i < length (names @ [k])" for i
  proof (cases "i = length names")
    case False
    then have i: "i < length names" using that by simp
    then have "names ! i \<noteq> k" using fresh nth_mem by fastforce
    then show ?thesis using ok i by (auto simp: table_ok_def nth_append)
  qed simp
  then show ?thesis using ok fresh by (auto simp: table_ok_def)
qed

lemma table_append:
  assumes ok: "table_ok m names n" and k: "m k = Some ys" and x: "0 \<le> x" "x < int n"
  shows "table_ok (m(k \<mapsto> ys @ [x])) names n"
proof -
  have d: "distinct names" and dm: "dom m = set names" using ok by (auto simp: table_ok_def)
  have "\<exists>xs. (m(k \<mapsto> ys @ [x])) (names ! i) = Some (int i # xs) \<and> (\<forall>z \<in> set xs. 0 \<le> z \<and> z < int n)"
    if "i < length names" for i
  proof -
    obtain xs where xs: "m (names ! i) = Some (int i # xs)" "\<forall>z \<in> set xs. 0 \<le> z \<and> z < int n"
      using ok \<open>i < length names\<close> unfolding table_ok_def by blast
    show ?thesis
    proof (cases "names ! i = k")
      case True
      with xs k have "ys = int i # xs" by simp
      with True xs(2) x show ?thesis by auto
    qed (use xs in auto)
  qed
  moreover have "dom (m(k \<mapsto> ys @ [x])) = set names" using dm k by (auto simp: domIff)
  ultimately show ?thesis unfolding table_ok_def using d by blast
qed

subsection \<open>What the tables say\<close>

definition deps_of :: "metaRegistry \<Rightarrow> string \<Rightarrow> string list" where
  "deps_of mr h = map (\<lambda>d. dep_names mr ! nat d) (tl (mr_slice (dep_map mr) h))"

definition users_of :: "metaRegistry \<Rightarrow> string \<Rightarrow> string list" where
  "users_of mr p = map (\<lambda>h. handler_names mr ! nat h) (tl (mr_slice (pckg_lut mr) p))"

lemma lut_names_Ret:
  "(\<forall>x \<in> set is. 0 \<le> x \<and> x < int (length names)) \<Longrightarrow> lut_names names is sl = Ret (sl @ map (\<lambda>x. names ! nat x) is)"
  by (induction "is" arbitrary: sl) (auto simp: go_index_def)

lemma table_tl:
  assumes "table_ok m names n" and "m k = Some xs"
  shows "\<forall>x \<in> set (tl xs). 0 \<le> x \<and> x < int n"
proof -
  have "k \<in> set names" using table_None [OF assms(1), of k] assms(2) by simp
  then obtain i ys where "m k = Some (int i # ys)" "\<forall>x \<in> set ys. 0 \<le> x \<and> x < int n"
    by (rule table_okE [OF assms(1)])
  then show ?thesis using assms(2) by simp
qed

lemma peek_handler_deps_ok: "mr_ok mr \<Longrightarrow> peek_handler_deps h mr = Ret (deps_of mr h)"
  by (auto simp: peek_handler_deps_def deps_of_def mr_slice_def mr_ok_def lut_names_Ret dest: table_tl split: option.splits)

lemma peek_deps_used_by_ok: "mr_ok mr \<Longrightarrow> peek_deps_used_by p mr = Ret (users_of mr p)"
  by (auto simp: peek_deps_used_by_def users_of_def mr_slice_def mr_ok_def lut_names_Ret dest: table_tl split: option.splits)

lemma map_names_append:
  "(\<forall>x \<in> set is. 0 \<le> x \<and> x < int (length names)) \<Longrightarrow> map (\<lambda>x. (names @ ext) ! nat x) is = map (\<lambda>x. names ! nat x) is"
  by (auto simp: nth_append)

lemma fill_ids_ok:
  assumes "mr_ok mr"
  shows "mr_ok (fill_ids ps mr) \<and> set ps \<subseteq> set (dep_names (fill_ids ps mr)) \<and>
         set (dep_names mr) \<subseteq> set (dep_names (fill_ids ps mr)) \<and>
         dep_map (fill_ids ps mr) = dep_map mr \<and> handler_names (fill_ids ps mr) = handler_names mr \<and>
         (\<forall>h. deps_of (fill_ids ps mr) h = deps_of mr h) \<and> (\<forall>p. users_of (fill_ids ps mr) p = users_of mr p)"
  using assms
proof (induction ps arbitrary: mr)
  case (Cons p ps)
  show ?case
  proof (cases "pckg_lut mr p")
    case (Some x)
    have "p \<in> set (dep_names mr)" using Cons.prems table_None [of "pckg_lut mr" "dep_names mr" _ p] Some by (auto simp: mr_ok_def)
    then show ?thesis using Cons.IH [OF Cons.prems] Some by auto
  next
    case None
    let ?mr = "mr\<lparr>pckg_lut := (pckg_lut mr)(p \<mapsto> [cur_did mr]), dep_names := dep_names mr @ [p], cur_did := cur_did mr + 1\<rparr>"
    have T: "table_ok (dep_map mr) (handler_names mr) (length (dep_names mr))"
      "table_ok (pckg_lut mr) (dep_names mr) (length (handler_names mr))"
      and n: "cur_did mr = int (length (dep_names mr))" "cur_hid mr = int (length (handler_names mr))"
      using Cons.prems by (simp_all add: mr_ok_def)
    have ok: "mr_ok ?mr"
      using table_new [OF T(2) None] table_mono [OF T(1), of "Suc (length (dep_names mr))"] n by (simp add: mr_ok_def)
    have deps: "deps_of ?mr h = deps_of mr h" for h
    proof (cases "dep_map mr h")
      case (Some xs)
      have "\<forall>x \<in> set (tl xs). 0 \<le> x \<and> x < int (length (dep_names mr))" by (rule table_tl [OF T(1) Some])
      then show ?thesis using map_names_append [of "tl xs" "dep_names mr" "[p]"] Some by (simp add: deps_of_def mr_slice_def)
    qed (simp add: deps_of_def mr_slice_def)
    have users: "users_of ?mr q = users_of mr q" for q
      using None by (simp add: users_of_def mr_slice_def)
    have "fill_ids (p # ps) mr = fill_ids ps ?mr" using None by (simp add: mr_slice_def)
    then show ?thesis using Cons.IH [OF ok] deps users by auto
  qed
qed simp

lemma link_deps_ok:
  assumes "mr_ok mr" and "h \<in> set (handler_names mr)" and "set ps \<subseteq> set (dep_names mr)"
  shows "\<exists>mr'. link_deps h ps mr = (Ret (), mr') \<and> mr_ok mr' \<and>
           handler_names mr' = handler_names mr \<and> dep_names mr' = dep_names mr \<and>
           (\<forall>k. deps_of mr' k = (if k = h then deps_of mr h @ ps else deps_of mr k)) \<and>
           (\<forall>p. users_of mr' p = users_of mr p @ replicate (count_list ps p) h)"
  using assms
proof (induction ps arbitrary: mr)
  case (Cons p ps)
  have T: "table_ok (dep_map mr) (handler_names mr) (length (dep_names mr))"
    "table_ok (pckg_lut mr) (dep_names mr) (length (handler_names mr))"
    using Cons.prems(1) by (simp_all add: mr_ok_def)
  have p: "p \<in> set (dep_names mr)" using Cons.prems(3) by simp
  obtain i xs where i: "i < length (dep_names mr)" "dep_names mr ! i = p" "pckg_lut mr p = Some (int i # xs)"
    by (rule table_okE [OF T(2) p])
  obtain j ys where j: "j < length (handler_names mr)" "handler_names mr ! j = h" "dep_map mr h = Some (int j # ys)"
    by (rule table_okE [OF T(1) Cons.prems(2)])
  let ?mr = "mr\<lparr>dep_map := (dep_map mr)(h \<mapsto> int j # ys @ [int i]), pckg_lut := (pckg_lut mr)(p \<mapsto> int i # xs @ [int j])\<rparr>"
  have ok: "mr_ok ?mr"
    using table_append [OF T(1) j(3), of "int i"] table_append [OF T(2) i(3), of "int j"] i(1) j(1) Cons.prems(1)
    by (simp add: mr_ok_def)
  have deps: "deps_of ?mr k = (if k = h then deps_of mr h @ [p] else deps_of mr k)" for k
    using i j by (simp add: deps_of_def mr_slice_def)
  have users: "users_of ?mr q = users_of mr q @ (if q = p then [h] else [])" for q
    using i j by (simp add: users_of_def mr_slice_def)
  have step: "link_deps h (p # ps) mr = link_deps h ps ?mr"
    using i j by (simp add: mr_slice_def go_index_def Let_def)
  obtain mr' where "link_deps h ps ?mr = (Ret (), mr')" "mr_ok mr'" "handler_names mr' = handler_names mr"
      "dep_names mr' = dep_names mr" "\<forall>k. deps_of mr' k = (if k = h then deps_of ?mr h @ ps else deps_of ?mr k)"
      "\<forall>q. users_of mr' q = users_of ?mr q @ replicate (count_list ps q) h"
    using Cons.IH [OF ok] Cons.prems(2,3) by auto
  then show ?case
    unfolding step using deps users by (intro exI [of _ mr']) auto
qed (simp add: deps_of_def users_of_def)

lemma push_new:
  assumes ok: "mr_ok mr" and new: "h \<notin> set (handler_names mr)"
  shows "\<exists>mr'. push h ps mr = (Ret 0, mr') \<and> mr_ok mr' \<and> handler_names mr' = handler_names mr @ [h] \<and>
           (\<forall>k. deps_of mr' k = (if k = h then ps else deps_of mr k)) \<and>
           (\<forall>p. users_of mr' p = users_of mr p @ replicate (count_list ps p) h)"
proof -
  have T: "table_ok (dep_map mr) (handler_names mr) (length (dep_names mr))"
    "table_ok (pckg_lut mr) (dep_names mr) (length (handler_names mr))"
    and n: "cur_hid mr = int (length (handler_names mr))"
    using ok by (simp_all add: mr_ok_def)
  have None: "dep_map mr h = None" using table_None [OF T(1)] new by blast
  let ?mr = "mr\<lparr>dep_map := (dep_map mr)(h \<mapsto> [cur_hid mr]), handler_names := handler_names mr @ [h], cur_hid := cur_hid mr + 1\<rparr>"
  have ok1: "mr_ok ?mr"
    using table_new [OF T(1) None] table_mono [OF T(2), of "Suc (length (handler_names mr))"] ok n by (simp add: mr_ok_def)
  have deps: "deps_of ?mr k = (if k = h then [] else deps_of mr k)" for k
    by (simp add: deps_of_def mr_slice_def)
  have users: "users_of ?mr p = users_of mr p" for p
  proof (cases "pckg_lut mr p")
    case (Some xs)
    have "\<forall>x \<in> set (tl xs). 0 \<le> x \<and> x < int (length (handler_names mr))" by (rule table_tl [OF T(2) Some])
    then show ?thesis using map_names_append [of "tl xs" "handler_names mr" "[h]"] Some by (simp add: users_of_def mr_slice_def)
  qed (simp add: users_of_def mr_slice_def)
  note F = fill_ids_ok [OF ok1, of ps]
  obtain mr' where L: "link_deps h ps (fill_ids ps ?mr) = (Ret (), mr')" "mr_ok mr'"
      "handler_names mr' = handler_names (fill_ids ps ?mr)"
      "\<forall>k. deps_of mr' k = (if k = h then deps_of (fill_ids ps ?mr) h @ ps else deps_of (fill_ids ps ?mr) k)"
      "\<forall>p. users_of mr' p = users_of (fill_ids ps ?mr) p @ replicate (count_list ps p) h"
    using link_deps_ok [of "fill_ids ps ?mr" h ps] F by auto
  have "push h ps mr = (Ret 0, mr')" using None L(1) by (simp add: push_def mr_slice_def Let_def)
  then show ?thesis using L F deps users by (intro exI [of _ mr']) auto
qed

definition mr_pushes :: "(string \<times> string list) list \<Rightarrow> metaRegistry" where
  "mr_pushes xs = fold (\<lambda>(h, ps) mr. snd (push h ps mr)) xs mr_init"

lemma mr_pushes_ok: "mr_ok (mr_pushes xs)"
proof -
  have "mr_ok (snd (push h ps mr))" if "mr_ok mr" for h ps mr
  proof (cases "h \<in> set (handler_names mr)")
    case True
    then have "dep_map mr h \<noteq> None" using that table_None [of "dep_map mr" "handler_names mr" _ h] by (auto simp: mr_ok_def)
    then show ?thesis using that by (auto simp: push_def)
  next
    case False
    then show ?thesis using push_new [OF that, of h ps] by auto
  qed
  then have "mr_ok mr \<Longrightarrow> mr_ok (fold (\<lambda>(h, ps) mr. snd (push h ps mr)) xs mr)" for mr
    by (induction xs arbitrary: mr) auto
  then show ?thesis unfolding mr_pushes_def using mr_ok_init by blast
qed

text \<open>
  C34.  In a registry built by pushes, \<open>push\<close> of a new handler succeeds and is read back: the
  dependencies of the handler are the packages in the order given, those of every other handler stay
  as they were, and the handler appears at the end of the users of each package once per mention.
  A handler that is already registered is refused and changes nothing.
\<close>

theorem push_peek_round_trip:
  "if h \<in> set (handler_names (mr_pushes hist)) then push h ps (mr_pushes hist) = (Ret (- 1), mr_pushes hist)
   else \<exists>mr'. push h ps (mr_pushes hist) = (Ret 0, mr') \<and>
     peek_handler_deps h mr' = Ret ps \<and>
     (\<forall>k. k \<noteq> h \<longrightarrow> peek_handler_deps k mr' = peek_handler_deps k (mr_pushes hist)) \<and>
     (\<forall>p us. peek_deps_used_by p (mr_pushes hist) = Ret us \<longrightarrow>
        peek_deps_used_by p mr' = Ret (us @ replicate (count_list ps p) h))"
proof (cases "h \<in> set (handler_names (mr_pushes hist))")
  case True
  then have "dep_map (mr_pushes hist) h \<noteq> None"
    using mr_pushes_ok [of hist] table_None [of "dep_map (mr_pushes hist)" "handler_names (mr_pushes hist)" _ h]
    by (auto simp: mr_ok_def)
  with True show ?thesis by (auto simp: push_def)
next
  case False
  note ok = mr_pushes_ok [of hist]
  obtain mr' where P: "push h ps (mr_pushes hist) = (Ret 0, mr')" "mr_ok mr'"
      "\<forall>k. deps_of mr' k = (if k = h then ps else deps_of (mr_pushes hist) k)"
      "\<forall>p. users_of mr' p = users_of (mr_pushes hist) p @ replicate (count_list ps p) h"
    using push_new [OF ok False, of ps] by blast
  show ?thesis
    unfolding if_not_P [OF False] peek_handler_deps_ok [OF ok] peek_deps_used_by_ok [OF ok]
    using P by (intro exI [of _ mr']) (simp add: peek_handler_deps_ok peek_deps_used_by_ok)
qed

theorem push_peek_round_trip_witness:
  "\<exists>mr'. push ''g'' [''numpy'', ''six''] (mr_pushes [(''f'', [''six''])]) = (Ret 0, mr') \<and>
     peek_handler_deps ''g'' mr' = Ret [''numpy'', ''six''] \<and> peek_deps_used_by ''six'' mr' = Ret [''f'', ''g'']"
proof -
  have "handler_names (mr_pushes [(''f'', [''six''])]) = [''f'']" by code_simp
  moreover have "peek_deps_used_by ''six'' (mr_pushes [(''f'', [''six''])]) = Ret [''f'']" by code_simp
  ultimately show ?thesis
    using push_peek_round_trip [of "''g''" "[(''f'', [''six''])]" "[''numpy'', ''six'']"] by auto
qed

text \<open>
  \<open>push_cluster_handler\<close> pushes the lines of \<open>packages.txt\<close> that end in a newline.  What
  follows the last newline is taken for the end-of-file mark and dropped, also when it is a package.
\<close>

theorem push_cluster_handler_lines:
  assumes "ls \<noteq> []" and "\<forall>l \<in> set (ls @ [rest]). CHR 0x0A \<notin> set l"
    and "readFile (''../'' @ clust @ ''/registry/'' @ h @ ''/packages.txt'') = Some (strings_Join [CHR 0x0A] (ls @ [rest]))"
  shows "push_cluster_handler readFile h clust mr = push h ls mr"
proof -
  have "strings_Split (CHR 0x0A) (strings_Join [CHR 0x0A] (ls @ [rest])) = ls @ [rest]"
    by (rule strings_Split_Join) (use assms(2) in auto)
  then show ?thesis using assms(1,3) by (simp add: push_cluster_handler_def Let_def)
qed

theorem push_cluster_handler_lines_witness:
  "push_cluster_handler (\<lambda>_. Some (''six'' @ CHR 0x0A # ''numpy'')) ''f'' ''c'' mr_init = push ''f'' [''six''] mr_init"
  using push_cluster_handler_lines [of "[''six'']" "''numpy''" "\<lambda>_. Some (''six'' @ CHR 0x0A # ''numpy'')"] by simp

end
