(* ===== verification/History.thy ===== *)
theory History
  imports OLPrelude GoStrings "HOL-Library.Word"
begin

text \<open>
  The history of the worker (\<open>worker/server/hist.go\<close>): a table of fixed size of the handlers that
  were used, with a flag for those that have a warm container.  Indices and the size are \<open>uint32\<close>,
  the codes and the result \<open>uint8\<close>; the random number is an argument.
\<close>

type_synonym uint32 = "32 word"
type_synonym uint8 = "8 word"

record lambdaHistory =
  logSize :: uint32
  hnames :: "string list"
  present :: "bool list"

definition code_PEEK :: uint8 where "code_PEEK = 0"
definition code_OPEN :: uint8 where "code_OPEN = 1"
definition code_CLOSE :: uint8 where "code_CLOSE = 2"

definition hist_Init :: "uint32 \<Rightarrow> lambdaHistory" where
  "hist_Init n = \<lparr>logSize = n, hnames = replicate (unat n) [], present = replicate (unat n) False\<rparr>"

lemma go_index_uint: "unat (i :: uint32) < length xs \<Longrightarrow> go_index xs (uint i) = Ret (xs ! unat i)"
  using go_index_Ret [of "unat i" xs] by simp

text \<open>The lookup: the first entry with the name, or the first cold spot, which gets the name.\<close>

function find_slot :: "string \<Rightarrow> uint32 \<Rightarrow> lambdaHistory \<Rightarrow> (uint32 option \<times> lambdaHistory) res" where
  "find_slot name ind hist =
     (if ind < logSize hist
      then
        (case go_index (hnames hist) (uint ind) of
           Ret x \<Rightarrow>
             if x = name then Ret (Some ind, hist)
             else if x = [] then Ret (Some ind, hist\<lparr>hnames := (hnames hist)[unat ind := name]\<rparr>)
             else find_slot name (ind + 1) hist
         | Panic m \<Rightarrow> Panic m
         | Exit m \<Rightarrow> Exit m
         | Block \<Rightarrow> Block)
      else Ret (None, hist))"
  by pat_completeness auto

lemma unat_less_Suc:
  assumes "a < (b :: uint32)"
  shows "unat (a + 1) = Suc (unat a)"
proof -
  have bound: "unat b < 2 ^ LENGTH(32)" by (rule unsigned_less)
  have "unat a + unat (1 :: uint32) < 2 ^ LENGTH(32)"
    using assms bound by (simp add: word_less_nat_alt)
  then show ?thesis by (simp only: unat_add_lem) simp
qed

termination find_slot
  by (relation "measure (\<lambda>(name, ind, hist). unat (logSize hist) - unat ind)")
     (auto simp: unat_less_Suc word_less_nat_alt)

declare find_slot.simps [simp del]

text \<open>
  The search for an entry that is not warm, from a random place around the table.  \<open>None\<close> is a
  search that needs more steps than the bound, the inner \<open>None\<close> one that came back to its start.
\<close>

fun find_cold :: "nat \<Rightarrow> lambdaHistory \<Rightarrow> uint32 \<Rightarrow> uint32 \<Rightarrow> uint32 option res option" where
  "find_cold 0 hist origran rn = None"
| "find_cold (Suc fuel) hist origran rn =
     (case go_index (present hist) (uint rn) of
        Ret warm \<Rightarrow>
          if warm
          then let rn' = (rn + 1) mod logSize hist in
               if origran = rn' then Some (Ret None) else find_cold fuel hist origran rn'
          else Some (Ret (Some rn))
      | Panic m \<Rightarrow> Some (Panic m)
      | Exit m \<Rightarrow> Some (Exit m)
      | Block \<Rightarrow> Some Block)"

text \<open>The flags of the entry that was found, and the result.\<close>

definition hist_flags :: "uint32 \<Rightarrow> uint8 \<Rightarrow> lambdaHistory \<Rightarrow> (lambdaHistory, uint8) outcome" where
  "hist_flags ind code hist =
     (let (p1, h1) = (if code = code_OPEN then (1, hist\<lparr>present := (present hist)[unat ind := True]\<rparr>) else (0, hist));
          (p2, h2) = (if code = code_CLOSE then (0, h1\<lparr>present := (present h1)[unat ind := False]\<rparr>) else (p1, h1))
      in if code = code_PEEK
         then (case go_index (present h2) (uint ind) of
                 Ret b \<Rightarrow> (Ret (if b then 1 else 0), h2)
               | Panic m \<Rightarrow> (Panic m, h2)
               | Exit m \<Rightarrow> (Exit m, h2)
               | Block \<Rightarrow> (Block, h2))
         else (Ret p2, h2))"

text \<open>
  \<open>HandlerAccess\<close>.  A table of size 0 divides by zero.  The bound for the search is one more than
  the size; \<open>Block\<close> would be a search that exceeds it.
\<close>

definition HandlerAccess :: "string \<Rightarrow> uint8 \<Rightarrow> uint32 \<Rightarrow> lambdaHistory \<Rightarrow> (lambdaHistory, uint8) outcome" where
  "HandlerAccess hname code rnd hist =
     (case find_slot hname 0 hist of
        Ret (Some ind, h1) \<Rightarrow> hist_flags ind code h1
      | Ret (None, h1) \<Rightarrow>
          if logSize h1 = 0 then (Panic ''integer divide by zero'', h1)
          else
            let rn = rnd mod logSize h1 in
            (case find_cold (Suc (unat (logSize h1))) h1 rn rn of
               None \<Rightarrow> (Block, h1)
             | Some (Ret None) \<Rightarrow> (Ret 0, h1)
             | Some (Ret (Some i)) \<Rightarrow> hist_flags i code (h1\<lparr>hnames := (hnames h1)[unat i := hname]\<rparr>)
             | Some (Panic m) \<Rightarrow> (Panic m, h1)
             | Some (Exit m) \<Rightarrow> (Exit m, h1)
             | Some Block \<Rightarrow> (Block, h1))
      | Panic m \<Rightarrow> (Panic m, hist)
      | Exit m \<Rightarrow> (Exit m, hist)
      | Block \<Rightarrow> (Block, hist))"

text \<open>\<open>PrintCSVToResp\<close>: the lines of the response.\<close>

definition csv_line :: "string \<Rightarrow> bool \<Rightarrow> string" where
  "csv_line name warm = (if name = [] then ''[cold]'' else name) @ '','' @ (if warm then ''1'' else ''0'')"

definition PrintCSVToResp :: "lambdaHistory \<Rightarrow> string list res" where
  "PrintCSVToResp hist =
     (let n = unat (logSize hist) in
      if length (hnames hist) < n \<or> length (present hist) < n then Panic ''index out of range''
      else Ret (map (\<lambda>i. csv_line (hnames hist ! i) (present hist ! i)) [0..<n]))"

subsection \<open>The invariant\<close>

text \<open>
  The names in use come first, each once, then the cold spots; only names in use are warm.
\<close>

definition hist_ok :: "lambdaHistory \<Rightarrow> bool" where
  "hist_ok hist \<longleftrightarrow>
     length (hnames hist) = unat (logSize hist) \<and> length (present hist) = unat (logSize hist) \<and>
     (\<exists>xs k. hnames hist = xs @ replicate k [] \<and> distinct xs \<and> [] \<notin> set xs) \<and>
     (\<forall>i < length (present hist). present hist ! i \<longrightarrow> hnames hist ! i \<noteq> [])"

lemma hist_ok_Init: "hist_ok (hist_Init n)"
  unfolding hist_ok_def hist_Init_def by (auto intro!: exI [of _ "[]"])

definition clear :: "string \<Rightarrow> lambdaHistory \<Rightarrow> nat \<Rightarrow> nat \<Rightarrow> bool" where
  "clear name hist a b \<longleftrightarrow> (\<forall>j. a \<le> j \<longrightarrow> j < b \<longrightarrow> hnames hist ! j \<noteq> name \<and> hnames hist ! j \<noteq> [])"

lemma clear_extend:
  "clear name hist (Suc a) b \<Longrightarrow> hnames hist ! a \<noteq> name \<Longrightarrow> hnames hist ! a \<noteq> [] \<Longrightarrow> clear name hist a b"
  unfolding clear_def by (metis Suc_leI le_neq_implies_less)

inductive slot :: "string \<Rightarrow> lambdaHistory \<Rightarrow> nat \<Rightarrow> (uint32 option \<times> lambdaHistory) res \<Rightarrow> bool" for name hist a where
  slot_none: "clear name hist a (unat (logSize hist)) \<Longrightarrow> slot name hist a (Ret (None, hist))"
| slot_there: "a \<le> unat i \<Longrightarrow> unat i < unat (logSize hist) \<Longrightarrow> hnames hist ! unat i = name \<Longrightarrow>
    slot name hist a (Ret (Some i, hist))"
| slot_cold: "a \<le> unat i \<Longrightarrow> unat i < unat (logSize hist) \<Longrightarrow> hnames hist ! unat i = [] \<Longrightarrow> name \<noteq> [] \<Longrightarrow>
    clear name hist a (unat i) \<Longrightarrow>
    slot name hist a (Ret (Some i, hist\<lparr>hnames := (hnames hist)[unat i := name]\<rparr>))"

lemma slot_step:
  assumes "slot name hist (Suc a) r" and "hnames hist ! a \<noteq> name" and "hnames hist ! a \<noteq> []"
  shows "slot name hist a r"
  using assms(1)
proof cases
  case slot_none
  then show ?thesis using clear_extend [OF _ assms(2,3)] slot.slot_none by blast
next
  case (slot_there i)
  then show ?thesis using slot.slot_there [of a i hist name] by simp
next
  case (slot_cold i)
  then show ?thesis using slot.slot_cold [of a i hist name] clear_extend [OF _ assms(2,3)] by simp
qed

lemma find_slot_spec:
  "length (hnames hist) = unat (logSize hist) \<Longrightarrow> slot name hist (unat ind) (find_slot name ind hist)"
proof (induction name ind hist rule: find_slot.induct)
  case (1 name ind hist)
  show ?case
  proof (cases "ind < logSize hist")
    case False
    then have "clear name hist (unat ind) (unat (logSize hist))" by (auto simp: clear_def word_less_nat_alt)
    then show ?thesis using False slot_none by (simp add: find_slot.simps [of name ind hist])
  next
    case True
    then have lt: "unat ind < unat (logSize hist)" by (simp add: word_less_nat_alt)
    have ix: "go_index (hnames hist) (uint ind) = Ret (hnames hist ! unat ind)"
      using lt 1(2) by (intro go_index_uint) simp
    consider (there) "hnames hist ! unat ind = name" | (cold) "hnames hist ! unat ind \<noteq> name" "hnames hist ! unat ind = []"
      | (away) "hnames hist ! unat ind \<noteq> name" "hnames hist ! unat ind \<noteq> []" by blast
    then show ?thesis
    proof cases
      case there
      then show ?thesis using True ix lt slot_there [of "unat ind" ind hist name] by (simp add: find_slot.simps [of name ind hist])
    next
      case cold
      have "clear name hist (unat ind) (unat ind)" by (simp add: clear_def)
      then show ?thesis
        using cold True ix lt slot_cold [of "unat ind" ind hist name] by (simp add: find_slot.simps [of name ind hist])
    next
      case away
      then have r: "find_slot name ind hist = find_slot name (ind + 1) hist"
        using True ix by (simp add: find_slot.simps [of name ind hist])
      have "slot name hist (unat (ind + 1)) (find_slot name (ind + 1) hist)"
        by (rule 1(1) [OF True ix _ _ 1(2)]) (use away in auto)
      then show ?thesis using slot_step away unfolding r unat_less_Suc [OF True] by blast
    qed
  qed
qed

text \<open>The search around the table takes at most as many steps as there are entries.\<close>

lemma next_index:
  assumes "rn < (n :: uint32)"
  shows "unat ((rn + 1) mod n) = (unat rn + 1) mod unat n"
  using unat_less_Suc [OF assms] by (simp add: unat_mod_distrib)

lemma find_cold_spec:
  fixes hist :: lambdaHistory
  defines "n \<equiv> unat (logSize hist)"
  assumes "length (present hist) = n" and "unat orig < n" and "unat rn = (unat orig + k) mod n" and "k < n"
    and "\<forall>j < k. present hist ! ((unat orig + j) mod n)" and "n - k \<le> fuel"
  shows "find_cold fuel hist orig rn = Some (Ret None) \<and> (\<forall>j < n. present hist ! ((unat orig + j) mod n)) \<or>
         (\<exists>i. find_cold fuel hist orig rn = Some (Ret (Some i)) \<and> unat i < n \<and> \<not> present hist ! unat i)"
  using assms(2-)
proof (induction fuel arbitrary: rn k)
  case (Suc fuel)
  have lt: "unat rn < n" using Suc.prems(3,4) by simp
  then have rl: "rn < logSize hist" by (simp add: word_less_nat_alt n_def)
  have ix: "go_index (present hist) (uint rn) = Ret (present hist ! unat rn)"
    using lt Suc.prems(1) by (intro go_index_uint) simp
  show ?case
  proof (cases "present hist ! unat rn")
    case False
    then show ?thesis using lt ix by auto
  next
    case True
    let ?r = "(rn + 1) mod logSize hist"
    have r: "unat ?r = (unat orig + Suc k) mod n"
      using next_index [OF rl] Suc.prems(3) by (simp add: n_def mod_Suc_eq)
    have all: "\<forall>j < Suc k. present hist ! ((unat orig + j) mod n)"
      using Suc.prems(5) True Suc.prems(3) by (auto simp: less_Suc_eq)
    have eq: "orig = ?r \<longleftrightarrow> Suc k = n"
    proof
      assume "orig = ?r"
      then have "(unat orig + Suc k) mod n = unat orig" using r by simp
      then have "n dvd Suc k" using Suc.prems(2) by (metis add_diff_cancel_left' mod_eq_dvd_iff_nat mod_less le_add1)
      then show "Suc k = n" using Suc.prems(4) by (meson Suc_leI dvd_imp_le le_antisym zero_less_Suc)
    next
      assume "Suc k = n"
      then show "orig = ?r" using r Suc.prems(2) by (metis mod_add_self2 mod_less unsigned_word_eqI)
    qed
    show ?thesis
    proof (cases "Suc k = n")
      case end': True
      then show ?thesis using ix \<open>present hist ! unat rn\<close> eq all by simp
    next
      case False
      have "find_cold (Suc fuel) hist orig rn = find_cold fuel hist orig ?r"
        using ix \<open>present hist ! unat rn\<close> eq False by (simp add: Let_def)
      moreover have "Suc k < n" "n - Suc k \<le> fuel" using False Suc.prems(4,6) by auto
      ultimately show ?thesis using Suc.IH [OF Suc.prems(1,2) r _ all] by simp
    qed
  qed
qed simp

lemma find_cold_total:
  assumes "length (present hist) = unat (logSize hist)" and "logSize hist \<noteq> 0"
  shows "find_cold (Suc (unat (logSize hist))) hist (rnd mod logSize hist) (rnd mod logSize hist) = Some (Ret None) \<and>
           (\<forall>i < unat (logSize hist). present hist ! i) \<or>
         (\<exists>i. find_cold (Suc (unat (logSize hist))) hist (rnd mod logSize hist) (rnd mod logSize hist) = Some (Ret (Some i)) \<and>
              unat i < unat (logSize hist) \<and> \<not> present hist ! unat i)"
proof -
  let ?n = "unat (logSize hist)" and ?o = "rnd mod logSize hist"
  have n: "0 < ?n" using assms(2) by (simp add: unat_gt_0)
  have o: "unat ?o < ?n" using n by (simp add: unat_mod_distrib)
  have "\<forall>i < ?n. present hist ! i" if all: "\<forall>j < ?n. present hist ! ((unat ?o + j) mod ?n)"
  proof (intro allI impI)
    fix i assume i: "i < ?n"
    have "(unat ?o + (i + ?n - unat ?o) mod ?n) mod ?n = i"
      using o i by (simp add: mod_add_right_eq)
    then show "present hist ! i" using all n by (metis mod_less_divisor)
  qed
  then show ?thesis
    using find_cold_spec [OF assms(1) o, of ?o 0 "Suc ?n"] n o by auto
qed

subsection \<open>HandlerAccess\<close>

lemma hist_flags_ok:
  assumes "unat i < length (present hist)"
  shows "\<exists>p hist'. hist_flags i code hist = (Ret p, hist') \<and> hnames hist' = hnames hist \<and> logSize hist' = logSize hist \<and>
           length (present hist') = length (present hist) \<and>
           (\<forall>j. j \<noteq> unat i \<longrightarrow> present hist' ! j = present hist ! j) \<and>
           present hist' ! unat i =
             (if code = code_OPEN then True else if code = code_CLOSE then False else present hist ! unat i) \<and>
           p = (if code = code_OPEN then 1 else if code = code_CLOSE then 0
                else if code = code_PEEK \<and> present hist ! unat i then 1 else 0)"
  using assms go_index_uint [OF assms]
  by (auto simp: hist_flags_def code_OPEN_def code_CLOSE_def code_PEEK_def)

text \<open>Where the entry for the name is put, or \<open>None\<close>: the name is not there and every entry is warm.\<close>

lemma HandlerAccess_place:
  assumes ok: "hist_ok hist" and ne: "logSize hist \<noteq> 0"
  obtains "HandlerAccess hname code rnd hist = (Ret 0, hist)" and "hname \<notin> set (hnames hist)"
      and "\<forall>i < unat (logSize hist). present hist ! i"
  | i where "unat i < unat (logSize hist)"
      and "HandlerAccess hname code rnd hist = hist_flags i code (hist\<lparr>hnames := (hnames hist)[unat i := hname]\<rparr>)"
      and "hnames hist ! unat i = hname \<or> hname \<notin> set (hnames hist) \<and> \<not> present hist ! unat i \<and>
             (hnames hist ! unat i = [] \<longrightarrow> (\<forall>j < unat i. hnames hist ! j \<noteq> [])) \<and>
             (hnames hist ! unat i \<noteq> [] \<longrightarrow> [] \<notin> set (hnames hist))"
proof -
  let ?n = "unat (logSize hist)"
  have len: "length (hnames hist) = ?n" "length (present hist) = ?n" using ok by (simp_all add: hist_ok_def)
  have mem: "x \<in> set (hnames hist) \<longleftrightarrow> (\<exists>j < ?n. hnames hist ! j = x)" for x
    using len(1) by (metis in_set_conv_nth)
  obtain xs k where xs: "hnames hist = xs @ replicate k []" "[] \<notin> set xs" using ok unfolding hist_ok_def by blast
  consider (none) "find_slot hname 0 hist = Ret (None, hist)" "clear hname hist 0 ?n"
    | (there) i where "unat i < ?n" "hnames hist ! unat i = hname" "find_slot hname 0 hist = Ret (Some i, hist)"
    | (cold) i where "unat i < ?n" "hnames hist ! unat i = []" "hname \<noteq> []" "clear hname hist 0 (unat i)"
        "find_slot hname 0 hist = Ret (Some i, hist\<lparr>hnames := (hnames hist)[unat i := hname]\<rparr>)"
    using find_slot_spec [OF len(1), of hname 0] by (cases rule: slot.cases) auto
  then show thesis
  proof cases
    case none
    then have new: "hname \<notin> set (hnames hist)" "[] \<notin> set (hnames hist)" using mem by (auto simp: clear_def)
    from find_cold_total [OF len(2) ne, of rnd] show thesis
    proof
      assume "find_cold (Suc ?n) hist (rnd mod logSize hist) (rnd mod logSize hist) = Some (Ret None) \<and> (\<forall>i < ?n. present hist ! i)"
      then show thesis using none(1) new ne by (intro that(1)) (auto simp: HandlerAccess_def Let_def)
    next
      assume "\<exists>i. find_cold (Suc ?n) hist (rnd mod logSize hist) (rnd mod logSize hist) = Some (Ret (Some i)) \<and>
          unat i < ?n \<and> \<not> present hist ! unat i"
      then obtain i where i: "find_cold (Suc ?n) hist (rnd mod logSize hist) (rnd mod logSize hist) = Some (Ret (Some i))"
          "unat i < ?n" "\<not> present hist ! unat i" by blast
      have "hnames hist ! unat i \<noteq> []" using none(2) i(2) by (simp add: clear_def)
      then show thesis
        using none(1) new ne i by (intro that(2) [OF i(2)]) (simp_all add: HandlerAccess_def Let_def)
    qed
  next
    case there
    have "hist\<lparr>hnames := (hnames hist)[unat i := hname]\<rparr> = hist" using there(2) by (metis list_update_id lambdaHistory.surjective lambdaHistory.update_convs(2))
    then show thesis using there by (intro that(2) [of i]) (simp_all add: HandlerAccess_def)
  next
    case cold
    have "\<not> present hist ! unat i" using ok cold(1,2) len by (auto simp: hist_ok_def)
    moreover have "hname \<notin> set (hnames hist)"
    proof
      assume "hname \<in> set (hnames hist)"
      then have "hname \<in> set xs" using xs cold(3) by auto
      then obtain j where j: "j < length xs" "xs ! j = hname" by (metis in_set_conv_nth)
      have "length xs \<le> unat i" using cold(2) xs by (metis nth_append nth_mem not_le)
      then have "j < unat i" using j(1) by simp
      moreover have "hnames hist ! j = hname" using xs(1) j by (simp add: nth_append)
      ultimately show False using cold(4) by (simp add: clear_def)
    qed
    ultimately show thesis using cold by (intro that(2) [of i]) (simp_all add: HandlerAccess_def clear_def)
  qed
qed

lemma names_update_ok:
  assumes ok: "hist_ok hist" and ne: "hname \<noteq> []" and i: "i < unat (logSize hist)"
    and c: "hnames hist ! i = hname \<or> hname \<notin> set (hnames hist) \<and> (hnames hist ! i = [] \<longrightarrow> (\<forall>j < i. hnames hist ! j \<noteq> [])) \<and>
             (hnames hist ! i \<noteq> [] \<longrightarrow> [] \<notin> set (hnames hist))"
  shows "\<exists>ys m. (hnames hist)[i := hname] = ys @ replicate m [] \<and> distinct ys \<and> [] \<notin> set ys"
proof -
  obtain xs k where xs: "hnames hist = xs @ replicate k []" "distinct xs" "[] \<notin> set xs" using ok unfolding hist_ok_def by blast
  have len: "length xs + k = unat (logSize hist)" using ok xs(1) by (simp add: hist_ok_def)
  from c show ?thesis
  proof
    assume "hnames hist ! i = hname"
    then have "(hnames hist)[i := hname] = hnames hist" by (metis list_update_id)
    then show ?thesis using xs by auto
  next
    assume n: "hname \<notin> set (hnames hist) \<and> (hnames hist ! i = [] \<longrightarrow> (\<forall>j < i. hnames hist ! j \<noteq> [])) \<and>
             (hnames hist ! i \<noteq> [] \<longrightarrow> [] \<notin> set (hnames hist))"
    show ?thesis
    proof (cases "hnames hist ! i = []")
      case True
      have ge: "length xs \<le> i" using True xs by (metis nth_append nth_mem not_le)
      moreover have "i \<le> length xs"
      proof (rule ccontr)
        assume "\<not> i \<le> length xs"
        then have "hnames hist ! length xs = []" using xs(1) i len by (simp add: nth_append)
        then show False using n True \<open>\<not> i \<le> length xs\<close> by auto
      qed
      ultimately have il: "i = length xs" by simp
      then obtain k' where k: "k = Suc k'" using i len by (cases k) auto
      have "(hnames hist)[i := hname] = (xs @ [hname]) @ replicate k' []" by (simp add: xs(1) il k)
      moreover have "distinct (xs @ [hname])" "[] \<notin> set (xs @ [hname])" using xs n ne by auto
      ultimately show ?thesis by blast
    next
      case False
      then have "k = 0" using n xs(1) by (cases k) auto
      then have "(hnames hist)[i := hname] = xs[i := hname] @ replicate 0 []" by (simp add: xs(1))
      moreover have "distinct (xs[i := hname])" using n xs by (simp add: distinct_list_update)
      moreover have "[] \<notin> set (xs[i := hname])" using xs(3) ne set_update_subset_insert [of xs i hname] by auto
      ultimately show ?thesis by blast
    qed
  qed
qed

lemma HandlerAccess_table:
  assumes "hist_ok hist" and "logSize hist \<noteq> 0" and "hname \<noteq> []"
  shows "\<exists>p hist'. HandlerAccess hname code rnd hist = (Ret p, hist') \<and> hist_ok hist' \<and> logSize hist' = logSize hist \<and>
           (\<forall>i < unat (logSize hist). present hist ! i \<longrightarrow> hnames hist' ! i = hnames hist ! i) \<and>
           (\<forall>i < unat (logSize hist). hnames hist' ! i \<noteq> hname \<longrightarrow> present hist' ! i = present hist ! i)"
proof (rule HandlerAccess_place [OF assms(1,2), of hname code rnd])
  assume "HandlerAccess hname code rnd hist = (Ret 0, hist)"
  then show ?thesis using assms(1) by blast
next
  fix i :: uint32
  let ?h = "hist\<lparr>hnames := (hnames hist)[unat i := hname]\<rparr>"
  assume i: "unat i < unat (logSize hist)" and A: "HandlerAccess hname code rnd hist = hist_flags i code ?h"
    and c: "hnames hist ! unat i = hname \<or> hname \<notin> set (hnames hist) \<and> \<not> present hist ! unat i \<and>
             (hnames hist ! unat i = [] \<longrightarrow> (\<forall>j < unat i. hnames hist ! j \<noteq> [])) \<and>
             (hnames hist ! unat i \<noteq> [] \<longrightarrow> [] \<notin> set (hnames hist))"
  have len: "length (hnames hist) = unat (logSize hist)" "length (present hist) = unat (logSize hist)"
    and warm: "\<forall>j < unat (logSize hist). present hist ! j \<longrightarrow> hnames hist ! j \<noteq> []"
    using assms(1) by (simp_all add: hist_ok_def)
  have "unat i < length (present ?h)" using i len by simp
  from hist_flags_ok [OF this, of code] obtain p hist' where F: "hist_flags i code ?h = (Ret p, hist')"
      "hnames hist' = (hnames hist)[unat i := hname]" "logSize hist' = logSize hist"
      "length (present hist') = length (present hist)" "\<forall>j. j \<noteq> unat i \<longrightarrow> present hist' ! j = present hist ! j"
    by auto
  have "\<exists>ys m. (hnames hist)[unat i := hname] = ys @ replicate m [] \<and> distinct ys \<and> [] \<notin> set ys"
    by (rule names_update_ok [OF assms(1,3) i]) (use c in blast)
  then have "hist_ok hist'"
    unfolding hist_ok_def F(2-4) using len warm F(5) assms(3) i by (auto simp: nth_list_update)
  moreover have "\<forall>j < unat (logSize hist). present hist ! j \<longrightarrow> hnames hist' ! j = hnames hist ! j"
    using c i len by (auto simp: F(2) nth_list_update)
  moreover have "\<forall>j < unat (logSize hist). hnames hist' ! j \<noteq> hname \<longrightarrow> present hist' ! j = present hist ! j"
    using F(5) i len by (auto simp: F(2) nth_list_update)
  ultimately show ?thesis using A F(1,3) by auto
qed

text \<open>
  C33.  \<open>HandlerAccess\<close> on a table of nonzero size with a nonempty name always returns, whatever the
  random number, and keeps the table in order: names in use first, each once, then the cold spots, and
  only names in use are warm.  A warm entry is never evicted, and the flags of the other handlers stay.
\<close>

theorem HandlerAccess_keeps_table:
  assumes "hist_ok hist" and "logSize hist \<noteq> 0" and "hname \<noteq> []"
  shows "\<exists>p hist'. HandlerAccess hname code rnd hist = (Ret p, hist') \<and> hist_ok hist' \<and> logSize hist' = logSize hist \<and>
           (\<forall>i < unat (logSize hist). present hist ! i \<longrightarrow> hnames hist' ! i = hnames hist ! i) \<and>
           (\<forall>i < unat (logSize hist). hnames hist' ! i \<noteq> hname \<longrightarrow> present hist' ! i = present hist ! i)"
  by (rule HandlerAccess_table [OF assms])

definition ex_hist :: lambdaHistory where
  "ex_hist = \<lparr>logSize = 2, hnames = [''f'', ''g''], present = [True, False]\<rparr>"

lemma ex_hist_ok: "hist_ok ex_hist"
proof -
  have "hnames ex_hist = [''f'', ''g''] @ replicate 0 []" by (simp add: ex_hist_def)
  moreover have "\<forall>i < length (present ex_hist). present ex_hist ! i \<longrightarrow> hnames ex_hist ! i \<noteq> []"
    by (auto simp: ex_hist_def less_Suc_eq)
  ultimately show ?thesis unfolding hist_ok_def by (intro conjI exI) (auto simp: ex_hist_def)
qed

theorem HandlerAccess_keeps_table_witness:
  "\<exists>p hist'. HandlerAccess ''h'' code_OPEN 0 ex_hist = (Ret p, hist') \<and> hnames hist' ! 0 = ''f''"
proof -
  have "logSize ex_hist \<noteq> 0" "unat (logSize ex_hist) = 2" "present ex_hist ! 0" "hnames ex_hist ! 0 = ''f''"
    by (simp_all add: ex_hist_def)
  then show ?thesis using HandlerAccess_keeps_table [OF ex_hist_ok, of "''h''" code_OPEN 0] by fastforce
qed

lemma PEEK_there:
  assumes ok: "hist_ok hist" and ne: "logSize hist \<noteq> 0" and i: "i < unat (logSize hist)" "hnames hist ! i = hname"
    and h: "hname \<noteq> []"
  shows "HandlerAccess hname code_PEEK rnd hist = (Ret (if present hist ! i then 1 else 0), hist)"
proof (rule HandlerAccess_place [OF ok ne, of hname code_PEEK rnd])
  have len: "length (hnames hist) = unat (logSize hist)" "length (present hist) = unat (logSize hist)"
    using ok by (simp_all add: hist_ok_def)
  have mem: "hname \<in> set (hnames hist)" using i len nth_mem by metis
  {
    assume "hname \<notin> set (hnames hist)"
    then show ?thesis using mem by blast
  next
    fix j :: uint32
    assume j: "unat j < unat (logSize hist)"
      and A: "HandlerAccess hname code_PEEK rnd hist = hist_flags j code_PEEK (hist\<lparr>hnames := (hnames hist)[unat j := hname]\<rparr>)"
      and "hnames hist ! unat j = hname \<or> hname \<notin> set (hnames hist) \<and> \<not> present hist ! unat j \<and>
             (hnames hist ! unat j = [] \<longrightarrow> (\<forall>ja < unat j. hnames hist ! ja \<noteq> [])) \<and>
             (hnames hist ! unat j \<noteq> [] \<longrightarrow> [] \<notin> set (hnames hist))"
    then have hj: "hnames hist ! unat j = hname" using mem by blast
    obtain xs k where xs: "hnames hist = xs @ replicate k []" "distinct xs" using ok unfolding hist_ok_def by blast
    have "l < length xs" if "l < unat (logSize hist)" "hnames hist ! l = hname" for l
      using that xs(1) h len(1) by (auto simp: nth_append split: if_splits)
    then have "i < length xs" "unat j < length xs" using i j hj by auto
    then have ij: "i = unat j" using i(2) hj xs(1) nth_eq_iff_index_eq [OF xs(2), of i "unat j"] by (simp add: nth_append)
    have same: "hist\<lparr>hnames := (hnames hist)[unat j := hname]\<rparr> = hist" using hj by (metis list_update_id lambdaHistory.surjective lambdaHistory.update_convs(2))
    have "go_index (present hist) (uint j) = Ret (present hist ! unat j)" using j len by (intro go_index_uint) simp
    then show ?thesis unfolding A same by (simp add: hist_flags_def code_OPEN_def code_CLOSE_def code_PEEK_def ij)
  }
qed

text \<open>
  What \<open>OPEN\<close> writes \<open>PEEK\<close> reads: if \<open>OPEN\<close> reports 1, a later \<open>PEEK\<close> of the same handler
  reports 1 and changes nothing.  \<open>OPEN\<close> reports 0 only when the handler has no entry and every entry
  is warm, and then the table is as before: the handler is not recorded.
\<close>

theorem OPEN_then_PEEK:
  assumes "hist_ok hist" and "logSize hist \<noteq> 0" and "hname \<noteq> []"
    and "HandlerAccess hname code_OPEN rnd hist = (Ret p, hist')"
  shows "if p = 1 then HandlerAccess hname code_PEEK rnd' hist' = (Ret 1, hist')
         else p = 0 \<and> hist' = hist \<and> hname \<notin> set (hnames hist) \<and> (\<forall>i < unat (logSize hist). present hist ! i)"
proof (rule HandlerAccess_place [OF assms(1,2), of hname code_OPEN rnd])
  assume "HandlerAccess hname code_OPEN rnd hist = (Ret 0, hist)" "hname \<notin> set (hnames hist)"
    "\<forall>i < unat (logSize hist). present hist ! i"
  then show ?thesis using assms(4) by simp
next
  fix i :: uint32
  let ?h = "hist\<lparr>hnames := (hnames hist)[unat i := hname]\<rparr>"
  assume i: "unat i < unat (logSize hist)" and A: "HandlerAccess hname code_OPEN rnd hist = hist_flags i code_OPEN ?h"
  have len: "length (hnames hist) = unat (logSize hist)" "length (present hist) = unat (logSize hist)"
    using assms(1) by (simp_all add: hist_ok_def)
  have "unat i < length (present ?h)" using i len by simp
  from hist_flags_ok [OF this, of code_OPEN] assms(4) A have F: "p = 1" "hnames hist' = (hnames hist)[unat i := hname]"
      "logSize hist' = logSize hist" "present hist' ! unat i"
    by auto
  have ok': "hist_ok hist'" using HandlerAccess_table [OF assms(1-3), of code_OPEN rnd] assms(4) by auto
  have "hnames hist' ! unat i = hname" using i len by (simp add: F(2))
  then show ?thesis using PEEK_there [OF ok', of "unat i" hname rnd'] F i assms(2,3) by simp
qed

theorem OPEN_then_PEEK_witness:
  "\<exists>hist'. HandlerAccess ''h'' code_OPEN 0 ex_hist = (Ret 1, hist') \<and> HandlerAccess ''h'' code_PEEK 7 hist' = (Ret 1, hist')"
proof -
  have o: "HandlerAccess ''h'' code_OPEN 0 ex_hist = (Ret 1, \<lparr>logSize = 2, hnames = [''f'', ''h''], present = [True, True]\<rparr>)"
    by code_simp
  then show ?thesis using OPEN_then_PEEK [OF ex_hist_ok _ _ o, of 7] by (auto simp: ex_hist_def)
qed

text \<open>
  \<open>PEEK\<close> is documented to modify nothing, but a \<open>PEEK\<close> of a handler that has no entry makes
  one, in a cold spot or in place of a handler that is not warm.
\<close>

theorem PEEK_inserts:
  assumes "hist_ok hist" and "logSize hist \<noteq> 0" and "hname \<notin> set (hnames hist)" and "\<exists>i < unat (logSize hist). \<not> present hist ! i"
  shows "\<exists>hist'. HandlerAccess hname code_PEEK rnd hist = (Ret 0, hist') \<and> hname \<in> set (hnames hist')"
proof (rule HandlerAccess_place [OF assms(1,2), of hname code_PEEK rnd])
  assume "\<forall>i < unat (logSize hist). present hist ! i"
  then show ?thesis using assms(4) by blast
next
  fix i :: uint32
  let ?h = "hist\<lparr>hnames := (hnames hist)[unat i := hname]\<rparr>"
  assume i: "unat i < unat (logSize hist)" and A: "HandlerAccess hname code_PEEK rnd hist = hist_flags i code_PEEK ?h"
    and c: "hnames hist ! unat i = hname \<or> hname \<notin> set (hnames hist) \<and> \<not> present hist ! unat i \<and>
             (hnames hist ! unat i = [] \<longrightarrow> (\<forall>j < unat i. hnames hist ! j \<noteq> [])) \<and>
             (hnames hist ! unat i \<noteq> [] \<longrightarrow> [] \<notin> set (hnames hist))"
  have len: "length (hnames hist) = unat (logSize hist)" "length (present hist) = unat (logSize hist)"
    using assms(1) by (simp_all add: hist_ok_def)
  have cold: "\<not> present hist ! unat i" using c assms(3) i len nth_mem by metis
  have "go_index (present ?h) (uint i) = Ret (present hist ! unat i)"
    using i len go_index_uint [of i "present ?h"] by simp
  then have "HandlerAccess hname code_PEEK rnd hist = (Ret 0, ?h)"
    using A cold by (simp add: hist_flags_def code_OPEN_def code_CLOSE_def code_PEEK_def)
  moreover have "hname \<in> set (hnames ?h)" using i len by (simp add: set_update_memI)
  ultimately show ?thesis by blast
qed

theorem PEEK_inserts_witness:
  "\<exists>hist'. HandlerAccess ''h'' code_PEEK 5 ex_hist = (Ret 0, hist') \<and> ''h'' \<in> set (hnames hist')"
proof -
  have "\<exists>i < unat (logSize ex_hist). \<not> present ex_hist ! i" by (rule exI [of _ 1]) (simp add: ex_hist_def)
  then show ?thesis using PEEK_inserts [OF ex_hist_ok, of "''h''" 5] by (simp add: ex_hist_def)
qed

end
