(* ===== verification/LoadBalancer.thy ===== *)
theory LoadBalancer
  imports OLPrelude GoFloat GoStrings
begin

text \<open>
  The load balancer (\<open>load_balancer/proxy.go\<close>, \<open>server.go\<close> and \<open>config.go\<close>): the choice of a
  worker for a request, by round robin or by locality and load (LARD), the forwarding with retries, the
  limit on connections, and the defaults and the validation of the configuration.

  A pointer to an element of \<open>proxy.Servers\<close> is its index.  The package variables \<open>RRServerIdx\<close> and
  \<open>LeastLoadIdx\<close> are fields of the state.  Each operation runs alone: the locks only protect single
  counters.  The HTTP client and the URL parser are arguments; a URL's path is taken without
  unescaping.
\<close>

record lbServer =
  s_Name :: string
  s_Scheme :: string
  s_Host :: string
  s_Port :: int
  s_MaxConn :: int
  s_CPUUsage :: float64
  s_MemUsage :: float64
  s_Connections :: int

record proxy =
  p_Host :: string
  p_Port :: int
  p_Scheme :: string
  p_Policy :: string
  p_LoadFormula :: string
  p_Servers :: "lbServer list"
  p_RequestServerMap :: "string \<rightharpoonup> nat"
  p_LoadHigh :: float64
  p_LoadLow :: float64
  p_Connections :: int
  p_MaxConn :: int
  p_RRServerIdx :: int
  p_LeastLoadIdx :: int

subsection \<open>Servers\<close>

definition maxInt64 :: int where "maxInt64 = 9223372036854775807"

definition GetLoadByConn :: "lbServer \<Rightarrow> float64" where
  "GetLoadByConn s =
     (if s_MaxConn s = - 1 then fdiv (float_of (s_Connections s)) (float_of maxInt64)
      else fdiv (float_of (s_Connections s)) (float_of (s_MaxConn s)))"

definition GetLoad :: "string \<Rightarrow> lbServer \<Rightarrow> float64" where
  "GetLoad loadFormula s =
     (if loadFormula = ''AverageResource'' then fadd (fmul (Fin (1/2)) (s_MemUsage s)) (fmul (Fin (1/2)) (s_CPUUsage s))
      else if loadFormula = ''AverageResourceConnections''
      then fdiv (fadd (fadd (s_MemUsage s) (s_CPUUsage s)) (GetLoadByConn s)) (Fin 3)
      else if loadFormula = ''DominantResource'' then math_Max (s_MemUsage s) (s_CPUUsage s)
      else if loadFormula = ''DominantResourceConnections''
      then math_Max (math_Max (s_MemUsage s) (s_CPUUsage s)) (GetLoadByConn s)
      else if loadFormula = ''Connections'' then GetLoadByConn s
      else Fin 0)"

definition server_Url :: "lbServer \<Rightarrow> string" where
  "server_Url s = s_Scheme s @ ''://'' @ s_Host s @ '':'' @ strconv_Itoa (s_Port s)"

abbreviation load_of :: "proxy \<Rightarrow> nat \<Rightarrow> float64" where
  "load_of p i \<equiv> GetLoad (p_LoadFormula p) (p_Servers p ! i)"

abbreviation upd_server :: "nat \<Rightarrow> (lbServer \<Rightarrow> lbServer) \<Rightarrow> proxy \<Rightarrow> proxy" where
  "upd_server i f p \<equiv> p\<lparr>p_Servers := (p_Servers p)[i := f (p_Servers p ! i)]\<rparr>"

definition conns :: "proxy \<Rightarrow> int list" where
  "conns p = map s_Connections (p_Servers p)"

subsection \<open>chooseServer\<close>

text \<open>The least connected server that is not ignored; index 0 if there is none, which may not exist.\<close>

fun choose_min :: "string list \<Rightarrow> nat \<Rightarrow> lbServer list \<Rightarrow> int \<times> nat \<Rightarrow> int \<times> nat" where
  "choose_min ign k [] best = best"
| "choose_min ign k (s # ss) (mn, mi) =
     (if s_Name s \<in> set ign then choose_min ign (Suc k) ss (mn, mi)
      else if mn = - 1 then choose_min ign (Suc k) ss (s_Connections s, k)
      else if s_Connections s < mn then choose_min ign (Suc k) ss (s_Connections s, k)
      else choose_min ign (Suc k) ss (mn, mi))"

definition chooseServer :: "string list \<Rightarrow> proxy \<Rightarrow> nat res" where
  "chooseServer ign p =
     (let i = snd (choose_min ign 0 (p_Servers p) (- 1, 0)) in
      if i < length (p_Servers p) then Ret i else Panic ''index out of range'')"

subsection \<open>Round robin\<close>

text \<open>
  The loop of \<open>roundRobinChooseServer\<close>; \<open>None\<close> is a loop that has not ended within the bound.
\<close>

fun rr_loop :: "nat \<Rightarrow> string list \<Rightarrow> proxy \<Rightarrow> bool \<Rightarrow> nat \<Rightarrow> nat option option" where
  "rr_loop 0 ign p first nxt = None"
| "rr_loop (Suc fuel) ign p first nxt =
     (if first \<or> int nxt \<noteq> p_RRServerIdx p + 1
      then if s_Name (p_Servers p ! nxt) \<in> set ign
           then rr_loop fuel ign p False (Suc nxt mod length (p_Servers p))
           else Some (Some nxt)
      else Some None)"

definition roundRobinChooseServer :: "string list \<Rightarrow> proxy \<Rightarrow> (proxy, nat option) outcome" where
  "roundRobinChooseServer ign p =
     (if p_Servers p = [] then (Ret None, p)
      else
        (case rr_loop (Suc (length (p_Servers p))) ign p True
                (nat ((p_RRServerIdx p + 1) mod int (length (p_Servers p)))) of
           None \<Rightarrow> (Block, p)
         | Some None \<Rightarrow> (Ret None, p)
         | Some (Some i) \<Rightarrow>
             (Ret (Some i), upd_server i (\<lambda>s. s\<lparr>s_Connections := s_Connections s + 1\<rparr>) (p\<lparr>p_RRServerIdx := int i\<rparr>))))"

subsection \<open>Locality-aware choice\<close>

fun least_load :: "proxy \<Rightarrow> nat list \<Rightarrow> nat option \<times> float64 \<Rightarrow> nat option \<times> float64" where
  "least_load p [] best = best"
| "least_load p (i # is) (target, minLoad) =
     (let s = p_Servers p ! i in
      if s_MaxConn s \<noteq> - 1 \<and> s_MaxConn s < s_Connections s then least_load p is (target, minLoad)
      else if flt (load_of p i) minLoad then least_load p is (Some i, load_of p i)
      else least_load p is (target, minLoad))"

definition getLeastLoad :: "bool \<Rightarrow> proxy \<Rightarrow> (proxy, nat option) outcome" where
  "getLeastLoad moveIndex p =
     (let n = length (p_Servers p) in
      if moveIndex \<and> n = 0 then (Panic ''integer divide by zero'', p)
      else
        let start = (if moveIndex then nat (p_LeastLoadIdx p) else 0);
            p1 = (if moveIndex then p\<lparr>p_LeastLoadIdx := (p_LeastLoadIdx p + 1) mod int n\<rparr> else p)
        in (Ret (fst (least_load p1 (map (\<lambda>i. (start + i) mod n) [0..<n]) (None, Fin 1))), p1))"

text \<open>
  Whether the server of a path is to be replaced: \<open>&&\<close> and \<open>||\<close> evaluate from the left, and the
  least loaded server may be nil.
\<close>

definition lard_overloaded :: "nat \<Rightarrow> proxy \<Rightarrow> bool res" where
  "lard_overloaded t p =
     (let s = p_Servers p ! t;
          rest = (fge (load_of p t) (fmul (Fin 2) (p_LoadHigh p)) \<or>
                  (s_MaxConn s \<noteq> - 1 \<and> s_MaxConn s \<le> s_Connections s))
      in if fge (load_of p t) (p_LoadHigh p)
         then (case fst (getLeastLoad False p) of
                 Ret None \<Rightarrow> nil_deref
               | Ret (Some l) \<Rightarrow> Ret (flt (load_of p l) (p_LoadLow p) \<or> rest)
               | Panic m \<Rightarrow> Panic m
               | Exit m \<Rightarrow> Exit m
               | Block \<Rightarrow> Block)
         else Ret rest)"

text \<open>The check against the ignore list, which dereferences the target only if the list has an entry.\<close>

definition lard_unignored :: "string list \<Rightarrow> nat option \<Rightarrow> proxy \<Rightarrow> nat option res" where
  "lard_unignored ign target p =
     (case target of
        None \<Rightarrow> if ign = [] then Ret None else nil_deref
      | Some t \<Rightarrow> Ret (if s_Name (p_Servers p ! t) \<in> set ign then None else Some t))"

definition lard_take :: "string \<Rightarrow> nat option \<Rightarrow> proxy \<Rightarrow> proxy" where
  "lard_take path target p =
     (case target of
        None \<Rightarrow> p
      | Some t \<Rightarrow>
          (upd_server t (\<lambda>s. s\<lparr>s_Connections := s_Connections s + 1\<rparr>) p)
            \<lparr>p_RequestServerMap := (p_RequestServerMap p)(path \<mapsto> t)\<rparr>)"

definition lardChooseServer :: "string list \<Rightarrow> string \<Rightarrow> proxy \<Rightarrow> (proxy, nat option) outcome" where
  "lardChooseServer ign path p =
     (case p_RequestServerMap p path of
        Some t \<Rightarrow>
          (case lard_overloaded t p of
             Ret over \<Rightarrow>
               (case (if over then getLeastLoad True p else (Ret (Some t), p)) of
                  (Ret target, p1) \<Rightarrow>
                    (case lard_unignored ign target p1 of
                       Ret target' \<Rightarrow> (Ret target', lard_take path target' p1)
                     | Panic m \<Rightarrow> (Panic m, p1)
                     | Exit m \<Rightarrow> (Exit m, p1)
                     | Block \<Rightarrow> (Block, p1))
                | (Panic m, p1) \<Rightarrow> (Panic m, p1)
                | (Exit m, p1) \<Rightarrow> (Exit m, p1)
                | (Block, p1) \<Rightarrow> (Block, p1))
           | Panic m \<Rightarrow> (Panic m, p)
           | Exit m \<Rightarrow> (Exit m, p)
           | Block \<Rightarrow> (Block, p))
      | None \<Rightarrow>
          (case getLeastLoad True p of
             (Ret target, p1) \<Rightarrow> (Ret target, lard_take path target p1)
           | (Panic m, p1) \<Rightarrow> (Panic m, p1)
           | (Exit m, p1) \<Rightarrow> (Exit m, p1)
           | (Block, p1) \<Rightarrow> (Block, p1)))"

subsection \<open>Forwarding\<close>

record lb_request =
  r_RequestURI :: string
  r_Path :: string

record lb_response =
  l_readErr :: goerror
  l_code :: int
  l_CPUUsage :: float64
  l_FreeMem :: int
  l_TotalMem :: int
  l_header :: "(string \<times> string list) list"
  l_body :: string

record lb_env =
  le_parse :: "string \<Rightarrow> goerror"
  le_do :: "string \<Rightarrow> string + lb_response"

text \<open>The path of \<open>scheme://host:port\<close> followed by a request URI.\<close>

definition url_path :: "string \<Rightarrow> string" where
  "url_path uri = takeWhile (\<lambda>c. c \<noteq> CHR ''?'' \<and> c \<noteq> CHR ''#'') uri"

text \<open>The calls on the client's \<open>ResponseWriter\<close>; \<open>http.NotFound\<close> is one of them.\<close>

datatype lb_reply = WriteCode int | SetHeader string string | WriteBody string | NotFound

text \<open>The worker's answer passed on: its code, its headers (in some order), its body.\<close>

definition write_reply :: "lb_response \<Rightarrow> lb_reply list" where
  "write_reply resp =
     WriteCode (l_code resp) # map (\<lambda>(k, v). SetHeader k (strings_Join '';'' v)) (l_header resp) @ [WriteBody (l_body resp)]"

text \<open>
  \<open>ReverseProxy\<close> gives its two results and what it wrote.  Under LARD the server found in the map for
  the new path is updated; there may be none.
\<close>

definition piggyback :: "string \<Rightarrow> lb_response \<Rightarrow> proxy \<Rightarrow> proxy res" where
  "piggyback path resp p =
     (if p_Policy p = ''LARD''
      then (case p_RequestServerMap p path of
              None \<Rightarrow> nil_deref
            | Some t \<Rightarrow>
                Ret (upd_server t (\<lambda>x. x\<lparr>s_CPUUsage := l_CPUUsage resp,
                       s_MemUsage := fsub (Fin 1) (fdiv (float_of (l_FreeMem resp)) (float_of (l_TotalMem resp)))\<rparr>) p))
      else Ret p)"

definition ReverseProxy ::
  "lb_env \<Rightarrow> nat \<Rightarrow> proxy \<times> lb_request \<Rightarrow>
   (proxy \<times> lb_request, (int \<times> goerror) \<times> lb_reply list) outcome" where
  "ReverseProxy env i pr =
     (case pr of (p, r) \<Rightarrow>
        let url = server_Url (p_Servers p ! i) @ r_RequestURI r;
            r1 = r\<lparr>r_RequestURI := [], r_Path := url_path (r_RequestURI r)\<rparr>
        in if le_parse env url \<noteq> None then (Exit ''os.Exit(1)'', (p, r))
           else
             (case le_do env url of
                Inl e \<Rightarrow> (Ret ((0, Some e), []), (p, r1))
              | Inr resp \<Rightarrow>
                  (case piggyback (r_Path r1) resp p of
                     Ret p1 \<Rightarrow>
                       (case l_readErr resp of
                          Some e \<Rightarrow> (Ret ((0, Some e), [NotFound]), (p1, r1))
                        | None \<Rightarrow> (Ret ((l_code resp, None), write_reply resp), (p1, r1)))
                   | Panic m \<Rightarrow> (Panic m, (p, r1))
                   | Exit m \<Rightarrow> (Exit m, (p, r1))
                   | Block \<Rightarrow> (Block, (p, r1)))))"

definition refused :: "goerror \<Rightarrow> bool" where
  "refused err = (case err of None \<Rightarrow> False | Some e \<Rightarrow> strings_Contains e ''connection refused'')"

text \<open>
  \<open>attemptServers\<close> for a given choice of a server.  The result lists the servers the request was sent
  to, each with the URL, and what was written to the client.
\<close>

type_synonym chooser = "string list \<Rightarrow> string \<Rightarrow> proxy \<Rightarrow> (proxy, nat option) outcome"
type_synonym attempts = "(nat \<times> string) list \<times> lb_reply list"

function attempt_with ::
  "chooser \<Rightarrow> lb_env \<Rightarrow> string list \<Rightarrow> proxy \<times> lb_request \<Rightarrow> (proxy \<times> lb_request, attempts) outcome" where
  "attempt_with pick env ign pr =
     (case pr of (p, r) \<Rightarrow>
        if min 3 (length (p_Servers p)) \<le> length ign then (Ret ([], [NotFound]), (p, r))
        else
          (case pick ign (r_Path r) p of
             (Ret None, p1) \<Rightarrow> (Ret ([], [NotFound]), (p1, r))
           | (Ret (Some i), p1) \<Rightarrow>
               (let url = server_Url (p_Servers p1 ! i) @ r_RequestURI r in
                case ReverseProxy env i (p1, r) of
                  (Ret ((code, err), w), (p2, r2)) \<Rightarrow>
                    let p3 = upd_server i (\<lambda>s. s\<lparr>s_Connections := s_Connections s - 1\<rparr>) p2 in
                    if refused err
                    then (case attempt_with pick env (ign @ [s_Name (p_Servers p2 ! i)]) (p3, r2) of
                            (Ret (tried, w'), pr3) \<Rightarrow> (Ret ((i, url) # tried, w @ w'), pr3)
                          | (Panic m, pr3) \<Rightarrow> (Panic m, pr3)
                          | (Exit m, pr3) \<Rightarrow> (Exit m, pr3)
                          | (Block, pr3) \<Rightarrow> (Block, pr3))
                    else (Ret ([(i, url)], w), (p3, r2))
                | (Panic m, pr2) \<Rightarrow> (Panic m, pr2)
                | (Exit m, pr2) \<Rightarrow> (Exit m, pr2)
                | (Block, pr2) \<Rightarrow> (Block, pr2))
           | (Panic m, p1) \<Rightarrow> (Panic m, (p1, r))
           | (Exit m, p1) \<Rightarrow> (Exit m, (p1, r))
           | (Block, p1) \<Rightarrow> (Block, (p1, r))))"
  by pat_completeness auto

termination attempt_with
  by (relation "measure (\<lambda>(pick, env, ign, pr). 3 - length ign)") auto

declare attempt_with.simps [simp del]

definition choose_by_policy :: chooser where
  "choose_by_policy ign path p =
     (if p_Policy p = ''RoundRobin'' then roundRobinChooseServer ign p
      else if p_Policy p = ''LARD'' then lardChooseServer ign path p
      else (Ret None, p))"

definition attemptServers ::
  "lb_env \<Rightarrow> string list \<Rightarrow> proxy \<times> lb_request \<Rightarrow> (proxy \<times> lb_request, attempts) outcome" where
  "attemptServers = attempt_with choose_by_policy"

text \<open>\<open>handler\<close>: the wait for a connection slot, the request, the slot's return.\<close>

definition lb_handler :: "lb_env \<Rightarrow> lb_request \<Rightarrow> proxy \<Rightarrow> (proxy, attempts) outcome" where
  "lb_handler env r p =
     (if p_MaxConn p \<noteq> - 1 \<and> p_MaxConn p \<le> p_Connections p then (Block, p)
      else
        (case attemptServers env [] (p\<lparr>p_Connections := p_Connections p + 1\<rparr>, r) of
           (Ret reply, (p1, r1)) \<Rightarrow> (Ret reply, p1\<lparr>p_Connections := p_Connections p1 - 1\<rparr>)
         | (Panic m, (p1, r1)) \<Rightarrow> (Panic m, p1)
         | (Exit m, (p1, r1)) \<Rightarrow> (Exit m, p1)
         | (Block, (p1, r1)) \<Rightarrow> (Block, p1)))"

subsection \<open>Configuration\<close>

definition defaultServerMaxConn :: int where "defaultServerMaxConn = - 1"

definition validation :: "bool \<Rightarrow> string \<Rightarrow> string" where
  "validation condition errorMessage = (if condition then errorMessage else [])"

definition removeEmpty :: "string list \<Rightarrow> string list" where
  "removeEmpty errors = filter (\<lambda>e. e \<noteq> []) errors"

text \<open>A word in single quotes.\<close>

definition quoted :: "string \<Rightarrow> string" where
  "quoted w = CHR 0x27 # w @ [CHR 0x27]"

definition generateValidationErrors :: "proxy \<Rightarrow> string list" where
  "generateValidationErrors p = removeEmpty
     [validation (p_Host p = []) (''the '' @ quoted ''host'' @ '' field cannot be blank''),
      validation (p_Port p = 0) (''the '' @ quoted ''port'' @ '' field cannot be blank''),
      validation (p_Scheme p \<noteq> ''http'' \<and> p_Scheme p \<noteq> ''https'')
        (''the proxy scheme must be either '' @ quoted ''http'' @ '' or '' @ quoted ''https'')]"

definition validateFields :: "proxy \<Rightarrow> goerror" where
  "validateFields p =
     (let errors = generateValidationErrors p in
      if errors = [] then None else Some (strings_Join '', '' errors))"

fun sum_MaxConn :: "lbServer list \<Rightarrow> int \<Rightarrow> int" where
  "sum_MaxConn [] acc = acc"
| "sum_MaxConn (s # ss) acc = (if s_MaxConn s = - 1 then - 1 else sum_MaxConn ss (acc + s_MaxConn s))"

text \<open>
  The defaults.  A nil slice and a nil map are the empty ones; the zero value of a field is the one a
  configuration file that does not mention it leaves.
\<close>

definition default_MaxConn :: "lbServer \<Rightarrow> lbServer" where
  "default_MaxConn s = (if s_MaxConn s = 0 then s\<lparr>s_MaxConn := defaultServerMaxConn\<rparr> else s)"

definition SetDefaultValues :: "proxy \<Rightarrow> proxy" where
  "SetDefaultValues p =
     (let p1 = p\<lparr>p_Host := (if p_Host p = [] then ''localhost'' else p_Host p),
                 p_Port := (if p_Port p = 0 then 7079 else p_Port p),
                 p_Scheme := (if p_Scheme p = [] then ''http'' else p_Scheme p),
                 p_Policy := (if p_Policy p = [] then ''LARD'' else p_Policy p),
                 p_LoadFormula := (if p_LoadFormula p = [] then ''Connections'' else p_LoadFormula p),
                 p_Servers := map default_MaxConn (p_Servers p),
                 p_LoadHigh := (if p_LoadHigh p = Fin 0 then Fin (4/10) else p_LoadHigh p),
                 p_LoadLow := (if p_LoadLow p = Fin 0 then Fin (2/10) else p_LoadLow p)\<rparr>
      in if p_MaxConn p = 0
         then p1\<lparr>p_MaxConn := (if p_Servers p1 = [] then - 1 else sum_MaxConn (p_Servers p1) 0)\<rparr>
         else p1)"

text \<open>
  \<open>ReadConfig\<close>: reading the file (its content is of type \<open>'f\<close>) and the two decoders are arguments.  The proxy is returned beside
  the error.
\<close>

record 'f config_reader =
  cr_read :: "string \<Rightarrow> string + 'f"
  cr_yaml :: "'f \<Rightarrow> proxy \<times> goerror"
  cr_json :: "'f \<Rightarrow> proxy \<times> goerror"

definition zero_proxy :: proxy where
  "zero_proxy = \<lparr>p_Host = [], p_Port = 0, p_Scheme = [], p_Policy = [], p_LoadFormula = [],
     p_Servers = [], p_RequestServerMap = Map.empty, p_LoadHigh = Fin 0, p_LoadLow = Fin 0,
     p_Connections = 0, p_MaxConn = 0, p_RRServerIdx = 0, p_LeastLoadIdx = 0\<rparr>"

definition ReadConfig :: "'f config_reader \<Rightarrow> string \<Rightarrow> proxy \<times> goerror" where
  "ReadConfig cr config_file =
     (case cr_read cr config_file of
        Inl e \<Rightarrow> (zero_proxy, Some e)
      | Inr file \<Rightarrow>
          (case (if strings_HasSuffix config_file ''.yml'' then cr_yaml cr file else cr_json cr file) of
             (p, Some e) \<Rightarrow> (p, Some e)
           | (p, None) \<Rightarrow> (let p1 = SetDefaultValues p in (p1, validateFields p1))))"

end
