(* ===== verification/LoadBalancerProps.thy ===== *)
theory LoadBalancerProps
  imports LoadBalancer
begin

text \<open>
  Correctness of the load balancer.  The locale \<open>server_chooser\<close> is what \<open>attemptServers\<close> relies on
  in a choice of servers, with the balance of the connection counters proved in it once;
  \<open>failover_chooser\<close> adds the respect of the ignore list.  Both policies satisfy the first contract,
  only round robin the second.
\<close>

subsection \<open>Contracts of a choice\<close>

abbreviation inc_conn :: "lbServer \<Rightarrow> lbServer" where
  "inc_conn s \<equiv> s\<lparr>s_Connections := s_Connections s + 1\<rparr>"

definition lb_ok :: "proxy \<Rightarrow> bool" where
  "lb_ok p \<longleftrightarrow> (\<forall>path t. p_RequestServerMap p path = Some t \<longrightarrow> t < length (p_Servers p)) \<and>
     0 \<le> p_RRServerIdx p \<and> 0 \<le> p_LeastLoadIdx p"

locale server_chooser =
  fixes pick :: chooser and ok :: "proxy \<Rightarrow> bool"
  assumes pick_some: "ok p \<Longrightarrow> pick ign path p = (Ret (Some i), p1) \<Longrightarrow>
            i < length (p_Servers p) \<and> ok p1 \<and> p_Servers p1 = (p_Servers p)[i := inc_conn (p_Servers p ! i)]"
    and pick_none: "ok p \<Longrightarrow> pick ign path p = (Ret None, p1) \<Longrightarrow> ok p1 \<and> p_Servers p1 = p_Servers p"
    and ok_servers: "ok p \<Longrightarrow> length ss = length (p_Servers p) \<Longrightarrow> ok (p\<lparr>p_Servers := ss\<rparr>)"

locale failover_chooser = server_chooser +
  assumes pick_unignored: "ok p \<Longrightarrow> pick ign path p = (Ret (Some i), p1) \<Longrightarrow> s_Name (p_Servers p ! i) \<notin> set ign"

lemma map_update_same: "f v = f (xs ! i) \<Longrightarrow> map f (xs[i := v]) = map f xs"
  by (cases "i < length xs") (auto simp: map_update list_update_beyond intro: list_update_same_conv [THEN iffD2])

text \<open>What a forwarded request leaves of the servers: their order, names, addresses and connections.\<close>

definition same_servers :: "proxy \<Rightarrow> proxy \<Rightarrow> bool" where
  "same_servers p p' \<longleftrightarrow> p' = p\<lparr>p_Servers := p_Servers p'\<rparr> \<and> conns p' = conns p \<and>
     map s_Name (p_Servers p') = map s_Name (p_Servers p) \<and>
     map server_Url (p_Servers p') = map server_Url (p_Servers p)"

lemma same_servers_refl [simp]: "same_servers p p"
  by (simp add: same_servers_def)

lemma piggyback_servers: "piggyback path resp p = Ret p1 \<Longrightarrow> same_servers p p1"
  by (auto simp: piggyback_def same_servers_def conns_def server_Url_def map_update_same split: if_splits option.splits)

lemma ReverseProxy_servers:
  assumes "ReverseProxy env i (p, r) = (Ret (res, w), (p2, r2))"
  shows "same_servers p p2" and "r_RequestURI r2 = []"
  using assms
  by (auto simp: ReverseProxy_def Let_def split: if_splits sum.splits res.splits option.splits dest: piggyback_servers)

lemma same_servers_length: "same_servers p p' \<Longrightarrow> length (p_Servers p') = length (p_Servers p)"
  by (metis same_servers_def length_map)

lemma conns_inc: "i < length (p_Servers p) \<Longrightarrow> p_Servers p1 = (p_Servers p)[i := inc_conn (p_Servers p ! i)] \<Longrightarrow>
   conns p1 = (conns p)[i := conns p ! i + 1]"
  by (simp add: conns_def map_update)

lemma conns_dec: "i < length (p_Servers p) \<Longrightarrow>
   conns (upd_server i (\<lambda>s. s\<lparr>s_Connections := s_Connections s - 1\<rparr>) p) = (conns p)[i := conns p ! i - 1]"
  by (simp add: conns_def map_update)

lemma names_upd_server:
  "(\<And>s. s_Name (f s) = s_Name s) \<Longrightarrow> map s_Name (p_Servers (upd_server i f p)) = map s_Name (p_Servers p)"
  by (simp add: map_update_same)

text \<open>The ways in which \<open>attemptServers\<close> returns.\<close>

lemma attempt_with_cases:
  assumes "attempt_with pick env ign (p, r) = (Ret (tried, w), pr')"
  obtains (limit) "min 3 (length (p_Servers p)) \<le> length ign" "tried = []" "w = [NotFound]" "pr' = (p, r)"
  | (nobody) p1 where "length ign < min 3 (length (p_Servers p))" "pick ign (r_Path r) p = (Ret None, p1)"
      "tried = []" "w = [NotFound]" "pr' = (p1, r)"
  | (answered) i p1 code err p2 r2 where "length ign < min 3 (length (p_Servers p))"
      "pick ign (r_Path r) p = (Ret (Some i), p1)"
      "ReverseProxy env i (p1, r) = (Ret ((code, err), w), (p2, r2))" "\<not> refused err"
      "tried = [(i, server_Url (p_Servers p1 ! i) @ r_RequestURI r)]"
      "pr' = (upd_server i (\<lambda>s. s\<lparr>s_Connections := s_Connections s - 1\<rparr>) p2, r2)"
  | (again) i p1 code err w1 p2 r2 tried' w' where "length ign < min 3 (length (p_Servers p))"
      "pick ign (r_Path r) p = (Ret (Some i), p1)"
      "ReverseProxy env i (p1, r) = (Ret ((code, err), w1), (p2, r2))" "refused err"
      "attempt_with pick env (ign @ [s_Name (p_Servers p2 ! i)])
         (upd_server i (\<lambda>s. s\<lparr>s_Connections := s_Connections s - 1\<rparr>) p2, r2) = (Ret (tried', w'), pr')"
      "tried = (i, server_Url (p_Servers p1 ! i) @ r_RequestURI r) # tried'" "w = w1 @ w'"
proof (cases "min 3 (length (p_Servers p)) \<le> length ign")
  case True
  show thesis by (rule limit) (use assms True in \<open>simp_all add: attempt_with.simps\<close>)
next
  case False
  then have below: "length ign < min 3 (length (p_Servers p))" by linarith
  obtain c p1 where pick: "pick ign (r_Path r) p = (c, p1)" by fastforce
  note step = assms [unfolded attempt_with.simps [of pick env ign]]
  then obtain choice where c: "c = Ret choice" using False pick by (cases c) auto
  show thesis
  proof (cases choice)
    case None
    show thesis by (rule nobody [OF below]) (use None c pick step False in auto)
  next
    case (Some i)
    obtain x p2 r2 where rp: "ReverseProxy env i (p1, r) = (x, (p2, r2))" by (metis surj_pair)
    then obtain code err w1 where x: "x = Ret ((code, err), w1)"
      using step False pick c Some by (cases x) (auto simp: Let_def)
    show thesis
    proof (cases "refused err")
      case False': False
      show thesis by (rule answered [OF below])
          (use Some c pick step False rp x False' in \<open>auto simp: Let_def\<close>)
    next
      case True
      obtain y pr3 where rec: "attempt_with pick env (ign @ [s_Name (p_Servers p2 ! i)])
          (upd_server i (\<lambda>s. s\<lparr>s_Connections := s_Connections s - 1\<rparr>) p2, r2) = (y, pr3)"
        by (rule prod.exhaust)
      then obtain tried' w' where y: "y = Ret (tried', w')"
        using step False pick c Some rp x True by (cases y) (auto simp: Let_def)
      show thesis by (rule again [OF below])
          (use Some c pick step False rp x True rec y in \<open>auto simp: Let_def\<close>)
    qed
  qed
qed

text \<open>The equations in the other direction.\<close>

abbreviation dec_conn :: "nat \<Rightarrow> proxy \<Rightarrow> proxy" where
  "dec_conn i p \<equiv> upd_server i (\<lambda>s. s\<lparr>s_Connections := s_Connections s - 1\<rparr>) p"

lemma attempt_limit:
  "min 3 (length (p_Servers p)) \<le> length ign \<Longrightarrow> attempt_with pick env ign (p, r) = (Ret ([], [NotFound]), (p, r))"
  by (subst attempt_with.simps) simp

lemma attempt_answered:
  assumes "length ign < min 3 (length (p_Servers p))" and "pick ign (r_Path r) p = (Ret (Some i), p1)"
    and "ReverseProxy env i (p1, r) = (Ret ((code, err), w), (p2, r2))" and "\<not> refused err"
  shows "attempt_with pick env ign (p, r) =
     (Ret ([(i, server_Url (p_Servers p1 ! i) @ r_RequestURI r)], w), (dec_conn i p2, r2))"
  using assms(1) by (subst attempt_with.simps) (auto simp: assms(2-4) Let_def)

lemma attempt_refused:
  assumes "length ign < min 3 (length (p_Servers p))" and "pick ign (r_Path r) p = (Ret (Some i), p1)"
    and "ReverseProxy env i (p1, r) = (Ret ((code, err), w), (p2, r2))" and "refused err"
  shows "attempt_with pick env ign (p, r) =
     (case attempt_with pick env (ign @ [s_Name (p_Servers p2 ! i)]) (dec_conn i p2, r2) of
        (Ret (tried, w'), pr3) \<Rightarrow> (Ret ((i, server_Url (p_Servers p1 ! i) @ r_RequestURI r) # tried, w @ w'), pr3)
      | (Panic m, pr3) \<Rightarrow> (Panic m, pr3) | (Exit m, pr3) \<Rightarrow> (Exit m, pr3) | (Block, pr3) \<Rightarrow> (Block, pr3))"
  using assms(1) by (subst attempt_with.simps) (auto simp: assms(2-4) Let_def)

context server_chooser
begin

text \<open>One attempt: the counter that was raised is lowered again, nothing else of the servers' identity changes.\<close>

lemma attempt_once:
  assumes "ok p" and "pick ign path p = (Ret (Some i), p1)"
    and "ReverseProxy env i (p1, r) = (Ret (res, w), (p2, r2))"
    and "p3 = upd_server i (\<lambda>s. s\<lparr>s_Connections := s_Connections s - 1\<rparr>) p2"
  shows "i < length (p_Servers p)" and "ok p3" and "conns p3 = conns p"
    and "map s_Name (p_Servers p3) = map s_Name (p_Servers p)"
    and "map s_Name (p_Servers p2) = map s_Name (p_Servers p)"
    and "map server_Url (p_Servers p3) = map server_Url (p_Servers p)"
    and "server_Url (p_Servers p1 ! i) = server_Url (p_Servers p ! i)"
proof -
  have i: "i < length (p_Servers p)" and "ok p1"
    and p1: "p_Servers p1 = (p_Servers p)[i := inc_conn (p_Servers p ! i)]"
    using pick_some [OF assms(1,2)] by auto
  have p2: "same_servers p1 p2" using ReverseProxy_servers assms(3) by blast
  then have l2: "length (p_Servers p2) = length (p_Servers p)" by (simp add: same_servers_length p1)
  obtain ss where "p2 = p1\<lparr>p_Servers := ss\<rparr>" using p2 unfolding same_servers_def by blast
  then have "p3 = p1\<lparr>p_Servers := ss[i := (\<lambda>s. s\<lparr>s_Connections := s_Connections s - 1\<rparr>) (ss ! i)]\<rparr>"
    and "length ss = length (p_Servers p1)"
    using assms(4) l2 p1 by simp_all
  then show "ok p3" using ok_servers [OF \<open>ok p1\<close>] by simp
  have "conns p2 = (conns p)[i := conns p ! i + 1]"
    using p2 conns_inc [OF i p1] by (simp add: same_servers_def)
  then show "conns p3 = conns p"
    using i l2 assms(4) by (simp add: conns_dec) (simp add: conns_def list_update_same_conv)
  show n2: "map s_Name (p_Servers p2) = map s_Name (p_Servers p)"
    using p2 p1 by (simp add: same_servers_def map_update_same)
  show "map s_Name (p_Servers p3) = map s_Name (p_Servers p)"
    using n2 assms(4) names_upd_server [where f = "\<lambda>s. s\<lparr>s_Connections := s_Connections s - 1\<rparr>"] by simp
  show "i < length (p_Servers p)" by fact
  have "map server_Url (p_Servers p2) = map server_Url (p_Servers p)"
    using p2 p1 by (simp add: same_servers_def map_update_same server_Url_def)
  then show "map server_Url (p_Servers p3) = map server_Url (p_Servers p)"
    using assms(4) by (simp add: map_update_same server_Url_def)
  show "server_Url (p_Servers p1 ! i) = server_Url (p_Servers p ! i)"
    using i p1 by (simp add: server_Url_def)
qed

text \<open>
  However many servers refuse: every counter ends where it started, there are at most three attempts
  and no more than there are servers.
\<close>

lemma attempts_balance:
  assumes "attempt_with pick env ign (p, r) = (Ret (tried, w), (p', r'))" and "ok p"
  shows "ok p' \<and> conns p' = conns p \<and> length tried \<le> min 3 (length (p_Servers p)) - length ign \<and>
         (\<forall>a \<in> set tried. fst a < length (p_Servers p))"
  using assms
proof (induction "3 - length ign" arbitrary: ign p r tried w rule: less_induct)
  case less
  from less.prems(1) show ?case
  proof (cases rule: attempt_with_cases)
    case limit
    then show ?thesis using less.prems(2) by simp
  next
    case (nobody p1)
    then show ?thesis using pick_none [OF less.prems(2) nobody(2)] by (simp add: conns_def)
  next
    case (answered i p1 code err p2 r2)
    then show ?thesis using attempt_once [OF less.prems(2) answered(2,3) refl] by auto
  next
    case (again i p1 code err w1 p2 r2 tried' w')
    note once = attempt_once [OF less.prems(2) again(2,3) refl]
    have len: "length (p_Servers (upd_server i (\<lambda>s. s\<lparr>s_Connections := s_Connections s - 1\<rparr>) p2)) = length (p_Servers p)"
      using once(4) by (metis length_map)
    have shorter: "3 - length (ign @ [s_Name (p_Servers p2 ! i)]) < 3 - length ign"
      using again(1) by simp linarith
    from less.hyps [OF shorter again(5) once(2)] once(1,3) again(1,6) len
    show ?thesis by auto
  qed
qed

text \<open>Once the request URI is cleared, only the bare addresses of servers are asked.\<close>

lemma attempts_cleared:
  assumes "attempt_with pick env ign (p, r) = (Ret (tried, w), (p', r'))" and "ok p" and "r_RequestURI r = []"
  shows "\<forall>a \<in> set tried. snd a = server_Url (p_Servers p ! fst a)"
  using assms
proof (induction "3 - length ign" arbitrary: ign p r tried w rule: less_induct)
  case less
  from less.prems(1) show ?case
  proof (cases rule: attempt_with_cases)
    case (answered i p1 code err p2 r2)
    then show ?thesis using attempt_once(7) [OF less.prems(2) answered(2,3) refl] less.prems(3) by simp
  next
    case (again i p1 code err w1 p2 r2 tried' w')
    note once = attempt_once [OF less.prems(2) again(2,3) refl]
    have "3 - length (ign @ [s_Name (p_Servers p2 ! i)]) < 3 - length ign" using again(1) by simp linarith
    from less.hyps [OF this again(5) once(2) ReverseProxy_servers(2) [OF again(3)]]
    have ih: "\<forall>a \<in> set tried'. snd a = server_Url (p_Servers (dec_conn i p2) ! fst a)" .
    have "\<forall>a \<in> set tried'. fst a < length (p_Servers (dec_conn i p2))"
      using attempts_balance [OF again(5) once(2)] by blast
    then have "\<forall>a \<in> set tried'. server_Url (p_Servers (dec_conn i p2) ! fst a) = server_Url (p_Servers p ! fst a)"
      using once(6) by (metis length_map nth_map)
    then show ?thesis using ih once(7) again(6) less.prems(3) by simp
  qed simp_all
qed

lemma retries_cleared:
  assumes "attempt_with pick env ign (p, r) = (Ret (tried, w), (p', r'))" and "ok p"
  shows "\<forall>a \<in> set (tl tried). snd a = server_Url (p_Servers p ! fst a)"
  using assms(1)
proof (cases rule: attempt_with_cases)
  case (again i p1 code err w1 p2 r2 tried' w')
  note once = attempt_once [OF assms(2) again(2,3) refl]
  have "\<forall>a \<in> set tried'. fst a < length (p_Servers (dec_conn i p2))"
    using attempts_balance [OF again(5) once(2)] by blast
  then have "\<forall>a \<in> set tried'. server_Url (p_Servers (dec_conn i p2) ! fst a) = server_Url (p_Servers p ! fst a)"
    using once(6) by (metis length_map nth_map)
  then show ?thesis
    using attempts_cleared [OF again(5) once(2) ReverseProxy_servers(2) [OF again(3)]] again(6) by simp
qed simp_all

end

context failover_chooser
begin

text \<open>No server is asked twice, not even one of the same name, and none of the ignored ones.\<close>

lemma attempts_distinct:
  assumes "attempt_with pick env ign (p, r) = (Ret (tried, w), (p', r'))" and "ok p"
  shows "distinct (map (\<lambda>a. s_Name (p_Servers p ! fst a)) tried) \<and>
         (\<forall>a \<in> set tried. s_Name (p_Servers p ! fst a) \<notin> set ign)"
  using assms
proof (induction "3 - length ign" arbitrary: ign p r tried w rule: less_induct)
  case less
  from less.prems(1) show ?case
  proof (cases rule: attempt_with_cases)
    case (answered i p1 code err p2 r2)
    then show ?thesis using pick_unignored [OF less.prems(2) answered(2)] by simp
  next
    case (again i p1 code err w1 p2 r2 tried' w')
    note once = attempt_once [OF less.prems(2) again(2,3) refl]
    let ?p3 = "upd_server i (\<lambda>s. s\<lparr>s_Connections := s_Connections s - 1\<rparr>) p2"
    have bounds: "\<forall>a \<in> set tried'. fst a < length (p_Servers p)"
      using attempts_balance [of env "ign @ [s_Name (p_Servers p2 ! i)]" ?p3 r2 tried' w' p' r'] again(5) once(2,4)
      by (metis length_map)
    have name: "s_Name (p_Servers q ! j) = s_Name (p_Servers p ! j)"
      if "j < length (p_Servers p)" "map s_Name (p_Servers q) = map s_Name (p_Servers p)" for j q
      using that by (metis length_map nth_map)
    have shorter: "3 - length (ign @ [s_Name (p_Servers p2 ! i)]) < 3 - length ign"
      using again(1) by simp linarith
    have ih: "distinct (map (\<lambda>a. s_Name (p_Servers ?p3 ! fst a)) tried') \<and>
       (\<forall>a \<in> set tried'. s_Name (p_Servers ?p3 ! fst a) \<notin> set (ign @ [s_Name (p_Servers p2 ! i)]))"
      by (rule less.hyps [OF shorter again(5) once(2)])
    have same: "s_Name (p_Servers ?p3 ! fst a) = s_Name (p_Servers p ! fst a)" if "a \<in> set tried'" for a
      using that bounds by (intro name once(4)) simp
    have "distinct (map (\<lambda>a. s_Name (p_Servers p ! fst a)) tried')"
      using ih by (subst (asm) map_cong [OF refl same]) auto
    moreover have "s_Name (p_Servers p2 ! i) = s_Name (p_Servers p ! i)"
      by (rule name [OF once(1,5)])
    ultimately show ?thesis
      using ih same again(6) pick_unignored [OF less.prems(2) again(2)] by auto
  qed simp_all
qed

end

subsection \<open>Round robin\<close>

lemma Suc_mod_less [simp]: "k < n \<Longrightarrow> Suc k mod n < n"
  by (intro mod_less_divisor) simp

lemma rr_loop_Some:
  "rr_loop fuel ign p first k = Some (Some i) \<Longrightarrow> k < length (p_Servers p) \<Longrightarrow>
   i < length (p_Servers p) \<and> s_Name (p_Servers p ! i) \<notin> set ign"
  by (induction fuel ign p first k rule: rr_loop.induct) (auto split: if_splits)

lemma rr_loop_finds:
  assumes "\<forall>d < j. s_Name (p_Servers p ! ((k + d) mod length (p_Servers p))) \<in> set ign"
    and "s_Name (p_Servers p ! ((k + j) mod length (p_Servers p))) \<notin> set ign"
    and "\<forall>d. 0 < d \<and> d \<le> j \<longrightarrow> int ((k + d) mod length (p_Servers p)) \<noteq> p_RRServerIdx p + 1"
    and "first \<or> int k \<noteq> p_RRServerIdx p + 1" and "k < length (p_Servers p)" and "j < fuel"
  shows "rr_loop fuel ign p first k = Some (Some ((k + j) mod length (p_Servers p)))"
  using assms
proof (induction j arbitrary: k fuel first)
  case 0
  then show ?case by (cases fuel) auto
next
  case (Suc j)
  let ?n = "length (p_Servers p)"
  obtain f where f: "fuel = Suc f" using Suc.prems(6) by (cases fuel) auto
  have shift: "(Suc k mod ?n + d) mod ?n = (k + Suc d) mod ?n" for d
    by (simp add: mod_add_left_eq)
  have "rr_loop f ign p False (Suc k mod ?n) = Some (Some ((Suc k mod ?n + j) mod ?n))"
  proof (rule Suc.IH)
    show "\<forall>d<j. s_Name (p_Servers p ! ((Suc k mod ?n + d) mod ?n)) \<in> set ign"
      using Suc.prems(1) by (simp add: shift del: add_Suc_right)
    show "s_Name (p_Servers p ! ((Suc k mod ?n + j) mod ?n)) \<notin> set ign"
      using Suc.prems(2) by (simp add: shift del: add_Suc_right)
    show "\<forall>d. 0 < d \<and> d \<le> j \<longrightarrow> int ((Suc k mod ?n + d) mod ?n) \<noteq> p_RRServerIdx p + 1"
      using Suc.prems(3) by (simp add: shift del: add_Suc_right of_nat_mod)
    show "False \<or> int (Suc k mod ?n) \<noteq> p_RRServerIdx p + 1"
      using Suc.prems(3) [rule_format, of 1] by simp
    show "Suc k mod ?n < ?n" using Suc.prems(5) by simp
    show "j < f" using Suc.prems(6) f by simp
  qed
  moreover have "s_Name (p_Servers p ! k) \<in> set ign" using Suc.prems(1,5) by auto
  ultimately show ?case using Suc.prems(4) by (simp add: f shift del: add_Suc_right)
qed

lemma rr_loop_hangs:
  assumes "\<forall>s \<in> set (p_Servers p). s_Name s \<in> set ign"
    and "int (length (p_Servers p)) \<le> p_RRServerIdx p + 1" and "k < length (p_Servers p)"
  shows "rr_loop fuel ign p first k = None"
  using assms(3)
proof (induction fuel arbitrary: k first)
  case (Suc fuel)
  then have "s_Name (p_Servers p ! k) \<in> set ign" and "int k \<noteq> p_RRServerIdx p + 1"
    using assms by auto
  moreover have "Suc k mod length (p_Servers p) < length (p_Servers p)"
    using Suc.prems by (rule Suc_mod_less)
  ultimately show ?case using Suc by simp
qed simp

text \<open>The server picked is the first one after the last used index that is not ignored.\<close>

lemma roundRobin_finds:
  assumes "0 \<le> p_RRServerIdx p" and "j < length (p_Servers p)"
    and "\<forall>d < j. s_Name (p_Servers p ! ((nat (p_RRServerIdx p) + 1 + d) mod length (p_Servers p))) \<in> set ign"
    and "i = (nat (p_RRServerIdx p) + 1 + j) mod length (p_Servers p)"
    and "s_Name (p_Servers p ! i) \<notin> set ign"
  shows "roundRobinChooseServer ign p = (Ret (Some i), upd_server i inc_conn (p\<lparr>p_RRServerIdx := int i\<rparr>))"
proof -
  let ?n = "length (p_Servers p)" and ?r = "nat (p_RRServerIdx p)"
  define k where "k = (?r + 1) mod ?n"
  have k: "nat ((p_RRServerIdx p + 1) mod int ?n) = k"
    using assms(1) by (simp add: k_def nat_mod_distrib nat_add_distrib)
  have shift: "(k + d) mod ?n = (?r + 1 + d) mod ?n" for d
    by (simp add: k_def mod_add_left_eq)
  have apart: "int ((k + d) mod ?n) \<noteq> p_RRServerIdx p + 1" if "0 < d" "d \<le> j" for d
  proof
    assume "int ((k + d) mod ?n) = p_RRServerIdx p + 1"
    then have eq: "(k + d) mod ?n = ?r + 1" using assms(1) by linarith
    moreover have "(k + d) mod ?n < ?n" using assms(2) by (intro mod_less_divisor) linarith
    ultimately have "k = ?r + 1" by (simp add: k_def)
    with eq have "(k + d) mod ?n = k mod ?n" using k_def by simp
    then have "?n dvd d" by (metis mod_eq_dvd_iff_nat add_diff_cancel_left' le_add1)
    with that assms(2) show False by (auto dest: dvd_imp_le)
  qed
  have "rr_loop (Suc ?n) ign p True k = Some (Some ((k + j) mod ?n))"
  proof (rule rr_loop_finds)
    show "\<forall>d < j. s_Name (p_Servers p ! ((k + d) mod ?n)) \<in> set ign" using assms(3) by (simp only: shift)
    show "s_Name (p_Servers p ! ((k + j) mod ?n)) \<notin> set ign" unfolding shift using assms(4,5) by blast
    show "\<forall>d. 0 < d \<and> d \<le> j \<longrightarrow> int ((k + d) mod ?n) \<noteq> p_RRServerIdx p + 1" using apart by blast
    show "k < ?n" using assms(2) unfolding k_def by (intro mod_less_divisor) linarith
  qed (use assms(2) in auto)
  moreover have "p_Servers p \<noteq> []" using assms(2) by auto
  ultimately show ?thesis using assms(4) by (simp add: roundRobinChooseServer_def k shift)
qed

lemma roundRobin_some:
  assumes "lb_ok p" and "roundRobinChooseServer ign p = (Ret (Some i), p1)"
  shows "i < length (p_Servers p) \<and> s_Name (p_Servers p ! i) \<notin> set ign \<and>
         p1 = upd_server i inc_conn (p\<lparr>p_RRServerIdx := int i\<rparr>)"
proof -
  have "nat ((p_RRServerIdx p + 1) mod int (length (p_Servers p))) < length (p_Servers p)" if "p_Servers p \<noteq> []"
    using that by (simp add: nat_less_iff)
  then show ?thesis using assms(2) rr_loop_Some
    by (fastforce simp: roundRobinChooseServer_def simp del: rr_loop.simps split: if_splits option.splits)
qed

lemma roundRobin_none: "roundRobinChooseServer ign p = (Ret None, p1) \<Longrightarrow> p1 = p"
  by (auto simp: roundRobinChooseServer_def simp del: rr_loop.simps split: if_splits option.splits)

subsection \<open>Least load\<close>

definition accepts :: "lbServer \<Rightarrow> bool" where
  "accepts s \<longleftrightarrow> s_MaxConn s = - 1 \<or> s_Connections s \<le> s_MaxConn s"

lemma least_load_result:
  assumes "least_load p is (t, m) = (t', m')"
  shows "(t' = t \<and> m' = m \<or> (\<exists>i \<in> set is. t' = Some i \<and> m' = load_of p i \<and> flt m' m \<and> accepts (p_Servers p ! i))) \<and>
         (\<forall>k \<in> set is. accepts (p_Servers p ! k) \<longrightarrow> \<not> flt (load_of p k) m')"
  using assms
proof (induction "is" arbitrary: t m)
  case (Cons i "is")
  show ?case
  proof (cases "accepts (p_Servers p ! i) \<and> flt (load_of p i) m")
    case True
    then have "least_load p is (Some i, load_of p i) = (t', m')"
      using Cons.prems by (auto simp: accepts_def Let_def)
    from Cons.IH [OF this] True show ?thesis by (auto dest: flt_trans)
  next
    case False
    then have "least_load p is (t, m) = (t', m')"
      using Cons.prems by (auto simp: accepts_def Let_def split: if_splits)
    from Cons.IH [OF this] False show ?thesis by (auto dest: flt_trans)
  qed
qed simp

lemma getLeastLoad_Ret:
  assumes "getLeastLoad mv p = (Ret t, p1)" and "0 \<le> p_LeastLoadIdx p"
  shows "\<exists>k \<ge> 0. p1 = p\<lparr>p_LeastLoadIdx := k\<rparr>"
    and "t = Some i \<Longrightarrow> i < length (p_Servers p) \<and> accepts (p_Servers p ! i) \<and> flt (load_of p i) (Fin 1) \<and>
           (\<forall>k < length (p_Servers p). accepts (p_Servers p ! k) \<longrightarrow> \<not> flt (load_of p k) (load_of p i))"
    and "t = None \<Longrightarrow> \<forall>k < length (p_Servers p). accepts (p_Servers p ! k) \<longrightarrow> \<not> flt (load_of p k) (Fin 1)"
proof -
  let ?n = "length (p_Servers p)"
  define start where "start = (if mv then nat (p_LeastLoadIdx p) else 0)"
  define idx where "idx = map (\<lambda>i. (start + i) mod ?n) [0..<?n]"
  have n: "\<not> (mv \<and> ?n = 0)"
    and p1: "p1 = (if mv then p\<lparr>p_LeastLoadIdx := (p_LeastLoadIdx p + 1) mod int ?n\<rparr> else p)"
    and t: "t = fst (least_load p1 idx (None, Fin 1))"
    using assms(1) by (auto simp: getLeastLoad_def start_def idx_def Let_def split: if_splits)
  show "\<exists>k \<ge> 0. p1 = p\<lparr>p_LeastLoadIdx := k\<rparr>"
  proof (cases mv)
    case True
    then show ?thesis using n p1 by (intro exI [of _ "(p_LeastLoadIdx p + 1) mod int ?n"]) simp
  next
    case False
    then show ?thesis using p1 assms(2) by (intro exI [of _ "p_LeastLoadIdx p"]) simp
  qed
  then have same: "p_Servers p1 = p_Servers p" "p_LoadFormula p1 = p_LoadFormula p" by auto
  have range: "set idx = {..<?n}"
  proof
    show "set idx \<subseteq> {..<?n}" by (auto simp: idx_def intro: mod_less_divisor)
    show "{..<?n} \<subseteq> set idx"
    proof
      fix k assume "k \<in> {..<?n}"
      then have k: "k < ?n" by simp
      define i where "i = (k + (?n - start mod ?n)) mod ?n"
      have "(start + i) mod ?n = (start mod ?n + (k + (?n - start mod ?n))) mod ?n"
        by (simp add: i_def mod_simps)
      also have "start mod ?n + (k + (?n - start mod ?n)) = k + ?n"
        using mod_less_divisor [of ?n start] k by linarith
      finally have "(start + i) mod ?n = k" using k by simp
      moreover have "i < ?n" using k unfolding i_def by (intro mod_less_divisor) linarith
      ultimately show "k \<in> set idx" by (force simp: idx_def)
    qed
  qed
  obtain m' where ll: "least_load p1 idx (None, Fin 1) = (t, m')"
    using t by (cases "least_load p1 idx (None, Fin 1)") auto
  note res = least_load_result [OF ll, unfolded same range]
  show "t = Some i \<Longrightarrow> i < ?n \<and> accepts (p_Servers p ! i) \<and> flt (load_of p i) (Fin 1) \<and>
           (\<forall>k < ?n. accepts (p_Servers p ! k) \<longrightarrow> \<not> flt (load_of p k) (load_of p i))"
    using res by auto
  show "t = None \<Longrightarrow> \<forall>k < ?n. accepts (p_Servers p ! k) \<longrightarrow> \<not> flt (load_of p k) (Fin 1)"
    using res by auto
qed

subsection \<open>Locality and load\<close>

lemma lard_take_some:
  "lard_take path (Some t) p = upd_server t inc_conn p\<lparr>p_RequestServerMap := (p_RequestServerMap p)(path \<mapsto> t)\<rparr>"
  by (simp add: lard_take_def)

lemma lb_ok_LeastLoadIdx: "lb_ok p \<Longrightarrow> 0 \<le> k \<Longrightarrow> lb_ok (p\<lparr>p_LeastLoadIdx := k\<rparr>)"
  by (simp add: lb_ok_def)

lemma lb_ok_servers: "lb_ok p \<Longrightarrow> length ss = length (p_Servers p) \<Longrightarrow> lb_ok (p\<lparr>p_Servers := ss\<rparr>)"
  by (simp add: lb_ok_def)

lemma lb_ok_lard_take: "lb_ok p \<Longrightarrow> t < length (p_Servers p) \<Longrightarrow> lb_ok (lard_take path (Some t) p)"
  by (auto simp: lard_take_def lb_ok_def)

text \<open>The target that LARD settles on before it takes a connection of it.\<close>

lemma lardChooseServer_Ret:
  assumes "lb_ok p" and "lardChooseServer ign path p = (Ret target, p1)"
  shows "\<exists>k \<ge> 0. p1 = lard_take path target (p\<lparr>p_LeastLoadIdx := k\<rparr>) \<and>
           (\<forall>t. target = Some t \<longrightarrow> t < length (p_Servers p))"
proof -
  have idx: "0 \<le> p_LeastLoadIdx p" using assms(1) by (simp add: lb_ok_def)
  have self: "p = p\<lparr>p_LeastLoadIdx := p_LeastLoadIdx p\<rparr>" by simp
  show ?thesis
  proof (cases "p_RequestServerMap p path")
    case None
    then obtain q where gl: "getLeastLoad True p = (Ret target, q)" and p1: "p1 = lard_take path target q"
      using assms(2) by (auto simp: lardChooseServer_def split: prod.splits res.splits)
    then show ?thesis using getLeastLoad_Ret(1,2) [OF gl idx] by auto
  next
    case (Some t)
    then have t: "t < length (p_Servers p)" using assms(1) by (simp add: lb_ok_def)
    obtain over c q where c: "(if over then getLeastLoad True p else (Ret (Some t), p)) = (Ret c, q)"
      and un: "lard_unignored ign c q = Ret target" and p1: "p1 = lard_take path target q"
      using assms(2) Some by (auto simp: lardChooseServer_def split: prod.splits res.splits)
    have q: "\<exists>k \<ge> 0. q = p\<lparr>p_LeastLoadIdx := k\<rparr>" and ct: "\<And>i. c = Some i \<Longrightarrow> i < length (p_Servers p)"
      using c idx self t getLeastLoad_Ret(1,2) [of True p c q] by (auto split: if_splits)
    have "target = Some i \<Longrightarrow> c = Some i" for i
      using un by (auto simp: lard_unignored_def split: option.splits if_splits)
    with q ct p1 show ?thesis by auto
  qed
qed

lemma choose_by_policy_some:
  assumes "lb_ok p" and "choose_by_policy ign path p = (Ret (Some i), p1)"
  shows "i < length (p_Servers p) \<and> lb_ok p1 \<and> p_Servers p1 = (p_Servers p)[i := inc_conn (p_Servers p ! i)]"
proof (cases "p_Policy p = ''RoundRobin''")
  case True
  then have "i < length (p_Servers p) \<and> p1 = upd_server i inc_conn (p\<lparr>p_RRServerIdx := int i\<rparr>)"
    using assms roundRobin_some by (auto simp: choose_by_policy_def)
  then show ?thesis using assms(1) by (simp add: lb_ok_def)
next
  case False
  then have "lardChooseServer ign path p = (Ret (Some i), p1)"
    using assms(2) by (auto simp: choose_by_policy_def split: if_splits)
  from lardChooseServer_Ret [OF assms(1) this] obtain k
    where k: "0 \<le> k" and p1: "p1 = lard_take path (Some i) (p\<lparr>p_LeastLoadIdx := k\<rparr>)" and i: "i < length (p_Servers p)"
    by auto
  have "lb_ok p1" unfolding p1 using i by (intro lb_ok_lard_take lb_ok_LeastLoadIdx assms(1) k) simp
  then show ?thesis using i p1 by (simp add: lard_take_def)
qed

lemma choose_by_policy_none:
  assumes "lb_ok p" and "choose_by_policy ign path p = (Ret None, p1)"
  shows "lb_ok p1 \<and> p_Servers p1 = p_Servers p"
proof -
  have "\<exists>k \<ge> 0. p1 = p\<lparr>p_LeastLoadIdx := k\<rparr>" if "lardChooseServer ign path p = (Ret None, p1)"
    using lardChooseServer_Ret [OF assms(1) that] by (simp add: lard_take_def)
  then show ?thesis
    using assms by (auto simp: choose_by_policy_def split: if_splits dest: roundRobin_none intro: lb_ok_LeastLoadIdx)
qed

interpretation policy: server_chooser choose_by_policy lb_ok
  by unfold_locales (fact choose_by_policy_some choose_by_policy_none lb_ok_servers)+

text \<open>Round robin alone keeps the stronger contract.\<close>

definition rr_ok :: "proxy \<Rightarrow> bool" where
  "rr_ok p \<longleftrightarrow> lb_ok p \<and> p_Policy p = ''RoundRobin''"

interpretation roundrobin: failover_chooser choose_by_policy rr_ok
proof unfold_locales
  fix p ign path i p1
  assume ok: "rr_ok p" and pick: "choose_by_policy ign path p = (Ret (Some i), p1)"
  then have rr: "roundRobinChooseServer ign p = (Ret (Some i), p1)" and "lb_ok p"
    by (simp_all add: rr_ok_def choose_by_policy_def)
  note some = roundRobin_some [OF this(2,1)]
  show "i < length (p_Servers p) \<and> rr_ok p1 \<and> p_Servers p1 = (p_Servers p)[i := inc_conn (p_Servers p ! i)]"
    using choose_by_policy_some [OF \<open>lb_ok p\<close> pick] some ok by (simp add: rr_ok_def)
  show "s_Name (p_Servers p ! i) \<notin> set ign" using some by blast
next
  fix p ign path p1
  assume "rr_ok p" and "choose_by_policy ign path p = (Ret None, p1)"
  then show "rr_ok p1 \<and> p_Servers p1 = p_Servers p"
    by (auto simp: rr_ok_def choose_by_policy_def dest: roundRobin_none)
qed (simp add: rr_ok_def lb_ok_servers)

subsection \<open>Round robin finds a server\<close>

lemma distinct_not_covered:
  "distinct xs \<Longrightarrow> length ys < length xs \<Longrightarrow> \<exists>x \<in> set xs. x \<notin> set ys"
  by (metis card_length card_mono distinct_card finite_set leD le_trans subsetI)

lemma rotation_covers:
  fixes i k n :: nat
  assumes "i < n"
  shows "\<exists>j < n. (k + j) mod n = i"
proof -
  define j where "j = (i + (n - k mod n)) mod n"
  have lt: "k mod n < n" using assms by (intro mod_less_divisor) linarith
  have "(k + j) mod n = (k mod n + (i + (n - k mod n))) mod n" by (simp add: j_def mod_simps)
  also have "k mod n + (i + (n - k mod n)) = i + n" using lt by linarith
  finally have "(k + j) mod n = i" using assms by simp
  moreover have "j < n" unfolding j_def using assms by (intro mod_less_divisor) linarith
  ultimately show ?thesis by blast
qed

lemma roundRobin_total:
  assumes "rr_ok p" and "distinct (map s_Name (p_Servers p))" and "length ign < length (p_Servers p)"
  shows "\<exists>i p1. roundRobinChooseServer ign p = (Ret (Some i), p1)"
proof -
  let ?n = "length (p_Servers p)" and ?at = "\<lambda>j. (nat (p_RRServerIdx p) + 1 + j) mod length (p_Servers p)"
  let ?free = "\<lambda>j. j < ?n \<and> s_Name (p_Servers p ! ?at j) \<notin> set ign"
  obtain i where "i < ?n" "s_Name (p_Servers p ! i) \<notin> set ign"
    using distinct_not_covered [OF assms(2), of ign] assms(3) by (auto simp: in_set_conv_nth)
  moreover obtain j0 where "j0 < ?n" "?at j0 = i"
    using rotation_covers [OF \<open>i < ?n\<close>, of "nat (p_RRServerIdx p) + 1"] by blast
  ultimately have "?free j0" by simp
  define j where "j = (LEAST j. ?free j)"
  have j: "?free j" unfolding j_def by (rule LeastI [of ?free, OF \<open>?free j0\<close>])
  have "s_Name (p_Servers p ! ?at d) \<in> set ign" if "d < j" for d
    using not_less_Least [of d ?free] that j unfolding j_def [symmetric] by linarith
  moreover have "0 \<le> p_RRServerIdx p" using assms(1) by (simp add: rr_ok_def lb_ok_def)
  ultimately show ?thesis using roundRobin_finds [OF _ _ _ refl, of p j ign] j by blast
qed

text \<open>Whether the worker behind a URL refuses.\<close>

definition refused_by :: "lb_env \<Rightarrow> string \<Rightarrow> bool" where
  "refused_by env url =
     (case le_do env url of Inl e \<Rightarrow> refused (Some e) | Inr resp \<Rightarrow> refused (l_readErr resp))"

lemma ReverseProxy_roundrobin:
  assumes "p_Policy p \<noteq> ''LARD''" and "le_parse env (server_Url (p_Servers p ! i) @ r_RequestURI r) = None"
  obtains code err w r2 where "ReverseProxy env i (p, r) = (Ret ((code, err), w), (p, r2))"
    and "refused err = refused_by env (server_Url (p_Servers p ! i) @ r_RequestURI r)"
proof -
  let ?url = "server_Url (p_Servers p ! i) @ r_RequestURI r"
  have "\<exists>code err w r2. ReverseProxy env i (p, r) = (Ret ((code, err), w), (p, r2)) \<and> refused err = refused_by env ?url"
  proof (cases "le_do env ?url")
    case (Inl e)
    then show ?thesis using assms by (simp add: ReverseProxy_def Let_def refused_by_def)
  next
    case (Inr resp)
    then show ?thesis using assms
      by (cases "l_readErr resp") (simp_all add: ReverseProxy_def piggyback_def Let_def refused_by_def)
  qed
  then show thesis using that by blast
qed

lemma roundRobin_attempts_return:
  assumes "rr_ok p" and "distinct (map s_Name (p_Servers p))" and "\<forall>url. le_parse env url = None"
    and "length ign < min 3 (length (p_Servers p))"
  shows "\<exists>tried w p' r'. attempt_with choose_by_policy env ign (p, r) = (Ret (tried, w), (p', r')) \<and> tried \<noteq> [] \<and>
           (refused_by env (snd (last tried)) \<longrightarrow> length ign + length tried = min 3 (length (p_Servers p)))"
  using assms(1,2,4)
proof (induction "3 - length ign" arbitrary: ign p r rule: less_induct)
  case less
  obtain i p1 where "roundRobinChooseServer ign p = (Ret (Some i), p1)"
    using roundRobin_total [OF less.prems(1,2), of ign] less.prems(3) by auto
  then have pick: "choose_by_policy ign (r_Path r) p = (Ret (Some i), p1)"
    using less.prems(1) by (simp add: choose_by_policy_def rr_ok_def)
  note some = roundrobin.pick_some [OF less.prems(1) pick]
  define url where "url = server_Url (p_Servers p1 ! i) @ r_RequestURI r"
  have "p_Policy p1 \<noteq> ''LARD''" using some by (simp add: rr_ok_def)
  then obtain code err w1 r2 where rp: "ReverseProxy env i (p1, r) = (Ret ((code, err), w1), (p1, r2))"
    and err: "refused err = refused_by env url"
    using ReverseProxy_roundrobin [of p1 env i r] assms(3) unfolding url_def by metis
  define p3 where "p3 = upd_server i (\<lambda>s. s\<lparr>s_Connections := s_Connections s - 1\<rparr>) p1"
  define ign' where "ign' = ign @ [s_Name (p_Servers p1 ! i)]"
  note once = roundrobin.attempt_once [OF less.prems(1) pick rp p3_def]
  have len: "length (p_Servers p3) = length (p_Servers p)" using once(4) by (metis length_map)
  note answered = attempt_answered [where pick = choose_by_policy, OF less.prems(3) pick rp, folded p3_def url_def]
  note again = attempt_refused [where pick = choose_by_policy, OF less.prems(3) pick rp, folded p3_def ign'_def url_def]
  show ?case
  proof (cases "refused err")
    case False
    then show ?thesis using answered err by simp
  next
    case True
    show ?thesis
    proof (cases "length ign' < min 3 (length (p_Servers p3))")
      case more_left: True
      have "3 - length ign' < 3 - length ign" using less.prems(3) unfolding ign'_def by simp linarith
      from less.hyps [OF this once(2) _ more_left] less.prems(2) once(4)
      obtain tried w p' r' where "attempt_with choose_by_policy env ign' (p3, r2) = (Ret (tried, w), (p', r'))"
        "tried \<noteq> []" "refused_by env (snd (last tried)) \<longrightarrow> length ign' + length tried = min 3 (length (p_Servers p3))"
        by metis
      then show ?thesis using again True len by (simp add: ign'_def)
    next
      case False
      then have "attempt_with choose_by_policy env ign' (p3, r2) = (Ret ([], [NotFound]), (p3, r2))"
        by (intro attempt_limit) linarith
      then show ?thesis using again True False len less.prems(3) by (simp add: ign'_def) linarith
    qed
  qed
qed

end
