(* ===== verification/LoadBalancerClaims.thy ===== *)
theory LoadBalancerClaims
  imports LoadBalancerProps
begin

text \<open>
  The properties of the load balancer: what a request does to the connection counters, how often and
  where it is sent, when round robin answers and when it never does, how LARD treats a worker that is
  down, and what configuration is accepted.
\<close>

definition ex_backend :: "string \<Rightarrow> lbServer" where
  "ex_backend nm = \<lparr>s_Name = nm, s_Scheme = ''http'', s_Host = ''h'', s_Port = 80, s_MaxConn = - 1,
     s_CPUUsage = Fin 0, s_MemUsage = Fin 0, s_Connections = 0\<rparr>"

definition ex_proxy :: "string \<Rightarrow> string list \<Rightarrow> proxy" where
  "ex_proxy policy names = zero_proxy\<lparr>p_Policy := policy, p_LoadFormula := ''Connections'',
     p_Servers := map ex_backend names, p_MaxConn := - 1, p_LoadHigh := Fin (4/10), p_LoadLow := Fin (2/10)\<rparr>"

definition all_down :: lb_env where
  "all_down = \<lparr>le_parse = (\<lambda>url. None), le_do = (\<lambda>url. Inl ''connection refused'')\<rparr>"

definition ex_request :: lb_request where
  "ex_request = \<lparr>r_RequestURI = ''/run'', r_Path = ''/run''\<rparr>"

lemma ex_proxy_simps [simp]:
  "p_Policy (ex_proxy policy names) = policy" "p_Servers (ex_proxy policy names) = map ex_backend names"
  "p_RRServerIdx (ex_proxy policy names) = 0" "p_LeastLoadIdx (ex_proxy policy names) = 0"
  "p_RequestServerMap (ex_proxy policy names) = Map.empty" "p_LoadFormula (ex_proxy policy names) = ''Connections''"
  "s_Name (ex_backend nm) = nm" "s_Connections (ex_backend nm) = 0" "s_MaxConn (ex_backend nm) = - 1"
  "le_parse all_down url = None" "le_do all_down url = Inl ''connection refused''"
  by (simp_all add: ex_proxy_def zero_proxy_def ex_backend_def all_down_def)

lemma lb_ok_ex_proxy [simp]: "lb_ok (ex_proxy policy names)"
  by (simp add: lb_ok_def)

lemma refused_literal: "refused (Some ''connection refused'')"
  unfolding refused_def option.case by (rule strings_Contains_self)

lemma all_down_refuses: "refused_by all_down url"
  unfolding refused_by_def all_down_def using refused_literal by simp

subsection \<open>Connections\<close>

text \<open>
  C4.  A request that \<open>attemptServers\<close> ends with leaves every server's connection counter as it was,
  whichever policy chose the servers and however many of them refused; it was sent to at most three
  servers, never to more than there are, and under round robin never twice to servers of one name.
\<close>
theorem attemptServers_conserves_connections:
  assumes "lb_ok p" and "attemptServers env [] (p, r) = (Ret (tried, w), (p', r'))"
  shows "conns p' = conns p \<and> length tried \<le> min 3 (length (p_Servers p)) \<and>
    (\<forall>a \<in> set tried. fst a < length (p_Servers p)) \<and>
    (p_Policy p = ''RoundRobin'' \<longrightarrow> distinct (map (\<lambda>a. s_Name (p_Servers p ! fst a)) tried))"
  using policy.attempts_balance [OF assms(2) [unfolded attemptServers_def] assms(1)]
    roundrobin.attempts_distinct [OF assms(2) [unfolded attemptServers_def]] assms(1)
  by (auto simp: rr_ok_def)

theorem attemptServers_conserves_connections_witness:
  "\<exists>tried w p' r'. attemptServers all_down [] (ex_proxy ''RoundRobin'' [''a'', ''b''], ex_request) = (Ret (tried, w), (p', r')) \<and>
     conns p' = [0, 0] \<and> length tried = 2"
proof -
  let ?p = "ex_proxy ''RoundRobin'' [''a'', ''b'']"
  have "rr_ok ?p" by (simp add: rr_ok_def)
  then obtain tried w p' r' where ret: "attemptServers all_down [] (?p, ex_request) = (Ret (tried, w), (p', r'))"
    and "length tried = 2"
    using roundRobin_attempts_return [of ?p all_down "[]" ex_request] all_down_refuses
    by (auto simp: attemptServers_def)
  moreover have "conns p' = conns ?p"
    using attemptServers_conserves_connections [OF lb_ok_ex_proxy ret] by blast
  ultimately show ?thesis by (auto simp: conns_def)
qed

text \<open>
  C24.  Round robin takes the first server after the last used one, in cyclic order, that is not in the
  ignore list; it counts one connection more for it and remembers its index.
\<close>
theorem roundRobin_takes_next:
  assumes "0 \<le> p_RRServerIdx p" and "j < length (p_Servers p)"
    and "\<forall>d < j. s_Name (p_Servers p ! ((nat (p_RRServerIdx p) + 1 + d) mod length (p_Servers p))) \<in> set ign"
    and "s_Name (p_Servers p ! ((nat (p_RRServerIdx p) + 1 + j) mod length (p_Servers p))) \<notin> set ign"
  shows "\<exists>i. i = (nat (p_RRServerIdx p) + 1 + j) mod length (p_Servers p) \<and>
           roundRobinChooseServer ign p = (Ret (Some i), upd_server i inc_conn (p\<lparr>p_RRServerIdx := int i\<rparr>))"
  using roundRobin_finds [OF assms(1-3) refl assms(4)] by blast

theorem roundRobin_takes_next_witness:
  "\<exists>p1. roundRobinChooseServer [''b''] (ex_proxy ''RoundRobin'' [''a'', ''b'', ''c'']) = (Ret (Some 2), p1) \<and> conns p1 = [0, 0, 1]"
  using roundRobin_takes_next [of "ex_proxy ''RoundRobin'' [''a'', ''b'', ''c'']" 1 "[''b'']"]
  by (simp add: conns_def)



text \<open>
  Two or more servers of one name that refuse make round robin loop for ever: if the next server is
  the last of the list, the retry skips every server and waits for an index equal to the number of
  servers, which the cyclic index never takes, however long the loop runs.
\<close>
theorem roundRobin_same_names_hang:
  assumes "p_Policy p = ''RoundRobin''" and "2 \<le> length (p_Servers p)" and "\<forall>s \<in> set (p_Servers p). s_Name s = nm"
    and "p_RRServerIdx p = int (length (p_Servers p)) - 2"
    and "\<forall>url. le_parse env url = None \<and> refused_by env url"
  shows "fst (attemptServers env [] (p, r)) = Block \<and>
    (\<forall>fuel. rr_loop fuel [nm] (p\<lparr>p_RRServerIdx := int (length (p_Servers p)) - 1\<rparr>) True 0 = None)"
proof -
  let ?n = "length (p_Servers p)"
  define i where "i = ?n - 1"
  have i: "i = (nat (p_RRServerIdx p) + 1 + 0) mod ?n" using assms(2,4) by (simp add: i_def)
  define p1 where "p1 = upd_server i inc_conn (p\<lparr>p_RRServerIdx := int i\<rparr>)"
  have "roundRobinChooseServer [] p = (Ret (Some i), p1)"
    unfolding p1_def by (rule roundRobin_finds [OF _ _ _ i]) (use assms(2,4) in auto)
  then have pick: "choose_by_policy [] (r_Path r) p = (Ret (Some i), p1)"
    using assms(1) by (simp add: choose_by_policy_def)
  have "p_Policy p1 \<noteq> ''LARD''" using assms(1) by (simp add: p1_def)
  then obtain code err w r2 where rp: "ReverseProxy env i (p1, r) = (Ret ((code, err), w), (p1, r2))"
    and err: "refused err"
    using ReverseProxy_roundrobin [of p1 env i r] assms(5) by metis
  define p3 where "p3 = dec_conn i p1"
  have names: "map s_Name (p_Servers p3) = map s_Name (p_Servers p)"
    using assms(2) by (simp add: p3_def p1_def i_def map_update_same)
  then have len: "length (p_Servers p3) = ?n" by (metis length_map)
  have all: "\<forall>s \<in> set (p_Servers p3). s_Name s = nm" using names assms(3) by (metis imageE image_eqI set_map)
  have "i < length (p_Servers p1)" using assms(2) by (simp add: p1_def i_def)
  then have nm: "s_Name (p_Servers p1 ! i) = nm"
    using assms(2,3) by (simp add: p1_def i_def)
  have idx: "p_RRServerIdx p3 = int ?n - 1" "p_Policy p3 = ''RoundRobin''"
    using assms(1,2) by (simp_all add: p3_def p1_def i_def)
  have "rr_loop (Suc ?n) [nm] p3 True 0 = None"
    by (rule rr_loop_hangs) (use all idx len assms(2) in auto)
  then have blocked: "choose_by_policy [nm] (r_Path r2) p3 = (Block, p3)"
    using idx len assms(2) by (auto simp: choose_by_policy_def roundRobinChooseServer_def simp del: rr_loop.simps)
  have "attempt_with choose_by_policy env [nm] (p3, r2) = (Block, (p3, r2))"
    using len assms(2) by (subst attempt_with.simps) (auto simp: blocked)
  moreover have "length [] < min 3 ?n" using assms(2) by auto
  note attempt_refused [where pick = choose_by_policy, OF this pick rp err]
  ultimately have "fst (attemptServers env [] (p, r)) = Block"
    by (simp add: attemptServers_def p3_def nm)
  moreover have "\<forall>fuel. rr_loop fuel [nm] (p\<lparr>p_RRServerIdx := int ?n - 1\<rparr>) True 0 = None"
    using assms(2,3) by (intro allI rr_loop_hangs) auto
  ultimately show ?thesis by blast
qed

theorem roundRobin_same_names_hang_witness:
  "fst (attemptServers all_down [] (ex_proxy ''RoundRobin'' [''a'', ''a''], ex_request)) = Block"
  by (rule roundRobin_same_names_hang [where nm = "''a''", THEN conjunct1]) (simp_all add: all_down_refuses)

lemma ex_backend_Url: "server_Url (ex_backend ''a'') = ''http://h:80''" "server_Url (ex_backend ''b'') = ''http://h:80''"
  by code_simp+

text \<open>
  A request that is retried loses its path: after the first server only the bare address of a
  server is asked, since the request URI has been cleared.
\<close>
theorem retries_lose_request_path:
  assumes "attemptServers env [] (p, r) = (Ret (tried, w), (p', r'))" and "lb_ok p"
  shows "\<forall>a \<in> set (tl tried). snd a = server_Url (p_Servers p ! fst a)"
  using policy.retries_cleared [OF assms(1) [unfolded attemptServers_def] assms(2)] .

theorem retries_lose_request_path_witness:
  "\<exists>first second w pr'. attemptServers all_down [] (ex_proxy ''RoundRobin'' [''a'', ''b''], ex_request) =
       (Ret ([first, second], w), pr') \<and> snd second = ''http://h:80''"
proof -
  let ?p = "ex_proxy ''RoundRobin'' [''a'', ''b'']"
  have "rr_ok ?p" by (simp add: rr_ok_def)
  then obtain tried w p' r' where ret: "attemptServers all_down [] (?p, ex_request) = (Ret (tried, w), (p', r'))"
    and "length tried = 2"
    using roundRobin_attempts_return [of ?p all_down "[]" ex_request] all_down_refuses
    by (auto simp: attemptServers_def)
  then obtain a b where tried: "tried = [a, b]"
    by (metis length_0_conv length_Suc_conv numeral_2_eq_2)
  have "fst b < 2"
    using policy.attempts_balance [OF ret [unfolded attemptServers_def]] tried by simp
  then have "server_Url (p_Servers ?p ! fst b) = ''http://h:80''"
    using ex_backend_Url by (auto simp: less_2_cases_iff)
  then show ?thesis using retries_lose_request_path [OF ret] ret tried by auto
qed

subsection \<open>Locality and load\<close>

text \<open>
  C26.  A path without a server yet goes to the least loaded of the servers that accept connections, the
  load being below 1, and is mapped to it with one connection more; if there is no such server, nothing
  is counted or mapped.
\<close>
theorem lard_new_path_least_load:
  assumes "lb_ok p" and "p_RequestServerMap p path = None" and "p_Servers p \<noteq> []"
  shows "\<exists>target p1. lardChooseServer ign path p = (Ret target, p1) \<and>
    (case target of
       None \<Rightarrow> p_Servers p1 = p_Servers p \<and> p_RequestServerMap p1 = p_RequestServerMap p \<and>
               (\<forall>k < length (p_Servers p). accepts (p_Servers p ! k) \<longrightarrow> \<not> flt (load_of p k) (Fin 1))
     | Some t \<Rightarrow> t < length (p_Servers p) \<and> accepts (p_Servers p ! t) \<and> flt (load_of p t) (Fin 1) \<and>
               (\<forall>k < length (p_Servers p). accepts (p_Servers p ! k) \<longrightarrow> \<not> flt (load_of p k) (load_of p t)) \<and>
               conns p1 = (conns p)[t := conns p ! t + 1] \<and> p_RequestServerMap p1 = (p_RequestServerMap p)(path \<mapsto> t))"
proof -
  have idx: "0 \<le> p_LeastLoadIdx p" using assms(1) by (simp add: lb_ok_def)
  obtain target q where gl: "getLeastLoad True p = (Ret target, q)"
    using assms(3) by (simp add: getLeastLoad_def Let_def)
  note res = getLeastLoad_Ret [OF gl idx]
  obtain k where q: "q = p\<lparr>p_LeastLoadIdx := k\<rparr>" using res(1) by blast
  have "lardChooseServer ign path p = (Ret target, lard_take path target q)"
    using assms(2) gl by (simp add: lardChooseServer_def)
  moreover have "conns (lard_take path (Some t) q) = (conns p)[t := conns p ! t + 1]" if "t < length (p_Servers p)" for t
    using that q by (simp add: lard_take_def conns_def map_update)
  ultimately show ?thesis
    using res(2,3) q by (cases target) (simp_all add: lard_take_def)
qed

theorem lard_new_path_least_load_witness:
  "\<exists>t p1. lardChooseServer [] ''/run'' (ex_proxy ''LARD'' [''a'', ''b'']) = (Ret (Some t), p1) \<and> t < 2 \<and>
     p_RequestServerMap p1 ''/run'' = Some t"
proof -
  let ?p = "ex_proxy ''LARD'' [''a'', ''b'']"
  have free: "accepts (p_Servers ?p ! 0)" "flt (load_of ?p 0) (Fin 1)"
    by (simp_all add: accepts_def GetLoad_def GetLoadByConn_def float_of_def maxInt64_def)
  note new = lard_new_path_least_load [of ?p "''/run''" "[]"]
  then obtain target p1 where res: "lardChooseServer [] ''/run'' ?p = (Ret target, p1)" by auto
  show ?thesis
  proof (cases target)
    case None
    then have "\<not> flt (load_of ?p 0) (Fin 1)" using new res free(1) by (auto dest: spec [of _ 0])
    then show ?thesis using free(2) by simp
  next
    case (Some t)
    then show ?thesis using new res by simp
  qed
qed

text \<open>
  Under LARD a worker that is down is not replaced: a request for a path mapped to a server that is
  not overloaded, and that refuses the connection, is answered with a 404 after that single attempt,
  whatever other servers are up.  The mapping stays, so every later request for the path fails alike.
\<close>
theorem lard_never_fails_over:
  assumes "p_Policy p = ''LARD''" and "p_RequestServerMap p (r_Path r) = Some t" and "t < length (p_Servers p)"
    and "2 \<le> length (p_Servers p)" and "lard_overloaded t p = Ret False"
    and "r_Path r = url_path (r_RequestURI r)"
    and "le_parse env (server_Url (p_Servers p ! t) @ r_RequestURI r) = None"
    and "le_do env (server_Url (p_Servers p ! t) @ r_RequestURI r) = Inl e" and "refused (Some e)"
  shows "\<exists>r'. attemptServers env [] (p, r) = (Ret ([(t, server_Url (p_Servers p ! t) @ r_RequestURI r)], [NotFound]), (p, r'))"
proof -
  define p1 where "p1 = lard_take (r_Path r) (Some t) p"
  have map: "(p_RequestServerMap p)(r_Path r \<mapsto> t) = p_RequestServerMap p" using assms(2) by auto
  have pick: "choose_by_policy [] (r_Path r) p = (Ret (Some t), p1)"
    using assms(1,2,5) by (simp add: choose_by_policy_def lardChooseServer_def lard_unignored_def p1_def)
  have url: "server_Url (p_Servers p1 ! t) = server_Url (p_Servers p ! t)"
    using assms(3) by (simp add: p1_def lard_take_def server_Url_def)
  define r2 where "r2 = r\<lparr>r_RequestURI := [], r_Path := url_path (r_RequestURI r)\<rparr>"
  have rp: "ReverseProxy env t (p1, r) = (Ret ((0, Some e), []), (p1, r2))"
    using assms(7,8) by (simp add: ReverseProxy_def Let_def url r2_def)
  have same: "dec_conn t p1 = p"
    using assms(3) map by (simp add: p1_def lard_take_def list_update_same_conv)
  have nm: "s_Name (p_Servers p1 ! t) = s_Name (p_Servers p ! t)"
    using assms(3) by (simp add: p1_def lard_take_def)
  have "choose_by_policy [s_Name (p_Servers p ! t)] (r_Path r2) p = (Ret None, p)"
    using assms(1,2,5,6) by (simp add: choose_by_policy_def lardChooseServer_def lard_unignored_def lard_take_def r2_def)
  then have retry: "attempt_with choose_by_policy env [s_Name (p_Servers p ! t)] (p, r2) = (Ret ([], [NotFound]), (p, r2))"
    by (subst attempt_with.simps) simp
  have "length [] < min 3 (length (p_Servers p))" using assms(4) by auto
  from attempt_refused [where pick = choose_by_policy, OF this pick rp assms(9)]
  show ?thesis by (simp add: attemptServers_def same nm url retry)
qed

definition ex_mapped :: proxy where
  "ex_mapped = (ex_proxy ''LARD'' [''a'', ''b''])\<lparr>p_RequestServerMap := [''/run'' \<mapsto> 0]\<rparr>"

theorem lard_never_fails_over_witness:
  "\<exists>r'. attemptServers all_down [] (ex_mapped, ex_request) =
     (Ret ([(0, server_Url (ex_backend ''a'') @ ''/run'')], [NotFound]), (ex_mapped, r'))"
  using lard_never_fails_over [of ex_mapped ex_request 0 all_down "''connection refused''"] refused_literal
  by (simp add: ex_mapped_def ex_request_def url_path_def lard_overloaded_def GetLoad_def GetLoadByConn_def
      float_of_def maxInt64_def fge_def ex_proxy_def)

subsection \<open>Configuration\<close>

lemma sum_MaxConn_unlimited:
  "\<exists>s \<in> set ss. s_MaxConn s = - 1 \<Longrightarrow> sum_MaxConn ss acc = - 1"
  by (induction ss arbitrary: acc) auto

lemma sum_MaxConn_limited:
  "\<forall>s \<in> set ss. s_MaxConn s \<noteq> - 1 \<Longrightarrow> sum_MaxConn ss acc = acc + sum_list (map s_MaxConn ss)"
  by (induction ss arbitrary: acc) auto

lemma SetDefaultValues_simps [simp]:
  "p_Host (SetDefaultValues p) \<noteq> []" "p_Port (SetDefaultValues p) \<noteq> 0"
  "p_Scheme (SetDefaultValues p) = (if p_Scheme p = [] then ''http'' else p_Scheme p)"
  "p_Servers (SetDefaultValues p) = map default_MaxConn (p_Servers p)"
  by (simp_all add: SetDefaultValues_def Let_def)

text \<open>
  A configuration that can be read and decoded is accepted exactly if its scheme is absent,
  \<open>http\<close> or \<open>https\<close>: host and port are defaulted before they are checked, so the two checks on
  them never fail.  Every server of the result has a limit other than 0, and without a configured limit
  for the whole system it is the sum of the servers' limits, or none if one of them has none.
\<close>
theorem ReadConfig_accepts:
  assumes "cr_read cr path = Inr file"
    and "(if strings_HasSuffix path ''.yml'' then cr_yaml cr file else cr_json cr file) = (p0, None)"
    and "ReadConfig cr path = (p, err)"
  shows "(err = None \<longleftrightarrow> p_Scheme p0 \<in> {[], ''http'', ''https''}) \<and>
    (\<forall>s \<in> set (p_Servers p). s_MaxConn s \<noteq> 0) \<and>
    (p_MaxConn p0 = 0 \<longrightarrow> p_MaxConn p =
       (if p_Servers p = [] \<or> (\<exists>s \<in> set (p_Servers p). s_MaxConn s = - 1) then - 1
        else sum_list (map s_MaxConn (p_Servers p))))"
proof (intro conjI impI)
  have p: "p = SetDefaultValues p0" and err: "err = validateFields p"
    using assms by (auto simp: ReadConfig_def Let_def split: if_splits)
  show "err = None \<longleftrightarrow> p_Scheme p0 \<in> {[], ''http'', ''https''}"
    unfolding err p
    by (auto simp: validateFields_def generateValidationErrors_def removeEmpty_def validation_def Let_def)
  show "\<forall>s \<in> set (p_Servers p). s_MaxConn s \<noteq> 0"
    unfolding p by (auto simp: default_MaxConn_def defaultServerMaxConn_def)
  show "p_MaxConn p = (if p_Servers p = [] \<or> (\<exists>s \<in> set (p_Servers p). s_MaxConn s = - 1) then - 1
            else sum_list (map s_MaxConn (p_Servers p)))" if "p_MaxConn p0 = 0"
    using that sum_MaxConn_unlimited [of "p_Servers p" 0] sum_MaxConn_limited [of "p_Servers p" 0]
    unfolding p by (auto simp: SetDefaultValues_def Let_def)
qed

theorem ReadConfig_accepts_witness:
  "snd (ReadConfig \<lparr>cr_read = (\<lambda>path. Inr ([] :: string)), cr_yaml = (\<lambda>f. (zero_proxy, None)), cr_json = (\<lambda>f. (zero_proxy, None))\<rparr>
          ''lb.json'') = None"
  using ReadConfig_accepts [of "\<lparr>cr_read = (\<lambda>path. Inr ([] :: string)), cr_yaml = (\<lambda>f. (zero_proxy, None)), cr_json = (\<lambda>f. (zero_proxy, None))\<rparr>"
      "''lb.json''" "[]" zero_proxy]
  by (simp add: zero_proxy_def prod_eq_iff)

end
