(* ===== verification/WorkerServer.thy ===== *)
theory WorkerServer
  imports HandlerManager History GoFloat "HOL-Library.AList"
begin

text \<open>
  The HTTP server of a worker (\<open>worker/server/server.go\<close> and \<open>rid.go\<close>): a request for a lambda is
  turned into a handler, forwarded to the sandbox with retries and answered together with the machine's
  load, while the history notes the lambda as warm.

  The state is the handlers of \<open>HandlerManager\<close> and the history.  What comes from outside is gathered
  in \<open>worker_env\<close>: the registry, the answers to \<open>RunStart\<close>, the cgroup files, the random numbers,
  the body of the request, the sandbox's HTTP answers by number of the try, the machine's memory and
  processor, and the outcome of writing the response.  Bodies are strings; JSON encoding is left to
  the theory of the two servers together.
\<close>

record http_response =
  hr_StatusCode :: int
  hr_Header :: "(string \<times> string list) list"
  hr_Body :: string

record httpResp =
  ResponseCode :: int
  ResponseHeader :: "(string \<times> string list) list"
  ResponseBody :: string
  TotalMem :: int
  FreeMem :: int
  CPUUsage :: float64

record httpErr =
  he_msg :: string
  he_code :: int

definition newHttpErr :: "string \<Rightarrow> int \<Rightarrow> httpErr" where
  "newHttpErr m code = \<lparr>he_msg = m, he_code = code\<rparr>"

definition StatusOK :: int where "StatusOK = 200"
definition StatusBadRequest :: int where "StatusBadRequest = 400"
definition StatusInternalServerError :: int where "StatusInternalServerError = 500"

definition JoinServerPerfData :: "int \<times> int \<Rightarrow> float64 \<Rightarrow> http_response \<Rightarrow> httpResp" where
  "JoinServerPerfData mem cpu result =
     \<lparr>ResponseCode = hr_StatusCode result, ResponseHeader = hr_Header result, ResponseBody = hr_Body result,
      TotalMem = fst mem, FreeMem = snd mem, CPUUsage = cpu\<rparr>"

record 'c worker =
  w_set :: "'c handlerManagerSet"
  w_hist :: lambdaHistory

record 'c worker_env =
  we_pull :: "string \<Rightarrow> string + (string \<times> string list \<times> string list)"
  we_run :: "'c run_env"
  we_rf1 :: "string \<Rightarrow> string option"
  we_rf2 :: "string \<Rightarrow> string option"
  we_now :: int
  we_rnd :: uint32
  we_rnd' :: uint32
  we_body :: "string + string"
  we_newRequest :: "string \<Rightarrow> goerror"
  we_do :: "string \<Rightarrow> nat \<Rightarrow> string + http_response"
  we_mem :: "int \<times> int"
  we_cpu :: float64
  we_write :: goerror

subsection \<open>The path of a request\<close>

definition getUrlComponents :: "string \<Rightarrow> string list" where
  "getUrlComponents path =
     (let p1 = (if strings_HasPrefix path ''/'' then tl path else path);
          p2 = (if strings_HasSuffix p1 ''/'' then butlast p1 else p1)
      in strings_Split (CHR ''/'') p2)"

text \<open>The name of the lambda: \<open>img[:i-1]\<close> panics for a question mark in front.\<close>

definition lambda_name :: "string \<Rightarrow> string res" where
  "lambda_name img =
     (let i = strings_Index img ''?'' in
      if 0 \<le> i
      then if i - 1 < 0 then Panic ''slice bounds out of range'' else Ret (take (nat (i - 1)) img)
      else Ret img)"

subsection \<open>Forwarding\<close>

text \<open>The tries from number \<open>tries\<close> on, \<open>left\<close> more being allowed after it.\<close>

fun forward_tries :: "goerror \<Rightarrow> (nat \<Rightarrow> string + 'r) \<Rightarrow> nat \<Rightarrow> nat \<Rightarrow> string + 'r" where
  "forward_tries req answer tries left =
     (case req of
        Some e \<Rightarrow> Inl e
      | None \<Rightarrow>
          (case answer tries of
             Inr w2 \<Rightarrow> Inr w2
           | Inl e \<Rightarrow> (case left of 0 \<Rightarrow> Inl e | Suc l \<Rightarrow> forward_tries req answer (Suc tries) l)))"

declare forward_tries.simps [simp del]

definition max_tries :: nat where "max_tries = 10"

definition cors_headers :: "(string \<times> string list) list \<Rightarrow> (string \<times> string list) list" where
  "cors_headers hs =
     fold (\<lambda>kv. AList.update (fst kv) (snd kv))
       [(''Access-Control-Allow-Origin'', [''*'']),
        (''Access-Control-Allow-Methods'', [''GET, PUT, POST, DELETE, OPTIONS'']),
        (''Access-Control-Allow-Headers'',
         [''Content-Type, Content-Range, Content-Disposition, Content-Description, X-Requested-With''])] hs"

text \<open>
  \<open>ForwardToSandbox\<close>.  \<open>RunFinish\<close> is deferred after a successful \<open>RunStart\<close>, and only then.
\<close>

definition ForwardToSandbox ::
  "'c container \<Rightarrow> 'c worker_env \<Rightarrow> haddr \<Rightarrow> string \<Rightarrow> 'c handlerManagerSet \<Rightarrow>
   ('c handlerManagerSet, string + (httpResp \<times> int)) outcome" where
  "ForwardToSandbox ops env h path s =
     (case RunStart ops (we_run env) h s of
        (Ret (Inl e), s1) \<Rightarrow> (Ret (Inl e), s1)
      | (Ret (Inr channel), s1) \<Rightarrow>
          let url = channel @ path;
              result = (case forward_tries (we_newRequest env url) (we_do env url) 1 (max_tries - 1) of
                          Inl e \<Rightarrow> Inl e
                        | Inr w2 \<Rightarrow>
                            let w3 = w2\<lparr>hr_Header := cors_headers (hr_Header w2)\<rparr> in
                            Inr (JoinServerPerfData (we_mem env) (we_cpu env) w3, hr_StatusCode w3))
          in (case RunFinish ops (we_rf1 env) (we_rf2 env) (we_now env) h s1 of
                (Ret _, s2) \<Rightarrow> (Ret result, s2)
              | (Panic m, s2) \<Rightarrow> (Panic m, s2)
              | (Exit m, s2) \<Rightarrow> (Exit m, s2)
              | (Block, s2) \<Rightarrow> (Block, s2))
      | (Panic m, s1) \<Rightarrow> (Panic m, s1)
      | (Exit m, s1) \<Rightarrow> (Exit m, s1)
      | (Block, s1) \<Rightarrow> (Block, s1))"

subsection \<open>RunLambda\<close>

text \<open>What is written to the client.\<close>

datatype w_reply = WHeader int | WBody httpResp | WError string int

definition RunLambdaErr ::
  "'c container \<Rightarrow> 'c worker_env \<Rightarrow> string \<Rightarrow> 'c worker \<Rightarrow> ('c worker, httpErr option \<times> w_reply list) outcome" where
  "RunLambdaErr ops env path w =
     (let urlParts = getUrlComponents path in
      if length urlParts < 2
      then (Ret (Some (newHttpErr ''Name of image to run required'' StatusBadRequest), []), w)
      else
        (case lambda_name (urlParts ! 1) of
           Ret img \<Rightarrow>
             (case we_body env of
                Inl e \<Rightarrow> (Ret (Some (newHttpErr e StatusInternalServerError), []), w)
              | Inr rbody \<Rightarrow>
                  (case HandlerAccess (urlParts ! 1) code_OPEN (we_rnd env) (w_hist w) of
                     (Ret _, hist) \<Rightarrow>
                       (case Get (we_pull env) img (w_set w) of
                          (Ret (Inl e), s1) \<Rightarrow>
                            (Ret (Some (newHttpErr e StatusInternalServerError), []), \<lparr>w_set = s1, w_hist = hist\<rparr>)
                        | (Ret (Inr h), s1) \<Rightarrow>
                            (case ForwardToSandbox ops env h path s1 of
                               (Ret (Inl e), s2) \<Rightarrow>
                                 (Ret (Some (newHttpErr e StatusInternalServerError), []), \<lparr>w_set = s2, w_hist = hist\<rparr>)
                             | (Ret (Inr (wbody, code)), s2) \<Rightarrow>
                                 (Ret (case we_write env of
                                         None \<Rightarrow> (None, [WHeader code, WBody wbody])
                                       | Some e \<Rightarrow> (Some (newHttpErr e StatusInternalServerError), [WHeader code])),
                                  \<lparr>w_set = s2, w_hist = hist\<rparr>)
                             | (Panic m, s2) \<Rightarrow> (Panic m, \<lparr>w_set = s2, w_hist = hist\<rparr>)
                             | (Exit m, s2) \<Rightarrow> (Exit m, \<lparr>w_set = s2, w_hist = hist\<rparr>)
                             | (Block, s2) \<Rightarrow> (Block, \<lparr>w_set = s2, w_hist = hist\<rparr>))
                        | (Panic m, s1) \<Rightarrow> (Panic m, \<lparr>w_set = s1, w_hist = hist\<rparr>)
                        | (Exit m, s1) \<Rightarrow> (Exit m, \<lparr>w_set = s1, w_hist = hist\<rparr>)
                        | (Block, s1) \<Rightarrow> (Block, \<lparr>w_set = s1, w_hist = hist\<rparr>))
                   | (Panic m, hist) \<Rightarrow> (Panic m, w\<lparr>w_hist := hist\<rparr>)
                   | (Exit m, hist) \<Rightarrow> (Exit m, w\<lparr>w_hist := hist\<rparr>)
                   | (Block, hist) \<Rightarrow> (Block, w\<lparr>w_hist := hist\<rparr>)))
         | Panic m \<Rightarrow> (Panic m, w)
         | Exit m \<Rightarrow> (Exit m, w)
         | Block \<Rightarrow> (Block, w)))"

text \<open>
  \<open>RunLambda\<close> gives what was written also when it panics afterwards: it reads \<open>urlParts[1]\<close> without
  a check.
\<close>

definition close_history ::
  "'c worker_env \<Rightarrow> string \<Rightarrow> w_reply list \<Rightarrow> 'c worker \<Rightarrow> ('c worker \<times> w_reply list, unit) outcome" where
  "close_history env path out w =
     (case go_index (getUrlComponents path) 1 of
        Ret part \<Rightarrow>
          (case HandlerAccess part code_CLOSE (we_rnd' env) (w_hist w) of
             (Ret _, hist) \<Rightarrow> (Ret (), w\<lparr>w_hist := hist\<rparr>, out)
           | (Panic m, hist) \<Rightarrow> (Panic m, w\<lparr>w_hist := hist\<rparr>, out)
           | (Exit m, hist) \<Rightarrow> (Exit m, w\<lparr>w_hist := hist\<rparr>, out)
           | (Block, hist) \<Rightarrow> (Block, w\<lparr>w_hist := hist\<rparr>, out))
      | Panic m \<Rightarrow> (Panic m, w, out)
      | Exit m \<Rightarrow> (Exit m, w, out)
      | Block \<Rightarrow> (Block, w, out))"

definition RunLambda ::
  "'c container \<Rightarrow> 'c worker_env \<Rightarrow> string \<Rightarrow> string \<Rightarrow> 'c worker \<Rightarrow> ('c worker \<times> w_reply list, unit) outcome" where
  "RunLambda ops env http_method path w =
     (if http_method = ''OPTIONS'' then close_history env path [WHeader StatusOK] w
      else
        (case RunLambdaErr ops env path w of
           (Ret (None, out), w1) \<Rightarrow> close_history env path out w1
         | (Ret (Some err, out), w1) \<Rightarrow> close_history env path (out @ [WError (he_msg err) (he_code err)]) w1
         | (Panic m, w1) \<Rightarrow> (Panic m, w1, [])
         | (Exit m, w1) \<Rightarrow> (Exit m, w1, [])
         | (Block, w1) \<Rightarrow> (Block, w1, [])))"

text \<open>\<open>Status\<close> writes \<open>ready\<close>, or the status 500 if it cannot, and dumps the handlers.\<close>

definition Status ::
  "'c container \<Rightarrow> string list \<Rightarrow> goerror \<Rightarrow> 'c worker \<Rightarrow> ('c worker, int + string) outcome" where
  "Status ops names werr w =
     (case Dump ops names (w_set w) of
        (Ret _, s1) \<Rightarrow> (Ret (if werr = None then Inr (''ready'' @ [CHR 0x0A]) else Inl StatusInternalServerError), w\<lparr>w_set := s1\<rparr>)
      | (Panic m, s1) \<Rightarrow> (Panic m, w\<lparr>w_set := s1\<rparr>)
      | (Exit m, s1) \<Rightarrow> (Exit m, w\<lparr>w_set := s1\<rparr>)
      | (Block, s1) \<Rightarrow> (Block, w\<lparr>w_set := s1\<rparr>))"

definition server_cleanup ::
  "'c container \<Rightarrow> string list \<Rightarrow> 'c worker \<Rightarrow> ('c worker, unit) outcome" where
  "server_cleanup ops names w =
     (case Cleanup_handlers ops names (w_set w) of (r, s1) \<Rightarrow> (r, w\<lparr>w_set := s1\<rparr>))"

text \<open>The worker as \<open>Main\<close> sets it up: new handlers and a history of four entries.\<close>

definition new_worker :: "string \<Rightarrow> int \<Rightarrow> int \<Rightarrow> int \<Rightarrow> 'c worker" where
  "new_worker wdir max_runners handler_cache_size hard_limit =
     \<lparr>w_set = NewHandlerManagerSet wdir max_runners handler_cache_size hard_limit, w_hist = hist_Init 4\<rparr>"

subsection \<open>Resource information\<close>

text \<open>\<open>nproc\<close>: the first line of the command's output as a \<open>uint64\<close>, 0 on any error.\<close>

definition nproc :: "string option \<Rightarrow> 64 word" where
  "nproc output =
     (case output of
        None \<Rightarrow> 0
      | Some data \<Rightarrow>
          (case strconv_Atoi (hd (strings_Split (CHR 0x0A) data)) of
             None \<Rightarrow> 0
           | Some n \<Rightarrow> word_of_int n))"

definition cpufree :: "float64 \<Rightarrow> float64" where
  "cpufree usage = fsub (Fin 100) usage"

datatype rid_line = RidUsage | RidMem int | RidProcs "64 word" | RidIdle float64

definition rid_char :: "int \<times> int \<Rightarrow> string option \<Rightarrow> float64 \<Rightarrow> char \<Rightarrow> rid_line list" where
  "rid_char mem procs cpu c =
     (if c = CHR ''m'' then [RidMem (snd mem)] else []) @
     (if c = CHR ''p'' then [RidProcs (nproc procs)] else []) @
     (if c = CHR ''i'' then [RidIdle (cpufree cpu)] else [])"

definition rid_ServeHTTP ::
  "bool \<Rightarrow> int \<times> int \<Rightarrow> string option \<Rightarrow> float64 \<Rightarrow> string \<Rightarrow> rid_line list res" where
  "rid_ServeHTTP sysinfo_failed mem procs cpu param =
     (if sysinfo_failed then Exit ''log.Fatal''
      else Ret ((if param = [] then [RidUsage] else []) @ concat (map (rid_char mem procs cpu) param)))"

end
