(* ===== verification/WorkerProps.thy ===== *)
theory WorkerProps
  imports WorkerServer HandlerRequests
begin

text \<open>
  Correctness of the worker's HTTP server: requests served one after the other are runs of the handler
  steps, with the runner counts balanced whenever a request is answered; what a failed start leaves
  behind; which lambda a URL names.
\<close>

subsection \<open>The steps of a request\<close>

lemma Get_runner:
  assumes wf: "hms_wf s" and inv: "pool_inv (abs_pool s)" and g: "Get pull name s = (Ret (Inr h), s1)"
  shows "h < length (heap s1)" and "0 < h_runners (heap s1 ! h)"
    and "p_run (abs_pool s1) = (p_run (abs_pool s))(h := p_run (abs_pool s) h + 1)"
proof -
  obtain k where "Inr h = (Inr k :: string + haddr) \<or> (\<exists>e. Inr h = (Inl e :: string + haddr))"
    and alt: "(k = length (heap s) \<and> abs_pool s1 = p_new (abs_pool s) \<and> (\<forall>j \<in> listed s. h_name (heap s ! j) \<noteq> name)) \<or>
         (k \<in> listed s \<and> h_name (heap s ! k) = name \<and> abs_pool s1 = p_acquire k (abs_pool s))"
    by (rule Get_sim [OF wf inv g])
  then have k: "k = h" by simp
  have "h < length (heap s1) \<and> p_run (abs_pool s1) = (p_run (abs_pool s))(h := p_run (abs_pool s) h + 1)"
    using alt unfolding k
  proof
    assume n: "h = length (heap s) \<and> abs_pool s1 = p_new (abs_pool s) \<and> (\<forall>j \<in> listed s. h_name (heap s ! j) \<noteq> name)"
    have "p_run (abs_pool s) h = 0" using pool_invD(3)[OF inv, of h] n by simp
    then show ?thesis using n abs_new_fields(1)[of s1 s] by (simp add: p_new_def)
  next
    assume a: "h \<in> listed s \<and> h_name (heap s ! h) = name \<and> abs_pool s1 = p_acquire h (abs_pool s)"
    then have hl: "h < length (heap s)" using listed_bound [OF wf] by blast
    show ?thesis using a hl abs_acquire_fields(1)[of s1 h s] by (simp add: p_acquire_def)
  qed
  then show hb: "h < length (heap s1)"
    and run: "p_run (abs_pool s1) = (p_run (abs_pool s))(h := p_run (abs_pool s) h + 1)" by auto
  have "0 \<le> p_run (abs_pool s) h" using pool_invD(2)[OF inv] .
  then show "0 < h_runners (heap s1 ! h)" using fun_cong [OF run, of h] hb by simp
qed

text \<open>A channel is only handed out by a sandbox.\<close>

lemma RunStart_channel: "RunStart ops env h s = (Ret (Inr ch), s1) \<Longrightarrow> h_sandbox (heap s1 ! h) \<noteq> None"
  by (auto simp: RunStart_def Let_def split: if_splits option.splits prod.splits res.splits)

lemma RunFinish_runner:
  assumes wf: "hms_wf s" and inv: "pool_inv (abs_pool s)" and h: "h < length (heap s)"
    and r: "0 < h_runners (heap s ! h)" and c: "h_sandbox (heap s ! h) \<noteq> None"
    and f: "RunFinish ops rf1 rf2 now h s = (Ret (), s')"
  shows "p_run (abs_pool s') = (p_run (abs_pool s))(h := p_run (abs_pool s) h - 1)"
  using RunFinish_sim(2) [OF assms] by (auto simp: p_release_def p_discard_def)

lemma ForwardToSandbox_Ret:
  assumes "ForwardToSandbox ops env h path s = (Ret res, s')"
  obtains (failed) e where "RunStart ops (we_run env) h s = (Ret (Inl e), s')" and "res = Inl e"
  | (forwarded) ch s1 where "RunStart ops (we_run env) h s = (Ret (Inr ch), s1)"
      and "RunFinish ops (we_rf1 env) (we_rf2 env) (we_now env) h s1 = (Ret (), s')"
  using assms by (auto simp: ForwardToSandbox_def Let_def split: prod.splits res.splits sum.splits)

text \<open>
  A forwarded request is a run of the handlers' steps, and it leaves the runners as it found them unless
  the start failed.
\<close>

lemma ForwardToSandbox_steps:
  assumes wf: "hms_wf s" and inv: "pool_inv (abs_pool s)" and h: "h < length (heap s)"
    and r: "0 < h_runners (heap s ! h)" and f: "ForwardToSandbox ops env h path s = (Ret res, s')"
  shows "(hstep ops)\<^sup>*\<^sup>* s s' \<and>
         (p_run (abs_pool s') = (p_run (abs_pool s))(h := p_run (abs_pool s) h - 1) \<or>
          (\<exists>e. res = Inl e \<and> RunStart ops (we_run env) h s = (Ret (Inl e), s') \<and> p_run (abs_pool s') = p_run (abs_pool s)))"
  using f
proof (cases rule: ForwardToSandbox_Ret)
  case (failed e)
  have "abs_pool s' = abs_pool s" by (rule keeps_abs [OF RunStart_keeps [OF failed(1)]])
  moreover have "(hstep ops)\<^sup>*\<^sup>* s s'" using failed(1) by (intro r_into_rtranclp hstep.h_start)
  ultimately show ?thesis using failed by auto
next
  case (forwarded ch s1)
  note k = RunStart_keeps [OF forwarded(1)]
  have abs: "abs_pool s1 = abs_pool s" by (rule keeps_abs [OF k])
  have h1: "h < length (heap s1)" "0 < h_runners (heap s1 ! h)" using k h r by (simp_all add: keeps_def)
  note c = RunStart_channel [OF forwarded(1)]
  have "p_run (abs_pool s') = (p_run (abs_pool s))(h := p_run (abs_pool s) h - 1)"
    using RunFinish_runner [OF keeps_wf [OF k wf] _ h1 c forwarded(2)] inv abs by simp
  moreover have "hstep ops s s1" using forwarded(1) by (rule hstep.h_start)
  moreover have "hstep ops s1 s'" using h1 c forwarded(2) by (rule hstep.h_finish)
  ultimately show ?thesis by auto
qed

lemma RunLambdaErr_Ret:
  assumes "RunLambdaErr ops env path w = (Ret (err, out), w')"
  shows "(w_set w' = w_set w \<and> out = []) \<or>
         (\<exists>img e. Get (we_pull env) img (w_set w) = (Ret (Inl e), w_set w') \<and> out = []) \<or>
         (\<exists>img h s1 res. Get (we_pull env) img (w_set w) = (Ret (Inr h), s1) \<and>
            ForwardToSandbox ops env h path s1 = (Ret res, w_set w') \<and> (\<forall>e. res = Inl e \<longrightarrow> out = []))"
  using assms
  by (auto simp: RunLambdaErr_def Let_def split: if_splits res.splits sum.splits prod.splits option.splits) blast+

lemma RunLambdaErr_steps:
  assumes wf: "hms_wf (w_set w)" and inv: "pool_inv (abs_pool (w_set w))"
    and f: "RunLambdaErr ops env path w = (Ret (err, out), w')"
  shows "(hstep ops)\<^sup>*\<^sup>* (w_set w) (w_set w') \<and>
         ((\<exists>c. WHeader c \<in> set out) \<longrightarrow> p_run (abs_pool (w_set w')) = p_run (abs_pool (w_set w)))"
  using RunLambdaErr_Ret [OF f]
proof (elim disjE exE conjE)
  fix img e
  assume "Get (we_pull env) img (w_set w) = (Ret (Inl e), w_set w')" and "out = []"
  then show ?thesis using hstep.h_get by fastforce
next
  fix img h s1 res
  assume g: "Get (we_pull env) img (w_set w) = (Ret (Inr h), s1)"
    and fw: "ForwardToSandbox ops env h path s1 = (Ret res, w_set w')" and none: "\<forall>e. res = Inl e \<longrightarrow> out = []"
  have st: "hstep ops (w_set w) s1" using g by (rule hstep.h_get)
  note R = Get_runner [OF wf inv g]
  have ok1: "hms_wf s1" "pool_inv (abs_pool s1)"
    using hs.run_invariant [OF r_into_rtranclp [of "hstep ops", OF st] wf inv] by auto
  note F = ForwardToSandbox_steps [OF ok1 R(1,2) fw]
  have "(hstep ops)\<^sup>*\<^sup>* (w_set w) (w_set w')"
    using st F by (blast intro: converse_rtranclp_into_rtranclp)
  moreover have "p_run (abs_pool (w_set w')) = p_run (abs_pool (w_set w))" if "\<forall>e. res \<noteq> Inl e"
    using F that R(3) by (auto simp del: abs_pool_simps)
  ultimately show ?thesis using none by fastforce
qed simp

lemma close_history_set: "close_history env path out w = (r, w', out') \<Longrightarrow> w_set w' = w_set w \<and> out' = out"
  by (auto simp: close_history_def split: res.splits prod.splits)

lemma RunLambda_Ret:
  assumes "RunLambda ops env http_method path w = (Ret (), w', out)"
  shows "(http_method = ''OPTIONS'' \<and> w_set w' = w_set w \<and> out = [WHeader StatusOK]) \<or>
         (\<exists>err out1 w1. RunLambdaErr ops env path w = (Ret (err, out1), w1) \<and> w_set w' = w_set w1 \<and>
            out = out1 @ (case err of None \<Rightarrow> [] | Some e \<Rightarrow> [WError (he_msg e) (he_code e)]))"
  using assms
  by (auto simp: RunLambda_def split: if_splits prod.splits res.splits option.splits dest!: close_history_set)

text \<open>
  C2.  A request that the worker answers without panicking is a run of the handlers' steps, so that all
  that holds of reachable states holds after any sequence of requests; and if the answer has a status
  line of a sandbox, or is that of an OPTIONS request, every handler has as many runners as before.
\<close>
theorem RunLambda_refines_handler_steps:
  assumes "reachable ops wd mr sz hl (w_set w)" and "0 \<le> mr"
    and "RunLambda ops env http_method path w = (Ret (), w', out)"
  shows "reachable ops wd mr sz hl (w_set w') \<and>
    ((\<exists>c. WHeader c \<in> set out) \<longrightarrow> p_run (abs_pool (w_set w')) = p_run (abs_pool (w_set w)))"
  using RunLambda_Ret [OF assms(3)]
proof (elim disjE exE conjE)
  fix err out1 w1
  assume f: "RunLambdaErr ops env path w = (Ret (err, out1), w1)" and w': "w_set w' = w_set w1"
    and out: "out = out1 @ (case err of None \<Rightarrow> [] | Some e \<Rightarrow> [WError (he_msg e) (he_code e)])"
  note R = RunLambdaErr_steps [OF reachable_ok(1,2) [OF assms(1,2)] f]
  have "(\<exists>c. WHeader c \<in> set out) \<longrightarrow> (\<exists>c. WHeader c \<in> set out1)" using out by (auto split: option.splits)
  then show ?thesis using R w' assms(1) by auto
qed (use assms(1) in simp)

subsection \<open>Witness\<close>

definition ex_worker :: "sockContainer worker" where
  "ex_worker = \<lparr>w_set = ex_new, w_hist = hist_Init 4\<rparr>"

definition ex_wenv :: "(nat \<Rightarrow> string + http_response) \<Rightarrow> sockContainer worker_env" where
  "ex_wenv answer =
     \<lparr>we_pull = ex_pull, we_run = ex_env, we_rf1 = (\<lambda>_. Some ''800''), we_rf2 = (\<lambda>_. Some ''800''), we_now = 7,
      we_rnd = 0, we_rnd' = 0, we_body = Inr [], we_newRequest = (\<lambda>_. None), we_do = (\<lambda>_. answer),
      we_mem = (4, 1), we_cpu = Fin 0, we_write = None\<rparr>"

definition ex_ok_answer :: "nat \<Rightarrow> string + http_response" where
  "ex_ok_answer n = Inr \<lparr>hr_StatusCode = 200, hr_Header = [], hr_Body = ''hi''\<rparr>"

lemma ex_request_returns:
  "case RunLambda ex_ops (ex_wenv ex_ok_answer) ''POST'' ''/runLambda/f'' ex_worker of
     (r, w', out) \<Rightarrow> r = Ret () \<and> WHeader 200 \<in> set out"
  by code_simp

theorem RunLambda_refines_handler_steps_witness:
  "\<exists>w' out. RunLambda ex_ops (ex_wenv ex_ok_answer) ''POST'' ''/runLambda/f'' ex_worker = (Ret (), w', out) \<and>
     reachable ex_ops ''/w'' 0 1 0 (w_set w') \<and> p_run (abs_pool (w_set w')) = p_run (abs_pool ex_new)"
proof -
  obtain w' out where r: "RunLambda ex_ops (ex_wenv ex_ok_answer) ''POST'' ''/runLambda/f'' ex_worker = (Ret (), w', out)"
    and h: "WHeader 200 \<in> set out"
    using ex_request_returns by (auto split: prod.splits)
  have "reachable ex_ops ''/w'' 0 1 0 (w_set ex_worker)" using ex_new_reachable by (simp add: ex_worker_def)
  from RunLambda_refines_handler_steps [OF this order_refl r] h r show ?thesis by (auto simp: ex_worker_def)
qed

subsection \<open>URLs\<close>

lemma HasPrefix_slash: "strings_HasPrefix s ''/'' \<longleftrightarrow> (\<exists>t. s = CHR ''/'' # t)"
  by (cases s) (auto simp: strings_HasPrefix_def)

lemma HasSuffix_slash: "strings_HasSuffix s ''/'' \<longleftrightarrow> s \<noteq> [] \<and> last s = CHR ''/''"
proof (cases s rule: rev_cases)
  case (snoc t c)
  then show ?thesis by (auto simp: strings_HasSuffix_def)
qed (simp add: strings_HasSuffix_def)

lemma getUrlComponents_run:
  assumes "name \<noteq> []" and "CHR ''/'' \<notin> set name"
  shows "getUrlComponents (''/runLambda/'' @ name) = [''runLambda'', name]"
    and "getUrlComponents (''/runLambda/'' @ name @ ''/'') = [''runLambda'', name]"
proof -
  have last: "last name \<noteq> CHR ''/''" using assms last_in_set by metis
  have split: "strings_Split (CHR ''/'') (''runLambda/'' @ name) = [''runLambda'', name]"
    using assms(2) by (simp add: strings_Split_word)
  have "\<not> strings_HasSuffix (''runLambda/'' @ name) ''/''"
    using last assms(1) by (simp add: HasSuffix_slash)
  then show "getUrlComponents (''/runLambda/'' @ name) = [''runLambda'', name]"
    using split by (simp add: getUrlComponents_def HasPrefix_slash Let_def)
  have "strings_HasSuffix (''runLambda/'' @ name @ ''/'') ''/''"
    by (simp add: HasSuffix_slash)
  moreover have "butlast (''runLambda/'' @ name @ ''/'') = ''runLambda/'' @ name"
    by (simp add: butlast_append)
  ultimately show "getUrlComponents (''/runLambda/'' @ name @ ''/'') = [''runLambda'', name]"
    using split by (simp add: getUrlComponents_def HasPrefix_slash Let_def)
qed

lemma Index_absent: "c \<notin> set s \<Longrightarrow> strings_Index s [c] = - 1"
  by (induction s) (auto simp: strings_HasPrefix_def Let_def)

lemma Index_append: "c \<notin> set s \<Longrightarrow> strings_Index (s @ c # t) [c] = int (length s)"
  by (induction s) (auto simp: strings_HasPrefix_def Let_def)

lemma lambda_name_plain: "CHR ''?'' \<notin> set name \<Longrightarrow> lambda_name name = Ret name"
  by (simp add: lambda_name_def Let_def Index_absent)

text \<open>
  The lambda a URL names: with or without a trailing slash, \<open>/runLambda/name\<close> has the components
  \<open>runLambda\<close> and \<open>name\<close> and asks for \<open>name\<close>.  A question mark in the path is meant to end the name,
  but the last character in front of it is cut off too, and a name that starts with one panics.
\<close>
theorem lambda_of_url:
  assumes "name \<noteq> []" and "CHR ''/'' \<notin> set name" and "CHR ''?'' \<notin> set name" and "CHR ''/'' \<notin> set q"
  shows "getUrlComponents (''/runLambda/'' @ name) = [''runLambda'', name] \<and>
    getUrlComponents (''/runLambda/'' @ name @ ''/'') = [''runLambda'', name] \<and>
    lambda_name name = Ret name \<and>
    getUrlComponents (''/runLambda/'' @ name @ ''?'' @ q) = [''runLambda'', name @ ''?'' @ q] \<and>
    lambda_name (name @ ''?'' @ q) = Ret (butlast name) \<and>
    lambda_name (''?'' @ q) = Panic ''slice bounds out of range''"
proof -
  have "nat (int (length name) - 1) = length name - 1" by linarith
  then have "lambda_name (name @ ''?'' @ q) = Ret (butlast name)"
    using assms(1,3) by (simp add: lambda_name_def Let_def Index_append butlast_conv_take)
  moreover have "lambda_name (''?'' @ q) = Panic ''slice bounds out of range''"
    by (simp add: lambda_name_def Let_def strings_HasPrefix_def)
  ultimately show ?thesis
    using getUrlComponents_run [OF assms(1,2)] getUrlComponents_run(1) [of "name @ ''?'' @ q"] assms
    by (simp add: lambda_name_plain)
qed

theorem lambda_of_url_witness:
  "getUrlComponents ''/runLambda/hello'' = [''runLambda'', ''hello''] \<and> lambda_name ''hello?x'' = Ret ''hell''"
  using lambda_of_url [of "''hello''" "''x''"] by simp

text \<open>
  A URL with fewer than two components, such as \<open>/runLambda/\<close>, is answered with the status 400
  (200 for OPTIONS), and then the handler of the request panics on the missing component.
\<close>
theorem short_url_panics:
  assumes "length (getUrlComponents path) < 2"
  shows "RunLambda ops env http_method path w =
     (Panic ''index out of range'', w,
      [if http_method = ''OPTIONS'' then WHeader 200 else WError ''Name of image to run required'' 400])"
  using assms
  by (simp add: RunLambda_def RunLambdaErr_def close_history_def go_index_def Let_def newHttpErr_def
      StatusOK_def StatusBadRequest_def)

theorem short_url_panics_witness:
  "fst (RunLambda ex_ops (ex_wenv ex_ok_answer) ''POST'' ''/runLambda/'' ex_worker) = Panic ''index out of range''"
proof -
  have "length (getUrlComponents ''/runLambda/'') < 2" by code_simp
  then show ?thesis by (simp add: short_url_panics)
qed

subsection \<open>Answers\<close>

lemma forward_tries_success:
  assumes "\<forall>j. tries \<le> j \<and> j < k \<longrightarrow> (\<exists>e. answer j = Inl e)" and "answer k = Inr w2"
    and "tries \<le> k" and "k \<le> tries + left"
  shows "forward_tries None answer tries left = Inr w2"
  using assms
proof (induction left arbitrary: tries)
  case 0
  then show ?case by (simp add: forward_tries.simps)
next
  case (Suc left)
  show ?case
  proof (cases "tries = k")
    case True
    then show ?thesis using Suc.prems(2) by (simp add: forward_tries.simps)
  next
    case False
    then obtain e where "answer tries = Inl e" using Suc.prems(1,3) by force
    moreover have "forward_tries None answer (Suc tries) left = Inr w2"
      by (rule Suc.IH) (use Suc.prems False in auto)
    ultimately show ?thesis by (subst forward_tries.simps) simp
  qed
qed

lemma RunLambda_answered:
  assumes "name \<noteq> []" and "CHR ''/'' \<notin> set name" and "CHR ''?'' \<notin> set name" and "http_method \<noteq> ''OPTIONS''"
    and "hist_ok (w_hist w)" and "logSize (w_hist w) \<noteq> 0" and "we_body env = Inr rbody"
    and "Get (we_pull env) name (w_set w) = (Ret (Inr h), s1)"
    and "RunStart ops (we_run env) h s1 = (Ret (Inr channel), s2)"
    and "RunFinish ops (we_rf1 env) (we_rf2 env) (we_now env) h s2 = (Ret (), s3)"
    and "we_newRequest env (channel @ ''/runLambda/'' @ name) = None" and "1 \<le> k" and "k \<le> 10"
    and "\<forall>j. 1 \<le> j \<and> j < k \<longrightarrow> (\<exists>e. we_do env (channel @ ''/runLambda/'' @ name) j = Inl e)"
    and "we_do env (channel @ ''/runLambda/'' @ name) k = Inr w2" and "we_write env = None"
  shows "\<exists>w' body. RunLambda ops env http_method (''/runLambda/'' @ name) w =
           (Ret (), w', [WHeader (hr_StatusCode w2), WBody body]) \<and> w_set w' = s3 \<and>
         ResponseCode body = hr_StatusCode w2 \<and> ResponseBody body = hr_Body w2 \<and>
         (TotalMem body, FreeMem body) = we_mem env \<and> CPUUsage body = we_cpu env"
proof -
  let ?path = "''/runLambda/'' @ name"
  define w3 where "w3 = w2\<lparr>hr_Header := cors_headers (hr_Header w2)\<rparr>"
  define body where "body = JoinServerPerfData (we_mem env) (we_cpu env) w3"
  have "forward_tries None (we_do env (channel @ ?path)) 1 (max_tries - 1) = Inr w2"
    by (rule forward_tries_success [OF assms(14,15)]) (use assms(12,13) in \<open>simp_all add: max_tries_def\<close>)
  then have fw: "ForwardToSandbox ops env h ?path s1 = (Ret (Inr (body, hr_StatusCode w2)), s3)"
    using assms(9-11) by (simp add: ForwardToSandbox_def Let_def body_def w3_def)
  note url = getUrlComponents_run(1) [OF assms(1,2)]
  obtain p hist where open_: "HandlerAccess name code_OPEN (we_rnd env) (w_hist w) = (Ret p, hist)"
    and hist: "hist_ok hist" "logSize hist \<noteq> 0"
    using HandlerAccess_table [OF assms(5,6,1), of code_OPEN "we_rnd env"] assms(6) by auto
  obtain p' hist' where close_: "HandlerAccess name code_CLOSE (we_rnd' env) hist = (Ret p', hist')"
    using HandlerAccess_table [OF hist assms(1), of code_CLOSE "we_rnd' env"] by auto
  have "RunLambdaErr ops env ?path w = (Ret (None, [WHeader (hr_StatusCode w2), WBody body]), \<lparr>w_set = s3, w_hist = hist\<rparr>)"
    using url open_ fw assms(3,7,8,16) by (simp add: RunLambdaErr_def lambda_name_plain Let_def)
  then have "RunLambda ops env http_method ?path w =
      (Ret (), \<lparr>w_set = s3, w_hist = hist'\<rparr>, [WHeader (hr_StatusCode w2), WBody body])"
    using url close_ assms(4) by (simp add: RunLambda_def close_history_def go_index_def)
  then show ?thesis by (simp add: body_def w3_def JoinServerPerfData_def)
qed

text \<open>
  C12.  A sandbox that answers one of the first ten tries is heard: the client gets its status code, and
  in the body its code and body together with the memory and the processor load of the worker.
\<close>
theorem RunLambda_answers:
  assumes "name \<noteq> []" and "CHR ''/'' \<notin> set name" and "CHR ''?'' \<notin> set name" and "http_method \<noteq> ''OPTIONS''"
    and "hist_ok (w_hist w)" and "logSize (w_hist w) \<noteq> 0" and "we_body env = Inr rbody"
    and "Get (we_pull env) name (w_set w) = (Ret (Inr h), s1)"
    and "RunStart ops (we_run env) h s1 = (Ret (Inr channel), s2)"
    and "RunFinish ops (we_rf1 env) (we_rf2 env) (we_now env) h s2 = (Ret (), s3)"
    and "we_newRequest env (channel @ ''/runLambda/'' @ name) = None" and "1 \<le> k" and "k \<le> 10"
    and "\<forall>j. 1 \<le> j \<and> j < k \<longrightarrow> (\<exists>e. we_do env (channel @ ''/runLambda/'' @ name) j = Inl e)"
    and "we_do env (channel @ ''/runLambda/'' @ name) k = Inr w2" and "we_write env = None"
  shows "\<exists>w' body. RunLambda ops env http_method (''/runLambda/'' @ name) w =
           (Ret (), w', [WHeader (hr_StatusCode w2), WBody body]) \<and> w_set w' = s3 \<and>
         ResponseCode body = hr_StatusCode w2 \<and> ResponseBody body = hr_Body w2 \<and>
         (TotalMem body, FreeMem body) = we_mem env \<and> CPUUsage body = we_cpu env"
  using assms by (rule RunLambda_answered)

lemma outcome_pairI: "fst x = r \<Longrightarrow> x = (r, snd x)"
  by (cases x) simp

definition ex_late_answer :: "nat \<Rightarrow> string + http_response" where
  "ex_late_answer n =
     (if n < 3 then Inl ''connection refused'' else Inr \<lparr>hr_StatusCode = 200, hr_Header = [], hr_Body = ''hi''\<rparr>)"

lemma ex_get: "Get ex_pull ''f'' ex_new = (Ret (Inr 0), ex_got)"
proof -
  have "fst (Get ex_pull ''f'' ex_new) = Ret (Inr 0)" by code_simp
  then show ?thesis unfolding ex_got_def by (rule outcome_pairI)
qed

lemma ex_start: "RunStart ex_ops ex_env 0 ex_got = (Ret (Inr ''http://container/''), ex_started)"
proof -
  have "fst (RunStart ex_ops ex_env 0 ex_got) = Ret (Inr ''http://container/'')" by code_simp
  then show ?thesis unfolding ex_started_def by (rule outcome_pairI)
qed

lemma ex_finish: "RunFinish ex_ops (\<lambda>_. Some ''800'') (\<lambda>_. Some ''800'') 7 0 ex_started = (Ret (), ex_idle)"
proof -
  have "fst (RunFinish ex_ops (\<lambda>_. Some ''800'') (\<lambda>_. Some ''800'') 7 0 ex_started) = Ret ()" by code_simp
  then show ?thesis unfolding ex_idle_def by (rule outcome_pairI)
qed

theorem RunLambda_answers_witness:
  "\<exists>w' body. RunLambda ex_ops (ex_wenv ex_late_answer) ''POST'' ''/runLambda/f'' ex_worker =
     (Ret (), w', [WHeader 200, WBody body]) \<and> ResponseBody body = ''hi'' \<and> FreeMem body = 1"
  using RunLambda_answers [where name = "''f''" and http_method = "''POST''" and w = ex_worker and env = "ex_wenv ex_late_answer"
      and k = 3 and ops = ex_ops and h = 0 and rbody = "[]" and channel = "''http://container/''" and ?w2.0 = "\<lparr>hr_StatusCode = 200, hr_Header = [], hr_Body = ''hi''\<rparr>"
      and ?s1.0 = ex_got and ?s2.0 = ex_started and ?s3.0 = ex_idle]
  using ex_get ex_start ex_finish hist_ok_Init [of 4]
  by (auto simp: ex_wenv_def ex_worker_def ex_late_answer_def hist_Init_def)

text \<open>
  A request whose sandbox cannot be started is answered with the status 500, and the handler keeps
  the runner that \<open>Get\<close> counted for it: nothing finishes the run, so a handler that once failed to
  start is never idle again and never evicted.
\<close>
theorem failed_start_leaks_runner:
  assumes "reachable ops wd mr sz hl (w_set w)" and "0 \<le> mr"
    and "name \<noteq> []" and "CHR ''/'' \<notin> set name" and "CHR ''?'' \<notin> set name" and "http_method \<noteq> ''OPTIONS''"
    and "hist_ok (w_hist w)" and "logSize (w_hist w) \<noteq> 0" and "we_body env = Inr rbody"
    and "Get (we_pull env) name (w_set w) = (Ret (Inr h), s1)"
    and "RunStart ops (we_run env) h s1 = (Ret (Inl e), s2)"
  shows "\<exists>w'. RunLambda ops env http_method (''/runLambda/'' @ name) w = (Ret (), w', [WError e 500]) \<and>
     p_run (abs_pool (w_set w')) = (p_run (abs_pool (w_set w)))(h := p_run (abs_pool (w_set w)) h + 1)"
proof -
  let ?path = "''/runLambda/'' @ name"
  have fw: "ForwardToSandbox ops env h ?path s1 = (Ret (Inl e), s2)"
    using assms(11) by (simp add: ForwardToSandbox_def)
  note url = getUrlComponents_run(1) [OF assms(3,4)]
  obtain p hist where open_: "HandlerAccess name code_OPEN (we_rnd env) (w_hist w) = (Ret p, hist)"
    and hist: "hist_ok hist" "logSize hist \<noteq> 0"
    using HandlerAccess_table [OF assms(7,8,3), of code_OPEN "we_rnd env"] assms(8) by auto
  obtain p' hist' where close_: "HandlerAccess name code_CLOSE (we_rnd' env) hist = (Ret p', hist')"
    using HandlerAccess_table [OF hist assms(3), of code_CLOSE "we_rnd' env"] by auto
  have "RunLambdaErr ops env ?path w = (Ret (Some (newHttpErr e 500), []), \<lparr>w_set = s2, w_hist = hist\<rparr>)"
    using url open_ fw assms(5,9,10) by (simp add: RunLambdaErr_def lambda_name_plain Let_def StatusInternalServerError_def)
  then have ret: "RunLambda ops env http_method ?path w = (Ret (), \<lparr>w_set = s2, w_hist = hist'\<rparr>, [WError e 500])"
    using url close_ assms(6) by (simp add: RunLambda_def close_history_def go_index_def newHttpErr_def)
  have "abs_pool s2 = abs_pool s1" by (rule keeps_abs [OF RunStart_keeps [OF assms(11)]])
  then have "p_run (abs_pool s2) = (p_run (abs_pool (w_set w)))(h := p_run (abs_pool (w_set w)) h + 1)"
    using Get_runner(3) [OF reachable_ok(1,2) [OF assms(1,2)] assms(10)] by simp
  with ret show ?thesis by (intro exI [of _ "\<lparr>w_set = s2, w_hist = hist'\<rparr>"]) simp
qed

definition ex_bad_env :: "sockContainer worker_env" where
  "ex_bad_env = (ex_wenv ex_ok_answer)\<lparr>we_run := ex_env\<lparr>e_create := (\<lambda>_ _. Inl ''no space'')\<rparr>\<rparr>"

theorem failed_start_leaks_runner_witness:
  "\<exists>w'. RunLambda ex_ops ex_bad_env ''POST'' ''/runLambda/f'' ex_worker = (Ret (), w', [WError ''no space'' 500]) \<and>
     p_run (abs_pool (w_set w')) 0 = 1"
proof -
  have "fst (RunStart ex_ops (we_run ex_bad_env) 0 ex_got) = Ret (Inl ''no space'')" by code_simp
  note st = outcome_pairI [OF this]
  have pull: "we_pull ex_bad_env = ex_pull" "we_body ex_bad_env = Inr []" "w_set ex_worker = ex_new"
    by (simp_all add: ex_bad_env_def ex_wenv_def ex_worker_def)
  have h: "hist_ok (w_hist ex_worker)" "logSize (w_hist ex_worker) \<noteq> 0"
    using hist_ok_Init [of 4] by (simp_all add: ex_worker_def hist_Init_def)
  have "p_run (abs_pool ex_new) 0 = 0" by (simp add: ex_new_def NewHandlerManagerSet_def)
  then show ?thesis
    using failed_start_leaks_runner [where name = "''f''" and http_method = "''POST''" and w = ex_worker and env = ex_bad_env
        and rbody = "[]" and ops = ex_ops and h = 0, OF _ _ _ _ _ _ h pull(2)] ex_get st ex_new_reachable
    by (fastforce simp: pull simp del: abs_pool_simps)
qed

subsection \<open>Requests that \<open>Get\<close> refuses\<close>

lemma RunLambda_get_failed:
  assumes "name \<noteq> []" and "CHR ''/'' \<notin> set name" and "CHR ''?'' \<notin> set name" and "http_method \<noteq> ''OPTIONS''"
    and "hist_ok (w_hist w)" and "logSize (w_hist w) \<noteq> 0" and "we_body env = Inr rbody"
    and "Get (we_pull env) name (w_set w) = (Ret (Inl e), s1)"
  shows "\<exists>hist. RunLambda ops env http_method (''/runLambda/'' @ name) w =
           (Ret (), \<lparr>w_set = s1, w_hist = hist\<rparr>, [WError e 500]) \<and> hist_ok hist \<and> logSize hist \<noteq> 0"
proof -
  let ?path = "''/runLambda/'' @ name"
  note url = getUrlComponents_run(1) [OF assms(1,2)]
  obtain p hist where open_: "HandlerAccess name code_OPEN (we_rnd env) (w_hist w) = (Ret p, hist)"
    and hist: "hist_ok hist" "logSize hist \<noteq> 0"
    using HandlerAccess_table [OF assms(5,6,1), of code_OPEN "we_rnd env"] assms(6) by auto
  obtain p' hist' where close_: "HandlerAccess name code_CLOSE (we_rnd' env) hist = (Ret p', hist')"
    and hist': "hist_ok hist'" "logSize hist' \<noteq> 0"
    using HandlerAccess_table [OF hist assms(1), of code_CLOSE "we_rnd' env"] hist(2) by auto
  have "RunLambdaErr ops env ?path w = (Ret (Some (newHttpErr e 500), []), \<lparr>w_set = s1, w_hist = hist\<rparr>)"
    using url open_ assms(3,7,8) by (simp add: RunLambdaErr_def lambda_name_plain Let_def StatusInternalServerError_def)
  then have "RunLambda ops env http_method ?path w = (Ret (), \<lparr>w_set = s1, w_hist = hist'\<rparr>, [WError e 500])"
    using url close_ assms(4) by (simp add: RunLambda_def close_history_def go_index_def newHttpErr_def)
  with hist' show ?thesis by blast
qed

lemma RunLambda_get_blocks:
  assumes "name \<noteq> []" and "CHR ''/'' \<notin> set name" and "CHR ''?'' \<notin> set name" and "http_method \<noteq> ''OPTIONS''"
    and "hist_ok (w_hist w)" and "logSize (w_hist w) \<noteq> 0" and "we_body env = Inr rbody"
    and "Get (we_pull env) name (w_set w) = (Block, s1)"
  shows "\<exists>hist. RunLambda ops env http_method (''/runLambda/'' @ name) w = (Block, \<lparr>w_set = s1, w_hist = hist\<rparr>, []) \<and>
           hist_ok hist \<and> logSize hist \<noteq> 0"
proof -
  note url = getUrlComponents_run(1) [OF assms(1,2)]
  obtain p hist where open_: "HandlerAccess name code_OPEN (we_rnd env) (w_hist w) = (Ret p, hist)"
    and hist: "hist_ok hist" "logSize hist \<noteq> 0"
    using HandlerAccess_table [OF assms(5,6,1), of code_OPEN "we_rnd env"] assms(6) by auto
  then show ?thesis
    using url assms(3,4,7,8) by (simp add: RunLambda_def RunLambdaErr_def lambda_name_plain Let_def)
qed

end
