(* ===== verification/Gateway.thy ===== *)
theory Gateway
  imports LoadBalancerClaims WorkerProps
begin

text \<open>
  The load balancer in front of a worker: what the worker writes is an HTTP body, which the load
  balancer decodes as JSON.  The JSON encoder and decoder are arguments.
\<close>

text \<open>The body of a response; \<open>http.Error\<close> writes the message as plain text with a newline.\<close>

definition http_body :: "(httpResp \<Rightarrow> string) \<Rightarrow> w_reply list \<Rightarrow> string" where
  "http_body marshal out =
     concat (map (\<lambda>r. case r of WHeader c \<Rightarrow> [] | WBody b \<Rightarrow> marshal b | WError m c \<Rightarrow> m @ [CHR 0x0A]) out)"

text \<open>
  What \<open>ReverseProxy\<close> makes of a body: if it cannot be decoded, the error is logged and the zero value
  of the structure is used.
\<close>

definition lb_decode :: "(string \<Rightarrow> httpResp option) \<Rightarrow> string \<Rightarrow> lb_response" where
  "lb_decode unmarshal body =
     (case unmarshal body of
        None \<Rightarrow> \<lparr>l_readErr = None, l_code = 0, l_CPUUsage = Fin 0, l_FreeMem = 0, l_TotalMem = 0, l_header = [], l_body = []\<rparr>
      | Some b \<Rightarrow> \<lparr>l_readErr = None, l_code = ResponseCode b, l_CPUUsage = CPUUsage b,
                   l_FreeMem = FreeMem b, l_TotalMem = TotalMem b, l_header = ResponseHeader b, l_body = ResponseBody b\<rparr>)"

lemma lb_decode_readErr [simp]: "l_readErr (lb_decode unmarshal body) = None"
  by (simp add: lb_decode_def split: option.splits)

text \<open>A worker that answers, behind a round-robin load balancer: one attempt, and its code is passed on.\<close>

lemma roundRobin_answered:
  assumes "lb_ok p" and "p_Policy p = ''RoundRobin''" and "distinct (map s_Name (p_Servers p))" and "p_Servers p \<noteq> []"
    and "\<forall>url. le_parse env url = None" and "\<forall>url. le_do env url = Inr resp" and "l_readErr resp = None"
  shows "\<exists>a pr'. attemptServers env [] (p, r) = (Ret ([a], write_reply resp), pr')"
proof -
  have ok: "rr_ok p" using assms(1,2) by (simp add: rr_ok_def)
  obtain i p1 where rr: "roundRobinChooseServer [] p = (Ret (Some i), p1)"
    using roundRobin_total [OF ok assms(3), of "[]"] assms(4) by auto
  then have pick: "choose_by_policy [] (r_Path r) p = (Ret (Some i), p1)"
    using assms(2) by (simp add: choose_by_policy_def)
  have "p_Policy p1 \<noteq> ''LARD''" using roundrobin.pick_some [OF ok pick] by (simp add: rr_ok_def)
  then obtain r2 where rp: "ReverseProxy env i (p1, r) = (Ret ((l_code resp, None), write_reply resp), (p1, r2))"
    using assms(5-7) by (simp add: ReverseProxy_def piggyback_def Let_def)
  have "length [] < min 3 (length (p_Servers p))" using assms(4) by simp
  from attempt_answered [where pick = choose_by_policy, OF this pick rp] show ?thesis
    by (simp add: attemptServers_def refused_def)
qed

text \<open>
  What the client of a \<open>ResponseWriter\<close> receives: the first \<open>WriteHeader\<close>, or the first \<open>Write\<close>
  with the code 200, sends the headers set so far; a header set later is not sent.
\<close>

record client_view =
  cv_code :: int
  cv_header :: "(string \<times> string) list"
  cv_body :: string

fun client_sees :: "(string \<times> string) list \<Rightarrow> client_view option \<Rightarrow> lb_reply list \<Rightarrow> client_view option" where
  "client_sees hs v [] = v"
| "client_sees hs v (WriteCode c # ws) =
     client_sees hs (case v of None \<Rightarrow> Some \<lparr>cv_code = c, cv_header = hs, cv_body = []\<rparr> | Some x \<Rightarrow> Some x) ws"
| "client_sees hs v (SetHeader k x # ws) = client_sees (AList.update k x hs) v ws"
| "client_sees hs v (WriteBody b # ws) =
     client_sees hs (case v of None \<Rightarrow> Some \<lparr>cv_code = 200, cv_header = hs, cv_body = b\<rparr>
                     | Some x \<Rightarrow> Some (x\<lparr>cv_body := cv_body x @ b\<rparr>)) ws"
| "client_sees hs v (NotFound # ws) =
     client_sees hs (case v of None \<Rightarrow> Some \<lparr>cv_code = 404, cv_header = hs, cv_body = ''404 page not found'' @ [CHR 0x0A]\<rparr>
                     | Some x \<Rightarrow> Some (x\<lparr>cv_body := cv_body x @ ''404 page not found'' @ [CHR 0x0A]\<rparr>)) ws"

lemma client_sees_headers:
  "client_sees hs (Some v) (map (\<lambda>(k, x). SetHeader k (f x)) kvs @ ws) = client_sees (fold (\<lambda>(k, x). AList.update k (f x)) kvs hs) (Some v) ws"
  by (induction kvs arbitrary: hs) auto

lemma client_sees_reply:
  "client_sees [] None (write_reply resp) = Some \<lparr>cv_code = l_code resp, cv_header = [], cv_body = l_body resp\<rparr>"
  by (simp add: write_reply_def client_sees_headers)

text \<open>The status line of a worker is that of the structure in its body.\<close>

lemma RunLambdaErr_code:
  "RunLambdaErr ops env path w = (Ret (None, [WHeader c, WBody b]), w') \<Longrightarrow> ResponseCode b = c"
  by (auto simp: RunLambdaErr_def ForwardToSandbox_def JoinServerPerfData_def Let_def
      split: if_splits res.splits sum.splits prod.splits option.splits)

lemma RunLambda_code:
  assumes "RunLambda ops env http_method path w = (Ret (), w', [WHeader c, WBody b])"
  shows "ResponseCode b = c"
  using RunLambda_Ret [OF assms]
proof (elim disjE exE conjE)
  fix err out1 w1
  assume e: "RunLambdaErr ops env path w = (Ret (err, out1), w1)"
    and out: "[WHeader c, WBody b] = out1 @ (case err of None \<Rightarrow> [] | Some e \<Rightarrow> [WError (he_msg e) (he_code e)])"
  then have "err = None" "out1 = [WHeader c, WBody b]"
    by (auto split: option.splits simp: Cons_eq_append_conv append_eq_Cons_conv)
  then show ?thesis using e RunLambdaErr_code by blast
qed simp

end
