(* ===== verification/WorkerConfig.thy ===== *)
theory WorkerConfig
  imports OLPrelude GoStrings
begin

text \<open>
  The configuration of a worker (\<open>worker/config/config.go\<close>): \<open>Defaults\<close> fills in what is missing,
  makes the directories absolute and rejects what it cannot complete; \<open>ParseConfig\<close> reads, decodes and
  completes a file.  \<open>Sandbox_config\<close> is the entries of a JSON object with
  their values as JSON text, \<open>None\<close> for anything else; the global copy of
  \<open>Timing\<close>, which only switches logging, is left out.  The working directory and the JSON decoder are
  arguments.
\<close>

record config =
  cfg_path :: string
  Registry :: string
  Sandbox :: string
  Registry_dir :: string
  Registry_server :: string
  Registry_access_key :: string
  Registry_secret_key :: string
  Cluster_name :: string
  Pip_index :: string
  Pkgs_dir :: string
  Max_runners :: int
  Handler_cache_size :: int
  Import_cache_size :: int
  Sandbox_create_hard_limit :: int
  Sandbox_create_queue_size :: int
  Handler_usage_update_interval :: int
  Worker_dir :: string
  SOCK_base_path :: string
  Worker_port :: string
  Cg_pool_size :: int
  Skip_pull_existing :: bool
  Sandbox_config :: "(string \<times> string) list option"
  Benchmark_file :: string
  Timing :: bool
  Startup_pkgs :: "string list"
  Docker_runtime :: string

definition zero_config :: config where
  "zero_config = \<lparr>cfg_path = [], Registry = [], Sandbox = [], Registry_dir = [], Registry_server = [],
     Registry_access_key = [], Registry_secret_key = [], Cluster_name = [], Pip_index = [], Pkgs_dir = [],
     Max_runners = 0, Handler_cache_size = 0, Import_cache_size = 0, Sandbox_create_hard_limit = 0,
     Sandbox_create_queue_size = 0, Handler_usage_update_interval = 0, Worker_dir = [], SOCK_base_path = [],
     Worker_port = [], Cg_pool_size = 0, Skip_pull_existing = False, Sandbox_config = None,
     Benchmark_file = [], Timing = False, Startup_pkgs = [], Docker_runtime = []\<rparr>"

text \<open>
  The common treatment of a directory: an absolute one stays, a relative one is taken from the
  directory of the configuration file.
\<close>

definition resolve_dir :: "string + string \<Rightarrow> string \<Rightarrow> string \<Rightarrow> string \<Rightarrow> string + string" where
  "resolve_dir getwd conf_path relative_error dir =
     (if path_IsAbs dir then Inr dir
      else if conf_path = [] then Inl relative_error
      else filepath_Abs getwd (path_Join [path_Dir conf_path, dir]))"

text \<open>
  \<open>Defaults\<close> on a pointer: the fields set before an error stay set.
\<close>

definition default_names :: "config \<Rightarrow> config" where
  "default_names c =
     c\<lparr>Cluster_name := (if Cluster_name c = [] then ''default'' else Cluster_name c),
       Worker_port := (if Worker_port c = [] then ''8080'' else Worker_port c)\<rparr>"

definition default_numbers :: "config \<Rightarrow> config" where
  "default_numbers c =
     c\<lparr>Sandbox_create_queue_size := (if Sandbox_create_queue_size c = 0 then 100 else Sandbox_create_queue_size c),
       Handler_usage_update_interval :=
         (if Handler_usage_update_interval c = 0 then 10 else Handler_usage_update_interval c)\<rparr>"

definition default_sandbox :: "string + string \<Rightarrow> config \<Rightarrow> goerror \<times> config" where
  "default_sandbox getwd c =
     (if Sandbox c = ''sock''
      then if SOCK_base_path c = [] then (Some ''must specify sock_base_path'', c)
           else
             (case resolve_dir getwd (cfg_path c)
                     ''sock_base_path cannot be relative unless config is loaded from file'' (SOCK_base_path c) of
                Inl e \<Rightarrow> (Some e, c)
              | Inr d \<Rightarrow> (None, c\<lparr>SOCK_base_path := d, Pkgs_dir := path_Join [d, ''packages'']\<rparr>))
      else if Pkgs_dir c = [] then (Some ''must specify packages directory'', c)
      else
        (case resolve_dir getwd (cfg_path c)
                ''Pkgs_dir cannot be relative, unless config is loaded from file'' (Pkgs_dir c) of
           Inl e \<Rightarrow> (Some e, c)
         | Inr d \<Rightarrow> (None, c\<lparr>Pkgs_dir := d\<rparr>)))"

definition Defaults :: "string + string \<Rightarrow> config \<Rightarrow> goerror \<times> config" where
  "Defaults getwd c0 =
     (let c1 = default_names c0 in
      if Registry_dir c1 = [] then (Some ''must specify local registry directory'', c1)
      else
        let c2 = default_numbers c1 in
        (case resolve_dir getwd (cfg_path c2)
                ''Registry_dir cannot be relative, unless config is loaded from file'' (Registry_dir c2) of
           Inl e \<Rightarrow> (Some e, c2)
         | Inr rd \<Rightarrow>
             let c3 = c2\<lparr>Registry_dir := rd\<rparr> in
             if Worker_dir c3 = [] then (Some ''must specify local worker directory'', c3)
             else
               (case resolve_dir getwd (cfg_path c3)
                       ''Worker_dir cannot be relative, unless config is loaded from file'' (Worker_dir c3) of
                  Inl e \<Rightarrow> (Some e, c3)
                | Inr wd \<Rightarrow> default_sandbox getwd (c3\<lparr>Worker_dir := wd\<rparr>))))"

definition ParseConfig ::
  "(string \<Rightarrow> string + 'f) \<Rightarrow> ('f \<Rightarrow> string + config) \<Rightarrow> string + string \<Rightarrow> string \<Rightarrow> string + config" where
  "ParseConfig read decode getwd path =
     (case read path of
        Inl e \<Rightarrow> Inl (''could not open config ('' @ path @ ''): '' @ e @ [CHR 0x0A])
      | Inr raw \<Rightarrow>
          (case decode raw of
             Inl e \<Rightarrow> Inl (''could not parse config ('' @ path @ ''): '' @ e @ [CHR 0x0A])
           | Inr c \<Rightarrow>
               (case Defaults getwd (c\<lparr>cfg_path := path\<rparr>) of
                  (Some e, c') \<Rightarrow> Inl e
                | (None, c') \<Rightarrow> Inr c')))"

subsection \<open>What a completed configuration satisfies\<close>

text \<open>Every directory a worker uses is absolute.\<close>

definition config_complete :: "config \<Rightarrow> bool" where
  "config_complete c \<longleftrightarrow>
     path_IsAbs (Registry_dir c) \<and> path_IsAbs (Worker_dir c) \<and> path_IsAbs (Pkgs_dir c) \<and>
     (Sandbox c = ''sock'' \<longrightarrow> path_IsAbs (SOCK_base_path c) \<and> Pkgs_dir c = path_Join [SOCK_base_path c, ''packages'']) \<and>
     Cluster_name c \<noteq> [] \<and> Worker_port c \<noteq> [] \<and> Sandbox_create_queue_size c \<noteq> 0 \<and> Handler_usage_update_interval c \<noteq> 0"

lemma resolve_dir_abs:
  assumes "resolve_dir getwd cp err dir = Inr d" and "\<And>wd. getwd = Inr wd \<Longrightarrow> path_IsAbs wd"
  shows "path_IsAbs d"
  using assms filepath_Abs_IsAbs [of getwd "path_Join [path_Dir cp, dir]" d]
  by (auto simp: resolve_dir_def split: if_splits)

lemma resolve_dir_id: "path_IsAbs d \<Longrightarrow> resolve_dir getwd cp err d = Inr d"
  by (simp add: resolve_dir_def)

lemma path_IsAbs_nonempty: "path_IsAbs p \<Longrightarrow> p \<noteq> []"
  by auto

text \<open>The last part of \<open>Defaults\<close> changes only the directories of packages and of the base image.\<close>

lemma default_sandbox_dirs:
  assumes "default_sandbox getwd c = (None, c')" and "\<And>wd. getwd = Inr wd \<Longrightarrow> path_IsAbs wd"
  shows "path_IsAbs (Pkgs_dir c') \<and>
    (Sandbox c' = ''sock'' \<longrightarrow> path_IsAbs (SOCK_base_path c') \<and> Pkgs_dir c' = path_Join [SOCK_base_path c', ''packages'']) \<and>
    (\<exists>b p. c' = c\<lparr>SOCK_base_path := b, Pkgs_dir := p\<rparr>)"
proof -
  consider (sock) d where "path_IsAbs d" and "c' = c\<lparr>SOCK_base_path := d, Pkgs_dir := path_Join [d, ''packages'']\<rparr>"
    | (docker) d where "Sandbox c \<noteq> ''sock''" and "path_IsAbs d" and "c' = c\<lparr>SOCK_base_path := SOCK_base_path c, Pkgs_dir := d\<rparr>"
    using assms(1) resolve_dir_abs [OF _ assms(2)] unfolding default_sandbox_def
    by (fastforce split: if_split_asm sum.split_asm)
  then show ?thesis
  proof cases
    case sock
    then show ?thesis by (auto simp: path_IsAbs_Join)
  next
    case docker
    then have "\<exists>b p. c' = c\<lparr>SOCK_base_path := b, Pkgs_dir := p\<rparr>" by blast
    with docker show ?thesis by simp
  qed
qed

lemma Defaults_parts:
  assumes "Defaults getwd c = (None, c')"
  obtains rd wd e1 e2 where "resolve_dir getwd (cfg_path c) e1 (Registry_dir c) = Inr rd"
    and "resolve_dir getwd (cfg_path c) e2 (Worker_dir c) = Inr wd"
    and "default_sandbox getwd ((default_numbers (default_names c))\<lparr>Registry_dir := rd, Worker_dir := wd\<rparr>) = (None, c')"
proof -
  have d: "Registry_dir (default_names c) = Registry_dir c" "Registry_dir (default_numbers (default_names c)) = Registry_dir c"
    "cfg_path (default_numbers (default_names c)) = cfg_path c"
    "Worker_dir ((default_numbers (default_names c))\<lparr>Registry_dir := rd\<rparr>) = Worker_dir c"
    "cfg_path ((default_numbers (default_names c))\<lparr>Registry_dir := rd\<rparr>) = cfg_path c" for rd
    by (simp_all add: default_names_def default_numbers_def)
  from assms show ?thesis
    unfolding Defaults_def Let_def d by (auto split: if_split_asm sum.split_asm intro: that)
qed

lemma Defaults_complete:
  assumes "Defaults getwd c = (None, c')" and "\<And>wd. getwd = Inr wd \<Longrightarrow> path_IsAbs wd"
  shows "config_complete c'"
proof (rule Defaults_parts [OF assms(1)])
  fix rd wd e1 e2
  assume rd: "resolve_dir getwd (cfg_path c) e1 (Registry_dir c) = Inr rd"
    and wd: "resolve_dir getwd (cfg_path c) e2 (Worker_dir c) = Inr wd"
    and sb: "default_sandbox getwd ((default_numbers (default_names c))\<lparr>Registry_dir := rd, Worker_dir := wd\<rparr>) = (None, c')"
  have dirs: "path_IsAbs rd" "path_IsAbs wd"
    using resolve_dir_abs [OF rd assms(2)] resolve_dir_abs [OF wd assms(2)] by auto
  obtain b p where c': "c' = (default_numbers (default_names c))\<lparr>Registry_dir := rd, Worker_dir := wd, SOCK_base_path := b, Pkgs_dir := p\<rparr>"
    using default_sandbox_dirs [OF sb assms(2)] by auto
  have "Cluster_name c' \<noteq> [] \<and> Worker_port c' \<noteq> [] \<and> Sandbox_create_queue_size c' \<noteq> 0 \<and> Handler_usage_update_interval c' \<noteq> 0"
    by (simp add: c' default_names_def default_numbers_def)
  moreover have "Registry_dir c' = rd" "Worker_dir c' = wd" by (simp_all add: c')
  ultimately show ?thesis
    using dirs default_sandbox_dirs [OF sb assms(2)] unfolding config_complete_def by blast
qed

text \<open>Completing a complete configuration changes nothing.\<close>

lemma Defaults_id:
  assumes "config_complete c"
  shows "Defaults getwd c = (None, c)"
proof -
  have "default_numbers (default_names c) = c"
    using assms by (simp add: config_complete_def default_names_def default_numbers_def)
  moreover have "default_names c = c" using assms by (simp add: config_complete_def default_names_def)
  ultimately show ?thesis
    using assms path_IsAbs_nonempty [of "Registry_dir c"] path_IsAbs_nonempty [of "Worker_dir c"]
      path_IsAbs_nonempty [of "Pkgs_dir c"] path_IsAbs_nonempty [of "SOCK_base_path c"]
    by (auto simp: config_complete_def Defaults_def default_sandbox_def Let_def resolve_dir_id split: if_splits)
qed

text \<open>
  C36.  A configuration that \<open>ParseConfig\<close> accepts is complete: its directories are absolute, a SOCK
  worker takes its packages from below the base path, and name, port, queue size and update interval are
  set.  Completing it a second time, as a worker does with a configuration the admin tool has saved,
  succeeds and changes nothing.
\<close>
theorem ParseConfig_complete:
  assumes "ParseConfig read decode getwd path = Inr c" and "\<forall>wd. getwd = Inr wd \<longrightarrow> path_IsAbs wd"
  shows "config_complete c \<and> Defaults getwd' c = (None, c)"
proof -
  obtain c0 where "Defaults getwd c0 = (None, c)"
    using assms(1) by (auto simp: ParseConfig_def split: sum.splits prod.splits option.splits)
  then have "config_complete c" using Defaults_complete assms(2) by blast
  then show ?thesis using Defaults_id by blast
qed

definition ex_config :: config where
  "ex_config = zero_config\<lparr>Registry := ''local'', Sandbox := ''docker'', Registry_dir := ''registry'',
     Pkgs_dir := ''/pkgs'', Worker_dir := ''../w''\<rparr>"

theorem ParseConfig_complete_witness:
  "\<exists>c. ParseConfig (\<lambda>p. Inr ex_config) Inr (Inl ''none'') ''/c/config/t.json'' = Inr c \<and> config_complete c \<and>
     Registry_dir c = ''/c/config/registry'' \<and> Worker_dir c = ''/c/w''"
proof -
  have ok: "case ParseConfig (\<lambda>p. Inr ex_config) Inr (Inl ''none'') ''/c/config/t.json'' of
      Inl e \<Rightarrow> False | Inr c \<Rightarrow> Registry_dir c = ''/c/config/registry'' \<and> Worker_dir c = ''/c/w''"
    by code_simp
  then obtain c where c: "ParseConfig (\<lambda>p. Inr ex_config) Inr (Inl ''none'') ''/c/config/t.json'' = Inr c"
    by (auto split: sum.splits)
  with ok ParseConfig_complete [OF c] show ?thesis by auto
qed

end
