(* ===== verification/Registry.thy ===== *)
theory Registry
  imports OLPrelude GoStrings
begin

text \<open>
  The code registry of a worker (\<open>worker/registry/manager.go\<close>): the local and the remote manager and the
  parser of \<open>packages.txt\<close>.  Files, the object store and \<open>tar\<close> are arguments.  The scanner's limit on
  the length of a line is not modelled.
\<close>

datatype file_stat = NotExist | StatError string | Exists

record registry_files =
  rf_stat :: "string \<Rightarrow> file_stat"
  rf_open :: "string \<Rightarrow> string + string"

definition SEPARATOR :: char where "SEPARATOR = CHR '':''"

fun parse_pkg_lines :: "string list \<Rightarrow> string list \<Rightarrow> string list \<Rightarrow> string + (string list \<times> string list)" where
  "parse_pkg_lines [] imps insts = Inr (imps, insts)"
| "parse_pkg_lines (l # ls) imps insts =
     (let pkgs = strings_Split SEPARATOR l in
      if length pkgs \<noteq> 2 then Inl ''malformed packages.txt, missing separator''
      else parse_pkg_lines ls (imps @ [pkgs ! 0]) (insts @ [pkgs ! 0]))"

definition parsePkgFile :: "registry_files \<Rightarrow> string \<Rightarrow> string + (string list \<times> string list)" where
  "parsePkgFile fs path =
     (if rf_stat fs path = NotExist then Inr ([], [])
      else (case rf_open fs path of Inl e \<Rightarrow> Inl e | Inr content \<Rightarrow> parse_pkg_lines (scan_lines content) [] []))"

definition local_Pull :: "registry_files \<Rightarrow> string \<Rightarrow> string \<Rightarrow> string + (string \<times> string list \<times> string list)" where
  "local_Pull fs regDir name =
     (let handlerDir = path_Join [regDir, name] in
      case rf_stat fs handlerDir of
        NotExist \<Rightarrow> Inl (''handler does not exist: '' @ handlerDir)
      | StatError e \<Rightarrow> Inl e
      | Exists \<Rightarrow>
          (case parsePkgFile fs (path_Join [handlerDir, ''packages.txt'']) of
             Inl e \<Rightarrow> Inl e
           | Inr (imps, insts) \<Rightarrow> Inr (handlerDir, imps, insts)))"

text \<open>
  The remote manager: an old directory is removed, the tarball fetched and unpacked; \<open>ro_files\<close> are the
  files after unpacking.
\<close>

record remote_os =
  ro_stat :: "string \<Rightarrow> file_stat"
  ro_removeAll :: "string \<Rightarrow> goerror"
  ro_mkdir :: "string \<Rightarrow> goerror"
  ro_fget :: "string \<Rightarrow> string \<Rightarrow> goerror"
  ro_tar :: "string \<Rightarrow> string \<Rightarrow> goerror"
  ro_files :: registry_files

definition remote_fetch :: "remote_os \<Rightarrow> string \<Rightarrow> string \<Rightarrow> goerror" where
  "remote_fetch os name handlerDir =
     (case ro_mkdir os handlerDir of
        Some e \<Rightarrow> Some e
      | None \<Rightarrow>
          let tmpPath = path_Join [''/tmp'', name @ ''.tar.gz''] in
          (case ro_fget os name tmpPath of
             Some e \<Rightarrow> Some e
           | None \<Rightarrow> ro_tar os tmpPath handlerDir))"

definition remote_clear :: "remote_os \<Rightarrow> string \<Rightarrow> goerror" where
  "remote_clear os handlerDir =
     (case ro_stat os handlerDir of
        Exists \<Rightarrow> ro_removeAll os handlerDir
      | StatError e \<Rightarrow> Some e
      | NotExist \<Rightarrow> None)"

definition remote_Pull :: "remote_os \<Rightarrow> string \<Rightarrow> string \<Rightarrow> string + (string \<times> string list \<times> string list)" where
  "remote_Pull os regDir name =
     (let handlerDir = path_Join [regDir, name] in
      case remote_clear os handlerDir of
        Some e \<Rightarrow> Inl e
      | None \<Rightarrow>
          (case remote_fetch os name handlerDir of
             Some e \<Rightarrow> Inl e
           | None \<Rightarrow>
               (case parsePkgFile (ro_files os) (path_Join [handlerDir, ''packages.txt'']) of
                  Inl e \<Rightarrow> Inl e
                | Inr (imps, insts) \<Rightarrow> Inr (handlerDir, imps, insts))))"

text \<open>
  \<open>InitRegistryManager\<close>: the managers' constructors fail with a nil pointer, which the interface value
  wraps; their error is assigned and then not returned.
\<close>

datatype registryManager = LocalManager "string option" | RemoteManager "string option"

definition NewLocalManager :: "(string \<Rightarrow> goerror) \<Rightarrow> string \<Rightarrow> string option \<times> goerror" where
  "NewLocalManager mkdirAll dir =
     (case mkdirAll dir of
        Some e \<Rightarrow> (None, Some (''fail to create directory at '' @ dir @ '': '' @ e))
      | None \<Rightarrow> (Some dir, None))"

definition NewRemoteManager :: "goerror \<Rightarrow> string \<Rightarrow> string option \<times> goerror" where
  "NewRemoteManager minio_err dir =
     (case minio_err of Some e \<Rightarrow> (None, Some e) | None \<Rightarrow> (Some dir, None))"

definition InitRegistryManager ::
  "(string \<Rightarrow> goerror) \<Rightarrow> goerror \<Rightarrow> string \<Rightarrow> string \<Rightarrow> registryManager option \<times> goerror" where
  "InitRegistryManager mkdirAll minio_err kind dir =
     (if kind = ''local'' then (Some (LocalManager (fst (NewLocalManager mkdirAll dir))), None)
      else if kind = ''remote'' then (Some (RemoteManager (fst (NewRemoteManager minio_err dir))), None)
      else (None, Some (''invalid '' @ [CHR 0x27] @ ''registry'' @ [CHR 0x27] @ '' field in config'')))"

fun registry_Pull ::
  "registry_files \<Rightarrow> remote_os \<Rightarrow> registryManager \<Rightarrow> string \<Rightarrow> (string + (string \<times> string list \<times> string list)) res" where
  "registry_Pull fs os (LocalManager (Some dir)) name = Ret (local_Pull fs dir name)"
| "registry_Pull fs os (RemoteManager (Some dir)) name = Ret (remote_Pull os dir name)"
| "registry_Pull fs os (LocalManager None) name = nil_deref"
| "registry_Pull fs os (RemoteManager None) name = nil_deref"

subsection \<open>The package file\<close>

definition pkg_line :: "string \<times> string \<Rightarrow> string" where
  "pkg_line p = fst p @ SEPARATOR # snd p"

definition plain :: "string \<Rightarrow> bool" where
  "plain w \<longleftrightarrow> SEPARATOR \<notin> set w \<and> CHR 0x0A \<notin> set w \<and> CHR 0x0D \<notin> set w"

lemma split_lines:
  "\<forall>l \<in> set ls. CHR 0x0A \<notin> set l \<Longrightarrow>
   strings_Split (CHR 0x0A) (concat (map (\<lambda>l. l @ [CHR 0x0A]) ls)) = ls @ [[]]"
  by (induction ls) (auto simp: strings_Split_append)

lemma scan_lines_written:
  assumes "\<forall>l \<in> set ls. CHR 0x0A \<notin> set l \<and> CHR 0x0D \<notin> set l"
  shows "scan_lines (concat (map (\<lambda>l. l @ [CHR 0x0A]) ls)) = ls"
proof -
  have "drop_cr l = l" if "l \<in> set ls" for l
    using assms that unfolding drop_cr_def by (metis last_in_set)
  then have "map drop_cr ls = ls" by (simp add: map_idI)
  then show ?thesis using assms by (simp add: scan_lines_def split_lines Let_def)
qed

lemma parse_pkg_line:
  "plain a \<Longrightarrow> plain b \<Longrightarrow> strings_Split SEPARATOR (pkg_line (a, b)) = [a, b]"
  by (simp add: pkg_line_def plain_def strings_Split_append strings_Split_word)

lemma parse_pkg_lines_written:
  "\<forall>p \<in> set ps. plain (fst p) \<and> plain (snd p) \<Longrightarrow>
   parse_pkg_lines (map pkg_line ps) imps insts = Inr (imps @ map fst ps, insts @ map fst ps)"
  by (induction ps arbitrary: imps insts) (auto simp: parse_pkg_line Let_def)

text \<open>
  C35.  A \<open>packages.txt\<close> that lists an import and the package to install for it on each line is read back
  as far as the imports go; the packages to install come out as the imports too, whatever the file says
  after the separator.
\<close>
theorem packages_file_round_trip:
  assumes "\<forall>p \<in> set ps. plain (fst p) \<and> plain (snd p)"
    and "rf_stat fs path = Exists" and "rf_open fs path = Inr (concat (map (\<lambda>p. pkg_line p @ [CHR 0x0A]) ps))"
  shows "parsePkgFile fs path = Inr (map fst ps, map fst ps)"
proof -
  have "\<forall>l \<in> set (map pkg_line ps). CHR 0x0A \<notin> set l \<and> CHR 0x0D \<notin> set l"
    using assms(1) by (auto simp: pkg_line_def plain_def SEPARATOR_def)
  then have "scan_lines (concat (map (\<lambda>l. l @ [CHR 0x0A]) (map pkg_line ps))) = map pkg_line ps"
    by (rule scan_lines_written)
  then show ?thesis
    using parse_pkg_lines_written [OF assms(1), of "[]" "[]"] assms(2,3)
    by (simp add: parsePkgFile_def o_def)
qed

theorem packages_file_round_trip_witness:
  "parsePkgFile \<lparr>rf_stat = (\<lambda>_. Exists), rf_open = (\<lambda>_. Inr (''bs4:beautifulsoup4'' @ [CHR 0x0A]))\<rparr> ''p'' =
     Inr ([''bs4''], [''bs4''])"
proof -
  have "plain ''bs4'' \<and> plain ''beautifulsoup4''" by code_simp
  then show ?thesis
    using packages_file_round_trip [of "[(''bs4'', ''beautifulsoup4'')]"
        "\<lparr>rf_stat = (\<lambda>_. Exists), rf_open = (\<lambda>_. Inr (''bs4:beautifulsoup4'' @ [CHR 0x0A]))\<rparr>" "''p''"]
    by (simp add: pkg_line_def SEPARATOR_def)
qed

text \<open>
  A registry whose directory cannot be made, or whose store cannot be reached, is reported as
  initialised without error; the first pull of a lambda then dereferences the nil manager.
\<close>
theorem failed_registry_initialised:
  assumes "kind = ''local'' \<and> mkdirAll dir \<noteq> None \<or> kind = ''remote'' \<and> minio_err \<noteq> None"
  shows "\<exists>rm. InitRegistryManager mkdirAll minio_err kind dir = (Some rm, None) \<and> registry_Pull fs os rm name = nil_deref"
  using assms by (auto simp: InitRegistryManager_def NewLocalManager_def NewRemoteManager_def)

theorem failed_registry_initialised_witness:
  "\<forall>fs os. \<exists>rm. InitRegistryManager (\<lambda>_. Some ''read-only'') None ''local'' ''/r'' = (Some rm, None) \<and>
     registry_Pull fs os rm ''f'' = nil_deref"
  using failed_registry_initialised [of "''local''" "\<lambda>_. Some ''read-only''" "''/r''" None _ _ "''f''"] by simp

end
