(* ===== verification/PipInstaller.thy ===== *)
theory PipInstaller
  imports OLPrelude GoStrings
begin

text \<open>
  The installer of Python packages (\<open>worker/pip-manager/installManager.go\<close>).  Each package has a
  reader-writer lock: the call that meets it first holds it for writing until it returns, later calls wait
  to read it and never give it back.  The map's own mutex is held for single accesses only.  \<open>pip\<close> is an
  argument; its answer on failure is the error and the command as they are printed.
\<close>

record rwMutex =
  rw_writer :: bool
  rw_readers :: nat

record installer =
  i_args :: "string list"
  pkgStates :: "string \<rightharpoonup> nat"
  i_locks :: "rwMutex list"

definition lock_fresh :: "string \<Rightarrow> installer \<Rightarrow> installer" where
  "lock_fresh pkg st =
     st\<lparr>pkgStates := (pkgStates st)(pkg \<mapsto> length (i_locks st)),
        i_locks := i_locks st @ [\<lparr>rw_writer = True, rw_readers = 0\<rparr>]\<rparr>"

definition rlock :: "nat \<Rightarrow> installer \<Rightarrow> (installer, unit) outcome" where
  "rlock l st =
     (if rw_writer (i_locks st ! l) then (Block, st)
      else (Ret (), st\<lparr>i_locks := (i_locks st)[l := (i_locks st ! l)\<lparr>rw_readers := Suc (rw_readers (i_locks st ! l))\<rparr>]\<rparr>))"

definition unlock :: "nat \<Rightarrow> installer \<Rightarrow> installer" where
  "unlock l st = st\<lparr>i_locks := (i_locks st)[l := (i_locks st ! l)\<lparr>rw_writer := False\<rparr>]\<rparr>"

definition forget :: "string \<Rightarrow> installer \<Rightarrow> installer" where
  "forget pkg st = st\<lparr>pkgStates := (pkgStates st)(pkg := None)\<rparr>"

definition install_error :: "string \<Rightarrow> string \<Rightarrow> string" where
  "install_error pkg e = ''failed to install package '' @ [CHR 0x27] @ pkg @ [CHR 0x27] @ '' :: '' @ e"

text \<open>The loop; the second argument collects the locks that are released when the call returns.\<close>

fun install_loop ::
  "(string list \<Rightarrow> goerror) \<Rightarrow> string list \<Rightarrow> nat list \<Rightarrow> installer \<Rightarrow> goerror res \<times> nat list \<times> installer" where
  "install_loop run [] held st = (Ret None, held, st)"
| "install_loop run (pkg # pkgs) held st =
     (case pkgStates st pkg of
        None \<Rightarrow>
          let l = length (i_locks st); st1 = lock_fresh pkg st in
          (case run (i_args st @ [pkg]) of
             Some e \<Rightarrow> (Ret (Some (install_error pkg e)), l # held, forget pkg st1)
           | None \<Rightarrow> install_loop run pkgs (l # held) st1)
      | Some l \<Rightarrow>
          (case rlock l st of
             (Ret _, st1) \<Rightarrow> install_loop run pkgs held st1
           | (Panic m, st1) \<Rightarrow> (Panic m, held, st1)
           | (Exit m, st1) \<Rightarrow> (Exit m, held, st1)
           | (Block, st1) \<Rightarrow> (Block, held, st1)))"

definition Install :: "(string list \<Rightarrow> goerror) \<Rightarrow> string list \<Rightarrow> installer \<Rightarrow> (installer, goerror) outcome" where
  "Install run pkgs st =
     (case install_loop run pkgs [] st of
        (Ret r, held, st1) \<Rightarrow> (Ret r, fold unlock held st1)
      | (Panic m, held, st1) \<Rightarrow> (Panic m, fold unlock held st1)
      | (Exit m, held, st1) \<Rightarrow> (Exit m, st1)
      | (Block, held, st1) \<Rightarrow> (Block, st1))"

definition InitInstallManager ::
  "(string list \<Rightarrow> goerror) \<Rightarrow> string \<Rightarrow> string \<Rightarrow> string list \<Rightarrow> (string + installer) res" where
  "InitInstallManager run pip_index pkgs_dir startup =
     (let args = [''install'', ''--no-deps''] @ (if pip_index \<noteq> [] then [''-i'', pip_index] else []) @ [''-t'', pkgs_dir]
      in case Install run startup \<lparr>i_args = args, pkgStates = Map.empty, i_locks = []\<rparr> of
           (Ret (Some e), st) \<Rightarrow> Ret (Inl e)
         | (Ret None, st) \<Rightarrow> Ret (Inr st)
         | (Panic m, st) \<Rightarrow> Panic m
         | (Exit m, st) \<Rightarrow> Exit m
         | (Block, st) \<Rightarrow> Block)"

subsection \<open>The loop in full\<close>

text \<open>
  Between calls no lock is held for writing.  During a call exactly the collected locks are, and they
  belong to the packages met first in this call.
\<close>

definition busy :: "installer \<Rightarrow> nat set" where
  "busy st = {l. l < length (i_locks st) \<and> rw_writer (i_locks st ! l)}"

definition locks_ok :: "installer \<Rightarrow> bool" where
  "locks_ok st \<longleftrightarrow> (\<forall>p l. pkgStates st p = Some l \<longrightarrow> l < length (i_locks st))"

lemma lock_fresh_simps [simp]:
  "pkgStates (lock_fresh pkg st) = (pkgStates st)(pkg \<mapsto> length (i_locks st))"
  "busy (lock_fresh pkg st) = insert (length (i_locks st)) (busy st)" "i_args (lock_fresh pkg st) = i_args st"
  "length (i_locks (lock_fresh pkg st)) = Suc (length (i_locks st))"
  by (auto simp: lock_fresh_def busy_def nth_append less_Suc_eq)

lemma forget_simps [simp]:
  "pkgStates (forget pkg st) = (pkgStates st)(pkg := None)" "busy (forget pkg st) = busy st"
  "i_args (forget pkg st) = i_args st" "i_locks (forget pkg st) = i_locks st"
  by (simp_all add: forget_def busy_def)

lemma unlock_simps [simp]:
  "pkgStates (unlock l st) = pkgStates st" "busy (unlock l st) = busy st - {l}" "i_args (unlock l st) = i_args st"
  "length (i_locks (unlock l st)) = length (i_locks st)"
  by (cases "l < length (i_locks st)";
      auto simp: unlock_def busy_def nth_list_update_if list_update_beyond split: if_splits)+

lemma unlock_all [simp]:
  "pkgStates (fold unlock ls st) = pkgStates st" "busy (fold unlock ls st) = busy st - set ls"
  "i_args (fold unlock ls st) = i_args st" "length (i_locks (fold unlock ls st)) = length (i_locks st)"
  by (induction ls arbitrary: st) auto

lemma rlock_free:
  assumes "l \<notin> busy st" and "l < length (i_locks st)"
  shows "\<exists>st1. rlock l st = (Ret (), st1) \<and> pkgStates st1 = pkgStates st \<and> busy st1 = busy st \<and>
           i_args st1 = i_args st \<and> length (i_locks st1) = length (i_locks st)"
  using assms by (auto simp: rlock_def busy_def nth_list_update)

text \<open>How far a call came: the packages it has recorded, and the one it failed at.\<close>

definition installs_to ::
  "(string list \<Rightarrow> goerror) \<Rightarrow> installer \<Rightarrow> string list \<Rightarrow> goerror \<Rightarrow> installer \<Rightarrow> bool" where
  "installs_to run st pkgs r st' \<longleftrightarrow>
     (\<exists>ps qs. pkgs = ps @ qs \<and> dom (pkgStates st') = dom (pkgStates st) \<union> set ps \<and>
        (\<forall>p \<in> set ps. p \<notin> dom (pkgStates st) \<longrightarrow> run (i_args st @ [p]) = None) \<and>
        (case r of
           None \<Rightarrow> qs = []
         | Some e \<Rightarrow> \<exists>p e0 rest. qs = p # rest \<and> p \<notin> dom (pkgStates st) \<and> run (i_args st @ [p]) = Some e0 \<and>
                      e = install_error p e0))"

lemma installs_to_Cons:
  assumes "installs_to run st1 pkgs r st'" and "dom (pkgStates st1) = insert pkg (dom (pkgStates st))"
    and "i_args st1 = i_args st" and "pkg \<notin> dom (pkgStates st) \<Longrightarrow> run (i_args st @ [pkg]) = None" and "pkg \<notin> set pkgs"
  shows "installs_to run st (pkg # pkgs) r st'"
proof -
  obtain ps qs where ps: "pkgs = ps @ qs" "dom (pkgStates st') = dom (pkgStates st1) \<union> set ps"
    and ok: "\<forall>p \<in> set ps. p \<notin> dom (pkgStates st1) \<longrightarrow> run (i_args st1 @ [p]) = None"
    and r: "case r of None \<Rightarrow> qs = []
         | Some e \<Rightarrow> \<exists>p e0 rest. qs = p # rest \<and> p \<notin> dom (pkgStates st1) \<and> run (i_args st1 @ [p]) = Some e0 \<and> e = install_error p e0"
    using assms(1) unfolding installs_to_def by blast
  have "\<forall>p \<in> set (pkg # ps). p \<notin> dom (pkgStates st) \<longrightarrow> run (i_args st @ [p]) = None"
    using ok assms(2-5) ps(1) by auto
  moreover have "case r of None \<Rightarrow> qs = []
         | Some e \<Rightarrow> \<exists>p e0 rest. qs = p # rest \<and> p \<notin> dom (pkgStates st) \<and> run (i_args st @ [p]) = Some e0 \<and> e = install_error p e0"
    using r assms(2,3) by (auto split: option.splits)
  ultimately show ?thesis
    unfolding installs_to_def using ps assms(2) by (intro exI [of _ "pkg # ps"] exI [of _ qs]) auto
qed

lemma locks_ok_fresh: "locks_ok st \<Longrightarrow> locks_ok (lock_fresh pkg st)"
  by (force simp: locks_ok_def)

lemma install_loop_effect:
  assumes "locks_ok st" and "distinct pkgs" and "\<forall>p \<in> set pkgs. \<forall>l. pkgStates st p = Some l \<longrightarrow> l \<notin> busy st"
    and "busy st \<subseteq> set held"
  shows "\<exists>r held' st'. install_loop run pkgs held st = (Ret r, held', st') \<and> locks_ok st' \<and> busy st' \<subseteq> set held' \<and>
           installs_to run st pkgs r st'"
  using assms
proof (induction pkgs arbitrary: held st)
  case Nil
  then show ?case by (simp add: installs_to_def)
next
  case (Cons pkg pkgs)
  show ?case
  proof (cases "pkgStates st pkg")
    case None
    let ?st1 = "lock_fresh pkg st" and ?l = "length (i_locks st)"
    show ?thesis
    proof (cases "run (i_args st @ [pkg])")
      case (Some e)
      have "locks_ok (forget pkg ?st1)" using Cons.prems(1) by (auto simp: locks_ok_def less_SucI)
      moreover have "installs_to run st (pkg # pkgs) (Some (install_error pkg e)) (forget pkg ?st1)"
        unfolding installs_to_def using None Some by (intro exI [of _ "[]"] exI [of _ "pkg # pkgs"]) auto
      moreover have "busy (forget pkg ?st1) \<subseteq> set (?l # held)" using Cons.prems(4) by auto
      ultimately show ?thesis using None Some by (auto simp: Let_def)
    next
      case ok: None
      have keep: "\<forall>p \<in> set pkgs. \<forall>l. pkgStates ?st1 p = Some l \<longrightarrow> l \<notin> busy ?st1"
        using Cons.prems(1-3) by (auto simp: locks_ok_def)
      have "distinct pkgs" "busy ?st1 \<subseteq> set (?l # held)" using Cons.prems(2,4) by auto
      from Cons.IH [OF locks_ok_fresh [OF Cons.prems(1)] this(1) keep this(2)]
      obtain r held' st' where loop: "install_loop run pkgs (?l # held) ?st1 = (Ret r, held', st')"
        and st': "locks_ok st'" "busy st' \<subseteq> set held'" and to: "installs_to run ?st1 pkgs r st'" by blast
      have "installs_to run st (pkg # pkgs) r st'"
        by (rule installs_to_Cons [OF to]) (use ok Cons.prems(2) in auto)
      then show ?thesis using loop st' None ok by (simp add: Let_def)
    qed
  next
    case (Some l)
    then have "l \<notin> busy st" "l < length (i_locks st)" using Cons.prems(1,3) by (auto simp: locks_ok_def)
    from rlock_free [OF this] obtain st1 where rl: "rlock l st = (Ret (), st1)"
      and st1: "pkgStates st1 = pkgStates st" "busy st1 = busy st" "i_args st1 = i_args st"
        "length (i_locks st1) = length (i_locks st)" by blast
    have "locks_ok st1" "distinct pkgs" "\<forall>p \<in> set pkgs. \<forall>l. pkgStates st1 p = Some l \<longrightarrow> l \<notin> busy st1" "busy st1 \<subseteq> set held"
      using Cons.prems st1 by (auto simp: locks_ok_def)
    from Cons.IH [OF this] obtain r held' st' where loop: "install_loop run pkgs held st1 = (Ret r, held', st')"
      and st': "locks_ok st'" "busy st' \<subseteq> set held'" and to: "installs_to run st1 pkgs r st'" by blast
    have "installs_to run st (pkg # pkgs) r st'"
      by (rule installs_to_Cons [OF to]) (use Some st1 Cons.prems(2) in auto)
    then show ?thesis using loop st' Some rl by simp
  qed
qed

text \<open>
  \<open>Install\<close> of distinct packages, between calls, returns with all locks released for writing.  It
  records exactly the packages in front of the first one that \<open>pip\<close> cannot install, and reports that one;
  without a failure it records them all, and \<open>pip\<close> has succeeded for every one that is new.
\<close>
theorem Install_distinct:
  assumes "locks_ok st" and "busy st = {}" and "distinct pkgs"
  shows "\<exists>r st'. Install run pkgs st = (Ret r, st') \<and> locks_ok st' \<and> busy st' = {} \<and> installs_to run st pkgs r st'"
proof -
  obtain r held st1 where loop: "install_loop run pkgs [] st = (Ret r, held, st1)" and ok: "locks_ok st1"
    and b: "busy st1 \<subseteq> set held" and to: "installs_to run st pkgs r st1"
    using install_loop_effect [OF assms(1,3), of "[]" run] assms(2) by auto
  have "Install run pkgs st = (Ret r, fold unlock held st1)" using loop by (simp add: Install_def)
  moreover have "locks_ok (fold unlock held st1)" using ok by (simp add: locks_ok_def)
  moreover have "installs_to run st pkgs r (fold unlock held st1)" using to by (simp add: installs_to_def)
  ultimately show ?thesis using b by auto
qed

definition ex_installer :: installer where
  "ex_installer = \<lparr>i_args = [], pkgStates = Map.empty, i_locks = []\<rparr>"

lemma ex_installer_ok: "locks_ok ex_installer" "busy ex_installer = {}"
  by (simp_all add: ex_installer_def locks_ok_def busy_def)

theorem Install_distinct_witness:
  "\<exists>st'. Install (\<lambda>args. if last args = ''b'' then Some ''404'' else None) [''a'', ''b'', ''c''] ex_installer =
     (Ret (Some (install_error ''b'' ''404'')), st') \<and> busy st' = {}"
proof -
  let ?run = "\<lambda>args. if last args = ''b'' then Some ''404'' else None"
  have "fst (Install ?run [''a'', ''b'', ''c''] ex_installer) = Ret (Some (install_error ''b'' ''404''))" by code_simp
  then show ?thesis
    using Install_distinct [OF ex_installer_ok, of "[''a'', ''b'', ''c'']" ?run] by auto
qed

text \<open>
  A call that names a new package twice waits for itself: the second mention asks to read the lock
  that the first one holds until the call returns, and the call never returns.
\<close>
theorem Install_repeated_package_blocks:
  assumes "pkgStates st p = None" and "run (i_args st @ [p]) = None"
  shows "fst (Install run (p # p # pkgs) st) = Block"
  using assms
  by (simp add: Install_def lock_fresh_def rlock_def Let_def nth_append)

theorem Install_repeated_package_blocks_witness:
  "fst (Install (\<lambda>args. None) [''numpy'', ''numpy''] ex_installer) = Block"
  using Install_repeated_package_blocks [of ex_installer "''numpy''" "\<lambda>args. None" "[]"]
  by (simp add: ex_installer_def)

text \<open>
  A call that waits for a package another call is installing takes the end of that call for success:
  the other call fails and forgets the package, the lock is released, and the waiting call goes on to
  return without an error although the package is not installed and not recorded.
\<close>
theorem failed_install_taken_for_success:
  assumes "pkgStates st p = None"
  shows "\<exists>l st'. pkgStates (lock_fresh p st) p = Some l \<and> rlock l (lock_fresh p st) = (Block, lock_fresh p st) \<and>
           rlock l (unlock l (forget p (lock_fresh p st))) = (Ret (), st') \<and> pkgStates st' p = None"
  using assms by (auto simp: lock_fresh_def rlock_def unlock_def forget_def)

theorem failed_install_taken_for_success_witness:
  "\<exists>l st'. rlock l (lock_fresh ''a'' ex_installer) = (Block, lock_fresh ''a'' ex_installer) \<and>
     rlock l (unlock l (forget ''a'' (lock_fresh ''a'' ex_installer))) = (Ret (), st') \<and> pkgStates st' ''a'' = None"
  using failed_install_taken_for_success [of ex_installer "''a''"] by (auto simp: ex_installer_def)

end
