(* ===== verification/WorkerUtil.thy ===== *)
theory WorkerUtil
  imports OLPrelude GoStrings "HOL-Library.Word"
begin

unbundle bit_operations_syntax

text \<open>
  The utility functions of the worker (\<open>worker/util/util.go\<close>): random identifiers at the width of bytes,
  and killing a process by its printed id.  The random source and the process table are arguments.
\<close>

type_synonym byte = "8 word"

definition hex_digit :: "nat \<Rightarrow> char" where
  "hex_digit n = ''0123456789abcdef'' ! n"

definition hex_byte :: "byte \<Rightarrow> string" where
  "hex_byte b = [hex_digit (unat b div 16), hex_digit (unat b mod 16)]"

text \<open>\<open>fmt.Sprintf("%x", bytes)\<close>.\<close>

definition hex_string :: "byte list \<Rightarrow> string" where
  "hex_string bs = concat (map hex_byte bs)"

definition set_variant :: "byte \<Rightarrow> byte" where
  "set_variant b = (b AND NOT 0xc0) OR 0x80"

definition set_version :: "byte \<Rightarrow> byte" where
  "set_version b = (b AND NOT 0xf0) OR 0x40"

text \<open>\<open>UUID\<close> on what the random source delivered.\<close>

definition UUID :: "byte list \<Rightarrow> goerror \<Rightarrow> string \<times> goerror" where
  "UUID uuid err =
     (if length uuid \<noteq> 16 \<or> err \<noteq> None then ([], err)
      else
        let u1 = uuid[8 := set_variant (uuid ! 8)];
            u2 = u1[6 := set_version (u1 ! 6)]
        in (hex_string u2, None))"

definition KillPIDStr :: "(int \<Rightarrow> goerror) \<Rightarrow> (int \<Rightarrow> goerror) \<Rightarrow> string \<Rightarrow> goerror" where
  "KillPIDStr findProcess sigkill pidStr =
     (case strconv_Atoi pidStr of
        None \<Rightarrow> Some (''bad pid string: '' @ pidStr @ '' :: invalid syntax'')
      | Some pid \<Rightarrow>
          (case findProcess pid of
             Some e \<Rightarrow> Some (''failed to find process with pid: '' @ strconv_Itoa pid @ '' :: '' @ e)
           | None \<Rightarrow>
               (case sigkill pid of
                  Some e \<Rightarrow> Some (''failed to send kill signal to process with pid: '' @ strconv_Itoa pid @ '' :: '' @ e)
                | None \<Rightarrow> None)))"

subsection \<open>Identifiers\<close>

lemma unat_high: "unat (b :: byte) div 16 = unat (drop_bit 4 b)"
  by (simp add: drop_bit_eq_div unat_div)

lemma version_high: "drop_bit 4 (set_version b) = 4"
  by (simp add: set_version_def)

lemma variant_high: "drop_bit 4 (set_variant b) = (drop_bit 4 b AND 3) OR 8"
  by (simp add: set_variant_def)

lemma low_two_bits: "x AND 3 \<in> {0, 1, 2, 3 :: byte}"
proof -
  have "x AND 3 = x mod 4" 
    using take_bit_eq_mask [of 2 x] take_bit_eq_mod [of 2 x] by (simp add: mask_eq_exp_minus_1)
  then have "unat (x AND 3) < 4" by (simp add: unat_mod)
  then have "unat (x AND 3) \<in> {0, 1, 2, 3}" by auto
  then show ?thesis
    by (auto simp: unat_eq_0 dest: arg_cong [where f = "word_of_nat :: nat \<Rightarrow> byte"])
qed

lemma variant_digit: "unat (set_variant b) div 16 \<in> {8, 9, 10, 11}"
  unfolding unat_high variant_high using low_two_bits [of "drop_bit 4 b"] by auto

lemma version_digit: "unat (set_version b) div 16 = 4"
  unfolding unat_high version_high by simp

lemma hex_byte_digits:
  assumes "c \<in> set (hex_byte b)"
  shows "c \<in> set ''0123456789abcdef''"
proof -
  have "unat b < 256" using unsigned_less [of b] by simp
  then have "unat b div 16 < 16" "unat b mod 16 < 16" by auto
  moreover have "hex_digit n \<in> set ''0123456789abcdef''" if "n < 16" for n
    unfolding hex_digit_def by (rule nth_mem) (use that in simp)
  ultimately show ?thesis using assms unfolding hex_byte_def by (metis list.set_cases list.set_intros(1) set_ConsD empty_iff list.set(1))
qed

lemma hex_string_nth:
  "i < length bs \<Longrightarrow> hex_string bs ! (2 * i) = hex_digit (unat (bs ! i) div 16)"
  "i < length bs \<Longrightarrow> hex_string bs ! (2 * i + 1) = hex_digit (unat (bs ! i) mod 16)"
  by (induction bs arbitrary: i) (auto simp: hex_string_def hex_byte_def nth_Cons split: nat.splits)

lemma hex_string_length: "length (hex_string bs) = 2 * length bs"
  by (induction bs) (auto simp: hex_string_def hex_byte_def)

text \<open>
  C37.  From sixteen random bytes \<open>UUID\<close> makes a string of 32 lower-case hexadecimal digits that has the
  version 4 and the variant of RFC 4122 at their places; all bytes but those two are printed unchanged.
\<close>
theorem UUID_rfc4122:
  assumes "length uuid = 16"
  shows "\<exists>s. UUID uuid None = (s, None) \<and> length s = 32 \<and> (\<forall>c \<in> set s. c \<in> set ''0123456789abcdef'') \<and>
           s ! 12 = CHR ''4'' \<and> s ! 16 \<in> set ''89ab'' \<and>
           (\<forall>i < 16. i \<noteq> 6 \<and> i \<noteq> 8 \<longrightarrow> [s ! (2 * i), s ! (2 * i + 1)] = hex_byte (uuid ! i))"
proof -
  define u where "u = uuid[8 := set_variant (uuid ! 8), 6 := set_version (uuid ! 6)]"
  have len: "length u = 16" using assms by (simp add: u_def)
  have u: "UUID uuid None = (hex_string u, None)" using assms by (simp add: UUID_def u_def Let_def)
  have "hex_string u ! 12 = hex_digit (unat (u ! 6) div 16)" "hex_string u ! 16 = hex_digit (unat (u ! 8) div 16)"
    using hex_string_nth(1) [of 6 u] hex_string_nth(1) [of 8 u] len by simp_all
  moreover have "u ! 6 = set_version (uuid ! 6)" "u ! 8 = set_variant (uuid ! 8)" using assms by (simp_all add: u_def)
  ultimately have "hex_string u ! 12 = CHR ''4''" "hex_string u ! 16 \<in> set ''89ab''"
    using variant_digit [of "uuid ! 8"] version_digit [of "uuid ! 6"] by (auto simp: hex_digit_def)
  moreover have "\<forall>c \<in> set (hex_string u). c \<in> set ''0123456789abcdef''"
    using hex_byte_digits unfolding hex_string_def by fastforce
  moreover have "[hex_string u ! (2 * i), hex_string u ! (2 * i + 1)] = hex_byte (uuid ! i)"
    if "i < 16" "i \<noteq> 6" "i \<noteq> 8" for i
  proof -
    have "u ! i = uuid ! i" using that assms by (simp add: u_def)
    then show ?thesis using that(1) len hex_string_nth [of i u] by (simp add: hex_byte_def)
  qed
  ultimately show ?thesis using u len by (simp add: hex_string_length)
qed

theorem UUID_rfc4122_witness:
  "\<exists>s. UUID (replicate 16 0xff) None = (s, None) \<and> length s = 32 \<and> s ! 12 = CHR ''4''"
  using UUID_rfc4122 [of "replicate 16 0xff"] by auto

end
