(* ===== verification/DockerContainer.thy ===== *)
theory DockerContainer
  imports HandlerManager WorkerUtil
begin

text \<open>
  Docker containers (\<open>worker/sandbox/docker.go\<close>), their factory (\<open>dockerFactory.go\<close>), the helpers of
  \<open>dockerutil\<close>, and the choice between Docker and SOCK (\<open>sandboxFactory.go\<close>).

  The Docker client is third-party code: a record of functions on the daemon's state \<open>'d\<close>, as far as the
  container at hand sees it.  What is relied on of it are hypotheses of the theorems.  Timers are left
  out.
\<close>

record docker_info =
  di_Running :: bool
  di_Paused :: bool
  di_Dead :: bool
  di_Pid :: int

record 'd docker_client =
  dk_Inspect :: "string \<Rightarrow> 'd \<Rightarrow> string + docker_info"
  dk_Start :: "string \<Rightarrow> 'd \<Rightarrow> goerror \<times> 'd"
  dk_Kill :: "string \<Rightarrow> 'd \<Rightarrow> goerror \<times> 'd"
  dk_Pause :: "string \<Rightarrow> 'd \<Rightarrow> goerror \<times> 'd"
  dk_Unpause :: "string \<Rightarrow> 'd \<Rightarrow> goerror \<times> 'd"
  dk_Remove :: "string \<Rightarrow> 'd \<Rightarrow> goerror \<times> 'd"
  dk_CreateExec :: "string \<Rightarrow> string list \<Rightarrow> 'd \<Rightarrow> (string + string) \<times> 'd"
  dk_StartExec :: "string \<Rightarrow> 'd \<Rightarrow> goerror \<times> 'd"
  dk_StateString :: "docker_info \<Rightarrow> string"
  dk_readFile :: "string \<Rightarrow> string + string"
  dk_removeAll :: "string \<Rightarrow> goerror"
  dk_errType :: "string \<Rightarrow> string"
  dk_cgclassify :: "string \<Rightarrow> string \<Rightarrow> goerror"

record 'd dockerContainer =
  d_host_id :: string
  d_hostDir :: string
  d_nspid :: string
  d_ID :: string
  d_info :: docker_info
  d_cache :: bool
  d_daemon :: 'd

definition NewDockerContainer :: "string \<Rightarrow> string \<Rightarrow> bool \<Rightarrow> string \<Rightarrow> docker_info \<Rightarrow> 'd \<Rightarrow> 'd dockerContainer" where
  "NewDockerContainer host_id hostDir cache cid info d =
     \<lparr>d_host_id = host_id, d_hostDir = hostDir, d_nspid = [], d_ID = cid, d_info = info, d_cache = cache, d_daemon = d\<rparr>"

definition InspectUpdate :: "'d docker_client \<Rightarrow> 'd dockerContainer \<Rightarrow> goerror \<times> 'd dockerContainer" where
  "InspectUpdate cl c =
     (case dk_Inspect cl (d_ID c) (d_daemon c) of
        Inl e \<Rightarrow> (Some e, c)
      | Inr info \<Rightarrow> (None, c\<lparr>d_info := info\<rparr>))"

definition docker_Logs :: "'d docker_client \<Rightarrow> 'd dockerContainer \<Rightarrow> string + string" where
  "docker_Logs cl c =
     (case dk_readFile cl (path_Join [d_hostDir c, ''stdout'']) of
        Inl e \<Rightarrow> Inl e
      | Inr out \<Rightarrow>
          (case dk_readFile cl (path_Join [d_hostDir c, ''stderr'']) of
             Inl e \<Rightarrow> Inl e
           | Inr err \<Rightarrow>
               Inr (''Container ('' @ d_ID c @ '') stdout:'' @ [CHR 0x0A] @ out @ [CHR 0x0A] @
                    ''Container ('' @ d_ID c @ '') stderr:'' @ [CHR 0x0A] @ err @ [CHR 0x0A])))"

definition dockerError :: "'d docker_client \<Rightarrow> string \<Rightarrow> 'd dockerContainer \<Rightarrow> string \<times> 'd dockerContainer" where
  "dockerError cl outer c =
     (let (e, c1) = InspectUpdate cl c;
          state = (case e of
                     Some m \<Rightarrow> ''Could not inspect container ('' @ m @ '').  ''
                   | None \<Rightarrow> ''Container state is <'' @ dk_StateString cl (d_info c1) @ ''>.  '');
          logs = (case docker_Logs cl c1 of
                    Inl _ \<Rightarrow> ''Could not fetch ['' @ d_ID c1 @ ''] logs!'' @ [CHR 0x0A]
                  | Inr l \<Rightarrow> ''<--- Start handler container ['' @ d_ID c1 @ ''] logs: --->'' @ [CHR 0x0A] @ l @
                             ''<--- End handler container ['' @ d_ID c1 @ ''] logs --->'' @ [CHR 0x0A])
      in (outer @ ''.  '' @ state @ logs, c1))"

definition docker_State :: "'d docker_client \<Rightarrow> 'd dockerContainer \<Rightarrow> (string + HandlerState) \<times> 'd dockerContainer" where
  "docker_State cl c =
     (case InspectUpdate cl c of
        (Some e, c1) \<Rightarrow> (Inl e, c1)
      | (None, c1) \<Rightarrow>
          (Inr (if di_Running (d_info c1) then if di_Paused (d_info c1) then Paused else Running else Stopped), c1))"

definition docker_Channel :: "'d dockerContainer \<Rightarrow> string + string" where
  "docker_Channel c =
     (if 108 < length (path_Join [d_hostDir c, ''ol.sock''])
      then Inl ''socket path length cannot exceed 108 characters (try moving cluster closer to the root directory''
      else Inr ''http://container/'')"

text \<open>A call of the daemon on the container: an error gets its details.\<close>

definition docker_call ::
  "'d docker_client \<Rightarrow> (string \<Rightarrow> 'd \<Rightarrow> goerror \<times> 'd) \<Rightarrow> 'd dockerContainer \<Rightarrow> goerror \<times> 'd dockerContainer" where
  "docker_call cl f c =
     (case f (d_ID c) (d_daemon c) of
        (Some e, d) \<Rightarrow> (case dockerError cl e (c\<lparr>d_daemon := d\<rparr>) of (m, c1) \<Rightarrow> (Some m, c1))
      | (None, d) \<Rightarrow> (None, c\<lparr>d_daemon := d\<rparr>))"

definition docker_Start :: "'d docker_client \<Rightarrow> 'd dockerContainer \<Rightarrow> goerror \<times> 'd dockerContainer" where
  "docker_Start cl c =
     (case docker_call cl (dk_Start cl) c of
        (Some m, c1) \<Rightarrow> (Some m, c1)
      | (None, c1) \<Rightarrow>
          (case dk_Inspect cl (d_ID c1) (d_daemon c1) of
             Inl e \<Rightarrow> (case dockerError cl e c1 of (m, c2) \<Rightarrow> (Some m, c2))
           | Inr info \<Rightarrow> (None, c1\<lparr>d_info := info, d_nspid := strconv_Itoa (di_Pid info)\<rparr>)))"

definition docker_Stop :: "'d docker_client \<Rightarrow> 'd dockerContainer \<Rightarrow> goerror \<times> 'd dockerContainer" where
  "docker_Stop cl c = docker_call cl (dk_Kill cl) c"

definition docker_Pause :: "'d docker_client \<Rightarrow> 'd dockerContainer \<Rightarrow> goerror \<times> 'd dockerContainer" where
  "docker_Pause cl c = docker_call cl (dk_Pause cl) c"

definition docker_Unpause :: "'d docker_client \<Rightarrow> 'd dockerContainer \<Rightarrow> goerror \<times> 'd dockerContainer" where
  "docker_Unpause cl c = docker_call cl (dk_Unpause cl) c"

definition docker_Remove :: "'d docker_client \<Rightarrow> 'd dockerContainer \<Rightarrow> goerror \<times> 'd dockerContainer" where
  "docker_Remove cl c =
     (case dk_removeAll cl (path_Join [d_hostDir c, ''ol.sock'']) of
        Some e \<Rightarrow> (Some e, c)
      | None \<Rightarrow>
          (case dk_removeAll cl (path_Join [d_hostDir c, ''fs.sock'']) of
             Some e \<Rightarrow> (Some e, c)
           | None \<Rightarrow> docker_call cl (dk_Remove cl) c))"

definition docker_CGroupEnter :: "'d docker_client \<Rightarrow> string \<Rightarrow> 'd dockerContainer \<Rightarrow> goerror" where
  "docker_CGroupEnter cl pid c =
     dk_cgclassify cl
       (''memory,cpu,devices,perf_event,cpuset,blkio,pids,freezer,net_cls,net_prio,hugetlb'' @ '':/docker/'' @ d_ID c) pid"

definition docker_RunServer :: "'d docker_client \<Rightarrow> 'd dockerContainer \<Rightarrow> goerror \<times> 'd dockerContainer" where
  "docker_RunServer cl c =
     (let cmd = [''python'', ''server.py''] @ (if d_cache c then [''--cache''] else []) in
      case dk_CreateExec cl (d_ID c) cmd (d_daemon c) of
        (Inl e, d) \<Rightarrow> (Some e, c\<lparr>d_daemon := d\<rparr>)
      | (Inr ex, d) \<Rightarrow> (case dk_StartExec cl ex d of (e, d1) \<Rightarrow> (e, c\<lparr>d_daemon := d1\<rparr>)))"

definition docker_MemoryCGroupPath :: "'d dockerContainer \<Rightarrow> string" where
  "docker_MemoryCGroupPath c = ''/sys/fs/cgroup/memory/docker/'' @ d_ID c @ ''/''"

text \<open>
  The methods as a \<open>Container\<close>.  What \<open>State\<close> caches is only read after another inspection, so the
  interface's \<open>State\<close> drops it.
\<close>

definition docker_container :: "'d docker_client \<Rightarrow> 'd dockerContainer container" where
  "docker_container cl =
     \<lparr>c_Start = (\<lambda>c. case docker_Start cl c of (e, c1) \<Rightarrow> (Ret e, c1)), c_Stop = docker_Stop cl,
      c_Pause = docker_Pause cl, c_Unpause = docker_Unpause cl, c_Remove = docker_Remove cl,
      c_State = (\<lambda>c. fst (docker_State cl c)), c_Channel = docker_Channel, c_ID = d_host_id,
      c_RunServer = (\<lambda>c. case docker_RunServer cl c of (e, c1) \<Rightarrow> (Ret e, c1)),
      c_MemoryCGroupPath = docker_MemoryCGroupPath, c_HostDir = d_hostDir\<rparr>"

subsection \<open>The factory\<close>

record docker_options =
  do_Cmd :: "string list"
  do_Image :: string
  do_Labels :: "(string \<times> string) list"
  do_Binds :: "string list"
  do_CapAdd :: "string list"
  do_PidMode :: string
  do_Runtime :: string

record dockerFactory =
  df_labels :: "(string \<times> string) list"
  df_caps :: "string list"
  df_pidMode :: string
  df_pkgsDir :: string
  df_idx :: int
  df_cache :: bool
  df_runtime :: string

definition NewDockerContainerFactory ::
  "goerror \<Rightarrow> string \<Rightarrow> string \<Rightarrow> string \<Rightarrow> string list \<Rightarrow> (string \<times> string) list \<Rightarrow> bool \<Rightarrow> string + dockerFactory" where
  "NewDockerContainerFactory client_err pkgs_dir runtime pidMode caps labels cache =
     (case client_err of
        Some e \<Rightarrow> Inl e
      | None \<Rightarrow> Inr \<lparr>df_labels = labels, df_caps = caps, df_pidMode = pidMode, df_pkgsDir = pkgs_dir,
                      df_idx = - 1, df_cache = cache, df_runtime = runtime\<rparr>)"

definition docker_volumes :: "dockerFactory \<Rightarrow> string \<Rightarrow> string \<Rightarrow> string list" where
  "docker_volumes df handlerDir hostDir =
     [hostDir @ '':/host'', df_pkgsDir df @ '':/packages:ro''] @
     (if handlerDir \<noteq> [] then [handlerDir @ '':/handler:ro''] else [])"

definition docker_Create ::
  "(string \<Rightarrow> goerror) \<Rightarrow> (string \<Rightarrow> goerror) \<Rightarrow> (docker_options \<Rightarrow> string + (string \<times> docker_info \<times> 'd)) \<Rightarrow>
   string \<Rightarrow> string \<Rightarrow> dockerFactory \<Rightarrow> (string + 'd dockerContainer) \<times> dockerFactory" where
  "docker_Create mkdirAll mkfifo createContainer handlerDir workingDir df =
     (let df1 = df\<lparr>df_idx := df_idx df + 1\<rparr>;
          cid = strconv_Itoa (df_idx df1);
          hostDir = path_Join [workingDir, cid]
      in case mkdirAll hostDir of
           Some e \<Rightarrow> (Inl e, df1)
         | None \<Rightarrow>
             (case mkfifo (path_Join [hostDir, ''server_pipe'']) of
                Some e \<Rightarrow> (Inl e, df1)
              | None \<Rightarrow>
                  (case createContainer
                          \<lparr>do_Cmd = [''/spin''], do_Image = ''lambda'', do_Labels = df_labels df,
                           do_Binds = docker_volumes df handlerDir hostDir, do_CapAdd = df_caps df,
                           do_PidMode = df_pidMode df, do_Runtime = df_runtime df\<rparr> of
                     Inl e \<Rightarrow> (Inl e, df1)
                   | Inr (dockerID, info, d) \<Rightarrow>
                       (Inr (NewDockerContainer cid hostDir (df_cache df) dockerID info d), df1))))"

subsection \<open>The choice of the factory\<close>

datatype factory_spec =
  DockerSpec string "string list" "(string \<times> string) list" bool
| SockSpec string string string "string list"

definition cluster_labels :: "string \<Rightarrow> string \<Rightarrow> (string \<times> string) list" where
  "cluster_labels cluster typ = [(''ol.cluster'', cluster), (''ol.type'', typ)]"

text \<open>The arguments \<open>NewDockerContainerFactory\<close> or \<open>NewSOCKContainerFactory\<close> is called with.\<close>

definition sock_spec :: "byte list \<times> goerror \<Rightarrow> string \<Rightarrow> string \<Rightarrow> string \<Rightarrow> string list \<Rightarrow> string + factory_spec" where
  "sock_spec random dir cgroup flags args =
     (case UUID (fst random) (snd random) of
        (u, Some e) \<Rightarrow> Inl (''failed to generate uuid :: '' @ e)
      | (u, None) \<Rightarrow> Inr (SockSpec (dir @ ''-'' @ u) cgroup flags args))"

definition InitCacheContainerFactory :: "byte list \<times> goerror \<Rightarrow> string \<Rightarrow> string \<Rightarrow> string + factory_spec" where
  "InitCacheContainerFactory random sandbox cluster =
     (if sandbox = ''docker''
      then Inr (DockerSpec ''host'' [''SYS_ADMIN''] (cluster_labels cluster ''cache'') True)
      else if sandbox = ''sock''
      then sock_spec random ''/tmp/olcache'' ''cache'' ''-iu'' [''--cache'']
      else Inl (''invalid sandbox type: '' @ [CHR 0x27] @ sandbox @ [CHR 0x27]))"

definition InitHandlerContainerFactory :: "byte list \<times> goerror \<Rightarrow> string \<Rightarrow> string \<Rightarrow> string + factory_spec" where
  "InitHandlerContainerFactory random sandbox cluster =
     (if sandbox = ''docker''
      then Inr (DockerSpec [] [] (cluster_labels cluster ''handler'') False)
      else if sandbox = ''sock''
      then sock_spec random ''/tmp/olhandlers'' ''handlers'' ''-ipu'' []
      else Inl (''invalid sandbox type: '' @ [CHR 0x27] @ sandbox @ [CHR 0x27]))"

subsection \<open>Docker helpers\<close>

text \<open>\<open>fmt.Errorf\<close> prints an argument that has no verb in the format with its type.\<close>

definition fmt_extra :: "'d docker_client \<Rightarrow> string \<Rightarrow> string" where
  "fmt_extra cl e = ''%!(EXTRA '' @ dk_errType cl e @ ''='' @ e @ '')''"

definition SafeKill :: "'d docker_client \<Rightarrow> string \<Rightarrow> 'd \<Rightarrow> goerror \<times> 'd" where
  "SafeKill cl cid d =
     (case dk_Inspect cl cid d of
        Inl e \<Rightarrow> (Some (''failed to get inspect docker container ID '' @ cid @ '': '' @ fmt_extra cl e), d)
      | Inr info \<Rightarrow>
          if di_Dead info then (None, d)
          else
            (case (if di_Paused info then dk_Unpause cl cid d else (None, d)) of
               (Some e, d1) \<Rightarrow> (Some (''failed to unpause container '' @ cid @ ''.  May require manual cleanup: '' @ fmt_extra cl e), d1)
             | (None, d1) \<Rightarrow>
                 (case dk_Kill cl cid d1 of
                    (Some e, d2) \<Rightarrow> (Some (''failed to kill container '' @ cid @ ''.  May require manual cleanup: '' @ fmt_extra cl e), d2)
                  | (None, d2) \<Rightarrow> (None, d2))))"

definition SafeRemove :: "'d docker_client \<Rightarrow> string \<Rightarrow> 'd \<Rightarrow> goerror \<times> 'd" where
  "SafeRemove cl cid d =
     (case SafeKill cl cid d of
        (Some e, d1) \<Rightarrow> (Some e, d1)
      | (None, d1) \<Rightarrow>
          (case dk_Remove cl cid d1 of
             (Some e, d2) \<Rightarrow> (Some (''failed to remove container '' @ cid @ ''.  May require manual cleanup: '' @ fmt_extra cl e), d2)
           | (None, d2) \<Rightarrow> (None, d2)))"

datatype image_error = ErrNoSuchImage | ImageError string

definition ImageExists :: "image_error option \<Rightarrow> bool \<times> goerror" where
  "ImageExists inspect_err =
     (case inspect_err of
        Some ErrNoSuchImage \<Rightarrow> (False, None)
      | Some (ImageError e) \<Rightarrow> (False, Some e)
      | None \<Rightarrow> (True, None))"

text \<open>
  \<open>DumpDockerImage\<close> on the file system \<open>'s\<close>: the export and \<open>tar\<close> run side by side and both are waited
  for; the error of the export comes first.  What \<open>tar\<close> unpacks is an argument.
\<close>

definition DumpDockerImage ::
  "(string \<Rightarrow> 's \<Rightarrow> goerror \<times> 's) \<Rightarrow> (string \<Rightarrow> 's \<Rightarrow> 's) \<Rightarrow> goerror \<Rightarrow> goerror \<Rightarrow> goerror \<Rightarrow> string \<Rightarrow> 's \<Rightarrow> goerror \<times> 's" where
  "DumpDockerImage mkdir untar pipe_err export_err tar_err outdir s =
     (case mkdir outdir s of
        (Some e, s1) \<Rightarrow> (Some e, s1)
      | (None, s1) \<Rightarrow>
          if pipe_err \<noteq> None then (pipe_err, s1)
          else
            let s2 = untar outdir s1 in
            if export_err \<noteq> None then (export_err, s2)
            else if tar_err \<noteq> None then (tar_err, s2)
            else
              (case mkdir (path_Join [outdir, ''handler'']) s2 of
                 (Some e, s3) \<Rightarrow> (Some e, s3)
               | (None, s3) \<Rightarrow>
                   (case mkdir (path_Join [outdir, ''host'']) s3 of
                      (Some e, s4) \<Rightarrow> (Some e, s4)
                    | (None, s4) \<Rightarrow> mkdir (path_Join [outdir, ''packages'']) s4)))"

subsection \<open>Containers of a daemon that keeps to its documentation\<close>

text \<open>
  What the Docker Engine documents of the calls: a call that fails changes nothing, pausing and
  unpausing that succeed leave the container running and paused or not, a paused container can be
  unpaused, a running one that is not paused can be killed, one that does not run cannot be killed but
  can be removed.
\<close>

definition unpaused_run :: "docker_info \<Rightarrow> bool" where
  "unpaused_run i \<longleftrightarrow> di_Running i \<and> \<not> di_Paused i"

definition calls_atomic :: "'d docker_client \<Rightarrow> bool" where
  "calls_atomic cl \<longleftrightarrow>
     (\<forall>cid d e d'. dk_Pause cl cid d = (Some e, d') \<or> dk_Unpause cl cid d = (Some e, d') \<or> dk_Kill cl cid d = (Some e, d')
        \<longrightarrow> dk_Inspect cl cid d' = dk_Inspect cl cid d)"

definition daemon_ok :: "'d docker_client \<Rightarrow> bool" where
  "daemon_ok cl \<longleftrightarrow> calls_atomic cl \<and>
     (\<forall>cid d d'. dk_Pause cl cid d = (None, d') \<longrightarrow>
        (\<exists>i. dk_Inspect cl cid d' = Inr i \<and> di_Running i \<and> di_Paused i)) \<and>
     (\<forall>cid d d'. dk_Unpause cl cid d = (None, d') \<longrightarrow> (\<exists>i. dk_Inspect cl cid d' = Inr i \<and> unpaused_run i)) \<and>
     (\<forall>cid d i. dk_Inspect cl cid d = Inr i \<and> di_Running i \<and> di_Paused i \<longrightarrow> (\<exists>d'. dk_Unpause cl cid d = (None, d'))) \<and>
     (\<forall>cid d i. dk_Inspect cl cid d = Inr i \<and> unpaused_run i \<longrightarrow>
        (\<exists>d' i'. dk_Kill cl cid d = (None, d') \<and> dk_Inspect cl cid d' = Inr i' \<and> \<not> di_Running i')) \<and>
     (\<forall>cid d i. dk_Inspect cl cid d = Inr i \<and> \<not> di_Running i \<longrightarrow>
        (\<exists>e d'. dk_Kill cl cid d = (Some e, d')) \<and>
        (\<exists>d' e. dk_Remove cl cid d = (None, d') \<and> dk_Inspect cl cid d' = Inl e))"

lemma daemon_laws:
  assumes "daemon_ok cl"
  shows daemon_atomic: "calls_atomic cl"
    and daemon_pause: "dk_Pause cl cid d = (None, d') \<Longrightarrow> \<exists>i. dk_Inspect cl cid d' = Inr i \<and> di_Running i \<and> di_Paused i"
    and daemon_unpause: "dk_Unpause cl cid d = (None, d') \<Longrightarrow> \<exists>i. dk_Inspect cl cid d' = Inr i \<and> unpaused_run i"
    and daemon_can_unpause: "dk_Inspect cl cid d = Inr i \<Longrightarrow> di_Running i \<Longrightarrow> di_Paused i \<Longrightarrow> \<exists>d'. dk_Unpause cl cid d = (None, d')"
    and daemon_kill: "dk_Inspect cl cid d = Inr i \<Longrightarrow> unpaused_run i \<Longrightarrow>
        \<exists>d' i'. dk_Kill cl cid d = (None, d') \<and> dk_Inspect cl cid d' = Inr i' \<and> \<not> di_Running i'"
    and daemon_no_kill: "dk_Inspect cl cid d = Inr i \<Longrightarrow> \<not> di_Running i \<Longrightarrow> \<exists>e d'. dk_Kill cl cid d = (Some e, d')"
    and daemon_remove: "dk_Inspect cl cid d = Inr i \<Longrightarrow> \<not> di_Running i \<Longrightarrow>
        \<exists>d' e. dk_Remove cl cid d = (None, d') \<and> dk_Inspect cl cid d' = Inl e"
  using assms unfolding daemon_ok_def by blast+

text \<open>What is inspected of a container, and what a call leaves of it.\<close>

abbreviation inspected :: "'d docker_client \<Rightarrow> 'd dockerContainer \<Rightarrow> string + docker_info" where
  "inspected cl c \<equiv> dk_Inspect cl (d_ID c) (d_daemon c)"

lemma InspectUpdate_keeps [simp]:
  "d_ID (snd (InspectUpdate cl c)) = d_ID c" "d_daemon (snd (InspectUpdate cl c)) = d_daemon c"
  "d_hostDir (snd (InspectUpdate cl c)) = d_hostDir c"
  by (simp_all add: InspectUpdate_def split: sum.splits)

lemma dockerError_keeps [simp]:
  "d_ID (snd (dockerError cl m c)) = d_ID c" "d_daemon (snd (dockerError cl m c)) = d_daemon c"
  "d_hostDir (snd (dockerError cl m c)) = d_hostDir c"
  by (simp_all add: dockerError_def Let_def split_beta)

lemma docker_call_keeps [simp]:
  "d_ID (snd (docker_call cl f c)) = d_ID c" "d_daemon (snd (docker_call cl f c)) = snd (f (d_ID c) (d_daemon c))"
  "d_hostDir (snd (docker_call cl f c)) = d_hostDir c"
  by (simp_all add: docker_call_def split_beta split: option.splits)

lemma docker_call_error: "fst (docker_call cl f c) = None \<longleftrightarrow> fst (f (d_ID c) (d_daemon c)) = None"
  by (simp add: docker_call_def split_beta split: option.splits)

lemma docker_State_inspected:
  "fst (docker_State cl c) =
     map_sum id (\<lambda>i. if di_Running i then if di_Paused i then Paused else Running else Stopped) (inspected cl c)"
  by (simp add: docker_State_def InspectUpdate_def split: sum.splits)

lemma docker_call_ok:
  "docker_call cl f c = (None, c') \<Longrightarrow> f (d_ID c) (d_daemon c) = (None, d_daemon c') \<and> d_ID c' = d_ID c"
  using docker_call_error [of cl f c] docker_call_keeps [of cl f c] by (simp add: prod_eq_iff)

lemma docker_call_failed:
  "docker_call cl f c = (Some e, c') \<Longrightarrow> \<exists>e'. f (d_ID c) (d_daemon c) = (Some e', d_daemon c') \<and> d_ID c' = d_ID c"
  using docker_call_error [of cl f c] docker_call_keeps [of cl f c] by (auto simp: prod_eq_iff)

lemma docker_container_contract:
  assumes "daemon_ok cl"
  shows "container_contract (docker_container cl)"
proof
  fix c c' :: "'a dockerContainer" and e
  show "c_State (docker_container cl) c' = Inr Paused" if "c_Pause (docker_container cl) c = (None, c')"
    using that daemon_pause [OF assms]
    by (fastforce simp: docker_container_def docker_Pause_def docker_State_inspected dest: docker_call_ok)
  show "c_State (docker_container cl) c' = Inr Running" if "c_Unpause (docker_container cl) c = (None, c')"
    using that daemon_unpause [OF assms]
    by (fastforce simp: docker_container_def docker_Unpause_def docker_State_inspected unpaused_run_def dest: docker_call_ok)
  show "c_State (docker_container cl) c' = c_State (docker_container cl) c"
    if "c_Pause (docker_container cl) c = (Some e, c')"
    using that daemon_atomic [OF assms] unfolding calls_atomic_def
    by (fastforce simp: docker_container_def docker_Pause_def docker_State_inspected dest: docker_call_failed)
  show "c_MemoryCGroupPath (docker_container cl) (snd (c_Pause (docker_container cl) c)) =
      c_MemoryCGroupPath (docker_container cl) c"
    by (simp add: docker_container_def docker_MemoryCGroupPath_def docker_Pause_def)
qed

text \<open>Unpausing, killing and removing, whatever state the container is in and whatever errors come up.\<close>

lemma docker_unpaused:
  assumes "daemon_ok cl" and "inspected cl c = Inr i"
  shows "\<exists>i'. inspected cl (snd (docker_Unpause cl c)) = Inr i' \<and> (di_Running i' \<longrightarrow> unpaused_run i')"
proof (cases "dk_Unpause cl (d_ID c) (d_daemon c)")
  case (Pair e d')
  show ?thesis
  proof (cases e)
    case None
    with Pair daemon_unpause [OF assms(1), of "d_ID c" "d_daemon c" d'] show ?thesis
      by (auto simp: docker_Unpause_def)
  next
    case (Some m)
    with Pair have "\<not> (di_Running i \<and> di_Paused i)"
      using daemon_can_unpause [OF assms(1,2)] by auto
    moreover have "dk_Inspect cl (d_ID c) d' = Inr i"
      using daemon_atomic [OF assms(1)] Pair Some assms(2) unfolding calls_atomic_def by auto
    ultimately show ?thesis using Pair by (simp add: docker_Unpause_def unpaused_run_def)
  qed
qed

lemma docker_killed:
  assumes "daemon_ok cl" and "inspected cl c = Inr i" and "di_Running i \<longrightarrow> unpaused_run i"
  shows "\<exists>i'. inspected cl (snd (docker_Stop cl c)) = Inr i' \<and> \<not> di_Running i'"
proof (cases "di_Running i")
  case True
  with assms(3) daemon_kill [OF assms(1,2)] show ?thesis by (auto simp: docker_Stop_def)
next
  case False
  with daemon_no_kill [OF assms(1,2)] obtain e d' where k: "dk_Kill cl (d_ID c) (d_daemon c) = (Some e, d')" by blast
  then have "dk_Inspect cl (d_ID c) d' = Inr i"
    using daemon_atomic [OF assms(1)] assms(2) unfolding calls_atomic_def by auto
  with False k show ?thesis by (simp add: docker_Stop_def)
qed

text \<open>A daemon with one container, for the witnesses: \<open>None\<close> once it is removed.\<close>

definition one_call ::
  "(docker_info \<Rightarrow> bool) \<Rightarrow> (docker_info \<Rightarrow> docker_info option) \<Rightarrow> string \<Rightarrow> docker_info option \<Rightarrow> goerror \<times> docker_info option" where
  "one_call ok step cid d =
     (case d of
        None \<Rightarrow> (Some ''No such container'', None)
      | Some i \<Rightarrow> if ok i then (None, step i) else (Some ''conflict'', d))"

definition one_daemon :: "docker_info option docker_client" where
  "one_daemon =
     \<lparr>dk_Inspect = (\<lambda>cid d. case d of None \<Rightarrow> Inl ''No such container'' | Some i \<Rightarrow> Inr i),
      dk_Start = one_call (\<lambda>i. \<not> di_Running i) (\<lambda>i. Some (i\<lparr>di_Running := True, di_Pid := 17\<rparr>)),
      dk_Kill = one_call (\<lambda>i. di_Running i \<and> \<not> di_Paused i) (\<lambda>i. Some (i\<lparr>di_Running := False\<rparr>)),
      dk_Pause = one_call (\<lambda>i. di_Running i \<and> \<not> di_Paused i) (\<lambda>i. Some (i\<lparr>di_Paused := True\<rparr>)),
      dk_Unpause = one_call (\<lambda>i. di_Running i \<and> di_Paused i) (\<lambda>i. Some (i\<lparr>di_Paused := False\<rparr>)),
      dk_Remove = one_call (\<lambda>i. \<not> di_Running i) (\<lambda>i. None),
      dk_CreateExec = (\<lambda>cid cmd d. (Inr ''exec'', d)), dk_StartExec = (\<lambda>ex d. (None, d)),
      dk_StateString = (\<lambda>i. ''state''), dk_readFile = (\<lambda>f. Inl ''no file''), dk_removeAll = (\<lambda>f. None),
      dk_errType = (\<lambda>e. ''*docker.Error''), dk_cgclassify = (\<lambda>g pid. None)\<rparr>"

lemma one_daemon_ok: "daemon_ok one_daemon"
  by (auto simp: daemon_ok_def calls_atomic_def unpaused_run_def one_daemon_def one_call_def
      split: option.splits if_splits)

definition one_box :: "bool \<Rightarrow> bool \<Rightarrow> docker_info option dockerContainer" where
  "one_box running paused =
     (let i = \<lparr>di_Running = running, di_Paused = paused, di_Dead = False, di_Pid = 17\<rparr>
      in NewDockerContainer ''0'' ''/w/0'' False ''c0ffee'' i (Some i))"

text \<open>
  C27.  On a daemon that keeps to its documentation, Docker containers fulfil the contract the handlers
  rely on, and the clean-up of a handler (\<open>nuke\<close>: unpause, stop, remove, errors ignored) gets rid of the
  container whatever state it is in, provided its sockets can be deleted.
\<close>

theorem docker_implements_container:
  assumes "daemon_ok cl" and "\<forall>f. dk_removeAll cl f = None" and "inspected cl c = Inr i"
  shows "container_contract (docker_container cl) \<and> (\<exists>e. inspected cl (nuke_container (docker_container cl) c) = Inl e)"
proof
  let ?c1 = "snd (docker_Unpause cl c)"
  let ?c2 = "snd (docker_Stop cl ?c1)"
  obtain i1 where "inspected cl ?c1 = Inr i1" "di_Running i1 \<longrightarrow> unpaused_run i1"
    using docker_unpaused [OF assms(1,3)] by blast
  then obtain i2 where i2: "inspected cl ?c2 = Inr i2" "\<not> di_Running i2"
    using docker_killed [OF assms(1)] by blast
  then obtain e where "inspected cl (snd (docker_Remove cl ?c2)) = Inl e"
    using daemon_remove [OF assms(1) i2] assms(2) by (auto simp: docker_Remove_def)
  then show "\<exists>e. inspected cl (nuke_container (docker_container cl) c) = Inl e"
    by (auto simp: nuke_container_def docker_container_def)
qed (rule docker_container_contract [OF assms(1)])

theorem docker_implements_container_witness:
  "\<exists>e. inspected one_daemon (nuke_container (docker_container one_daemon) (one_box True True)) = Inl e"
proof -
  have "\<forall>f. dk_removeAll one_daemon f = None"
    and "inspected one_daemon (one_box True True) = Inr \<lparr>di_Running = True, di_Paused = True, di_Dead = False, di_Pid = 17\<rparr>"
    by (simp_all add: one_daemon_def one_box_def NewDockerContainer_def Let_def)
  from docker_implements_container [OF one_daemon_ok this] show ?thesis by blast
qed

text \<open>
  \<open>SafeRemove\<close> removes a container that runs, paused or not.  One that has exited, and is not in the
  rare dead state either, is not removed: the kill it tries first fails, and the function returns that
  error, with its argument printed as an extra one.
\<close>

theorem SafeRemove_needs_running:
  assumes "daemon_ok cl" and "dk_Inspect cl cid d = Inr i" and "\<not> di_Dead i"
  shows "(di_Running i \<longrightarrow> (\<exists>d' e. SafeRemove cl cid d = (None, d') \<and> dk_Inspect cl cid d' = Inl e)) \<and>
         (\<not> di_Running i \<and> \<not> di_Paused i \<longrightarrow>
            (\<exists>e d'. SafeRemove cl cid d =
               (Some (''failed to kill container '' @ cid @ ''.  May require manual cleanup: '' @ fmt_extra cl e), d') \<and>
               dk_Inspect cl cid d' = Inr i))"
proof (intro conjI impI)
  assume run: "di_Running i"
  have "\<exists>d1 i1. (if di_Paused i then dk_Unpause cl cid d else (None, d)) = (None, d1) \<and>
      dk_Inspect cl cid d1 = Inr i1 \<and> unpaused_run i1"
    using daemon_can_unpause [OF assms(1,2) run] daemon_unpause [OF assms(1)] assms(2) run
    by (fastforce simp: unpaused_run_def)
  then obtain d1 i1 where u: "(if di_Paused i then dk_Unpause cl cid d else (None, d)) = (None, d1)"
      and i1: "dk_Inspect cl cid d1 = Inr i1" "unpaused_run i1" by blast
  obtain d2 i2 where k: "dk_Kill cl cid d1 = (None, d2)" and i2: "dk_Inspect cl cid d2 = Inr i2" "\<not> di_Running i2"
    using daemon_kill [OF assms(1) i1] by blast
  show "\<exists>d' e. SafeRemove cl cid d = (None, d') \<and> dk_Inspect cl cid d' = Inl e"
    using daemon_remove [OF assms(1) i2] assms(2,3) u k by (auto simp: SafeRemove_def SafeKill_def)
next
  assume exited: "\<not> di_Running i \<and> \<not> di_Paused i"
  then obtain e d' where k: "dk_Kill cl cid d = (Some e, d')"
    using daemon_no_kill [OF assms(1,2)] by blast
  then have "dk_Inspect cl cid d' = Inr i"
    using daemon_atomic [OF assms(1)] assms(2) unfolding calls_atomic_def by auto
  with k exited assms(2,3) show "\<exists>e d'. SafeRemove cl cid d =
      (Some (''failed to kill container '' @ cid @ ''.  May require manual cleanup: '' @ fmt_extra cl e), d') \<and>
      dk_Inspect cl cid d' = Inr i"
    by (auto simp: SafeRemove_def SafeKill_def)
qed

theorem SafeRemove_needs_running_witness:
  "let i = \<lparr>di_Running = False, di_Paused = False, di_Dead = False, di_Pid = 0\<rparr>
   in fst (SafeRemove one_daemon ''c0ffee'' (Some i)) \<noteq> None"
proof -
  have "dk_Inspect one_daemon ''c0ffee'' (Some \<lparr>di_Running = False, di_Paused = False, di_Dead = False, di_Pid = 0\<rparr>)
      = Inr \<lparr>di_Running = False, di_Paused = False, di_Dead = False, di_Pid = 0\<rparr>"
    by (simp add: one_daemon_def)
  from SafeRemove_needs_running [OF one_daemon_ok this] show ?thesis by auto
qed

end
