(* ===== verification/ClusterFS.thy ===== *)
theory ClusterFS
  imports WorkerConfig LoadBalancer "HOL-Library.AList" "HOL-Library.List_Lexorder" "HOL-Library.Char_ord"
begin

text \<open>
  The files of a cluster, as far as the admin tool uses them: directories and files by their cleaned
  absolute path.  A JSON file is kept as the value that was encoded; the fields that are not encoded
  (the path of a worker's configuration, the counters of a proxy) come back as zero.  Every operation
  can also fail for a reason of its own (permissions, disk), by the argument \<open>ioerr\<close>.
\<close>

datatype content = Text string | WorkerJson config | ProxyJson proxy

datatype fnode = Dir | File content

type_synonym fs = "(string \<times> fnode) list"

definition no_entry :: "string \<Rightarrow> string \<Rightarrow> string" where
  "no_entry call p = call @ '' '' @ p @ '': no such file or directory''"

definition os_Mkdir :: "(string \<Rightarrow> goerror) \<Rightarrow> string \<Rightarrow> fs \<Rightarrow> goerror \<times> fs" where
  "os_Mkdir ioerr p f =
     (if ioerr p \<noteq> None then (ioerr p, f)
      else if map_of f p \<noteq> None then (Some (''mkdir '' @ p @ '': file exists''), f)
      else if map_of f (path_Dir p) \<noteq> Some Dir then (Some (no_entry ''mkdir'' p), f)
      else (None, AList.update p Dir f))"

definition ioutil_WriteFile :: "(string \<Rightarrow> goerror) \<Rightarrow> string \<Rightarrow> content \<Rightarrow> fs \<Rightarrow> goerror \<times> fs" where
  "ioutil_WriteFile ioerr p c f =
     (if ioerr p \<noteq> None then (ioerr p, f)
      else if map_of f p = Some Dir then (Some (''open '' @ p @ '': is a directory''), f)
      else if map_of f (path_Dir p) \<noteq> Some Dir then (Some (no_entry ''open'' p), f)
      else (None, AList.update p (File c) f))"

definition ioutil_ReadFile :: "(string \<Rightarrow> goerror) \<Rightarrow> fs \<Rightarrow> string \<Rightarrow> string + content" where
  "ioutil_ReadFile ioerr f p =
     (case ioerr p of
        Some e \<Rightarrow> Inl e
      | None \<Rightarrow>
          (case map_of f p of
             None \<Rightarrow> Inl (no_entry ''open'' p)
           | Some Dir \<Rightarrow> Inl (''read '' @ p @ '': is a directory'')
           | Some (File c) \<Rightarrow> Inr c))"

text \<open>\<open>ioutil.ReadDir\<close> gives the names in a directory in order.\<close>

definition base_name :: "string \<Rightarrow> string" where
  "base_name p = last (strings_Split slash p)"

definition dir_names :: "fs \<Rightarrow> string \<Rightarrow> string list" where
  "dir_names f d = sort (map base_name (filter (\<lambda>q. path_Dir q = d \<and> q \<noteq> d) (remdups (map fst f))))"

definition ioutil_ReadDir :: "(string \<Rightarrow> goerror) \<Rightarrow> fs \<Rightarrow> string \<Rightarrow> string + string list" where
  "ioutil_ReadDir ioerr f d =
     (case ioerr d of
        Some e \<Rightarrow> Inl e
      | None \<Rightarrow> if map_of f d = Some Dir then Inr (dir_names f d) else Inl (no_entry ''open'' d))"

subsection \<open>Paths below a cleaned one\<close>

definition plain_comp :: "string \<Rightarrow> bool" where
  "plain_comp w \<longleftrightarrow> w \<noteq> [] \<and> slash \<notin> set w \<and> w \<noteq> ''.'' \<and> w \<noteq> ''..''"

definition abs_path :: "string list \<Rightarrow> string" where
  "abs_path ws = concat (map (\<lambda>w. slash # w) ws)"

lemma abs_path_simps [simp]: "abs_path [] = []" "abs_path (w # ws) = slash # w @ abs_path ws"
  by (simp_all add: abs_path_def)

lemma abs_path_append: "abs_path (us @ ws) = abs_path us @ abs_path ws"
  by (simp add: abs_path_def)

lemma split_abs_path:
  assumes "\<forall>w \<in> set ws. slash \<notin> set w"
  shows "strings_Split slash (abs_path ws) = [] # ws"
proof -
  have "strings_Split slash (u @ abs_path ws) = u # ws" if "slash \<notin> set u" for u
    using assms that
    by (induction ws arbitrary: u) (simp_all add: strings_Split_word strings_Split_append)
  from this [of "[]"] show ?thesis by simp
qed

lemma foldl_clean_plain:
  "\<forall>w \<in> set ws. plain_comp w \<Longrightarrow> foldl (clean_comp b) st ws = rev ws @ st"
  by (induction ws arbitrary: st) (simp_all add: plain_comp_def)

lemma abs_path_join: "ws \<noteq> [] \<Longrightarrow> slash # strings_Join ''/'' ws = abs_path ws"
proof (induction ws rule: induct_list012)
  case (3 u v ws)
  then show ?case by (simp add: strings_Join_Cons)
qed simp_all

lemma path_Clean_abs_path:
  assumes "\<forall>w \<in> set ws. plain_comp w" and "ws \<noteq> []"
  shows "path_Clean (abs_path ws) = abs_path ws"
proof -
  have "path_IsAbs (abs_path ws)" using assms(2) by (cases ws) simp_all
  moreover have "strings_Split slash (abs_path ws) = [] # ws"
    using assms(1) by (intro split_abs_path) (auto simp: plain_comp_def)
  moreover have "abs_path ws \<noteq> []" using assms(2) by (cases ws) simp_all
  ultimately show ?thesis
    using assms abs_path_join [OF assms(2)] by (simp add: path_Clean_def Let_def foldl_clean_plain)
qed

text \<open>The root of the cluster and the names below it are plain: joining is appending.\<close>

lemma strings_Join_abs_path:
  "us \<noteq> [] \<Longrightarrow> strings_Join ''/'' (abs_path us # ws) = abs_path (us @ ws)"
proof (cases "ws = []")
  case False
  then show ?thesis by (simp add: strings_Join_Cons abs_path_append abs_path_join)
qed simp

lemma path_Join_abs_path:
  assumes "\<forall>w \<in> set us. plain_comp w" and "us \<noteq> []" and "\<forall>w \<in> set ws. plain_comp w"
  shows "path_Join (abs_path us # ws) = abs_path (us @ ws)"
proof -
  have "abs_path us \<noteq> []" using assms(2) by (cases us) simp_all
  moreover have "path_Clean (abs_path (us @ ws)) = abs_path (us @ ws)"
    using assms by (intro path_Clean_abs_path) auto
  ultimately show ?thesis using assms(2) by (simp add: path_Join.simps strings_Join_abs_path)
qed

lemma path_Dir_abs_path:
  assumes "\<forall>w \<in> set us. plain_comp w" and "us \<noteq> []" and "plain_comp w"
  shows "path_Dir (abs_path (us @ [w])) = abs_path us"
proof -
  have w: "slash \<notin> set w" using assms(3) by (simp add: plain_comp_def)
  then have "dropWhile (\<lambda>c. c \<noteq> slash) (rev (abs_path (us @ [w]))) = slash # rev (abs_path us)"
    by (auto simp: abs_path_append dropWhile_append)
  then have d: "path_Dir (abs_path (us @ [w])) = path_Clean (abs_path us @ ''/'')"
    by (simp add: path_Dir_def)
  have split: "strings_Split slash (abs_path us @ ''/'') = [] # us @ [[]]"
    using split_abs_path [of "us @ [[]]"] assms(1) by (auto simp: abs_path_append plain_comp_def)
  have "path_IsAbs (abs_path us @ ''/'')" using assms(2) by (cases us) simp_all
  then have "path_Clean (abs_path us @ ''/'') = slash # strings_Join ''/'' us"
    using assms(1) by (simp add: path_Clean_def Let_def split foldl_clean_plain)
  then show ?thesis using d abs_path_join [OF assms(2)] by simp
qed

lemma abs_path_inj:
  assumes "\<forall>w \<in> set us. plain_comp w" and "\<forall>w \<in> set ws. plain_comp w" and "abs_path us = abs_path ws"
  shows "us = ws"
proof -
  have "strings_Split slash (abs_path us) = [] # us" "strings_Split slash (abs_path ws) = [] # ws"
    using assms(1,2) by (simp_all add: split_abs_path plain_comp_def)
  with assms(3) show ?thesis by (metis list.inject)
qed

lemma base_name_abs_path: "\<forall>w \<in> set us. plain_comp w \<Longrightarrow> us \<noteq> [] \<Longrightarrow> base_name (abs_path us) = last us"
  by (simp add: base_name_def split_abs_path plain_comp_def)

end
