(* ===== verification/Admin.thy ===== *)
theory Admin
  imports ClusterFS DockerContainer
begin

text \<open>
  The admin tool (\<open>worker/admin/main.go\<close>): one function per command, on the files of the clusters, the
  Docker daemon and the processes that were started and signalled.  A command ends with its error, exits
  (\<open>log.Fatal\<close>) or panics.  What it prints is left out, except for \<open>status\<close>.  The Docker client, the object
  store, processes and the decoding of files that were not written by the tool are arguments.
\<close>

record container_info =
  ci_Name :: string
  ci_Image :: string
  ci_IPAddress :: string
  ci_Paused :: bool
  ci_StateString :: string

record create_options =
  co_Cmd :: "string list"
  co_Env :: "string list"
  co_Image :: string
  co_Labels :: "(string \<times> string) list"
  co_Binds :: "string list"
  co_NetworkMode :: string
  co_PortBindings :: "(string \<times> string \<times> string) list"

record 'd admin_docker =
  ad_ListContainers :: "'d \<Rightarrow> string + (string \<times> (string \<times> string) list) list"
  ad_InspectContainer :: "string \<Rightarrow> 'd \<Rightarrow> string + container_info"
  ad_InspectImage :: "string \<Rightarrow> 'd \<Rightarrow> image_error option"
  ad_PullImage :: "string \<Rightarrow> string \<Rightarrow> 'd \<Rightarrow> goerror \<times> 'd"
  ad_CreateContainer :: "create_options \<Rightarrow> 'd \<Rightarrow> (string + string) \<times> 'd"
  ad_StartContainer :: "string \<Rightarrow> 'd \<Rightarrow> goerror \<times> 'd"
  ad_UnpauseContainer :: "string \<Rightarrow> 'd \<Rightarrow> goerror \<times> 'd"
  ad_KillContainer :: "string \<Rightarrow> 'd \<Rightarrow> goerror \<times> 'd"

datatype ping_result = NotSent | BodyError | Answered string string

record 'd admin_env =
  ae_docker :: "'d admin_docker"
  ae_arg0 :: string
  ae_getwd :: "string + string"
  ae_ioerr :: "string \<Rightarrow> goerror"
  ae_text :: "content \<Rightarrow> string"
  ae_worker :: "string \<Rightarrow> string + config"
  ae_proxy :: "string \<Rightarrow> proxy \<times> goerror"
  ae_start :: "string list \<Rightarrow> nat \<Rightarrow> string + int"
  ae_untar :: "string \<Rightarrow> fs \<Rightarrow> fs"
  ae_dump_errors :: "goerror \<times> goerror \<times> goerror"
  ae_get :: "string \<Rightarrow> ping_result"
  ae_findProcess :: "int \<Rightarrow> goerror"
  ae_signal :: "int \<Rightarrow> goerror"
  ae_merge :: "string \<Rightarrow> config \<Rightarrow> string + config"

record 'd admin =
  a_fs :: fs
  a_docker :: 'd
  a_procs :: "(int \<times> string list) list"
  a_signals :: "int list"

type_synonym 'd command = "('d admin, goerror) outcome"

subsection \<open>Steps\<close>

text \<open>A step that may fail, and what follows it if it does not.\<close>

definition and_then :: "'d command \<Rightarrow> ('d admin \<Rightarrow> 'd command) \<Rightarrow> 'd command" where
  "and_then x k = (case x of (Ret None, s) \<Rightarrow> k s | (r, s) \<Rightarrow> (r, s))"

definition mkdir :: "'d admin_env \<Rightarrow> string \<Rightarrow> 'd admin \<Rightarrow> 'd command" where
  "mkdir env p s = (case os_Mkdir (ae_ioerr env) p (a_fs s) of (e, f) \<Rightarrow> (Ret e, s\<lparr>a_fs := f\<rparr>))"

definition write_file :: "'d admin_env \<Rightarrow> string \<Rightarrow> content \<Rightarrow> 'd admin \<Rightarrow> 'd command" where
  "write_file env p c s = (case ioutil_WriteFile (ae_ioerr env) p c (a_fs s) of (e, f) \<Rightarrow> (Ret e, s\<lparr>a_fs := f\<rparr>))"

definition docker_step :: "('d \<Rightarrow> goerror \<times> 'd) \<Rightarrow> 'd admin \<Rightarrow> 'd command" where
  "docker_step f s = (case f (a_docker s) of (e, d) \<Rightarrow> (Ret e, s\<lparr>a_docker := d\<rparr>))"

fun mkdirs :: "'d admin_env \<Rightarrow> string list \<Rightarrow> 'd admin \<Rightarrow> 'd command" where
  "mkdirs env [] s = (Ret None, s)"
| "mkdirs env (p # ps) s = and_then (mkdir env p s) (mkdirs env ps)"

definition text_of :: "'d admin_env \<Rightarrow> content \<Rightarrow> string" where
  "text_of env c = (case c of Text t \<Rightarrow> t | WorkerJson _ \<Rightarrow> ae_text env c | ProxyJson _ \<Rightarrow> ae_text env c)"

subsection \<open>Configurations\<close>

text \<open>
  Decoding a file into the two kinds of configuration.  A file of the other kind has no field in common
  with the wanted one, so that all fields stay zero.
\<close>

definition decode_worker :: "'d admin_env \<Rightarrow> content \<Rightarrow> string + config" where
  "decode_worker env c =
     (case c of
        Text t \<Rightarrow> ae_worker env t
      | WorkerJson w \<Rightarrow> Inr (w\<lparr>cfg_path := []\<rparr>)
      | ProxyJson _ \<Rightarrow> Inr zero_config)"

definition decode_proxy :: "'d admin_env \<Rightarrow> content \<Rightarrow> proxy \<times> goerror" where
  "decode_proxy env c =
     (case c of
        Text t \<Rightarrow> ae_proxy env t
      | WorkerJson _ \<Rightarrow> (zero_proxy, None)
      | ProxyJson p \<Rightarrow>
          (p\<lparr>p_Connections := 0, p_RRServerIdx := 0, p_LeastLoadIdx := 0,
             p_Servers := map (\<lambda>s. s\<lparr>s_CPUUsage := Fin 0, s_MemUsage := Fin 0, s_Connections := 0\<rparr>) (p_Servers p)\<rparr>, None))"

definition parse_config :: "'d admin_env \<Rightarrow> 'd admin \<Rightarrow> string \<Rightarrow> string + config" where
  "parse_config env s = ParseConfig (ioutil_ReadFile (ae_ioerr env) (a_fs s)) (decode_worker env) (ae_getwd env)"

definition read_proxy :: "'d admin_env \<Rightarrow> 'd admin \<Rightarrow> string \<Rightarrow> proxy \<times> goerror" where
  "read_proxy env s =
     ReadConfig \<lparr>cr_read = ioutil_ReadFile (ae_ioerr env) (a_fs s), cr_yaml = decode_proxy env, cr_json = decode_proxy env\<rparr>"

definition Save :: "'d admin_env \<Rightarrow> config \<Rightarrow> string \<Rightarrow> 'd admin \<Rightarrow> 'd command" where
  "Save env c path = write_file env path (WorkerJson c)"

definition SaveConfig :: "'d admin_env \<Rightarrow> proxy \<Rightarrow> string \<Rightarrow> 'd admin \<Rightarrow> 'd command" where
  "SaveConfig env p path = write_file env path (ProxyJson p)"

subsection \<open>The cluster and its paths\<close>

definition OLCONF :: string where "OLCONF = ''/.ol.conf''"

definition parseCluster :: "'d admin_env \<Rightarrow> 'd admin \<Rightarrow> string \<Rightarrow> string res" where
  "parseCluster env s cluster =
     (let named = (if cluster = []
                   then (case ioutil_ReadFile (ae_ioerr env) (a_fs s) OLCONF of
                           Inl e \<Rightarrow> Exit (''no cluster directory specified and failed to read '' @ OLCONF)
                         | Inr buf \<Rightarrow> Ret (strings_TrimSpace (text_of env buf)))
                   else Ret cluster)
      in case named of
           Ret c \<Rightarrow> (case filepath_Abs (ae_getwd env) c of
                       Inl e \<Rightarrow> Exit (''failed to get abs cluster dir: '' @ e)
                     | Inr p \<Rightarrow> Ret p)
         | r \<Rightarrow> r)"

text \<open>A command on the cluster that is named by the flag.\<close>

definition on_cluster :: "'d admin_env \<Rightarrow> string \<Rightarrow> (string \<Rightarrow> 'd admin \<Rightarrow> 'd command) \<Rightarrow> 'd admin \<Rightarrow> 'd command" where
  "on_cluster env flag f s =
     (case parseCluster env s flag of
        Ret cluster \<Rightarrow> f cluster s
      | Panic m \<Rightarrow> (Panic m, s)
      | Exit m \<Rightarrow> (Exit m, s)
      | Block \<Rightarrow> (Block, s))"

definition logPath :: "string \<Rightarrow> string \<Rightarrow> string" where
  "logPath cluster name = path_Join [cluster, ''logs'', name]"

definition workerPath :: "string \<Rightarrow> string \<Rightarrow> string" where
  "workerPath cluster name = path_Join [cluster, ''workers'', name]"

definition pidPath :: "string \<Rightarrow> string \<Rightarrow> string" where
  "pidPath cluster name = path_Join [cluster, ''logs'', name @ ''.pid'']"

definition configPath :: "string \<Rightarrow> string \<Rightarrow> string" where
  "configPath cluster name = path_Join [cluster, ''config'', name @ ''.json'']"

definition basePath :: "string \<Rightarrow> string" where
  "basePath cluster = path_Join [cluster, ''base'']"

definition templatePath :: "string \<Rightarrow> string" where
  "templatePath cluster = configPath cluster ''template''"

definition registryPath :: "string \<Rightarrow> string" where
  "registryPath cluster = path_Join [cluster, ''registry'']"

definition packagesPath :: "string \<Rightarrow> string" where
  "packagesPath cluster = path_Join [cluster, ''packages'']"

definition cachePath :: "string \<Rightarrow> string" where
  "cachePath cluster = path_Join [cluster, ''import-cache'']"

text \<open>The containers of a cluster by their type; an absent label reads as the empty string.\<close>

definition label :: "(string \<times> string) list \<Rightarrow> string \<Rightarrow> string" where
  "label ls k = (case map_of ls k of None \<Rightarrow> [] | Some v \<Rightarrow> v)"

definition add_node :: "string \<Rightarrow> string \<times> (string \<times> string) list \<Rightarrow> (string \<Rightarrow> string list) \<Rightarrow> string \<Rightarrow> string list" where
  "add_node cluster c nodes =
     (if label (snd c) ''ol.cluster'' = cluster
      then let typ = label (snd c) ''ol.type'' in nodes(typ := nodes typ @ [fst c])
      else nodes)"

definition clusterNodes :: "'d admin_env \<Rightarrow> 'd admin \<Rightarrow> string \<Rightarrow> string + (string \<Rightarrow> string list)" where
  "clusterNodes env s cluster =
     (case ad_ListContainers (ae_docker env) (a_docker s) of
        Inl e \<Rightarrow> Inl e
      | Inr cs \<Rightarrow> Inr (fold (add_node cluster) cs (\<lambda>_. [])))"

subsection \<open>Creating a cluster\<close>

definition write_dns :: "'d admin_env \<Rightarrow> string \<Rightarrow> 'd admin \<Rightarrow> 'd command" where
  "write_dns env rootDir = write_file env (path_Join [rootDir, ''etc/resolv.conf'']) (Text (''nameserver 8.8.8.8'' @ [CHR 0x0A]))"

definition dump_image :: "'d admin_env \<Rightarrow> string \<Rightarrow> 'd admin \<Rightarrow> 'd command" where
  "dump_image env outdir s =
     (case ae_dump_errors env of
        (pipe_err, export_err, tar_err) \<Rightarrow>
          (case DumpDockerImage (os_Mkdir (ae_ioerr env)) (ae_untar env) pipe_err export_err tar_err outdir (a_fs s) of
             (e, f) \<Rightarrow> (Ret e, s\<lparr>a_fs := f\<rparr>)))"

definition dump_sock_image :: "'d admin_env \<Rightarrow> string \<Rightarrow> 'd admin \<Rightarrow> 'd command" where
  "dump_sock_image env flag =
     on_cluster env flag (\<lambda>cluster s.
       and_then (dump_image env (basePath cluster) s) (\<lambda>s1.
       and_then (write_dns env (basePath cluster) s1) (\<lambda>s2.
         case parse_config env s2 (templatePath cluster) of
           Inl e \<Rightarrow> (Ret (Some e), s2)
         | Inr c \<Rightarrow> Save env (c\<lparr>SOCK_base_path := basePath cluster\<rparr>) (templatePath cluster) s2)))"

definition cluster_dirs :: "string \<Rightarrow> string list" where
  "cluster_dirs cluster =
     [cluster, path_Join [cluster, ''logs''], path_Join [cluster, ''workers''], registryPath cluster,
      packagesPath cluster, cachePath cluster, path_Join [cluster, ''config'']]"

definition template_config :: "string \<Rightarrow> config" where
  "template_config cluster =
     zero_config\<lparr>Worker_port := ''?'', Cluster_name := cluster, Registry := ''local'', Sandbox := ''docker'',
       Registry_dir := registryPath cluster, Pkgs_dir := packagesPath cluster,
       Worker_dir := workerPath cluster ''default'', Sandbox_config := Some [(''processes'', ''10'')]\<rparr>"

text \<open>\<open>newCluster\<close> ignores the error of \<open>dump_sock_image\<close>, not its exit.\<close>

definition newCluster :: "'d admin_env \<Rightarrow> string \<Rightarrow> 'd admin \<Rightarrow> 'd command" where
  "newCluster env flag =
     on_cluster env flag (\<lambda>cluster s.
       and_then (mkdirs env (cluster_dirs cluster) s) (\<lambda>s1.
       and_then (SaveConfig env (SetDefaultValues zero_proxy) (configPath cluster ''load_balancer'') s1) (\<lambda>s2.
         case Defaults (ae_getwd env) (template_config cluster) of
           (Some e, _) \<Rightarrow> (Ret (Some e), s2)
         | (None, c) \<Rightarrow>
             and_then (Save env c (templatePath cluster) s2) (\<lambda>s3.
               case dump_sock_image env flag s3 of
                 (Ret _, s4) \<Rightarrow> (Ret None, s4)
               | (r, s4) \<Rightarrow> (r, s4)))))"

subsection \<open>Status\<close>

datatype status_line =
  Overview nat "string \<Rightarrow> nat"
| Ping string ping_result
| ContainerLine string string string string

definition ping_failed :: "status_line \<Rightarrow> bool" where
  "ping_failed l = (case l of Ping url r \<Rightarrow> r = NotSent \<or> r = BodyError | _ \<Rightarrow> False)"

definition drop_pid :: "string \<Rightarrow> string" where
  "drop_pid name = take (length name - 4) name"

definition is_pid_of :: "string \<Rightarrow> string \<Rightarrow> bool" where
  "is_pid_of grp name = (strings_HasPrefix name grp \<and> strings_HasSuffix name ''.pid'')"

text \<open>
  The load balancers, then the workers, are asked for their status; a bad configuration ends it (and what
  was printed before is left out).
\<close>

fun ping_balancers :: "'d admin_env \<Rightarrow> 'd admin \<Rightarrow> string \<Rightarrow> string list \<Rightarrow> string + status_line list" where
  "ping_balancers env s cluster [] = Inr []"
| "ping_balancers env s cluster (name # names) =
     (if name = ''load_balancer.pid''
      then (case read_proxy env s (configPath cluster (drop_pid name)) of
              (_, Some e) \<Rightarrow> Inl e
            | (p, None) \<Rightarrow>
                let url = ''http://localhost:'' @ strconv_Itoa (p_Port p) @ ''/status'' in
                map_sum id (Cons (Ping url (ae_get env url))) (ping_balancers env s cluster names))
      else ping_balancers env s cluster names)"

fun ping_workers :: "'d admin_env \<Rightarrow> 'd admin \<Rightarrow> string \<Rightarrow> string list \<Rightarrow> string + status_line list" where
  "ping_workers env s cluster [] = Inr []"
| "ping_workers env s cluster (name # names) =
     (if is_pid_of ''worker'' name
      then (case parse_config env s (configPath cluster (drop_pid name)) of
              Inl e \<Rightarrow> Inl e
            | Inr c \<Rightarrow>
                let url = ''http://localhost:'' @ Worker_port c @ ''/status'' in
                map_sum id (Cons (Ping url (ae_get env url))) (ping_workers env s cluster names))
      else ping_workers env s cluster names)"

fun container_lines :: "'d admin_env \<Rightarrow> 'd admin \<Rightarrow> string \<Rightarrow> string list \<Rightarrow> string + status_line list" where
  "container_lines env s typ [] = Inr []"
| "container_lines env s typ (cid # cids) =
     (case ad_InspectContainer (ae_docker env) cid (a_docker s) of
        Inl e \<Rightarrow> Inl e
      | Inr i \<Rightarrow> map_sum id (Cons (ContainerLine typ (ci_Name i) (ci_Image i) (ci_StateString i))) (container_lines env s typ cids))"

text \<open>The order in which a map is gone through is an argument.\<close>

fun node_lines :: "'d admin_env \<Rightarrow> 'd admin \<Rightarrow> (string \<Rightarrow> string list) \<Rightarrow> string list \<Rightarrow> string + status_line list" where
  "node_lines env s nodes [] = Inr []"
| "node_lines env s nodes (typ # types) =
     (case container_lines env s typ (nodes typ) of
        Inl e \<Rightarrow> Inl e
      | Inr ls \<Rightarrow> map_sum id (append ls) (node_lines env s nodes types))"

definition overview :: "(string \<times> (string \<times> string) list) list \<Rightarrow> status_line" where
  "overview cs =
     Overview (length (filter (\<lambda>c. label (snd c) ''ol.cluster'' = []) cs))
              (\<lambda>cl. length (filter (\<lambda>c. label (snd c) ''ol.cluster'' = cl \<and> cl \<noteq> []) cs))"

definition status_of :: "'d admin_env \<Rightarrow> string list \<Rightarrow> 'd admin \<Rightarrow> string \<Rightarrow> string + status_line list" where
  "status_of env types s cluster =
     (case ioutil_ReadDir (ae_ioerr env) (a_fs s) (path_Join [cluster, ''logs'']) of
        Inl e \<Rightarrow> Inl e
      | Inr logs \<Rightarrow>
          (case ping_balancers env s cluster logs of
             Inl e \<Rightarrow> Inl e
           | Inr ls1 \<Rightarrow>
               (case ping_workers env s cluster logs of
                  Inl e \<Rightarrow> Inl e
                | Inr ls2 \<Rightarrow>
                    (case clusterNodes env s cluster of
                       Inl e \<Rightarrow> Inl e
                     | Inr nodes \<Rightarrow> map_sum id (append (ls1 @ ls2)) (node_lines env s nodes types)))))"

definition admin_status ::
  "'d admin_env \<Rightarrow> string list \<Rightarrow> string \<Rightarrow> 'd admin \<Rightarrow> (string + status_line list) res" where
  "admin_status env types flag s =
     (case parseCluster env s flag of
        Ret cluster \<Rightarrow>
          Ret (if cluster = []
               then map_sum id (\<lambda>cs. [overview cs]) (ad_ListContainers (ae_docker env) (a_docker s))
               else (case status_of env types s cluster of
                       Inl e \<Rightarrow> Inl e
                     | Inr ls \<Rightarrow>
                         if \<exists>l \<in> set ls. ping_failed l
                         then Inl ''At least one load balancer/worker failed the status check''
                         else Inr ls))
      | Panic m \<Rightarrow> Panic m
      | Exit m \<Rightarrow> Exit m
      | Block \<Rightarrow> Block)"

subsection \<open>Containers for databases and nginx\<close>

definition labels_of :: "string \<Rightarrow> string \<Rightarrow> (string \<times> string) list" where
  "labels_of cluster typ = [(''ol.cluster'', cluster), (''ol.type'', typ)]"

text \<open>An image that is not there is pulled.\<close>

definition ensure_image :: "'d admin_env \<Rightarrow> string \<Rightarrow> 'd admin \<Rightarrow> 'd command" where
  "ensure_image env img s =
     (case ad_InspectImage (ae_docker env) img (a_docker s) of
        Some ErrNoSuchImage \<Rightarrow> docker_step (ad_PullImage (ae_docker env) img ''latest'') s
      | Some (ImageError e) \<Rightarrow> (Ret (Some e), s)
      | None \<Rightarrow> (Ret None, s))"

definition create_and_start ::
  "'d admin_env \<Rightarrow> create_options \<Rightarrow> (string \<Rightarrow> 'd admin \<Rightarrow> 'd command) \<Rightarrow> 'd admin \<Rightarrow> 'd command" where
  "create_and_start env opts k s =
     (case ad_CreateContainer (ae_docker env) opts (a_docker s) of
        (Inl e, d) \<Rightarrow> (Ret (Some e), s\<lparr>a_docker := d\<rparr>)
      | (Inr cid, d) \<Rightarrow> and_then (docker_step (ad_StartContainer (ae_docker env) cid) (s\<lparr>a_docker := d\<rparr>)) (k cid))"

definition rethinkdb_options :: "string \<Rightarrow> string option \<Rightarrow> create_options" where
  "rethinkdb_options cluster first_ip =
     \<lparr>co_Cmd = [''rethinkdb'', ''--bind'', ''all''] @
        (case first_ip of None \<Rightarrow> [] | Some ip \<Rightarrow> [''--join'', ip @ '':29015'']),
      co_Env = [], co_Image = ''rethinkdb'', co_Labels = labels_of cluster ''db'', co_Binds = [],
      co_NetworkMode = [], co_PortBindings = []\<rparr>"

text \<open>The shards from now on; the address of the first one is what the others join.\<close>

fun rethinkdb_loop :: "'d admin_env \<Rightarrow> string \<Rightarrow> nat \<Rightarrow> string option \<Rightarrow> 'd admin \<Rightarrow> 'd command" where
  "rethinkdb_loop env cluster 0 first s = (Ret None, s)"
| "rethinkdb_loop env cluster (Suc n) first s =
     create_and_start env (rethinkdb_options cluster first) (\<lambda>cid s1.
       case ad_InspectContainer (ae_docker env) cid (a_docker s1) of
         Inl e \<Rightarrow> (Ret (Some e), s1)
       | Inr i \<Rightarrow> rethinkdb_loop env cluster n (case first of None \<Rightarrow> Some (ci_IPAddress i) | Some ip \<Rightarrow> Some ip) s1) s"

definition rethinkdb :: "'d admin_env \<Rightarrow> string \<Rightarrow> int \<Rightarrow> 'd admin \<Rightarrow> 'd command" where
  "rethinkdb env flag count =
     on_cluster env flag (\<lambda>cluster s.
       and_then (ensure_image env ''rethinkdb'' s) (rethinkdb_loop env cluster (nat count) None))"

text \<open>
  The upstream lines, one for each pid file there is, whatever process it is of.  Ports have no percent
  sign, so that the format the lines become part of has the one verb for the port.
\<close>

fun upstream_lines :: "'d admin_env \<Rightarrow> 'd admin \<Rightarrow> string \<Rightarrow> string list \<Rightarrow> string + string list" where
  "upstream_lines env s cluster [] = Inr []"
| "upstream_lines env s cluster (name # names) =
     (if strings_HasSuffix name ''.pid''
      then (case parse_config env s (configPath cluster (drop_pid name)) of
              Inl e \<Rightarrow> Inl e
            | Inr c \<Rightarrow>
                map_sum id (Cons ([CHR 0x09, CHR 0x09] @ ''server localhost:'' @ Worker_port c @ '';'' @ [CHR 0x0A]))
                  (upstream_lines env s cluster names))
      else upstream_lines env s cluster names)"

definition nginx_lines :: "int \<Rightarrow> string list \<Rightarrow> string list" where
  "nginx_lines port upstream =
     (let nl = [CHR 0x0A]; t = [CHR 0x09] in
      [''http {'' @ nl, t @ ''upstream workers {'' @ nl] @ upstream @
      [t @ ''}'' @ nl, nl, t @ ''server {'' @ nl, t @ t @ ''listen '' @ strconv_Itoa port @ '';'' @ nl,
       t @ t @ ''location / {'' @ nl, t @ t @ t @ ''proxy_pass http://workers;'' @ nl, t @ t @ ''}'' @ nl,
       t @ ''}'' @ nl, ''}'' @ nl, nl, ''events {'' @ nl, t @ ''worker_connections 1024;'' @ nl, ''}'' @ nl])"

definition nginx_options :: "string \<Rightarrow> string \<Rightarrow> create_options" where
  "nginx_options cluster path =
     \<lparr>co_Cmd = [], co_Env = [], co_Image = ''nginx'', co_Labels = labels_of cluster ''balancer'',
      co_Binds = [path @ '':/etc/nginx/nginx.conf''], co_NetworkMode = ''host'', co_PortBindings = []\<rparr>"

fun nginx_loop :: "'d admin_env \<Rightarrow> string \<Rightarrow> string list \<Rightarrow> int \<Rightarrow> nat \<Rightarrow> nat \<Rightarrow> 'd admin \<Rightarrow> 'd command" where
  "nginx_loop env cluster upstream portbase i 0 s = (Ret None, s)"
| "nginx_loop env cluster upstream portbase i (Suc n) s =
     (let path = path_Join [cluster, ''config'', ''nginx-'' @ strconv_Itoa (int i) @ ''.conf''] in
      and_then (write_file env path (Text (concat (nginx_lines (portbase + int i) upstream))) s)
        (create_and_start env (nginx_options cluster path) (\<lambda>_. nginx_loop env cluster upstream portbase (Suc i) n)))"

definition nginx :: "'d admin_env \<Rightarrow> string \<Rightarrow> int \<Rightarrow> int \<Rightarrow> 'd admin \<Rightarrow> 'd command" where
  "nginx env flag portbase n =
     on_cluster env flag (\<lambda>cluster s.
       and_then (ensure_image env ''nginx'' s) (\<lambda>s1.
         case ioutil_ReadDir (ae_ioerr env) (a_fs s1) (path_Join [cluster, ''logs'']) of
           Inl e \<Rightarrow> (Ret (Some e), s1)
         | Inr logs \<Rightarrow>
             (case upstream_lines env s1 cluster logs of
                Inl e \<Rightarrow> (Ret (Some e), s1)
              | Inr upstream \<Rightarrow>
                  if upstream = [] then (Exit ''No upstream worker found'', s1)
                  else nginx_loop env cluster upstream portbase 0 (nat n) s1)))"

subsection \<open>Processes\<close>

definition start_process ::
  "'d admin_env \<Rightarrow> string list \<Rightarrow> (int \<Rightarrow> 'd admin \<Rightarrow> 'd command) \<Rightarrow> (string \<Rightarrow> 'd admin \<Rightarrow> 'd command) \<Rightarrow> 'd admin \<Rightarrow> 'd command" where
  "start_process env cmd ok failed s =
     (case ae_start env cmd (length (a_procs s)) of
        Inl e \<Rightarrow> failed e s
      | Inr pid \<Rightarrow> ok pid (s\<lparr>a_procs := a_procs s @ [(pid, cmd)]\<rparr>))"

definition worker_id :: "nat \<Rightarrow> string" where
  "worker_id i = ''worker-'' @ strconv_Itoa (int i)"

definition worker_conf :: "string \<Rightarrow> int \<Rightarrow> nat \<Rightarrow> config \<Rightarrow> config" where
  "worker_conf cluster portbase i c =
     c\<lparr>Worker_port := strconv_Itoa (portbase + int i), Worker_dir := workerPath cluster (worker_id i)\<rparr>"

fun start_workers :: "'d admin_env \<Rightarrow> string \<Rightarrow> int \<Rightarrow> nat \<Rightarrow> config list \<Rightarrow> 'd admin \<Rightarrow> 'd command" where
  "start_workers env cluster portbase i [] s = (Ret None, s)"
| "start_workers env cluster portbase i (c # cs) s =
     (let conf_path = configPath cluster (worker_id i);
          conf = worker_conf cluster portbase i c
      in and_then (mkdir env (Worker_dir conf) s) (\<lambda>s1.
         and_then (Save env conf conf_path s1) (\<lambda>s2.
         and_then (write_file env (logPath cluster (worker_id i @ ''.out'')) (Text []) s2) (\<lambda>s3.
           start_process env [ae_arg0 env, ''worker-exec'', ''-config='' @ conf_path]
             (\<lambda>pid s4. and_then (write_file env (pidPath cluster (worker_id i)) (Text (strconv_Itoa pid)) s4)
                (start_workers env cluster portbase (Suc i) cs))
             (\<lambda>e s4. (Ret (Some e), s4)) s3))))"

text \<open>One configuration per database shard; the assertion that the sandbox options are an object may fail.\<close>

definition quote :: "string \<Rightarrow> string" where
  "quote t = [CHR 0x22] @ t @ [CHR 0x22]"

definition db_conf :: "string \<Rightarrow> config \<Rightarrow> config res" where
  "db_conf ip c =
     (case Sandbox_config c of
        None \<Rightarrow> Panic ''interface conversion''
      | Some kvs \<Rightarrow>
          Ret (c\<lparr>Sandbox_config := Some (fold (\<lambda>kv. AList.update (fst kv) (snd kv))
                 [(''db'', quote ''rethinkdb''), (''rethinkdb.host'', quote ip), (''rethinkdb.port'', ''28015'')] kvs)\<rparr>))"

fun foreach_confs :: "'d admin_env \<Rightarrow> 'd admin \<Rightarrow> string \<Rightarrow> string list \<Rightarrow> (string + config list) res" where
  "foreach_confs env s cluster [] = Ret (Inr [])"
| "foreach_confs env s cluster (cid # cids) =
     (case ad_InspectContainer (ae_docker env) cid (a_docker s) of
        Inl e \<Rightarrow> Ret (Inl e)
      | Inr i \<Rightarrow>
          (case parse_config env s (templatePath cluster) of
             Inl e \<Rightarrow> Ret (Inl e)
           | Inr c \<Rightarrow>
               (case db_conf (ci_IPAddress i) c of
                  Ret c1 \<Rightarrow>
                    (case foreach_confs env s cluster cids of
                       Ret (Inr cs) \<Rightarrow> Ret (Inr (c1 # cs))
                     | r \<Rightarrow> r)
                | Panic m \<Rightarrow> Panic m
                | Exit m \<Rightarrow> Exit m
                | Block \<Rightarrow> Block)))"

fun plain_confs :: "'d admin_env \<Rightarrow> 'd admin \<Rightarrow> string \<Rightarrow> nat \<Rightarrow> string + config list" where
  "plain_confs env s cluster 0 = Inr []"
| "plain_confs env s cluster (Suc n) =
     (case parse_config env s (templatePath cluster) of
        Inl e \<Rightarrow> Inl e
      | Inr c \<Rightarrow> map_sum id (Cons c) (plain_confs env s cluster n))"

definition worker_confs :: "'d admin_env \<Rightarrow> 'd admin \<Rightarrow> string \<Rightarrow> bool \<Rightarrow> int \<Rightarrow> (string + config list) res" where
  "worker_confs env s cluster foreach n =
     (if foreach
      then (case clusterNodes env s cluster of
              Inl e \<Rightarrow> Ret (Inl e)
            | Inr nodes \<Rightarrow> foreach_confs env s cluster (nodes ''db''))
      else Ret (plain_confs env s cluster (nat n)))"

definition workers :: "'d admin_env \<Rightarrow> string \<Rightarrow> bool \<Rightarrow> int \<Rightarrow> int \<Rightarrow> 'd admin \<Rightarrow> 'd command" where
  "workers env flag foreach portbase n =
     on_cluster env flag (\<lambda>cluster s.
       case worker_confs env s cluster foreach n of
         Ret (Inl e) \<Rightarrow> (Ret (Some e), s)
       | Ret (Inr cs) \<Rightarrow> start_workers env cluster portbase 0 cs s
       | Panic m \<Rightarrow> (Panic m, s)
       | Exit m \<Rightarrow> (Exit m, s)
       | Block \<Rightarrow> (Block, s))"

text \<open>
  \<open>loadBalancer\<close>: the error of reading the configuration and of saving it are not looked at, that of
  starting the process neither, so that its pid is then read from a nil pointer.
\<close>

definition loadBalancer :: "'d admin_env \<Rightarrow> string \<Rightarrow> int \<Rightarrow> 'd admin \<Rightarrow> 'd command" where
  "loadBalancer env flag port =
     on_cluster env flag (\<lambda>cluster s.
       let configFile = configPath cluster ''load_balancer'';
           balancer = (fst (read_proxy env s configFile))\<lparr>p_Port := port\<rparr>;
           s1 = snd (SaveConfig env balancer configFile s)
       in and_then (write_file env (logPath cluster ''load_balancer.out'') (Text []) s1)
            (start_process env [ae_arg0 env, ''load-balancer-exec'', ''-config='' @ configFile]
              (\<lambda>pid. write_file env (pidPath cluster ''load_balancer'') (Text (strconv_Itoa pid)))
              (\<lambda>e s2. (nil_deref, s2))))"

subsection \<open>Killing a cluster\<close>

definition kill_container :: "'d admin_env \<Rightarrow> string \<Rightarrow> 'd admin \<Rightarrow> 'd command" where
  "kill_container env cid s =
     (case ad_InspectContainer (ae_docker env) cid (a_docker s) of
        Inl e \<Rightarrow> (Ret (Some e), s)
      | Inr i \<Rightarrow>
          let d1 = (if ci_Paused i then snd (ad_UnpauseContainer (ae_docker env) cid (a_docker s)) else a_docker s)
          in (Ret None, s\<lparr>a_docker := snd (ad_KillContainer (ae_docker env) cid d1)\<rparr>))"

fun kill_containers :: "'d admin_env \<Rightarrow> string list \<Rightarrow> 'd admin \<Rightarrow> 'd command" where
  "kill_containers env [] s = (Ret None, s)"
| "kill_containers env (cid # cids) s = and_then (kill_container env cid s) (kill_containers env cids)"

definition atoi_reason :: "string \<Rightarrow> string" where
  "atoi_reason t =
     (let ds = (case t of c # cs \<Rightarrow> if c = CHR ''-'' \<or> c = CHR ''+'' then cs else t | [] \<Rightarrow> [])
      in if ds \<noteq> [] \<and> list_all (\<lambda>c. digit_val c \<noteq> None) ds then ''value out of range'' else ''invalid syntax'')"

text \<open>
  \<open>kill_process\<close>: a process that cannot be found is signalled all the same, through a nil pointer; the
  error of the signal is printed.
\<close>

definition kill_process :: "'d admin_env \<Rightarrow> string \<Rightarrow> string \<Rightarrow> 'd admin \<Rightarrow> 'd command" where
  "kill_process env cluster name s =
     (case ioutil_ReadFile (ae_ioerr env) (a_fs s) (logPath cluster name) of
        Inl e \<Rightarrow> (Ret (Some e), s)
      | Inr data \<Rightarrow>
          (case strconv_Atoi (text_of env data) of
             None \<Rightarrow> (Ret (Some (''strconv.Atoi: parsing '' @ quote (text_of env data) @ '': '' @ atoi_reason (text_of env data))), s)
           | Some pid \<Rightarrow>
               if ae_findProcess env pid \<noteq> None then (nil_deref, s)
               else (Ret None, if ae_signal env pid = None then s\<lparr>a_signals := a_signals s @ [pid]\<rparr> else s)))"

fun kill_processes :: "'d admin_env \<Rightarrow> string \<Rightarrow> string list \<Rightarrow> 'd admin \<Rightarrow> 'd command" where
  "kill_processes env cluster [] s = (Ret None, s)"
| "kill_processes env cluster (name # names) s =
     and_then (kill_process env cluster name s) (kill_processes env cluster names)"

definition kill :: "'d admin_env \<Rightarrow> string list \<Rightarrow> string \<Rightarrow> 'd admin \<Rightarrow> 'd command" where
  "kill env types flag =
     on_cluster env flag (\<lambda>cluster s.
       case clusterNodes env s cluster of
         Inl e \<Rightarrow> (Ret (Some e), s)
       | Inr nodes \<Rightarrow>
           and_then (kill_containers env (concat (map nodes types)) s) (\<lambda>s1.
             case ioutil_ReadDir (ae_ioerr env) (a_fs s1) (path_Join [cluster, ''logs'']) of
               Inl e \<Rightarrow> (Ret (Some e), s1)
             | Inr logs \<Rightarrow>
                 and_then (kill_processes env cluster (filter (is_pid_of ''load_balancer'') logs) s1)
                   (kill_processes env cluster (filter (is_pid_of ''worker'') logs))))"

subsection \<open>The remote registry and the template\<close>

text \<open>
  Waiting for the bucket: each round has the clock, what \<open>BucketExists\<close> and \<open>MakeBucket\<close> answer.  Running
  out of rounds is a loop that goes on.
\<close>

record bucket_round =
  br_expired :: bool
  br_exists :: bool
  br_exists_err :: goerror
  br_make_err :: goerror

fun await_bucket :: "bucket_round list \<Rightarrow> goerror \<Rightarrow> goerror res" where
  "await_bucket [] bucketErr = Block"
| "await_bucket (r # rs) bucketErr =
     (if br_expired r
      then Ret (Some (''failed to connect to bucket after 10s :: '' @ (case bucketErr of None \<Rightarrow> ''<nil>'' | Some e \<Rightarrow> e)))
      else if br_exists_err r \<noteq> None \<and> br_exists r then await_bucket rs (br_exists_err r)
      else if \<not> br_exists r then await_bucket rs (if br_make_err r \<noteq> None then br_make_err r else bucketErr)
      else Ret None)"

definition minio_options :: "string \<Rightarrow> string \<Rightarrow> string \<Rightarrow> int \<Rightarrow> create_options" where
  "minio_options cluster access_key secret_key port =
     \<lparr>co_Cmd = [''server'', cluster],
      co_Env = [''MINIO_ACCESS_KEY='' @ access_key, ''MINIO_SECRET_KEY='' @ secret_key],
      co_Image = ''minio/minio'', co_Labels = labels_of cluster ''registry'',
      co_Binds = [''/mnt/data:/data'', ''/mnt/config:/root/.minio''], co_NetworkMode = [],
      co_PortBindings = [(''9000/tcp'', ''0.0.0.0'', strconv_Itoa port)]\<rparr>"

text \<open>A change of the template configuration.\<close>

definition update_template ::
  "'d admin_env \<Rightarrow> string \<Rightarrow> (config \<Rightarrow> string + config) \<Rightarrow> 'd admin \<Rightarrow> 'd command" where
  "update_template env cluster f s =
     (case parse_config env s (templatePath cluster) of
        Inl e \<Rightarrow> (Ret (Some e), s)
      | Inr c \<Rightarrow>
          (case f c of
             Inl e \<Rightarrow> (Ret (Some e), s)
           | Inr c1 \<Rightarrow> Save env c1 (templatePath cluster) s))"

definition registry ::
  "'d admin_env \<Rightarrow> bucket_round list \<Rightarrow> goerror \<Rightarrow> string \<Rightarrow> string \<Rightarrow> string \<Rightarrow> int \<Rightarrow> 'd admin \<Rightarrow> 'd command" where
  "registry env rounds minio_err flag access_key secret_key port =
     on_cluster env flag (\<lambda>cluster s.
       if length access_key < 3 then (Ret (Some ''Error: Access key length must be at least 3 characters''), s)
       else if length secret_key < 8 then (Ret (Some ''Error: Secret key length must be at least 8 characters''), s)
       else
         and_then (ensure_image env ''minio/minio'' s)
           (create_and_start env (minio_options cluster access_key secret_key port) (\<lambda>cid s2.
              case minio_err of
                Some e \<Rightarrow> (Ret (Some e), s2)
              | None \<Rightarrow>
                  and_then (await_bucket rounds None, s2)
                    (update_template env cluster (\<lambda>c.
                       Inr (c\<lparr>Registry := ''remote'', Registry_access_key := access_key, Registry_secret_key := secret_key\<rparr>))))))"

text \<open>\<open>upload\<close>: the answers of the object store in turn.\<close>

definition upload :: "goerror \<Rightarrow> bool \<Rightarrow> goerror \<Rightarrow> goerror \<Rightarrow> goerror \<Rightarrow> goerror" where
  "upload minio_err exists exists_err make_err put_err =
     (if minio_err \<noteq> None then minio_err
      else if exists_err \<noteq> None \<and> exists
      then Some (''Error: Bucket exists but registry failed permissions test.'' @ [CHR 0x0A])
      else if \<not> exists \<and> make_err \<noteq> None
      then map_option (\<lambda>e. ''Error: Making registry bucket failed. Existential check failed. Error: '' @ e @ [CHR 0x0A]) make_err
      else put_err)"

definition setconf :: "'d admin_env \<Rightarrow> string \<Rightarrow> string list \<Rightarrow> 'd admin \<Rightarrow> 'd command" where
  "setconf env flag args =
     on_cluster env flag (\<lambda>cluster s.
       if length args \<noteq> 1 then (Exit ''Usage: admin setconf <json_options>'', s)
       else update_template env cluster (\<lambda>c.
              case ae_merge env (args ! 0) c of
                Inl e \<Rightarrow> Inl (''failed to set config options :: '' @ e)
              | Inr c1 \<Rightarrow> Inr c1) s)"

end
