(* ===== verification/AdminProps.thy ===== *)
theory AdminProps
  imports Admin "HOL-Library.Multiset"
begin

text \<open>
  Correctness of the admin tool: what a started worker finds in its configuration, that the processes a
  command started are the ones \<open>kill\<close> signals, and which commands exclude each other.
\<close>

subsection \<open>Names and paths of a cluster\<close>

text \<open>A cluster directory, given by the components of its path.\<close>

definition cluster_at :: "string list \<Rightarrow> bool" where
  "cluster_at ws \<longleftrightarrow> ws \<noteq> [] \<and> (\<forall>w \<in> set ws. plain_comp w)"

lemma digits_no_slash: "slash \<notin> set (nat_digits n)"
  using nat_digits_digit [of slash n] by (auto simp: digit_val_def)

lemma nat_digits_inj: "nat_digits m = nat_digits n \<Longrightarrow> m = n"
  by (metis parse_nat_digits option.inject)

lemma worker_id_inj [simp]: "worker_id i = worker_id j \<longleftrightarrow> i = j"
  by (auto simp: worker_id_def strconv_Itoa_def dest: nat_digits_inj)

lemma plain_worker_id [simp]: "slash \<notin> set w \<Longrightarrow> plain_comp (worker_id i @ w)"
  by (simp add: plain_comp_def worker_id_def strconv_Itoa_def digits_no_slash)

lemma plain_worker_id' [simp]: "plain_comp (worker_id i)"
  using plain_worker_id [of "[]" i] by simp

lemma plain_names [simp]:
  "plain_comp ''logs''" "plain_comp ''workers''" "plain_comp ''config''" "plain_comp ''template.json''"
  "plain_comp ''load_balancer.json''" "plain_comp ''load_balancer.out''" "plain_comp ''load_balancer.pid''"
  by (simp_all add: plain_comp_def)

lemma cluster_at_join:
  "cluster_at ws \<Longrightarrow> \<forall>v \<in> set vs. plain_comp v \<Longrightarrow> path_Join (abs_path ws # vs) = abs_path (ws @ vs)"
  by (simp add: cluster_at_def path_Join_abs_path)

lemma cluster_at_dir:
  "cluster_at ws \<Longrightarrow> plain_comp d \<Longrightarrow> plain_comp v \<Longrightarrow> path_Dir (abs_path (ws @ [d, v])) = abs_path (ws @ [d])"
  using path_Dir_abs_path [of "ws @ [d]" v] by (simp add: cluster_at_def)

lemma cluster_at_inj:
  "cluster_at ws \<Longrightarrow> \<forall>v \<in> set us \<union> set vs. plain_comp v \<Longrightarrow> abs_path (ws @ us) = abs_path (ws @ vs) \<longleftrightarrow> us = vs"
  using abs_path_inj [of "ws @ us" "ws @ vs"] by (auto simp: cluster_at_def)

lemma cluster_paths:
  assumes "cluster_at ws"
  shows "workerPath (abs_path ws) (worker_id i) = abs_path (ws @ [''workers'', worker_id i])"
    and "configPath (abs_path ws) (worker_id i) = abs_path (ws @ [''config'', worker_id i @ ''.json''])"
    and "logPath (abs_path ws) (worker_id i @ ''.out'') = abs_path (ws @ [''logs'', worker_id i @ ''.out''])"
    and "pidPath (abs_path ws) (worker_id i) = abs_path (ws @ [''logs'', worker_id i @ ''.pid''])"
    and "templatePath (abs_path ws) = abs_path (ws @ [''config'', ''template.json''])"
  using assms
  by (simp_all add: workerPath_def configPath_def logPath_def pidPath_def templatePath_def cluster_at_join)

subsection \<open>Starting workers\<close>

definition ready :: "string list \<Rightarrow> config \<Rightarrow> fs \<Rightarrow> bool" where
  "ready ws c f \<longleftrightarrow>
     (\<forall>d \<in> {''logs'', ''workers'', ''config''}. map_of f (abs_path (ws @ [d])) = Some Dir) \<and>
     map_of f (abs_path (ws @ [''config'', ''template.json''])) = Some (File (WorkerJson c))"

definition free_slot :: "string list \<Rightarrow> fs \<Rightarrow> nat \<Rightarrow> bool" where
  "free_slot ws f i \<longleftrightarrow>
     map_of f (abs_path (ws @ [''workers'', worker_id i])) = None \<and>
     map_of f (abs_path (ws @ [''config'', worker_id i @ ''.json''])) \<noteq> Some Dir \<and>
     map_of f (abs_path (ws @ [''logs'', worker_id i @ ''.out''])) \<noteq> Some Dir \<and>
     map_of f (abs_path (ws @ [''logs'', worker_id i @ ''.pid''])) \<noteq> Some Dir"

definition worker_files :: "string list \<Rightarrow> int \<Rightarrow> config \<Rightarrow> int \<Rightarrow> nat \<Rightarrow> fs \<Rightarrow> fs" where
  "worker_files ws portbase c pid i f =
     AList.update (abs_path (ws @ [''logs'', worker_id i @ ''.pid''])) (File (Text (strconv_Itoa pid)))
     (AList.update (abs_path (ws @ [''logs'', worker_id i @ ''.out''])) (File (Text []))
     (AList.update (abs_path (ws @ [''config'', worker_id i @ ''.json''])) (File (WorkerJson (worker_conf (abs_path ws) portbase i c)))
     (AList.update (abs_path (ws @ [''workers'', worker_id i])) Dir f)))"

lemma worker_files_elsewhere:
  assumes "cluster_at ws" and "\<forall>v \<in> set vs. plain_comp v"
    and "vs \<notin> {[''workers'', worker_id i], [''config'', worker_id i @ ''.json''], [''logs'', worker_id i @ ''.out''], [''logs'', worker_id i @ ''.pid'']}"
  shows "map_of (worker_files ws portbase c pid i f) (abs_path (ws @ vs)) = map_of f (abs_path (ws @ vs))"
  using assms by (simp add: worker_files_def AList.update_conv' cluster_at_inj)

lemma worker_files_here:
  assumes "cluster_at ws"
  shows "map_of (worker_files ws portbase c pid i f) (abs_path (ws @ [''config'', worker_id i @ ''.json''])) =
           Some (File (WorkerJson (worker_conf (abs_path ws) portbase i c)))"
    and "map_of (worker_files ws portbase c pid i f) (abs_path (ws @ [''logs'', worker_id i @ ''.pid''])) =
           Some (File (Text (strconv_Itoa pid)))"
    and "map_of (worker_files ws portbase c pid i f) (abs_path (ws @ [''workers'', worker_id i])) = Some Dir"
  using assms by (simp_all add: worker_files_def AList.update_conv' cluster_at_inj)

lemma ready_kept: "cluster_at ws \<Longrightarrow> ready ws c f \<Longrightarrow> ready ws c (worker_files ws portbase c' pid i f)"
  by (auto simp: ready_def worker_files_elsewhere worker_id_def)

lemma free_slot_kept:
  "cluster_at ws \<Longrightarrow> i \<noteq> j \<Longrightarrow> free_slot ws f j \<Longrightarrow> free_slot ws (worker_files ws portbase c pid i f) j"
  by (simp add: free_slot_def worker_files_elsewhere)

text \<open>No failing system calls, and every process can be started.\<close>

definition calm :: "'d admin_env \<Rightarrow> bool" where
  "calm env \<longleftrightarrow> ae_ioerr env = (\<lambda>_. None) \<and> (\<forall>cmd k. \<exists>pid. ae_start env cmd k = Inr pid)"

definition worker_cmd :: "'d admin_env \<Rightarrow> string list \<Rightarrow> nat \<Rightarrow> string list" where
  "worker_cmd env ws i = [ae_arg0 env, ''worker-exec'', ''-config='' @ configPath (abs_path ws) (worker_id i)]"

lemma start_worker_step:
  assumes ws: "cluster_at ws" and env: "ae_ioerr env = (\<lambda>_. None)" and r: "ready ws t (a_fs s)" and fr: "free_slot ws (a_fs s) i"
    and st: "ae_start env (worker_cmd env ws i) (length (a_procs s)) = Inr pid"
  shows "start_workers env (abs_path ws) portbase i (c # cs) s =
     start_workers env (abs_path ws) portbase (Suc i) cs
       (s\<lparr>a_procs := a_procs s @ [(pid, worker_cmd env ws i)], a_fs := worker_files ws portbase c pid i (a_fs s)\<rparr>)"
proof -
  note simps = AList.update_conv' cluster_at_inj [OF ws] cluster_at_dir [OF ws]
  have wd: "Worker_dir (worker_conf (abs_path ws) portbase i c) = abs_path (ws @ [''workers'', worker_id i])"
    by (simp add: worker_conf_def cluster_paths [OF ws])
  have m: "mkdir env (abs_path (ws @ [''workers'', worker_id i])) s =
      (Ret None, s\<lparr>a_fs := AList.update (abs_path (ws @ [''workers'', worker_id i])) Dir (a_fs s)\<rparr>)"
    using env r fr by (simp add: mkdir_def os_Mkdir_def simps ready_def free_slot_def)
  have dirs: "map_of (a_fs s) (abs_path (ws @ [''logs''])) = Some Dir" "map_of (a_fs s) (abs_path (ws @ [''config''])) = Some Dir"
    using r by (simp_all add: ready_def)
  show ?thesis
    using env fr dirs st cluster_paths [OF ws]
    by (simp add: Let_def wd m and_then_def Save_def write_file_def ioutil_WriteFile_def simps free_slot_def
        start_process_def worker_files_def worker_cmd_def)
qed

fun all_files :: "string list \<Rightarrow> int \<Rightarrow> nat \<Rightarrow> (config \<times> int) list \<Rightarrow> fs \<Rightarrow> fs" where
  "all_files ws portbase i [] f = f"
| "all_files ws portbase i ((c, pid) # xs) f = all_files ws portbase (Suc i) xs (worker_files ws portbase c pid i f)"

lemma start_workers_all:
  assumes "cluster_at ws" and "calm env" and "ready ws t (a_fs s)" and "\<forall>j \<ge> i. free_slot ws (a_fs s) j"
  shows "\<exists>pids. length pids = length cs \<and> (\<forall>p \<in> set pids. \<exists>cmd k. ae_start env cmd k = Inr p) \<and>
    start_workers env (abs_path ws) portbase i cs s =
      (Ret None, s\<lparr>a_procs := a_procs s @ zip pids (map (worker_cmd env ws) [i..<i + length cs]),
                   a_fs := all_files ws portbase i (zip cs pids) (a_fs s)\<rparr>)"
  using assms(3,4)
proof (induction cs arbitrary: i s)
  case (Cons c cs)
  have io: "ae_ioerr env = (\<lambda>_. None)" using assms(2) by (simp add: calm_def)
  obtain pid where pid: "ae_start env (worker_cmd env ws i) (length (a_procs s)) = Inr pid"
    using assms(2) by (auto simp: calm_def)
  let ?s = "s\<lparr>a_procs := a_procs s @ [(pid, worker_cmd env ws i)], a_fs := worker_files ws portbase c pid i (a_fs s)\<rparr>"
  have step: "start_workers env (abs_path ws) portbase i (c # cs) s = start_workers env (abs_path ws) portbase (Suc i) cs ?s"
    using start_worker_step [OF assms(1) io Cons.prems(1) _ pid] Cons.prems(2) by blast
  have "ready ws t (a_fs ?s)" using ready_kept [OF assms(1) Cons.prems(1)] by simp
  moreover have "\<forall>j \<ge> Suc i. free_slot ws (a_fs ?s) j"
    using free_slot_kept [OF assms(1)] Cons.prems(2) by simp
  ultimately obtain pids where "length pids = length cs" and "\<forall>p \<in> set pids. \<exists>cmd k. ae_start env cmd k = Inr p" and
    "start_workers env (abs_path ws) portbase (Suc i) cs ?s =
      (Ret None, ?s\<lparr>a_procs := a_procs ?s @ zip pids (map (worker_cmd env ws) [Suc i..<Suc i + length cs]),
                   a_fs := all_files ws portbase (Suc i) (zip cs pids) (a_fs ?s)\<rparr>)"
    using Cons.IH by blast
  then have "length (pid # pids) = length (c # cs) \<and> (\<forall>p \<in> set (pid # pids). \<exists>cmd k. ae_start env cmd k = Inr p) \<and>
    start_workers env (abs_path ws) portbase i (c # cs) s =
      (Ret None, s\<lparr>a_procs := a_procs s @ zip (pid # pids) (map (worker_cmd env ws) [i..<i + length (c # cs)]),
                   a_fs := all_files ws portbase i (zip (c # cs) (pid # pids)) (a_fs s)\<rparr>)"
    unfolding step using pid by (auto simp: upt_conv_Cons simp del: upt_Suc)
  then show ?case by blast
qed simp

text \<open>What is in the files afterwards.\<close>

lemma all_files_elsewhere:
  assumes "cluster_at ws" and "\<forall>v \<in> set vs. plain_comp v"
    and "\<And>j. i \<le> j \<Longrightarrow> vs \<notin> {[''workers'', worker_id j], [''config'', worker_id j @ ''.json''], [''logs'', worker_id j @ ''.out''], [''logs'', worker_id j @ ''.pid'']}"
  shows "map_of (all_files ws portbase i xs f) (abs_path (ws @ vs)) = map_of f (abs_path (ws @ vs))"
  using assms(3)
proof (induction xs arbitrary: i f)
  case (Cons x xs)
  obtain c pid where x: "x = (c, pid)" by (cases x)
  have "map_of (all_files ws portbase (Suc i) xs (worker_files ws portbase c pid i f)) (abs_path (ws @ vs)) =
      map_of (worker_files ws portbase c pid i f) (abs_path (ws @ vs))"
    using Cons.prems by (intro Cons.IH) simp
  also have "\<dots> = map_of f (abs_path (ws @ vs))"
    using Cons.prems [of i] by (intro worker_files_elsewhere assms(1,2)) simp
  finally show ?case by (simp add: x)
qed simp

lemma all_files_here:
  assumes "cluster_at ws" and "k < length xs"
  shows "map_of (all_files ws portbase i xs f) (abs_path (ws @ [''config'', worker_id (i + k) @ ''.json''])) =
           Some (File (WorkerJson (worker_conf (abs_path ws) portbase (i + k) (fst (xs ! k))))) \<and>
         map_of (all_files ws portbase i xs f) (abs_path (ws @ [''logs'', worker_id (i + k) @ ''.pid''])) =
           Some (File (Text (strconv_Itoa (snd (xs ! k))))) \<and>
         map_of (all_files ws portbase i xs f) (abs_path (ws @ [''workers'', worker_id (i + k)])) = Some Dir"
  using assms(2)
proof (induction xs arbitrary: i f k)
  case (Cons x xs)
  obtain c pid where x: "x = (c, pid)" by (cases x)
  show ?case
  proof (cases k)
    case 0
    then show ?thesis
      using assms(1) by (auto simp: x all_files_elsewhere worker_files_here)
  next
    case (Suc l)
    then show ?thesis using Cons.IH [of l "Suc i"] Cons.prems by (simp add: x)
  qed
qed simp

subsection \<open>The configuration of a worker\<close>

lemma complete_cfg_path [simp]: "config_complete (c\<lparr>cfg_path := p\<rparr>) = config_complete c"
  by (simp add: config_complete_def)

lemma parseCluster_at: "cluster_at ws \<Longrightarrow> parseCluster env s (abs_path ws) = Ret (abs_path ws)"
proof -
  assume ws: "cluster_at ws"
  then obtain w us where "ws = w # us" by (cases ws) (auto simp: cluster_at_def)
  moreover have "path_Clean (abs_path ws) = abs_path ws"
    using ws by (intro path_Clean_abs_path) (auto simp: cluster_at_def)
  ultimately show ?thesis by (simp add: parseCluster_def filepath_Abs_def)
qed

lemma on_cluster_at: "cluster_at ws \<Longrightarrow> on_cluster env (abs_path ws) f s = f (abs_path ws) s"
  by (simp add: on_cluster_def parseCluster_at)

lemma parse_config_worker:
  assumes "ae_ioerr env = (\<lambda>_. None)" and "map_of (a_fs s) p = Some (File (WorkerJson c))" and "config_complete c"
  shows "parse_config env s p = Inr (c\<lparr>cfg_path := p\<rparr>)"
  using assms by (simp add: parse_config_def ParseConfig_def ioutil_ReadFile_def decode_worker_def Defaults_id)

lemma plain_confs_template:
  "parse_config env s (templatePath cluster) = Inr c \<Longrightarrow> plain_confs env s cluster n = Inr (replicate n c)"
  by (induction n) simp_all

lemma Itoa_nonempty [simp]: "strconv_Itoa i \<noteq> []"
  by (simp add: strconv_Itoa_def)

lemma abs_path_IsAbs: "ws \<noteq> [] \<Longrightarrow> path_IsAbs (abs_path ws)"
  by (cases ws) simp_all

lemma complete_worker_conf:
  "cluster_at ws \<Longrightarrow> config_complete c \<Longrightarrow> config_complete (worker_conf (abs_path ws) portbase i c)"
  by (simp add: config_complete_def worker_conf_def cluster_paths abs_path_IsAbs)

lemma workers_run:
  assumes ws: "cluster_at ws" and env: "calm env" and r: "ready ws c (a_fs s)" and c: "config_complete c"
    and fr: "\<forall>i. free_slot ws (a_fs s) i"
  defines "c0 \<equiv> c\<lparr>cfg_path := templatePath (abs_path ws)\<rparr>"
  shows "\<exists>pids. length pids = nat n \<and> (\<forall>p \<in> set pids. \<exists>cmd k. ae_start env cmd k = Inr p) \<and>
    workers env (abs_path ws) False portbase n s =
      (Ret None, s\<lparr>a_procs := a_procs s @ zip pids (map (worker_cmd env ws) [0..<nat n]),
                   a_fs := all_files ws portbase 0 (zip (replicate (nat n) c0) pids) (a_fs s)\<rparr>)"
proof -
  have "parse_config env s (templatePath (abs_path ws)) = Inr c0"
    unfolding c0_def using env r c
    by (intro parse_config_worker) (simp_all add: calm_def ready_def cluster_paths [OF ws])
  then have confs: "worker_confs env s (abs_path ws) False n = Ret (Inr (replicate (nat n) c0))"
    by (simp add: worker_confs_def plain_confs_template)
  obtain pids where "length pids = length (replicate (nat n) c0)" and "\<forall>p \<in> set pids. \<exists>cmd k. ae_start env cmd k = Inr p" and
    "start_workers env (abs_path ws) portbase 0 (replicate (nat n) c0) s =
      (Ret None, s\<lparr>a_procs := a_procs s @ zip pids (map (worker_cmd env ws) [0..<0 + length (replicate (nat n) c0)]),
                   a_fs := all_files ws portbase 0 (zip (replicate (nat n) c0) pids) (a_fs s)\<rparr>)"
    using start_workers_all [OF ws env r, of 0 "replicate (nat n) c0"] fr by blast
  then show ?thesis using confs by (intro exI [of _ pids]) (simp add: workers_def on_cluster_at [OF ws])
qed

text \<open>What the started workers find: a configuration of their own, and their pid is on file.\<close>

lemma workers_found:
  assumes ws: "cluster_at ws" and env: "ae_ioerr env = (\<lambda>_. None)" and c: "config_complete c" and i: "i < n"
    and pids: "length pids = n" and f: "a_fs s = all_files ws portbase 0 (zip (replicate n c) pids) f0"
  shows "parse_config env s (configPath (abs_path ws) (worker_id i)) =
           Inr ((worker_conf (abs_path ws) portbase i c)\<lparr>cfg_path := configPath (abs_path ws) (worker_id i)\<rparr>)"
    and "ioutil_ReadFile (ae_ioerr env) (a_fs s) (pidPath (abs_path ws) (worker_id i)) = Inr (Text (strconv_Itoa (pids ! i)))"
proof -
  have "i < length (zip (replicate n c) pids)" using i pids by simp
  note here = all_files_here [OF ws this, of portbase 0 f0]
  show "parse_config env s (configPath (abs_path ws) (worker_id i)) =
      Inr ((worker_conf (abs_path ws) portbase i c)\<lparr>cfg_path := configPath (abs_path ws) (worker_id i)\<rparr>)"
    using here i pids f cluster_paths [OF ws] complete_worker_conf [OF ws c]
    by (intro parse_config_worker env) simp_all
  show "ioutil_ReadFile (ae_ioerr env) (a_fs s) (pidPath (abs_path ws) (worker_id i)) = Inr (Text (strconv_Itoa (pids ! i)))"
    using here i pids f env cluster_paths [OF ws] by (simp add: ioutil_ReadFile_def)
qed

subsection \<open>A new cluster\<close>

definition make_dirs :: "string list \<Rightarrow> fs \<Rightarrow> fs" where
  "make_dirs ps f = fold (\<lambda>p. AList.update p Dir) ps f"

lemma map_of_make_dirs: "map_of (make_dirs ps f) q = (if q \<in> set ps then Some Dir else map_of f q)"
  unfolding make_dirs_def by (induction ps arbitrary: f) (auto simp: AList.update_conv')

lemma mkdir_ok:
  "ae_ioerr env = (\<lambda>_. None) \<Longrightarrow> map_of (a_fs s) p = None \<Longrightarrow> map_of (a_fs s) (path_Dir p) = Some Dir \<Longrightarrow>
   mkdir env p s = (Ret None, s\<lparr>a_fs := AList.update p Dir (a_fs s)\<rparr>)"
  by (simp add: mkdir_def os_Mkdir_def)

lemma mkdirs_flat:
  assumes "ae_ioerr env = (\<lambda>_. None)" and "map_of (a_fs s) d = Some Dir" and "distinct ps"
    and "\<forall>p \<in> set ps. path_Dir p = d \<and> map_of (a_fs s) p = None"
  shows "mkdirs env ps s = (Ret None, s\<lparr>a_fs := make_dirs ps (a_fs s)\<rparr>)"
  using assms(2-4)
proof (induction ps arbitrary: s)
  case (Cons p ps)
  have p: "mkdir env p s = (Ret None, s\<lparr>a_fs := AList.update p Dir (a_fs s)\<rparr>)"
    using Cons.prems by (intro mkdir_ok assms(1)) simp_all
  have "mkdirs env ps (s\<lparr>a_fs := AList.update p Dir (a_fs s)\<rparr>) =
      (Ret None, s\<lparr>a_fs := AList.update p Dir (a_fs s), a_fs := make_dirs ps (AList.update p Dir (a_fs s))\<rparr>)"
  proof -
    have "map_of (AList.update p Dir (a_fs s)) d = Some Dir"
      and "\<forall>q \<in> set ps. path_Dir q = d \<and> map_of (AList.update p Dir (a_fs s)) q = None"
      using Cons.prems by (auto simp: AList.update_conv')
    with Cons.IH [of "s\<lparr>a_fs := AList.update p Dir (a_fs s)\<rparr>"] Cons.prems(2) show ?thesis by simp
  qed
  then show ?case using p by (simp add: and_then_def make_dirs_def)
qed (simp add: make_dirs_def)

text \<open>What is done below \<open>base\<close> does not touch the rest of the cluster.\<close>

definition same_outside :: "string list \<Rightarrow> fs \<Rightarrow> fs \<Rightarrow> bool" where
  "same_outside ws f f' \<longleftrightarrow>
     (\<forall>vs. vs \<noteq> [] \<and> (\<forall>v \<in> set vs. plain_comp v) \<and> hd vs \<noteq> ''base'' \<longrightarrow>
        map_of f' (abs_path (ws @ vs)) = map_of f (abs_path (ws @ vs)))"

lemma same_outside_refl [simp]: "same_outside ws f f"
  by (simp add: same_outside_def)

lemma same_outside_trans: "same_outside ws f g \<Longrightarrow> same_outside ws g h \<Longrightarrow> same_outside ws f h"
  by (simp add: same_outside_def)

lemma update_outside:
  "cluster_at ws \<Longrightarrow> \<forall>v \<in> set vs. plain_comp v \<Longrightarrow> same_outside ws f (AList.update (abs_path (ws @ ''base'' # vs)) x f)"
  unfolding same_outside_def
proof (intro allI impI)
  fix us
  assume ws: "cluster_at ws" and vs: "\<forall>v \<in> set vs. plain_comp v"
    and us: "us \<noteq> [] \<and> (\<forall>v \<in> set us. plain_comp v) \<and> hd us \<noteq> ''base''"
  have "plain_comp ''base''" by (simp add: plain_comp_def)
  then have all: "\<forall>v \<in> set us \<union> set (''base'' # vs). plain_comp v" using us vs by auto
  have "abs_path (ws @ us) \<noteq> abs_path (ws @ ''base'' # vs)"
    unfolding cluster_at_inj [OF ws all] using us by auto
  then show "map_of (AList.update (abs_path (ws @ ''base'' # vs)) x f) (abs_path (ws @ us)) = map_of f (abs_path (ws @ us))"
    by (simp add: AList.update_conv')
qed

lemma Mkdir_outside:
  "cluster_at ws \<Longrightarrow> \<forall>v \<in> set vs. plain_comp v \<Longrightarrow> same_outside ws f (snd (os_Mkdir ioerr (abs_path (ws @ ''base'' # vs)) f))"
  by (simp add: os_Mkdir_def update_outside)

lemma WriteFile_outside:
  "cluster_at ws \<Longrightarrow> \<forall>v \<in> set vs. plain_comp v \<Longrightarrow> same_outside ws f (snd (ioutil_WriteFile ioerr (abs_path (ws @ ''base'' # vs)) c f))"
  by (simp add: ioutil_WriteFile_def update_outside)

lemma base_paths:
  assumes "cluster_at ws"
  shows "basePath (abs_path ws) = abs_path (ws @ ''base'' # [])"
    and "plain_comp v \<Longrightarrow> path_Join [abs_path (ws @ ''base'' # []), v] = abs_path (ws @ ''base'' # [v])"
    and "path_Join [abs_path (ws @ ''base'' # []), ''etc/resolv.conf''] = abs_path (ws @ ''base'' # [''etc'', ''resolv.conf''])"
proof -
  have b: "plain_comp ''base''" "plain_comp ''etc''" "plain_comp ''resolv.conf''" by (simp_all add: plain_comp_def)
  then have wb: "cluster_at (ws @ [''base''])" using assms by (auto simp: cluster_at_def)
  show "basePath (abs_path ws) = abs_path (ws @ ''base'' # [])"
    using assms b by (simp add: basePath_def cluster_at_join)
  show "path_Join [abs_path (ws @ ''base'' # []), v] = abs_path (ws @ ''base'' # [v])" if "plain_comp v"
    using cluster_at_join [OF wb, of "[v]"] that by simp
  have "strings_Join ''/'' [abs_path (ws @ [''base'']), ''etc/resolv.conf''] =
      strings_Join ''/'' [abs_path (ws @ [''base'']), ''etc'', ''resolv.conf'']" by simp
  moreover have "abs_path (ws @ [''base'']) \<noteq> []" by (cases ws) simp_all
  ultimately have "path_Join [abs_path (ws @ [''base'']), ''etc/resolv.conf''] = path_Join [abs_path (ws @ [''base'']), ''etc'', ''resolv.conf'']"
    by (simp add: path_Join.simps)
  then show "path_Join [abs_path (ws @ ''base'' # []), ''etc/resolv.conf''] = abs_path (ws @ ''base'' # [''etc'', ''resolv.conf''])"
    using cluster_at_join [OF wb, of "[''etc'', ''resolv.conf'']"] b by simp
qed

lemma DumpDockerImage_rel:
  assumes tr: "\<And>f g h. R f g \<Longrightarrow> R g h \<Longrightarrow> R f h" and untar: "\<And>f. R f (untar outdir f)"
    and mk: "\<And>f. R f (snd (mk_dir outdir f))" "\<And>f. R f (snd (mk_dir (path_Join [outdir, ''handler'']) f))"
      "\<And>f. R f (snd (mk_dir (path_Join [outdir, ''host'']) f))" "\<And>f. R f (snd (mk_dir (path_Join [outdir, ''packages'']) f))"
  shows "R f (snd (DumpDockerImage mk_dir untar e1 e2 e3 outdir f))"
proof -
  define f1 where "f1 = snd (mk_dir outdir f)"
  define f2 where "f2 = untar outdir f1"
  define f3 where "f3 = snd (mk_dir (path_Join [outdir, ''handler'']) f2)"
  define f4 where "f4 = snd (mk_dir (path_Join [outdir, ''host'']) f3)"
  define f5 where "f5 = snd (mk_dir (path_Join [outdir, ''packages'']) f4)"
  have 1: "R f f1" and "R f1 f2" and "R f2 f3" and "R f3 f4" and "R f4 f5"
    unfolding f5_def f4_def f3_def f2_def f1_def by (fact mk untar)+
  then have 2: "R f f2" and 3: "R f f3" and 4: "R f f4" and 5: "R f f5" by (blast intro: tr)+
  have "snd (DumpDockerImage mk_dir untar e1 e2 e3 outdir f) \<in> {f1, f2, f3, f4, f5}"
    by (simp add: DumpDockerImage_def Let_def split_beta f1_def f2_def f3_def f4_def f5_def split: option.split)
  with 1 2 3 4 5 show ?thesis by auto
qed

lemma dump_image_outside:
  assumes ws: "cluster_at ws" and untar: "\<forall>f. same_outside ws f (ae_untar env (basePath (abs_path ws)) f)"
  shows "same_outside ws (a_fs s) (a_fs (snd (dump_image env (basePath (abs_path ws)) s)))"
    and "\<exists>e. fst (dump_image env (basePath (abs_path ws)) s) = Ret e"
proof -
  have plain: "plain_comp ''handler''" "plain_comp ''host''" "plain_comp ''packages''" by (simp_all add: plain_comp_def)
  have M: "same_outside ws f (snd (os_Mkdir (ae_ioerr env) (abs_path (ws @ ''base'' # [])) f))"
    "same_outside ws f (snd (os_Mkdir (ae_ioerr env) (path_Join [abs_path (ws @ ''base'' # []), ''handler'']) f))"
    "same_outside ws f (snd (os_Mkdir (ae_ioerr env) (path_Join [abs_path (ws @ ''base'' # []), ''host'']) f))"
    "same_outside ws f (snd (os_Mkdir (ae_ioerr env) (path_Join [abs_path (ws @ ''base'' # []), ''packages'']) f))" for f
    unfolding base_paths(2) [OF ws plain(1)] base_paths(2) [OF ws plain(2)] base_paths(2) [OF ws plain(3)]
    by (rule Mkdir_outside [OF ws], simp add: plain)+
  have "same_outside ws (a_fs s) (snd (DumpDockerImage (os_Mkdir (ae_ioerr env)) (ae_untar env) e1 e2 e3 (basePath (abs_path ws)) (a_fs s)))" for e1 e2 e3
    by (rule DumpDockerImage_rel) (use untar M in \<open>auto simp: base_paths(1) [OF ws] intro: same_outside_trans\<close>)
  then show "same_outside ws (a_fs s) (a_fs (snd (dump_image env (basePath (abs_path ws)) s)))"
    by (simp add: dump_image_def split_beta)
  show "\<exists>e. fst (dump_image env (basePath (abs_path ws)) s) = Ret e"
    by (simp add: dump_image_def split_beta)
qed

text \<open>A template such as a new cluster has: Docker sandboxes, a local registry, no import cache, no packages.\<close>

definition plain_template :: "config \<Rightarrow> bool" where
  "plain_template c \<longleftrightarrow>
     Sandbox c = ''docker'' \<and> Registry c = ''local'' \<and> Import_cache_size c = 0 \<and> Startup_pkgs c = [] \<and> Benchmark_file c = []"

lemma plain_template_kept [simp]:
  "plain_template (c\<lparr>cfg_path := p\<rparr>) = plain_template c" "plain_template (c\<lparr>SOCK_base_path := p\<rparr>) = plain_template c"
  "plain_template (worker_conf cluster portbase i c) = plain_template c"
  by (simp_all add: plain_template_def worker_conf_def)

text \<open>A cluster in which no worker was started yet.\<close>

definition fresh_cluster :: "string list \<Rightarrow> fs \<Rightarrow> bool" where
  "fresh_cluster ws f \<longleftrightarrow>
     (\<exists>c. ready ws c f \<and> config_complete c \<and> plain_template c) \<and> (\<forall>i. free_slot ws f i)"

lemma fresh_cluster_outside:
  assumes "fresh_cluster ws f" and "same_outside ws f f'"
  shows "fresh_cluster ws f'"
proof -
  have same: "map_of f' (abs_path (ws @ v # vs)) = map_of f (abs_path (ws @ v # vs))"
    if "v \<in> {''logs'', ''workers'', ''config''}" and "\<forall>u \<in> set vs. plain_comp u" for v vs
    using assms(2) that unfolding same_outside_def by auto
  then show ?thesis
    using assms(1) by (simp add: fresh_cluster_def ready_def free_slot_def)
qed

lemma fresh_cluster_template:
  assumes "cluster_at ws" and "fresh_cluster ws f" and "config_complete c" and "plain_template c"
  shows "fresh_cluster ws (AList.update (abs_path (ws @ [''config'', ''template.json''])) (File (WorkerJson c)) f)"
proof -
  have "worker_id i @ ''.json'' \<noteq> ''template.json''" for i by (simp add: worker_id_def)
  then show ?thesis
    using assms
    by (auto simp: fresh_cluster_def ready_def free_slot_def AList.update_conv' cluster_at_inj)
qed

lemma write_template:
  assumes "cluster_at ws" and "ae_ioerr env = (\<lambda>_. None)" and "ready ws c0 (a_fs s)"
  shows "Save env c (templatePath (abs_path ws)) s =
     (Ret None, s\<lparr>a_fs := AList.update (abs_path (ws @ [''config'', ''template.json''])) (File (WorkerJson c)) (a_fs s)\<rparr>)"
  using assms
  by (simp add: Save_def write_file_def ioutil_WriteFile_def cluster_paths cluster_at_dir ready_def)

lemma write_file_parts:
  "write_file env p c s =
     (Ret (fst (ioutil_WriteFile (ae_ioerr env) p c (a_fs s))), s\<lparr>a_fs := snd (ioutil_WriteFile (ae_ioerr env) p c (a_fs s))\<rparr>)"
  by (simp add: write_file_def split_beta)

lemma dump_sock_image_fresh:
  assumes ws: "cluster_at ws" and io: "ae_ioerr env = (\<lambda>_. None)"
    and untar: "\<forall>f. same_outside ws f (ae_untar env (basePath (abs_path ws)) f)" and f: "fresh_cluster ws (a_fs s)"
  shows "\<exists>e s'. dump_sock_image env (abs_path ws) s = (Ret e, s') \<and> fresh_cluster ws (a_fs s')"
proof -
  obtain e1 s1 where d: "dump_image env (basePath (abs_path ws)) s = (Ret e1, s1)"
    using dump_image_outside(2) [OF ws untar, of s] by (metis prod.collapse)
  have f1: "fresh_cluster ws (a_fs s1)"
    using fresh_cluster_outside [OF f] dump_image_outside(1) [OF ws untar, of s] d by simp
  obtain e2 s2 where w: "write_dns env (basePath (abs_path ws)) s1 = (Ret e2, s2)"
    by (simp add: write_dns_def write_file_parts)
  have plain: "\<forall>v \<in> set [''etc'', ''resolv.conf'']. plain_comp v" by (simp add: plain_comp_def)
  have "same_outside ws (a_fs s1) (a_fs s2)"
    using w WriteFile_outside [OF ws plain] unfolding write_dns_def base_paths(1,3) [OF ws] write_file_parts
    by auto
  then have f2: "fresh_cluster ws (a_fs s2)" by (rule fresh_cluster_outside [OF f1])
  then obtain c where c: "ready ws c (a_fs s2)" "config_complete c" "plain_template c"
    by (auto simp: fresh_cluster_def)
  then have p: "parse_config env s2 (templatePath (abs_path ws)) = Inr (c\<lparr>cfg_path := templatePath (abs_path ws)\<rparr>)"
    by (intro parse_config_worker io) (simp_all add: ready_def cluster_paths [OF ws])
  let ?c = "c\<lparr>cfg_path := templatePath (abs_path ws), SOCK_base_path := basePath (abs_path ws)\<rparr>"
  have "config_complete ?c" using c(2,3) by (simp add: config_complete_def plain_template_def)
  then have "fresh_cluster ws (AList.update (abs_path (ws @ [''config'', ''template.json''])) (File (WorkerJson ?c)) (a_fs s2))"
    using fresh_cluster_template [OF ws f2] c(3) by simp
  then show ?thesis
    using d w p f1 f2 write_template [OF ws io c(1), of ?c]
    by (cases e1; cases e2) (simp_all add: dump_sock_image_def on_cluster_at [OF ws] and_then_def)
qed

text \<open>The template of a new cluster can be completed.\<close>

lemma template_Defaults:
  assumes "cluster_at ws"
  shows "Defaults getwd (template_config (abs_path ws)) = (None, default_numbers (template_config (abs_path ws)))"
    and "config_complete (default_numbers (template_config (abs_path ws)))"
    and "plain_template (default_numbers (template_config (abs_path ws)))"
proof -
  have plain: "plain_comp ''registry''" "plain_comp ''packages''" "plain_comp ''default''" by (simp_all add: plain_comp_def)
  have ne: "abs_path ws \<noteq> []" using assms by (cases ws) (simp_all add: cluster_at_def)
  have paths: "registryPath (abs_path ws) = abs_path (ws @ [''registry''])" "packagesPath (abs_path ws) = abs_path (ws @ [''packages''])"
    "workerPath (abs_path ws) ''default'' = abs_path (ws @ [''workers'', ''default''])"
    using assms plain by (simp_all add: registryPath_def packagesPath_def workerPath_def cluster_at_join)
  have "abs_path (ws @ us) \<noteq> []" if "us \<noteq> []" for us using ne by (simp add: abs_path_append)
  then show "Defaults getwd (template_config (abs_path ws)) = (None, default_numbers (template_config (abs_path ws)))"
    using ne paths
    by (simp add: Defaults_def template_config_def default_names_def default_numbers_def zero_config_def
        default_sandbox_def resolve_dir_def abs_path_IsAbs Let_def)
  show "config_complete (default_numbers (template_config (abs_path ws)))"
    using ne paths by (simp add: config_complete_def template_config_def default_numbers_def zero_config_def abs_path_IsAbs)
  show "plain_template (default_numbers (template_config (abs_path ws)))"
    by (simp add: plain_template_def default_numbers_def template_config_def zero_config_def)
qed

text \<open>Nothing is where the cluster will be, and its parent directory exists.\<close>

definition vacant :: "string list \<Rightarrow> fs \<Rightarrow> bool" where
  "vacant ws f \<longleftrightarrow> map_of f (path_Dir (abs_path ws)) = Some Dir \<and> path_Dir (abs_path ws) \<noteq> abs_path ws \<and>
     (\<forall>vs. (\<forall>v \<in> set vs. plain_comp v) \<longrightarrow> map_of f (abs_path (ws @ vs)) = None)"

definition subdirs :: "string list" where
  "subdirs = [''logs'', ''workers'', ''registry'', ''packages'', ''import-cache'', ''config'']"

lemma subdirs_plain: "\<forall>d \<in> set subdirs. plain_comp d"
  by (simp add: subdirs_def plain_comp_def)

lemma cluster_dirs_at: "cluster_at ws \<Longrightarrow> cluster_dirs (abs_path ws) = abs_path ws # map (\<lambda>d. abs_path (ws @ [d])) subdirs"
  using subdirs_plain
  by (simp add: cluster_dirs_def subdirs_def registryPath_def packagesPath_def cachePath_def cluster_at_join)

lemma mkdirs_cluster:
  assumes ws: "cluster_at ws" and io: "ae_ioerr env = (\<lambda>_. None)" and v: "vacant ws (a_fs s)"
  shows "mkdirs env (cluster_dirs (abs_path ws)) s = (Ret None, s\<lparr>a_fs := make_dirs (cluster_dirs (abs_path ws)) (a_fs s)\<rparr>)"
proof -
  let ?s = "s\<lparr>a_fs := AList.update (abs_path ws) Dir (a_fs s)\<rparr>"
  let ?ps = "map (\<lambda>d. abs_path (ws @ [d])) subdirs"
  have none: "map_of (a_fs s) (abs_path (ws @ vs)) = None" if "\<forall>v \<in> set vs. plain_comp v" for vs
    using v that by (simp add: vacant_def)
  have "mkdir env (abs_path ws) s = (Ret None, ?s)"
    using v none [of "[]"] by (intro mkdir_ok io) (simp_all add: vacant_def)
  moreover have "mkdirs env ?ps ?s = (Ret None, ?s\<lparr>a_fs := make_dirs ?ps (a_fs ?s)\<rparr>)"
  proof (rule mkdirs_flat [OF io, where d = "abs_path ws"])
    have "inj_on (\<lambda>d. abs_path (ws @ [d])) (set subdirs)"
      by (rule inj_onI) (use subdirs_plain cluster_at_inj [OF ws] in auto)
    then show "distinct ?ps" by (simp add: distinct_map subdirs_def)
    show "\<forall>p \<in> set ?ps. path_Dir p = abs_path ws \<and> map_of (a_fs ?s) p = None"
    proof
      fix p assume "p \<in> set ?ps"
      then obtain d where p: "p = abs_path (ws @ [d])" and d: "plain_comp d" using subdirs_plain by auto
      have "p \<noteq> abs_path ws" using cluster_at_inj [OF ws, of "[d]" "[]"] d p by simp
      then show "path_Dir p = abs_path ws \<and> map_of (a_fs ?s) p = None"
        using ws d none [of "[d]"] path_Dir_abs_path [of ws d] by (simp add: p AList.update_conv' cluster_at_def)
    qed
  qed (simp add: AList.update_conv')
  ultimately show ?thesis by (simp add: cluster_dirs_at [OF ws] and_then_def make_dirs_def)
qed

lemma newCluster_fresh:
  assumes ws: "cluster_at ws" and io: "ae_ioerr env = (\<lambda>_. None)" and v: "vacant ws (a_fs s)"
    and untar: "\<forall>f. same_outside ws f (ae_untar env (basePath (abs_path ws)) f)"
  shows "\<exists>s'. newCluster env (abs_path ws) s = (Ret None, s') \<and> fresh_cluster ws (a_fs s')"
proof -
  let ?c = "default_numbers (template_config (abs_path ws))"
  let ?lb = "abs_path (ws @ [''config'', ''load_balancer.json''])"
  let ?t = "abs_path (ws @ [''config'', ''template.json''])"
  define f1 where "f1 = make_dirs (cluster_dirs (abs_path ws)) (a_fs s)"
  define f2 where "f2 = AList.update ?lb (File (ProxyJson (SetDefaultValues zero_proxy))) f1"
  define s3 where "s3 = s\<lparr>a_fs := AList.update ?t (File (WorkerJson ?c)) f2\<rparr>"
  note inj = cluster_at_inj [OF ws]
  have sub: "map_of f1 (abs_path (ws @ [d])) = Some Dir" if "d \<in> set subdirs" for d
    using that by (auto simp: f1_def map_of_make_dirs cluster_dirs_at [OF ws])
  have below: "map_of f1 (abs_path (ws @ [d, x])) = None" if "plain_comp d" "plain_comp x" for d x
  proof -
    have "abs_path (ws @ [d, x]) \<notin> set (cluster_dirs (abs_path ws))"
      using that inj [of "[d, x]" "[]"] inj [of "[d, x]" "[_]"] subdirs_plain by (auto simp: cluster_dirs_at [OF ws])
    then show ?thesis using v that by (simp add: f1_def map_of_make_dirs vacant_def)
  qed
  have conf: "configPath (abs_path ws) ''load_balancer'' = ?lb" "path_Dir ?lb = abs_path (ws @ [''config''])"
    using ws by (simp_all add: configPath_def cluster_at_join cluster_at_dir)
  have lb: "SaveConfig env (SetDefaultValues zero_proxy) (configPath (abs_path ws) ''load_balancer'') (s\<lparr>a_fs := f1\<rparr>) = (Ret None, s\<lparr>a_fs := f2\<rparr>)"
    using io sub [of "''config''"] below [of "''config''" "''load_balancer.json''"]
    by (simp add: SaveConfig_def write_file_def ioutil_WriteFile_def conf f2_def subdirs_def)
  have f2: "map_of f2 (abs_path (ws @ vs)) = map_of f1 (abs_path (ws @ vs))"
    if "\<forall>v \<in> set vs. plain_comp v" "vs \<noteq> [''config'', ''load_balancer.json'']" for vs
    using that by (simp add: f2_def AList.update_conv' inj)
  have t: "Save env ?c (templatePath (abs_path ws)) (s\<lparr>a_fs := f2\<rparr>) = (Ret None, s3)"
    using io ws f2 [of "[''config'']"] f2 [of "[''config'', ''template.json'']"] sub [of "''config''"] below [of "''config''" "''template.json''"]
    by (simp add: Save_def write_file_def ioutil_WriteFile_def cluster_paths cluster_at_dir s3_def subdirs_def)
  have ids: "worker_id i @ ''.json'' \<noteq> ''template.json''" "worker_id i @ ''.json'' \<noteq> ''load_balancer.json''" for i
    by (simp_all add: worker_id_def)
  have "ready ws ?c (a_fs s3)"
    using sub by (auto simp: ready_def s3_def AList.update_conv' inj f2 subdirs_def)
  moreover have "free_slot ws (a_fs s3) i" for i
    using below ids by (simp add: free_slot_def s3_def AList.update_conv' inj f2)
  ultimately have "fresh_cluster ws (a_fs s3)"
    using template_Defaults(2,3) [OF ws] by (auto simp: fresh_cluster_def)
  from dump_sock_image_fresh [OF ws io untar this]
  obtain e s4 where "dump_sock_image env (abs_path ws) s3 = (Ret e, s4)" and "fresh_cluster ws (a_fs s4)" by blast
  then show ?thesis
    using mkdirs_cluster [OF ws io v] lb t template_Defaults(1) [OF ws, of "ae_getwd env"]
    by (simp add: newCluster_def on_cluster_at [OF ws] and_then_def flip: f1_def)
qed

lemma new_cluster_workers:
  assumes "cluster_at ws" and "calm env" and "vacant ws (a_fs s)"
    and "\<forall>f. same_outside ws f (ae_untar env (basePath (abs_path ws)) f)"
  shows "\<exists>s1 s2 pids. newCluster env (abs_path ws) s = (Ret None, s1) \<and>
     workers env (abs_path ws) False portbase n s1 = (Ret None, s2) \<and> length pids = nat n \<and>
     a_procs s2 = a_procs s1 @ zip pids (map (worker_cmd env ws) [0..<nat n]) \<and>
     (\<forall>i < nat n.
        ioutil_ReadFile (ae_ioerr env) (a_fs s2) (pidPath (abs_path ws) (worker_id i)) = Inr (Text (strconv_Itoa (pids ! i))) \<and>
        map_of (a_fs s2) (workerPath (abs_path ws) (worker_id i)) = Some Dir \<and>
        (\<exists>c. parse_config env s2 (configPath (abs_path ws) (worker_id i)) = Inr c \<and> plain_template c \<and>
           Worker_port c = strconv_Itoa (portbase + int i) \<and> Worker_dir c = workerPath (abs_path ws) (worker_id i)))"
proof -
  have io: "ae_ioerr env = (\<lambda>_. None)" using assms(2) by (simp add: calm_def)
  obtain s1 c where s1: "newCluster env (abs_path ws) s = (Ret None, s1)" and c: "ready ws c (a_fs s1)" "config_complete c" "plain_template c"
    and free: "\<forall>i. free_slot ws (a_fs s1) i"
    using newCluster_fresh [OF assms(1) io assms(3,4)] by (auto simp: fresh_cluster_def)
  define c0 where "c0 = c\<lparr>cfg_path := templatePath (abs_path ws)\<rparr>"
  have c0: "config_complete c0" "plain_template c0" using c(2,3) by (simp_all add: c0_def)
  obtain pids where len: "length pids = nat n" and run: "workers env (abs_path ws) False portbase n s1 =
      (Ret None, s1\<lparr>a_procs := a_procs s1 @ zip pids (map (worker_cmd env ws) [0..<nat n]),
                   a_fs := all_files ws portbase 0 (zip (replicate (nat n) c0) pids) (a_fs s1)\<rparr>)"
    using workers_run [OF assms(1,2) c(1,2) free, of n portbase] unfolding c0_def by blast
  let ?s2 = "s1\<lparr>a_procs := a_procs s1 @ zip pids (map (worker_cmd env ws) [0..<nat n]),
      a_fs := all_files ws portbase 0 (zip (replicate (nat n) c0) pids) (a_fs s1)\<rparr>"
  have found: "parse_config env ?s2 (configPath (abs_path ws) (worker_id i)) =
      Inr ((worker_conf (abs_path ws) portbase i c0)\<lparr>cfg_path := configPath (abs_path ws) (worker_id i)\<rparr>)"
    "ioutil_ReadFile (ae_ioerr env) (a_fs ?s2) (pidPath (abs_path ws) (worker_id i)) = Inr (Text (strconv_Itoa (pids ! i)))"
    if "i < nat n" for i
    using workers_found [OF assms(1) io c0(1) that len, of ?s2 portbase "a_fs s1"] by simp_all
  have dir: "map_of (a_fs ?s2) (workerPath (abs_path ws) (worker_id i)) = Some Dir" if "i < nat n" for i
    using all_files_here [OF assms(1), of i "zip (replicate (nat n) c0) pids" portbase 0 "a_fs s1"] that len
    by (simp add: cluster_paths [OF assms(1)])
  show ?thesis
    by (intro exI [of _ s1] exI [of _ ?s2] exI [of _ pids] conjI allI impI s1 run)
       (use len found dir c0(2) in \<open>simp_all add: worker_conf_def plain_template_def\<close>)
qed

text \<open>
  A cluster that was created where there was nothing can run workers.  \<open>workers\<close> starts \<open>n\<close> of them;
  the configuration each is started with is accepted by \<open>ParseConfig\<close>, asks for Docker sandboxes, a local registry and no import cache, has a port of its own counted
  from the base port and a directory of its own that exists, and its pid is on file.
\<close>
theorem new_cluster_runs_workers:
  assumes "cluster_at ws" and "calm env" and "vacant ws (a_fs s)"
    and "\<forall>f. same_outside ws f (ae_untar env (basePath (abs_path ws)) f)"
  shows "\<exists>s1 s2. newCluster env (abs_path ws) s = (Ret None, s1) \<and>
     workers env (abs_path ws) False portbase n s1 = (Ret None, s2) \<and>
     length (a_procs s2) = length (a_procs s1) + nat n \<and>
     (\<forall>i < nat n. snd (a_procs s2 ! (length (a_procs s1) + i)) = worker_cmd env ws i \<and>
        ioutil_ReadFile (ae_ioerr env) (a_fs s2) (pidPath (abs_path ws) (worker_id i)) =
          Inr (Text (strconv_Itoa (fst (a_procs s2 ! (length (a_procs s1) + i))))) \<and>
        map_of (a_fs s2) (workerPath (abs_path ws) (worker_id i)) = Some Dir \<and>
        (\<exists>c. parse_config env s2 (configPath (abs_path ws) (worker_id i)) = Inr c \<and> plain_template c \<and>
           Worker_port c = strconv_Itoa (portbase + int i) \<and> Worker_dir c = workerPath (abs_path ws) (worker_id i)))"
proof -
  obtain s1 s2 pids where "newCluster env (abs_path ws) s = (Ret None, s1)" "workers env (abs_path ws) False portbase n s1 = (Ret None, s2)"
    and len: "length pids = nat n" and procs: "a_procs s2 = a_procs s1 @ zip pids (map (worker_cmd env ws) [0..<nat n])"
    and rest: "\<forall>i < nat n.
        ioutil_ReadFile (ae_ioerr env) (a_fs s2) (pidPath (abs_path ws) (worker_id i)) = Inr (Text (strconv_Itoa (pids ! i))) \<and>
        map_of (a_fs s2) (workerPath (abs_path ws) (worker_id i)) = Some Dir \<and>
        (\<exists>c. parse_config env s2 (configPath (abs_path ws) (worker_id i)) = Inr c \<and> plain_template c \<and>
           Worker_port c = strconv_Itoa (portbase + int i) \<and> Worker_dir c = workerPath (abs_path ws) (worker_id i))"
    using new_cluster_workers [OF assms, of portbase n] by blast
  moreover have "fst (a_procs s2 ! (length (a_procs s1) + i)) = pids ! i \<and> snd (a_procs s2 ! (length (a_procs s1) + i)) = worker_cmd env ws i"
    if "i < nat n" for i
    using that len by (simp add: procs nth_append)
  moreover have "length (a_procs s2) = length (a_procs s1) + nat n" using len by (simp add: procs)
  ultimately show ?thesis by (intro exI [of _ s1] exI [of _ s2]) simp
qed

subsection \<open>Killing what was started\<close>

definition log_files :: "string list \<Rightarrow> nat \<Rightarrow> string set" where
  "log_files ws i = {abs_path (ws @ [''logs'', worker_id i @ ''.out'']), abs_path (ws @ [''logs'', worker_id i @ ''.pid''])}"

definition other_files :: "string list \<Rightarrow> nat \<Rightarrow> string set" where
  "other_files ws i = {abs_path (ws @ [''workers'', worker_id i]), abs_path (ws @ [''config'', worker_id i @ ''.json''])}"

lemma keys_all_files:
  "fst ` set (all_files ws portbase i xs f) = fst ` set f \<union> (\<Union>j \<in> {i..<i + length xs}. log_files ws j \<union> other_files ws j)"
proof (induction xs arbitrary: i f)
  case (Cons x xs)
  obtain c pid where x: "x = (c, pid)" by (cases x)
  have "{i..<i + length (x # xs)} = insert i {Suc i..<Suc i + length xs}" by auto
  moreover have "fst ` set (worker_files ws portbase c pid i f) = fst ` set f \<union> log_files ws i \<union> other_files ws i"
    by (auto simp: worker_files_def log_files_def other_files_def dom_update)
  ultimately show ?case using Cons.IH by (simp add: x Un_ac)
qed simp

definition logs_empty :: "string list \<Rightarrow> fs \<Rightarrow> bool" where
  "logs_empty ws f \<longleftrightarrow> (\<forall>q \<in> fst ` set f. path_Dir q = abs_path (ws @ [''logs'']) \<longrightarrow> q = abs_path (ws @ [''logs'']))"

lemma HasSuffix_same_length: "length v = length w \<Longrightarrow> strings_HasSuffix (u @ v) w \<longleftrightarrow> v = w"
  by (auto simp: strings_HasSuffix_def)

lemma pid_names [simp]:
  "is_pid_of ''worker'' (worker_id i @ ''.pid'')" "\<not> is_pid_of ''worker'' (worker_id i @ ''.out'')"
  "\<not> is_pid_of ''load_balancer'' (worker_id i @ v)"
proof -
  have "strings_HasPrefix (worker_id i @ v) ''worker''" "\<not> strings_HasPrefix (worker_id i @ v) ''load_balancer''" for v
    by (simp_all add: worker_id_def strings_HasPrefix_def)
  then show "is_pid_of ''worker'' (worker_id i @ ''.pid'')" "\<not> is_pid_of ''worker'' (worker_id i @ ''.out'')"
    "\<not> is_pid_of ''load_balancer'' (worker_id i @ v)"
    by (simp_all add: is_pid_of_def HasSuffix_same_length)
qed

lemma logs_listed:
  assumes ws: "cluster_at ws" and e: "logs_empty ws f" and len: "length xs = n"
    and names: "names = dir_names (all_files ws portbase 0 xs f) (abs_path (ws @ [''logs'']))"
  shows "distinct names" and "set names = (\<Union>i \<in> {0..<n}. {worker_id i @ ''.out'', worker_id i @ ''.pid''})"
proof -
  let ?d = "abs_path (ws @ [''logs''])"
  let ?keys = "map fst (all_files ws portbase 0 xs f)"
  let ?sel = "filter (\<lambda>q. path_Dir q = ?d \<and> q \<noteq> ?d) (remdups ?keys)"
  note inj = cluster_at_inj [OF ws]
  have log: "path_Dir q = ?d" "q \<noteq> ?d" if "q \<in> log_files ws i" for q i
    using that cluster_at_dir [OF ws] inj by (auto simp: log_files_def)
  have other: "path_Dir q \<noteq> ?d" if "q \<in> other_files ws i" for q i
    using that cluster_at_dir [OF ws] inj [of "[''workers'']" "[''logs'']"] inj [of "[''config'']" "[''logs'']"]
    by (auto simp: other_files_def)
  have sel: "set ?sel = (\<Union>i \<in> {0..<n}. log_files ws i)"
    using e log other unfolding logs_empty_def by (auto simp: keys_all_files len) blast
  have base: "base_name (abs_path (ws @ [''logs'', v])) = v" if "plain_comp v" for v
    using base_name_abs_path [of "ws @ [''logs'', v]"] ws that by (auto simp: cluster_at_def)
  have "inj_on base_name (set ?sel)"
  proof (rule inj_onI)
    fix p q assume "p \<in> set ?sel" "q \<in> set ?sel" and b: "base_name p = base_name q"
    then obtain u v where "p = abs_path (ws @ [''logs'', u])" "q = abs_path (ws @ [''logs'', v])" "plain_comp u" "plain_comp v"
      unfolding sel by (auto simp: log_files_def)
    then show "p = q" using b base by simp
  qed
  then show "distinct names" by (simp add: names dir_names_def distinct_map)
  have "set names = base_name ` set ?sel" by (simp only: names dir_names_def set_sort set_map)
  then show "set names = (\<Union>i \<in> {0..<n}. {worker_id i @ ''.out'', worker_id i @ ''.pid''})"
    unfolding sel by (auto simp: log_files_def base image_iff)
qed

lemma kill_processes_all:
  assumes "\<forall>x \<in> set names. ioutil_ReadFile (ae_ioerr env) (a_fs s) (logPath cluster x) = Inr (Text (strconv_Itoa (pid x))) \<and> in_int64 (pid x)"
    and "\<forall>p. ae_findProcess env p = None" and "\<forall>p. ae_signal env p = None"
  shows "kill_processes env cluster names s = (Ret None, s\<lparr>a_signals := a_signals s @ map pid names\<rparr>)"
  using assms(1)
proof (induction names arbitrary: s)
  case (Cons x names)
  have "kill_process env cluster x s = (Ret None, s\<lparr>a_signals := a_signals s @ [pid x]\<rparr>)"
    using Cons.prems assms(2,3) by (simp add: kill_process_def text_of_def strconv_Atoi_Itoa)
  then show ?case using Cons.IH [of "s\<lparr>a_signals := a_signals s @ [pid x]\<rparr>"] Cons.prems by (simp add: and_then_def)
qed simp

lemma mset_pid_files:
  assumes "distinct names" and "set names = (\<Union>i \<in> {0..<n}. {worker_id i @ ''.out'', worker_id i @ ''.pid''})"
  shows "mset (filter (is_pid_of ''worker'') names) = mset (map (\<lambda>i. worker_id i @ ''.pid'') [0..<n])"
    and "filter (is_pid_of ''load_balancer'') names = []"
proof -
  have "set (filter (is_pid_of ''worker'') names) = set (map (\<lambda>i. worker_id i @ ''.pid'') [0..<n])"
    using assms(2) by auto
  moreover have "distinct (map (\<lambda>i. worker_id i @ ''.pid'') [0..<n])" by (simp add: distinct_map inj_on_def)
  ultimately show "mset (filter (is_pid_of ''worker'') names) = mset (map (\<lambda>i. worker_id i @ ''.pid'') [0..<n])"
    using assms(1) set_eq_iff_mset_eq_distinct by (metis distinct_filter)
  show "filter (is_pid_of ''load_balancer'') names = []" using assms(2) by (auto simp: filter_empty_conv)
qed

text \<open>The pid files of running workers are found again and their processes signalled.\<close>

lemma kill_reaches_workers:
  assumes ws: "cluster_at ws" and io: "ae_ioerr env = (\<lambda>_. None)" and c: "config_complete c" and e: "logs_empty ws f"
    and d: "map_of (a_fs s) (abs_path (ws @ [''logs''])) = Some Dir" and len: "length pids = n" and pids: "\<forall>p \<in> set pids. in_int64 p"
    and fs: "a_fs s = all_files ws portbase 0 (zip (replicate n c) pids) f"
    and env: "\<forall>p. ae_findProcess env p = None" "\<forall>p. ae_signal env p = None" "ad_ListContainers (ae_docker env) (a_docker s) = Inr []"
  shows "\<exists>ps. kill env types (abs_path ws) s = (Ret None, s\<lparr>a_signals := a_signals s @ ps\<rparr>) \<and> mset ps = mset pids"
proof -
  let ?name = "\<lambda>i. worker_id i @ ''.pid''"
  define pid where "pid x = pids ! inv ?name x" for x
  have "inj ?name" by (auto intro: injI)
  from inv_f_f [OF this] have pid: "pid (?name i) = pids ! i" for i by (simp add: pid_def)
  define names where "names = dir_names (a_fs s) (abs_path (ws @ [''logs'']))"
  have N: "distinct names" "set names = (\<Union>i \<in> {0..<n}. {worker_id i @ ''.out'', worker_id i @ ''.pid''})"
    using logs_listed [OF ws e, of "zip (replicate n c) pids" n names portbase] len by (simp_all add: names_def fs)
  have read: "ioutil_ReadFile (ae_ioerr env) (a_fs s) (logPath (abs_path ws) x) = Inr (Text (strconv_Itoa (pid x))) \<and> in_int64 (pid x)"
    if x: "x \<in> set (filter (is_pid_of ''worker'') names)" for x
  proof -
    obtain i where i: "i < n" "x = ?name i" using x N(2) by auto
    have "in_int64 (pids ! i)" using pids i(1) len by simp
    then show ?thesis using i workers_found(2) [OF ws io c i(1) len fs] by (simp add: pid logPath_def pidPath_def)
  qed
  have none: "concat (map (\<lambda>_. []) types) = ([] :: string list)" by (induction types) simp_all
  have "kill env types (abs_path ws) s = (Ret None, s\<lparr>a_signals := a_signals s @ map pid (filter (is_pid_of ''worker'') names)\<rparr>)"
    using kill_processes_all [of "filter (is_pid_of ''worker'') names" env s "abs_path ws" pid] read env d io
      mset_pid_files(2) [OF N]
    by (simp add: kill_def on_cluster_at [OF ws] cluster_at_join [OF ws] clusterNodes_def ioutil_ReadDir_def and_then_def none names_def [symmetric])
  moreover have "mset (map pid (filter (is_pid_of ''worker'') names)) = mset pids"
  proof -
    have "mset (map pid (filter (is_pid_of ''worker'') names)) = image_mset pid (mset (map ?name [0..<n]))"
      by (simp only: mset_map mset_pid_files(1) [OF N])
    also have "\<dots> = mset (map (\<lambda>i. pids ! i) [0..<length pids])"
      by (simp only: mset_map [symmetric] map_map comp_def pid len)
    finally show ?thesis by (simp only: map_nth)
  qed
  ultimately show ?thesis by blast
qed

text \<open>
  C30.  \<open>kill\<close> reaches what \<open>workers\<close> started: in a cluster without containers whose log directory was empty,
  it signals the process of every worker exactly once, and nothing else.
\<close>
theorem kill_signals_workers:
  assumes "cluster_at ws" and "calm env" and "fresh_cluster ws (a_fs s)" and "logs_empty ws (a_fs s)"
    and "\<forall>cmd k pid. ae_start env cmd k = Inr pid \<longrightarrow> in_int64 pid"
    and "\<forall>p. ae_findProcess env p = None" and "\<forall>p. ae_signal env p = None"
    and "ad_ListContainers (ae_docker env) (a_docker s) = Inr []"
  shows "\<exists>s1 s2. workers env (abs_path ws) False portbase n s = (Ret None, s1) \<and>
     kill env types (abs_path ws) s1 = (Ret None, s2) \<and>
     mset (a_signals s2) = mset (a_signals s) + mset (map fst (drop (length (a_procs s)) (a_procs s1)))"
proof -
  have io: "ae_ioerr env = (\<lambda>_. None)" using assms(2) by (simp add: calm_def)
  obtain c where c: "ready ws c (a_fs s)" "config_complete c" and free: "\<forall>i. free_slot ws (a_fs s) i"
    using assms(3) by (auto simp: fresh_cluster_def)
  let ?c = "c\<lparr>cfg_path := templatePath (abs_path ws)\<rparr>"
  obtain pids where len: "length pids = nat n" and starts: "\<forall>p \<in> set pids. \<exists>cmd k. ae_start env cmd k = Inr p"
    and run: "workers env (abs_path ws) False portbase n s =
      (Ret None, s\<lparr>a_procs := a_procs s @ zip pids (map (worker_cmd env ws) [0..<nat n]),
                   a_fs := all_files ws portbase 0 (zip (replicate (nat n) ?c) pids) (a_fs s)\<rparr>)"
    using workers_run [OF assms(1,2) c free, of n portbase] by blast
  let ?s1 = "s\<lparr>a_procs := a_procs s @ zip pids (map (worker_cmd env ws) [0..<nat n]),
      a_fs := all_files ws portbase 0 (zip (replicate (nat n) ?c) pids) (a_fs s)\<rparr>"
  have "\<exists>ps. kill env types (abs_path ws) ?s1 = (Ret None, ?s1\<lparr>a_signals := a_signals ?s1 @ ps\<rparr>) \<and> mset ps = mset pids"
  proof (rule kill_reaches_workers [OF assms(1) io _ assms(4) _ len])
    show "map_of (a_fs ?s1) (abs_path (ws @ [''logs''])) = Some Dir"
      using assms(1) c(1) by (simp add: all_files_elsewhere ready_def)
    show "\<forall>p \<in> set pids. in_int64 p" using starts assms(5) by blast
  qed (use c(2) assms(6-8) in simp_all)
  then obtain ps where "kill env types (abs_path ws) ?s1 = (Ret None, ?s1\<lparr>a_signals := a_signals ?s1 @ ps\<rparr>)" "mset ps = mset pids" by blast
  then show ?thesis using run len by (intro exI conjI) (rule run, assumption, simp)
qed

subsection \<open>Examples\<close>

definition ex_docker :: "unit admin_docker" where
  "ex_docker =
     \<lparr>ad_ListContainers = (\<lambda>d. Inr []), ad_InspectContainer = (\<lambda>cid d. Inl ''No such container''),
      ad_InspectImage = (\<lambda>img d. None), ad_PullImage = (\<lambda>img tag d. (None, d)),
      ad_CreateContainer = (\<lambda>opts d. (Inr ''c0ffee'', d)), ad_StartContainer = (\<lambda>cid d. (None, d)),
      ad_UnpauseContainer = (\<lambda>cid d. (None, d)), ad_KillContainer = (\<lambda>cid d. (None, d))\<rparr>"

definition ex_admin_env :: "unit admin_env" where
  "ex_admin_env =
     \<lparr>ae_docker = ex_docker, ae_arg0 = ''admin'', ae_getwd = Inr ''/'', ae_ioerr = (\<lambda>_. None), ae_text = (\<lambda>c. []),
      ae_worker = (\<lambda>t. Inl ''invalid character''), ae_proxy = (\<lambda>t. (zero_proxy, Some ''invalid character'')),
      ae_start = (\<lambda>cmd k. Inr (100 + int (k mod 1000))), ae_untar = (\<lambda>d f. f), ae_dump_errors = (None, None, None),
      ae_get = (\<lambda>url. Answered ''ready'' ''200 OK''), ae_findProcess = (\<lambda>p. None), ae_signal = (\<lambda>p. None),
      ae_merge = (\<lambda>t c. Inr c)\<rparr>"

definition ex_empty :: "unit admin" where
  "ex_empty = \<lparr>a_fs = [(''/'', Dir)], a_docker = (), a_procs = [], a_signals = []\<rparr>"

lemma ex_env_simps [simp]:
  "ae_ioerr ex_admin_env = (\<lambda>_. None)" "ae_untar ex_admin_env d f = f" "ae_findProcess ex_admin_env p = None"
  "ae_signal ex_admin_env p = None" "ad_ListContainers (ae_docker ex_admin_env) u = Inr []"
  "ae_start ex_admin_env cmd k = Inr (100 + int (k mod 1000))"
  "ad_InspectImage (ae_docker ex_admin_env) img u = None"
  by (simp_all add: ex_admin_env_def ex_docker_def)

lemma ex_calm: "calm ex_admin_env" "cluster_at [''c'']"
  by (simp_all add: calm_def cluster_at_def plain_comp_def)

lemma ex_vacant: "vacant [''c''] (a_fs ex_empty)"
proof -
  have "path_Dir (abs_path [''c'']) = ''/''" by code_simp
  then show ?thesis by (simp add: vacant_def ex_empty_def)
qed

theorem new_cluster_runs_workers_witness:
  "\<exists>s1 s2. newCluster ex_admin_env (abs_path [''c'']) ex_empty = (Ret None, s1) \<and>
     workers ex_admin_env (abs_path [''c'']) False 8080 2 s1 = (Ret None, s2) \<and> length (a_procs s2) = length (a_procs s1) + 2"
  using new_cluster_runs_workers [OF ex_calm(2,1) ex_vacant, of 8080 2] by fastforce

definition ex_cluster :: "unit admin" where
  "ex_cluster = ex_empty\<lparr>a_fs :=
     [(''/c/logs'', Dir), (''/c/workers'', Dir), (''/c/config'', Dir),
      (''/c/config/template.json'', File (WorkerJson (default_numbers (template_config ''/c''))))]\<rparr>"

lemma ex_cluster_fresh: "fresh_cluster [''c''] (a_fs ex_cluster)" "logs_empty [''c''] (a_fs ex_cluster)"
proof -
  have c: "config_complete (default_numbers (template_config ''/c''))" "plain_template (default_numbers (template_config ''/c''))"
    using template_Defaults(2,3) [OF ex_calm(2)] by simp_all
  have "ready [''c''] (default_numbers (template_config ''/c'')) (a_fs ex_cluster)"
    by (simp add: ready_def ex_cluster_def)
  moreover have "free_slot [''c''] (a_fs ex_cluster) i" for i
    by (simp add: free_slot_def ex_cluster_def worker_id_def)
  ultimately show "fresh_cluster [''c''] (a_fs ex_cluster)" using c unfolding fresh_cluster_def by blast
  have "path_Dir ''/c/logs'' = ''/c''" "path_Dir ''/c/workers'' = ''/c''" "path_Dir ''/c/config'' = ''/c''"
    "path_Dir ''/c/config/template.json'' = ''/c/config''" by code_simp+
  then show "logs_empty [''c''] (a_fs ex_cluster)" by (simp add: logs_empty_def ex_cluster_def)
qed

theorem kill_signals_workers_witness:
  "\<exists>s1 s2. workers ex_admin_env (abs_path [''c'']) False 8080 2 ex_cluster = (Ret None, s1) \<and>
     kill ex_admin_env [] (abs_path [''c'']) s1 = (Ret None, s2) \<and>
     mset (a_signals s2) = mset (map fst (a_procs s1))"
proof -
  have "k mod 1000 < 9223372036854775708" for k :: nat
    by (rule less_trans [of _ 1000]) simp_all
  moreover have "a_signals ex_cluster = []" "a_procs ex_cluster = []" by (simp_all add: ex_cluster_def ex_empty_def)
  ultimately show ?thesis
    using kill_signals_workers [OF ex_calm(2,1) ex_cluster_fresh, of 8080 2 "[]"] by (simp add: in_int64_def)
qed

subsection \<open>Commands that exclude each other\<close>

text \<open>
  Workers can be started once: the directories they leave behind make every later \<open>workers\<close> fail when
  it makes the first of them, before any process is started, even if the cluster was killed in between
  (which removes no files).
\<close>
theorem workers_start_once:
  assumes "cluster_at ws" and "calm env" and "fresh_cluster ws (a_fs s)" and "0 < n" and "0 < m"
  shows "\<exists>s1. workers env (abs_path ws) False portbase n s = (Ret None, s1) \<and>
     (\<forall>s2. a_fs s2 = a_fs s1 \<longrightarrow>
        workers env (abs_path ws) False portbase' m s2 =
          (Ret (Some (''mkdir '' @ workerPath (abs_path ws) (worker_id 0) @ '': file exists'')), s2))"
proof -
  have io: "ae_ioerr env = (\<lambda>_. None)" using assms(2) by (simp add: calm_def)
  obtain c where c: "ready ws c (a_fs s)" "config_complete c" and free: "\<forall>i. free_slot ws (a_fs s) i"
    using assms(3) by (auto simp: fresh_cluster_def)
  define xs where "xs = replicate (nat n) (c\<lparr>cfg_path := templatePath (abs_path ws)\<rparr>)"
  obtain pids where len: "length pids = nat n" and run: "workers env (abs_path ws) False portbase n s =
      (Ret None, s\<lparr>a_procs := a_procs s @ zip pids (map (worker_cmd env ws) [0..<nat n]),
                   a_fs := all_files ws portbase 0 (zip xs pids) (a_fs s)\<rparr>)"
    using workers_run [OF assms(1,2) c free, of n portbase] unfolding xs_def by blast
  let ?f = "all_files ws portbase 0 (zip xs pids) (a_fs s)"
  have dir: "map_of ?f (abs_path (ws @ [''workers'', worker_id 0])) = Some Dir"
    using all_files_here [OF assms(1), of 0 "zip xs pids" portbase 0 "a_fs s"] len assms(4) by (simp add: xs_def)
  have template: "map_of ?f (abs_path (ws @ [''config'', ''template.json''])) = Some (File (WorkerJson c))"
    using assms(1) c(1) by (auto simp: all_files_elsewhere ready_def worker_id_def)
  have "workers env (abs_path ws) False portbase' m s2 =
      (Ret (Some (''mkdir '' @ workerPath (abs_path ws) (worker_id 0) @ '': file exists'')), s2)" if s2: "a_fs s2 = ?f" for s2
  proof -
    have "parse_config env s2 (templatePath (abs_path ws)) = Inr (c\<lparr>cfg_path := templatePath (abs_path ws)\<rparr>)"
      using template c(2) s2 by (intro parse_config_worker io) (simp_all add: cluster_paths [OF assms(1)])
    moreover obtain k where "nat m = Suc k" using assms(5) by (metis gr0_implies_Suc zero_less_nat_eq)
    ultimately show ?thesis
      using dir s2 io
      by (simp add: workers_def on_cluster_at [OF assms(1)] worker_confs_def plain_confs_template Let_def
          worker_conf_def cluster_paths [OF assms(1)] mkdir_def os_Mkdir_def and_then_def)
  qed
  with run show ?thesis by auto
qed

theorem workers_start_once_witness:
  "\<exists>s1. workers ex_admin_env (abs_path [''c'']) False 8080 2 ex_cluster = (Ret None, s1) \<and>
     workers ex_admin_env (abs_path [''c'']) False 9090 1 s1 = (Ret (Some ''mkdir /c/workers/worker-0: file exists''), s1)"
proof -
  have "workerPath (abs_path [''c'']) (worker_id 0) = ''/c/workers/worker-0''" by code_simp
  then show ?thesis
    using workers_start_once [OF ex_calm(2,1) ex_cluster_fresh(1), of 2 1 8080 9090] by auto
qed

text \<open>Every pid file counts for \<open>nginx\<close>.\<close>

lemma upstream_fails:
  "name \<in> set names \<Longrightarrow> strings_HasSuffix name ''.pid'' \<Longrightarrow> parse_config env s (configPath cluster (drop_pid name)) = Inl e \<Longrightarrow>
   \<exists>e'. upstream_lines env s cluster names = Inl e'"
  by (induction names) (auto split: sum.split)

lemma proxy_is_no_worker:
  assumes "ae_ioerr env = (\<lambda>_. None)" and "map_of (a_fs s) p = Some (File (ProxyJson q))"
  shows "parse_config env s p = Inl ''must specify local registry directory''"
  using assms
  by (simp add: parse_config_def ParseConfig_def ioutil_ReadFile_def decode_worker_def Defaults_def default_names_def
      zero_config_def Let_def)

text \<open>
  \<open>nginx\<close> does not work in a cluster whose load balancer was started: it takes the pid file of the load
  balancer for that of a worker, and the configuration it then reads is not one of a worker.  The command
  fails, and no container is created.
\<close>
theorem nginx_fails_beside_load_balancer:
  assumes "cluster_at ws" and "ae_ioerr env = (\<lambda>_. None)" and "ad_InspectImage (ae_docker env) ''nginx'' (a_docker s) = None"
    and "map_of (a_fs s) (abs_path (ws @ [''logs''])) = Some Dir"
    and "map_of (a_fs s) (abs_path (ws @ [''config'', ''load_balancer.json''])) = Some (File (ProxyJson p))"
    and "map_of (a_fs s) (pidPath (abs_path ws) ''load_balancer'') = Some (File (Text pid))"
  shows "\<exists>e. nginx env (abs_path ws) portbase n s = (Ret (Some e), s)"
proof -
  let ?pid = "abs_path (ws @ [''logs'', ''load_balancer.pid''])" and ?d = "abs_path (ws @ [''logs''])"
  have "pidPath (abs_path ws) ''load_balancer'' = ?pid" "configPath (abs_path ws) ''load_balancer'' = abs_path (ws @ [''config'', ''load_balancer.json''])"
    "path_Join [abs_path ws, ''logs''] = ?d"
    using assms(1) by (simp_all add: pidPath_def configPath_def cluster_at_join)
  note paths = this
  have "?pid \<in> fst ` set (a_fs s)" using assms(6) by (force simp: paths dest: map_of_SomeD)
  moreover have "path_Dir ?pid = ?d" "?pid \<noteq> ?d"
    using assms(1) by (simp_all add: cluster_at_dir cluster_at_inj)
  ultimately have "base_name ?pid \<in> set (dir_names (a_fs s) ?d)"
    unfolding dir_names_def set_sort set_map by (intro imageI) simp
  moreover have "base_name ?pid = ''load_balancer.pid''"
    using base_name_abs_path [of "ws @ [''logs'', ''load_balancer.pid'']"] assms(1) by (auto simp: cluster_at_def)
  moreover have "drop_pid ''load_balancer.pid'' = ''load_balancer''" "strings_HasSuffix ''load_balancer.pid'' ''.pid''"
    by code_simp+
  moreover have "parse_config env s (configPath (abs_path ws) ''load_balancer'') = Inl ''must specify local registry directory''"
    using assms(5) by (intro proxy_is_no_worker assms(2)) (simp add: paths)
  ultimately obtain e where "upstream_lines env s (abs_path ws) (dir_names (a_fs s) ?d) = Inl e"
    using upstream_fails [of "''load_balancer.pid''"] by metis
  then show ?thesis
    using assms(2-4) paths
    by (simp add: nginx_def on_cluster_at [OF assms(1)] ensure_image_def ioutil_ReadDir_def and_then_def)
qed

definition ex_balanced :: "unit admin" where
  "ex_balanced = ex_cluster\<lparr>a_fs :=
     (''/c/config/load_balancer.json'', File (ProxyJson zero_proxy)) #
     (''/c/logs/load_balancer.pid'', File (Text ''42'')) # a_fs ex_cluster\<rparr>"

theorem nginx_fails_beside_load_balancer_witness:
  "\<exists>e. nginx ex_admin_env (abs_path [''c'']) 9000 1 ex_balanced = (Ret (Some e), ex_balanced)"
proof -
  have "pidPath (abs_path [''c'']) ''load_balancer'' = ''/c/logs/load_balancer.pid''" by code_simp
  then show ?thesis
    using nginx_fails_beside_load_balancer [OF ex_calm(2), of ex_admin_env ex_balanced zero_proxy "''42''" 9000 1]
    by (simp add: ex_balanced_def ex_cluster_def)
qed

text \<open>
  The overview of all clusters that \<open>status\<close> is documented to print is never printed: the name of the
  cluster is made absolute before it is tested for being empty.
\<close>

lemma path_Clean_nonempty: "path_Clean p \<noteq> []"
  by (auto simp: path_Clean_def Let_def)

lemma parseCluster_nonempty: "parseCluster env s flag = Ret cluster \<Longrightarrow> (\<And>wd. ae_getwd env = Inr wd \<Longrightarrow> wd \<noteq> []) \<Longrightarrow> cluster \<noteq> []"
  by (auto simp: parseCluster_def Let_def filepath_Abs_def path_Join.simps path_Clean_nonempty
      split: if_split_asm sum.split_asm res.split_asm)

lemma status_shows_no_overview:
  assumes "\<forall>wd. ae_getwd env = Inr wd \<longrightarrow> wd \<noteq> []"
  shows "admin_status env types flag s \<noteq> Ret (Inr [overview cs])"
proof
  assume st: "admin_status env types flag s = Ret (Inr [overview cs])"
  then obtain cluster where "parseCluster env s flag = Ret cluster" and ne: "cluster \<noteq> []"
    using parseCluster_nonempty [of env s flag] assms by (auto simp: admin_status_def split: res.split_asm)
  then have so: "status_of env types s cluster = Inr [overview cs]"
    using st by (auto simp: admin_status_def split: sum.split_asm if_split_asm)
  have b: "overview ds \<notin> set ls" if "ping_balancers env s cluster names = Inr ls" for names ls ds
    using that by (induction names arbitrary: ls)
      (auto simp: Let_def overview_def map_sum_def split: if_split_asm prod.split_asm option.split_asm sum.split_asm)
  have w: "overview ds \<notin> set ls" if "ping_workers env s cluster names = Inr ls" for names ls ds
    using that by (induction names arbitrary: ls)
      (auto simp: Let_def overview_def map_sum_def split: if_split_asm sum.split_asm)
  have c: "overview ds \<notin> set ls" if "container_lines env s ty cids = Inr ls" for ty cids ls ds
    using that by (induction cids arbitrary: ls) (auto simp: overview_def map_sum_def split: sum.split_asm)
  have n: "overview ds \<notin> set ls" if "node_lines env s nodes ts = Inr ls" for nodes ts ls ds
    using that c by (induction ts arbitrary: ls) (auto simp: map_sum_def split: sum.split_asm)
  obtain logs ls1 ls2 nodes ls3 where parts: "ping_balancers env s cluster logs = Inr ls1"
    "ping_workers env s cluster logs = Inr ls2" "node_lines env s nodes types = Inr ls3" and "ls1 @ ls2 @ ls3 = [overview cs]"
    using so unfolding status_of_def by (auto simp: map_sum_def split: sum.split_asm)
  then have "overview cs \<in> set (ls1 @ ls2 @ ls3)" by simp
  then show False using b [OF parts(1)] w [OF parts(2)] n [OF parts(3)] by simp
qed

end
