(* ===== verification/CSystem.thy ===== *)
theory CSystem
  imports OLPrelude GoStrings "HOL-Library.AList" "HOL-Library.Word"
begin

text \<open>
  What the C code of the repository (\<open>worker/import-cache/forkRequest.go\<close>, \<open>lambda/nsmodule/fdclient.go\<close>
  and \<open>nsmodule.c\<close>) uses of the C library and of the system: the descriptor table of a process, its
  calls \<open>open\<close>, \<open>socket\<close>, \<open>connect\<close>, \<open>send\<close>, \<open>sendmsg\<close>, \<open>recv\<close> and \<open>close\<close>, strings ended by a
  zero byte and integers in network byte order.

  A stream socket of the Unix domain carries packets: single bytes, and descriptors passed with one
  byte of data.  How the system answers is a script in the state of the process: each call takes the
  next answer, which is success, a transfer of at most so many bytes, or a failure that sets \<open>errno\<close>;
  past the end of the script every call succeeds.  What the peer sends back is a function of the
  packets it has received: \<open>None\<close> is a peer that waits for more, the empty string the end of the
  stream.  A state after undefined behaviour of C is not followed: the outcome is \<open>Panic\<close>.
\<close>

datatype ofile = OFile string | OSock nat

datatype packet = PFd ofile | PByte char

datatype sysans = Okay | Short nat | Fail string

record kern =
  k_fds :: "(int \<times> ofile) list"
  k_conns :: "packet list list"
  k_errno :: "string option"
  k_blocks :: "(nat \<times> string) list"
  k_script :: "sysans list"

type_synonym peer = "packet list \<Rightarrow> string option"

abbreviation undefined_c :: "string \<Rightarrow> 'a res" where
  "undefined_c what \<equiv> Panic (''undefined behaviour: '' @ what)"

definition answer :: "kern \<Rightarrow> sysans \<times> kern" where
  "answer s = (case k_script s of [] \<Rightarrow> (Okay, s) | a # as \<Rightarrow> (a, s\<lparr>k_script := as\<rparr>))"

text \<open>A new descriptor is the lowest number that is not in use.\<close>

definition lowest_fd :: "(int \<times> ofile) list \<Rightarrow> int" where
  "lowest_fd t = hd (filter (\<lambda>i. i \<notin> fst ` set t) (map int [0..<Suc (length t)]))"

definition sys_open :: "string \<Rightarrow> kern \<Rightarrow> int \<times> kern" where
  "sys_open path s =
     (case answer s of
        (Fail e, s1) \<Rightarrow> (-1, s1\<lparr>k_errno := Some e\<rparr>)
      | (_, s1) \<Rightarrow> let fd = lowest_fd (k_fds s1) in (fd, s1\<lparr>k_fds := (fd, OFile path) # k_fds s1\<rparr>))"

definition sys_socket :: "kern \<Rightarrow> int \<times> kern" where
  "sys_socket s =
     (case answer s of
        (Fail e, s1) \<Rightarrow> (-1, s1\<lparr>k_errno := Some e\<rparr>)
      | (_, s1) \<Rightarrow> let fd = lowest_fd (k_fds s1)
                  in (fd, s1\<lparr>k_fds := (fd, OSock (length (k_conns s1))) # k_fds s1, k_conns := k_conns s1 @ [[]]\<rparr>))"

definition sys_connect :: "kern \<Rightarrow> int \<times> kern" where
  "sys_connect s =
     (case answer s of (Fail e, s1) \<Rightarrow> (-1, s1\<lparr>k_errno := Some e\<rparr>) | (_, s1) \<Rightarrow> (0, s1))"

definition transfer :: "sysans \<Rightarrow> nat \<Rightarrow> nat" where
  "transfer a n = (case a of Short m \<Rightarrow> min m n | _ \<Rightarrow> n)"

text \<open>Packets on the connection behind a descriptor: a partial transfer sends a prefix of them.\<close>

definition sys_put :: "int \<Rightarrow> packet list \<Rightarrow> kern \<Rightarrow> int \<times> kern" where
  "sys_put fd ps s =
     (case answer s of
        (Fail e, s1) \<Rightarrow> (-1, s1\<lparr>k_errno := Some e\<rparr>)
      | (a, s1) \<Rightarrow>
          (case map_of (k_fds s1) fd of
             Some (OSock c) \<Rightarrow>
               let n = transfer a (length ps)
               in (int n, s1\<lparr>k_conns := (k_conns s1)[c := k_conns s1 ! c @ take n ps]\<rparr>)
           | Some (OFile _) \<Rightarrow> (-1, s1\<lparr>k_errno := Some ''ENOTSOCK''\<rparr>)
           | None \<Rightarrow> (-1, s1\<lparr>k_errno := Some ''EBADF''\<rparr>)))"

definition sys_send :: "int \<Rightarrow> string \<Rightarrow> kern \<Rightarrow> int \<times> kern" where
  "sys_send fd bytes = sys_put fd (map PByte bytes)"

definition sys_sendmsg :: "int \<Rightarrow> int \<Rightarrow> kern \<Rightarrow> int \<times> kern" where
  "sys_sendmsg sfd fd s =
     (case map_of (k_fds s) fd of
        Some f \<Rightarrow> sys_put sfd [PFd f] s
      | None \<Rightarrow> (-1, s\<lparr>k_errno := Some ''EBADF''\<rparr>))"

text \<open>At most \<open>n\<close> of the bytes the peer has sent; the call waits for a peer that has nothing to say.\<close>

definition sys_recv :: "peer \<Rightarrow> int \<Rightarrow> nat \<Rightarrow> kern \<Rightarrow> (int \<times> string) res \<times> kern" where
  "sys_recv peer fd n s =
     (case answer s of
        (Fail e, s1) \<Rightarrow> (Ret (-1, []), s1\<lparr>k_errno := Some e\<rparr>)
      | (a, s1) \<Rightarrow>
          (case map_of (k_fds s1) fd of
             Some (OSock c) \<Rightarrow>
               (case peer (k_conns s1 ! c) of
                  None \<Rightarrow> (Block, s1)
                | Some bytes \<Rightarrow> let m = transfer a (min n (length bytes)) in (Ret (int m, take m bytes), s1))
           | Some (OFile _) \<Rightarrow> (Ret (-1, []), s1\<lparr>k_errno := Some ''ENOTSOCK''\<rparr>)
           | None \<Rightarrow> (Ret (-1, []), s1\<lparr>k_errno := Some ''EBADF''\<rparr>)))"

text \<open>A failing \<open>close\<close> has released the descriptor all the same.\<close>

definition sys_close :: "int \<Rightarrow> kern \<Rightarrow> int \<times> kern" where
  "sys_close fd s =
     (if map_of (k_fds s) fd = None then (-1, s\<lparr>k_errno := Some ''EBADF''\<rparr>)
      else
        (case answer s of
           (Fail e, s1) \<Rightarrow> (-1, s1\<lparr>k_fds := AList.delete fd (k_fds s1), k_errno := Some e\<rparr>)
         | (_, s1) \<Rightarrow> (0, s1\<lparr>k_fds := AList.delete fd (k_fds s1)\<rparr>)))"

text \<open>
  A block of the heap is its size and the bytes stored in it.  Storing more than its size is recorded,
  and the program goes on, as it does where the allocator rounds the size up.
\<close>

definition c_malloc_store :: "nat \<Rightarrow> string \<Rightarrow> kern \<Rightarrow> kern" where
  "c_malloc_store n bytes s = s\<lparr>k_blocks := k_blocks s @ [(n, bytes)]\<rparr>"

subsection \<open>Strings and integers in C\<close>

abbreviation NUL :: char where
  "NUL \<equiv> CHR 0x00"

definition C_CString :: "string \<Rightarrow> string" where
  "C_CString s = s @ [NUL]"

definition C_GoString :: "string \<Rightarrow> string res" where
  "C_GoString mem = (if NUL \<in> set mem then Ret (takeWhile (\<lambda>c. c \<noteq> NUL) mem) else undefined_c ''string not ended'')"

definition be_byte :: "nat \<Rightarrow> 32 word \<Rightarrow> char" where
  "be_byte k w = char_of (unat (drop_bit (8 * k) w))"

definition htonl :: "32 word \<Rightarrow> string" where
  "htonl w = [be_byte 3 w, be_byte 2 w, be_byte 1 w, be_byte 0 w]"

fun ntohl :: "string \<Rightarrow> 32 word" where
  "ntohl [a, b, c, d] = word_of_nat (((of_char a * 256 + of_char b) * 256 + of_char c) * 256 + of_char d)"
| "ntohl _ = 0"

subsection \<open>Facts\<close>

lemma lowest_fd_props: "lowest_fd t \<notin> fst ` set t \<and> 0 \<le> lowest_fd t"
proof -
  let ?c = "map int [0..<Suc (length t)]"
  have "card (fst ` set t) \<le> length t"
    using card_image_le [of "set t" fst] card_length [of t] by simp
  moreover have "card (set ?c) = Suc (length t)"
    by (subst distinct_card) (auto simp: distinct_map inj_on_def)
  ultimately have "\<not> set ?c \<subseteq> fst ` set t"
    by (metis List.finite_set card_mono finite_imageI not_less_eq_eq)
  then have "filter (\<lambda>i. i \<notin> fst ` set t) ?c \<noteq> []"
    by (auto simp: filter_empty_conv)
  then have "lowest_fd t \<in> set (filter (\<lambda>i. i \<notin> fst ` set t) ?c)"
    unfolding lowest_fd_def by (rule hd_in_set)
  then have "lowest_fd t \<notin> fst ` set t" "lowest_fd t \<in> set ?c"
    unfolding set_filter by (blast, blast)
  then show ?thesis unfolding set_map by (metis image_iff of_nat_0_le_iff)
qed

lemmas lowest_fd_fresh = lowest_fd_props [THEN conjunct1]
lemmas lowest_fd_nonneg = lowest_fd_props [THEN conjunct2]

lemma lowest_fd_not_minus_one [simp]: "lowest_fd t \<noteq> -1"
  using lowest_fd_nonneg [of t] by linarith

lemma lowest_fd_unused [simp]: "map_of t (lowest_fd t) = None"
  using lowest_fd_fresh [of t] by (simp add: map_of_eq_None_iff)

lemma answer_Nil [simp]: "k_script s = [] \<Longrightarrow> answer s = (Okay, s)"
  by (simp add: answer_def)

lemma answer_Cons [simp]: "k_script s = a # as \<Longrightarrow> answer s = (a, s\<lparr>k_script := as\<rparr>)"
  by (simp add: answer_def)

lemma htonl_nat:
  "htonl w = [char_of (unat w div 16777216), char_of (unat w div 65536), char_of (unat w div 256), char_of (unat w)]"
  by (simp add: htonl_def be_byte_def unat_drop_bit_eq drop_bit_eq_div unat_div_distrib)

lemma ntohl_htonl: "ntohl (htonl w) = w"
proof -
  have lt: "unat w < 4294967296"
    using unsigned_less [of w] by simp
  let ?n = "unat w"
  have split: "((?n div 16777216 mod 256 * 256 + ?n div 65536 mod 256) * 256 + ?n div 256 mod 256) * 256 + ?n mod 256 = ?n"
  proof -
    have "?n div 16777216 mod 256 = ?n div 16777216" using lt by (simp add: less_mult_imp_div_less)
    moreover have "?n div 16777216 * 256 + ?n div 65536 mod 256 = ?n div 65536"
      using div_mult_mod_eq [of "?n div 65536" 256] by (simp add: div_mult2_eq [symmetric])
    moreover have "?n div 65536 * 256 + ?n div 256 mod 256 = ?n div 256"
      using div_mult_mod_eq [of "?n div 256" 256] by (simp add: div_mult2_eq [symmetric])
    ultimately show ?thesis by simp
  qed
  show ?thesis
    unfolding htonl_nat ntohl.simps of_char_of split by simp
qed

lemma length_htonl [simp]: "length (htonl w) = 4"
  by (simp add: htonl_def)

lemma GoString_prefix: "NUL \<notin> set s \<Longrightarrow> C_GoString (s @ NUL # junk) = Ret s"
  by (simp add: C_GoString_def takeWhile_append)

lemma GoString_CString: "NUL \<notin> set s \<Longrightarrow> C_GoString (C_CString s) = Ret s"
  by (simp add: C_CString_def GoString_prefix)

end
