(* ===== verification/ForkClient.thy ===== *)
theory ForkClient
  imports CSystem CacheManager
begin

text \<open>
  The worker's side of a fork request (\<open>worker/import-cache/forkRequest.go\<close>), with the C code it calls
  through cgo: \<open>sendfd\<close>, \<open>sendAll\<close> and \<open>sendFds\<close> over the calls of \<open>CSystem\<close>.  The result of
  \<open>sendFds\<close> is a pointer: to the global buffer \<open>errmsg\<close>, or to the ten bytes of the heap that hold
  the answer of the fork server.
\<close>

datatype cptr = Errmsg string | Heapbuf string

definition strerror :: "kern \<Rightarrow> string" where
  "strerror s = (case k_errno s of None \<Rightarrow> ''Success'' | Some e \<Rightarrow> e)"

definition sendfd :: "int \<Rightarrow> int \<Rightarrow> kern \<Rightarrow> int \<times> kern" where
  "sendfd sk fd s = (case sys_sendmsg sk fd s of (n, s1) \<Rightarrow> if n \<noteq> 1 then (-1, s1) else (0, s1))"

lemma answer_script: "answer s = (a, s1) \<Longrightarrow> k_script s1 = tl (k_script s) \<and> (k_script s = [] \<longrightarrow> a = Okay)"
  by (auto simp: answer_def split: list.splits)

lemma sys_put_progress:
  assumes "sys_put fd ps s = (rc, s1)" "ps \<noteq> []" "0 \<le> rc"
  shows "length ps - nat rc + length (k_script s1) < length ps + length (k_script s)"
  using assms answer_script [of s]
  by (cases "k_script s")
     (auto simp: sys_put_def transfer_def Let_def split: sysans.splits prod.splits option.splits ofile.splits)

text \<open>The bytes still to be sent are the \<open>len\<close> bytes from \<open>buf\<close> on.\<close>

function sendAll :: "int \<Rightarrow> string \<Rightarrow> kern \<Rightarrow> int \<times> kern" where
  "sendAll sockfd buf s =
     (if buf = [] then (0, s)
      else (case sys_send sockfd buf s of
              (rc, s1) \<Rightarrow> if rc < 0 then (rc, s1) else sendAll sockfd (drop (nat rc) buf) s1))"
  by auto
termination
proof (relation "measure (\<lambda>(fd, buf, s). length buf + length (k_script s))", goal_cases)
  case (2 fd buf s rc s1)
  then show ?case
    using sys_put_progress [of fd "map PByte buf" s rc s1] by (simp add: sys_send_def)
qed simp

declare sendAll.simps [simp del]

definition ns_names :: "string list" where
  "ns_names = [''ipc'', ''uts'', ''pid'', ''mnt'']"

definition ns_path :: "string \<Rightarrow> string \<Rightarrow> string" where
  "ns_path pid n = ''/proc/'' @ pid @ ''/ns/'' @ n"

fun open_ns :: "string \<Rightarrow> string list \<Rightarrow> kern \<Rightarrow> (string + int list) \<times> kern" where
  "open_ns pid [] s = (Inr [], s)"
| "open_ns pid (n # ns) s =
     (let path = ns_path pid n;
          s1 = c_malloc_store (10 + length pid + length n) (C_CString path) s
      in case sys_open path s1 of
           (fd, s2) \<Rightarrow>
             if fd = -1 then (Inl (''open '' @ path @ '' failed: '' @ strerror s2 @ [CHR 0x0A]), s2)
             else (case open_ns pid ns s2 of
                     (Inl e, s3) \<Rightarrow> (Inl e, s3)
                   | (Inr fds, s3) \<Rightarrow> (Inr (fd # fds), s3)))"

fun sendfd_all :: "int \<Rightarrow> int list \<Rightarrow> kern \<Rightarrow> goerror \<times> kern" where
  "sendfd_all sk [] s = (None, s)"
| "sendfd_all sk (fd # fds) s =
     (case sendfd sk fd s of
        (rc, s1) \<Rightarrow> if rc = -1 then (Some (''sendfd: '' @ strerror s1 @ [CHR 0x0A]), s1) else sendfd_all sk fds s1)"

fun close_fds :: "int list \<Rightarrow> kern \<Rightarrow> goerror \<times> kern" where
  "close_fds [] s = (None, s)"
| "close_fds (fd # fds) s =
     (case sys_close fd s of
        (rc, s1) \<Rightarrow> if rc = -1 then (Some (''close: '' @ strerror s1 @ [CHR 0x0A]), s1) else close_fds fds s1)"

text \<open>
  The package string: its length in network byte order, then the bytes.  A length that does not fit a
  C \<open>int\<close> is negative there, and \<open>sendAll\<close> sends nothing.
\<close>

definition send_pkgs :: "int \<Rightarrow> string \<Rightarrow> 32 word \<Rightarrow> kern \<Rightarrow> goerror \<times> kern" where
  "send_pkgs sk pkgs pkgsLen s =
     (let fail = (\<lambda>s'. Some (''send pkgs: '' @ strerror s' @ [CHR 0x0A])) in
      case sys_send sk (htonl pkgsLen) s of
        (rc, s1) \<Rightarrow>
          if rc = -1 then (fail s1, s1)
          else (case sendAll sk (take (nat (sint pkgsLen)) pkgs) s1 of
                  (rc, s2) \<Rightarrow> if rc = -1 then (fail s2, s2) else (None, s2)))"

text \<open>The answer: up to ten bytes over the contents \<open>junk\<close> of the new block, which are not cleared.\<close>

definition recv_pid :: "peer \<Rightarrow> string \<Rightarrow> int \<Rightarrow> kern \<Rightarrow> (string + string) res \<times> kern" where
  "recv_pid peer junk sk s =
     (case sys_recv peer sk 10 s of
        (Ret (len, bytes), s1) \<Rightarrow>
          if len = -1 then (Ret (Inl (''recv: '' @ strerror s1 @ [CHR 0x0A])), s1)
          else (Ret (Inr (bytes @ drop (length bytes) (take 10 junk))), s1)
      | (Panic m, s1) \<Rightarrow> (Panic m, s1) | (Exit m, s1) \<Rightarrow> (Exit m, s1) | (Block, s1) \<Rightarrow> (Block, s1))"

definition exchange ::
  "peer \<Rightarrow> string \<Rightarrow> int \<Rightarrow> int list \<Rightarrow> string \<Rightarrow> 32 word \<Rightarrow> kern \<Rightarrow> (string + string) res \<times> kern" where
  "exchange peer junk sk fds pkgs pkgsLen s =
     (case sendfd_all sk fds s of
        (Some e, s1) \<Rightarrow> (Ret (Inl e), s1)
      | (None, s1) \<Rightarrow>
          (case send_pkgs sk pkgs pkgsLen s1 of
             (Some e, s2) \<Rightarrow> (Ret (Inl e), s2)
           | (None, s2) \<Rightarrow> recv_pid peer junk sk s2))"

definition sendFds ::
  "peer \<Rightarrow> string \<Rightarrow> string \<Rightarrow> string \<Rightarrow> string \<Rightarrow> string \<Rightarrow> 32 word \<Rightarrow> kern \<Rightarrow> cptr res \<times> kern" where
  "sendFds peer junk sockPath pid rootdir pkgs pkgsLen s =
     (case open_ns pid ns_names s of
        (Inl e, s1) \<Rightarrow> (Ret (Errmsg e), s1)
      | (Inr nsfds, s1) \<Rightarrow>
      (case sys_open rootdir s1 of (chrootFD, s2) \<Rightarrow>
        if chrootFD = -1
        then (Ret (Errmsg (''open '' @ rootdir @ '' failed: '' @ strerror s2 @ [CHR 0x0A])), s2)
        else
      (case sys_socket s2 of (sk, s3) \<Rightarrow>
        if sk = -1 then (Ret (Errmsg (''socket: '' @ strerror s3 @ [CHR 0x0A])), s3)
        else if 108 \<le> length sockPath then (undefined_c ''sun_path overflow'', s3)
        else
      (case sys_connect s3 of (rc, s4) \<Rightarrow>
        if rc = -1 then (Ret (Errmsg (''connect: '' @ strerror s4 @ [CHR 0x0A])), s4)
        else
      (case exchange peer junk sk (nsfds @ [chrootFD]) pkgs pkgsLen s4 of
         (Ret (Inl e), s5) \<Rightarrow> (Ret (Errmsg e), s5)
       | (Ret (Inr buf), s5) \<Rightarrow>
           (case close_fds (sk # nsfds @ [chrootFD]) s5 of
              (Some e, s6) \<Rightarrow> (Ret (Errmsg e), s6)
            | (None, s6) \<Rightarrow> (Ret (Heapbuf buf), s6))
       | (Panic m, s5) \<Rightarrow> (Panic m, s5) | (Exit m, s5) \<Rightarrow> (Exit m, s5) | (Block, s5) \<Rightarrow> (Block, s5))))))"

text \<open>
  The loop of \<open>forkRequest\<close>: cgo clears \<open>errno\<close> before the call and makes an error of it afterwards.
  Only without an error is the result read and freed; \<open>errmsg\<close> is not a block of the heap.
\<close>

fun fork_attempts :: "nat \<Rightarrow> (kern \<Rightarrow> cptr res \<times> kern) \<Rightarrow> kern \<Rightarrow> (string \<times> goerror) res \<times> kern" where
  "fork_attempts 0 call s = (Ret ([], None), s)"
| "fork_attempts (Suc k) call s =
     (case call (s\<lparr>k_errno := None\<rparr>) of
        (Ret p, s1) \<Rightarrow>
          (case k_errno s1 of
             Some e \<Rightarrow> fork_attempts k call s1
           | None \<Rightarrow>
               (case p of
                  Errmsg m \<Rightarrow> (undefined_c ''free of a static buffer'', s1)
                | Heapbuf mem \<Rightarrow>
                    (case C_GoString mem of
                       Ret pid \<Rightarrow> if pid = [] then fork_attempts k call s1 else (Ret (pid, None), s1)
                     | Panic m \<Rightarrow> (Panic m, s1) | Exit m \<Rightarrow> (Exit m, s1) | Block \<Rightarrow> (Block, s1))))
      | (Panic m, s1) \<Rightarrow> (Panic m, s1) | (Exit m, s1) \<Rightarrow> (Exit m, s1) | (Block, s1) \<Rightarrow> (Block, s1))"

definition forkRequest_c ::
  "peer \<Rightarrow> string \<Rightarrow> string \<Rightarrow> string \<Rightarrow> string \<Rightarrow> string list \<Rightarrow> bool \<Rightarrow> kern \<Rightarrow> (string \<times> goerror) res \<times> kern" where
  "forkRequest_c peer junk sockPath targetPid rootDir imps is_handler s =
     (let signalStr = forkRequest_signal imps is_handler
      in fork_attempts 5
           (sendFds peer junk sockPath targetPid rootDir (C_CString signalStr)
                    (word_of_nat (length signalStr + 1))) s)"

end
