(* ===== verification/ForkClientProps.thy ===== *)
theory ForkClientProps
  imports ForkClient
begin

text \<open>
  What a call of \<open>sendFds\<close> does to the descriptor table and to the connection: the effect of each of
  its phases when it succeeds, whatever the script, and the answers under which it does.
\<close>

fun failing :: "sysans \<Rightarrow> bool" where
  "failing (Fail _) = True"
| "failing _ = False"

lemma answer_pair: "answer s = (case k_script s of [] \<Rightarrow> Okay | a # _ \<Rightarrow> a, s\<lparr>k_script := tl (k_script s)\<rparr>)"
  by (cases "k_script s") simp_all

abbreviation first_answer :: "kern \<Rightarrow> sysans" where
  "first_answer s \<equiv> (case k_script s of [] \<Rightarrow> Okay | a # _ \<Rightarrow> a)"

lemma all_take_Suc:
  "(\<forall>a \<in> set (take (Suc n) sc). P a) \<longleftrightarrow> (case sc of [] \<Rightarrow> True | a # as \<Rightarrow> P a \<and> (\<forall>a \<in> set (take n as). P a))"
  by (cases sc) auto

subsection \<open>Opening\<close>

lemma sys_open_cases:
  "sys_open path s =
     (if failing (first_answer s)
      then (-1, s\<lparr>k_script := tl (k_script s), k_errno := Some (case first_answer s of Fail e \<Rightarrow> e)\<rparr>)
      else (lowest_fd (k_fds s),
            s\<lparr>k_fds := (lowest_fd (k_fds s), OFile path) # k_fds s, k_script := tl (k_script s)\<rparr>))"
  by (auto simp: sys_open_def answer_pair Let_def split: sysans.splits list.splits)

lemma sys_socket_cases:
  "sys_socket s =
     (if failing (first_answer s)
      then (-1, s\<lparr>k_script := tl (k_script s), k_errno := Some (case first_answer s of Fail e \<Rightarrow> e)\<rparr>)
      else (lowest_fd (k_fds s),
            s\<lparr>k_fds := (lowest_fd (k_fds s), OSock (length (k_conns s))) # k_fds s,
              k_conns := k_conns s @ [[]], k_script := tl (k_script s)\<rparr>))"
  by (auto simp: sys_socket_def answer_pair Let_def split: sysans.splits list.splits)

lemma sys_connect_cases:
  "sys_connect s =
     (if failing (first_answer s)
      then (-1, s\<lparr>k_script := tl (k_script s), k_errno := Some (case first_answer s of Fail e \<Rightarrow> e)\<rparr>)
      else (0, s\<lparr>k_script := tl (k_script s)\<rparr>))"
  by (auto simp: sys_connect_def answer_pair split: sysans.splits list.splits)

definition path_block :: "string \<Rightarrow> string \<Rightarrow> nat \<times> string" where
  "path_block pid n = (10 + length pid + length n, C_CString (ns_path pid n))"

lemma open_ns_Inr:
  assumes "open_ns pid ns s = (Inr fds, t)"
  shows "length fds = length ns \<and> distinct fds \<and> (\<forall>fd \<in> set fds. map_of (k_fds s) fd = None) \<and>
         t = s\<lparr>k_fds := rev (zip fds (map (\<lambda>n. OFile (ns_path pid n)) ns)) @ k_fds s,
               k_blocks := k_blocks s @ map (path_block pid) ns,
               k_script := drop (length ns) (k_script s)\<rparr>"
  using assms
proof (induction ns arbitrary: s fds t)
  case (Cons n ns)
  let ?s1 = "c_malloc_store (10 + length pid + length n) (C_CString (ns_path pid n)) s"
  let ?fd = "lowest_fd (k_fds s)"
  let ?s2 = "?s1\<lparr>k_fds := (?fd, OFile (ns_path pid n)) # k_fds s, k_script := tl (k_script s)\<rparr>"
  from Cons.prems have ok: "\<not> failing (first_answer s)"
    by (auto simp: Let_def sys_open_cases c_malloc_store_def split: if_splits)
  with Cons.prems obtain fds' where rest: "open_ns pid ns ?s2 = (Inr fds', t)" and fds: "fds = ?fd # fds'"
    by (auto simp: Let_def sys_open_cases c_malloc_store_def split: prod.splits sum.splits)
  from Cons.IH [OF rest] show ?case
    by (auto simp: fds c_malloc_store_def path_block_def drop_Suc) (metis option.distinct(1))
qed simp

lemma open_ns_succeeds:
  "(\<exists>fds t. open_ns pid ns s = (Inr fds, t)) \<longleftrightarrow> (\<forall>a \<in> set (take (length ns) (k_script s)). \<not> failing a)"
proof (induction ns arbitrary: s)
  case (Cons n ns)
  let ?s1 = "c_malloc_store (10 + length pid + length n) (C_CString (ns_path pid n)) s"
  let ?fd = "lowest_fd (k_fds s)"
  let ?s2 = "?s1\<lparr>k_fds := (?fd, OFile (ns_path pid n)) # k_fds s, k_script := tl (k_script s)\<rparr>"
  have "(\<exists>fds t. open_ns pid (n # ns) s = (Inr fds, t)) \<longleftrightarrow>
        \<not> failing (first_answer s) \<and> (\<exists>fds t. open_ns pid ns ?s2 = (Inr fds, t))"
    by (auto simp: Let_def sys_open_cases c_malloc_store_def split: prod.splits sum.splits)
  with Cons.IH [of ?s2] show ?case
    by (cases "k_script s") (auto simp: c_malloc_store_def)
qed simp

text \<open>A failing \<open>open\<close> leaves what was opened before it.\<close>

lemma open_ns_Inl:
  assumes "k_script s = pre @ Fail e # rest" "\<forall>a \<in> set pre. \<not> failing a" "length pre < length ns"
  shows "\<exists>m t. open_ns pid ns s = (Inl m, t) \<and> k_errno t = Some e \<and> k_script t = rest \<and>
               (\<exists>new. k_fds t = new @ k_fds s \<and> length new = length pre)"
  using assms
proof (induction ns arbitrary: s pre)
  case (Cons n ns)
  show ?case
  proof (cases pre)
    case Nil
    with Cons.prems show ?thesis by (simp add: Let_def sys_open_cases c_malloc_store_def)
  next
    case (Cons a pre')
    let ?s2 = "c_malloc_store (10 + length pid + length n) (C_CString (ns_path pid n)) s
               \<lparr>k_fds := (lowest_fd (k_fds s), OFile (ns_path pid n)) # k_fds s, k_script := pre' @ Fail e # rest\<rparr>"
    have "\<exists>m t. open_ns pid ns ?s2 = (Inl m, t) \<and> k_errno t = Some e \<and> k_script t = rest \<and>
               (\<exists>new. k_fds t = new @ k_fds ?s2 \<and> length new = length pre')"
      using Cons Cons.prems by (intro Cons.IH) (auto simp: c_malloc_store_def)
    with Cons Cons.prems show ?thesis
      by (force simp: Let_def sys_open_cases c_malloc_store_def)
  qed
qed simp

subsection \<open>Sending\<close>

text \<open>\<open>sk\<close> is a socket of connection \<open>c\<close>; \<open>on_conn\<close> appends packets to it.\<close>

definition socket_of :: "kern \<Rightarrow> int \<Rightarrow> nat \<Rightarrow> bool" where
  "socket_of s sk c = (map_of (k_fds s) sk = Some (OSock c) \<and> c < length (k_conns s))"

definition on_conn :: "nat \<Rightarrow> packet list \<Rightarrow> kern \<Rightarrow> kern" where
  "on_conn c ps s = s\<lparr>k_conns := (k_conns s)[c := k_conns s ! c @ ps]\<rparr>"

lemma on_conn_on_conn [simp]: "c < length (k_conns s) \<Longrightarrow> on_conn c qs (on_conn c ps s) = on_conn c (ps @ qs) s"
  by (simp add: on_conn_def)

lemma on_conn_sel [simp]:
  "k_fds (on_conn c ps s) = k_fds s" "k_script (on_conn c ps s) = k_script s" "k_errno (on_conn c ps s) = k_errno s"
  "k_blocks (on_conn c ps s) = k_blocks s" "length (k_conns (on_conn c ps s)) = length (k_conns s)"
  by (simp_all add: on_conn_def)

lemma on_conn_script [simp]: "on_conn c ps (s\<lparr>k_script := sc\<rparr>) = (on_conn c ps s)\<lparr>k_script := sc\<rparr>"
  by (simp add: on_conn_def)

lemma on_conn_nth [simp]: "c < length (k_conns s) \<Longrightarrow> k_conns (on_conn c ps s) ! c = k_conns s ! c @ ps"
  by (simp add: on_conn_def)

lemma on_conn_Nil [simp]: "on_conn c [] s = s"
  by (simp add: on_conn_def)

lemma socket_of_on_conn [simp]: "socket_of (on_conn c' ps s) sk c \<longleftrightarrow> socket_of s sk c"
  by (simp add: socket_of_def)

lemma socket_of_script [simp]: "socket_of (s\<lparr>k_script := sc\<rparr>) sk c \<longleftrightarrow> socket_of s sk c"
  by (simp add: socket_of_def)

lemma sys_put_cases:
  assumes "socket_of s sk c"
  shows "sys_put sk ps s =
     (if failing (first_answer s)
      then (-1, s\<lparr>k_script := tl (k_script s), k_errno := Some (case first_answer s of Fail e \<Rightarrow> e)\<rparr>)
      else let n = transfer (first_answer s) (length ps)
           in (int n, on_conn c (take n ps) (s\<lparr>k_script := tl (k_script s)\<rparr>)))"
  using assms
  by (auto simp: sys_put_def answer_pair Let_def socket_of_def on_conn_def split: sysans.splits)

text \<open>A message with a descriptor is sent whole or not at all.\<close>

fun refusing :: "sysans \<Rightarrow> bool" where
  "refusing a = (failing a \<or> a = Short 0)"

lemma sendfd_cases:
  assumes "socket_of s sk c" "map_of (k_fds s) fd = Some f"
  shows "sendfd sk fd s =
     (if failing (first_answer s)
      then (-1, s\<lparr>k_script := tl (k_script s), k_errno := Some (case first_answer s of Fail e \<Rightarrow> e)\<rparr>)
      else if refusing (first_answer s) then (-1, s\<lparr>k_script := tl (k_script s)\<rparr>)
      else (0, on_conn c [PFd f] (s\<lparr>k_script := tl (k_script s)\<rparr>)))"
  using assms
  by (auto simp: sendfd_def sys_sendmsg_def sys_put_cases Let_def transfer_def split: sysans.splits)

lemma sendfd_all_None:
  assumes "socket_of s sk c" "list_all2 (\<lambda>fd f. map_of (k_fds s) fd = Some f) fds fs"
  shows "sendfd_all sk fds s = (None, t) \<longleftrightarrow>
           (\<forall>a \<in> set (take (length fds) (k_script s)). \<not> refusing a) \<and>
           t = on_conn c (map PFd fs) (s\<lparr>k_script := drop (length fds) (k_script s)\<rparr>)"
  using assms
proof (induction fds arbitrary: s fs)
  case (Cons fd fds)
  from Cons.prems(2) obtain f fs' where fs: "fs = f # fs'" "map_of (k_fds s) fd = Some f"
      "list_all2 (\<lambda>fd f. map_of (k_fds s) fd = Some f) fds fs'"
    by (auto simp: list_all2_Cons1)
  let ?s1 = "on_conn c [PFd f] (s\<lparr>k_script := tl (k_script s)\<rparr>)"
  have IH: "sendfd_all sk fds ?s1 = (None, t) \<longleftrightarrow>
          (\<forall>a \<in> set (take (length fds) (k_script ?s1)). \<not> refusing a) \<and>
          t = on_conn c (map PFd fs') (?s1\<lparr>k_script := drop (length fds) (k_script ?s1)\<rparr>)"
    using Cons.prems(1) fs(3) by (intro Cons.IH) simp_all
  show ?case
  proof (cases "refusing (first_answer s)")
    case True
    then show ?thesis
      using Cons.prems(1) fs(2) by (cases "k_script s") (auto simp: sendfd_cases)
  next
    case False
    then have "sendfd_all sk (fd # fds) s = sendfd_all sk fds ?s1"
      using Cons.prems(1) fs(2) by (simp add: sendfd_cases)
    moreover have "on_conn c (map PFd fs') (?s1\<lparr>k_script := sc\<rparr>) = on_conn c (map PFd fs) (s\<lparr>k_script := sc\<rparr>)" for sc
      using Cons.prems(1) by (simp add: fs(1) socket_of_def on_conn_def)
    ultimately show ?thesis
      using False IH by (cases "k_script s") (simp_all add: drop_Suc)
  qed
qed auto

text \<open>\<open>sendAll\<close> ends, and without an error it has sent all the bytes, in whatever portions.\<close>

lemma sendAll_sends:
  assumes "socket_of s sk c" "sendAll sk buf s = (rc, t)" "rc \<noteq> -1"
  shows "rc = 0 \<and> (\<exists>k. t = on_conn c (map PByte buf) (s\<lparr>k_script := drop k (k_script s)\<rparr>))"
  using assms
proof (induction sk buf s arbitrary: rc t rule: sendAll.induct)
  case (1 sk buf s)
  show ?case
  proof (cases "buf = []")
    case True
    with 1 show ?thesis by (auto simp: sendAll.simps intro: exI [of _ 0])
  next
    case False
    let ?n = "transfer (first_answer s) (length buf)"
    let ?s1 = "on_conn c (take ?n (map PByte buf)) (s\<lparr>k_script := tl (k_script s)\<rparr>)"
    have ok: "\<not> failing (first_answer s)"
      using 1(2-4) False by (auto simp: sendAll.simps sys_send_def sys_put_cases)
    then have send: "sys_send sk buf s = (int ?n, ?s1)"
      using 1(2) by (simp add: sys_send_def sys_put_cases Let_def)
    then have rest: "sendAll sk (drop ?n buf) ?s1 = (rc, t)"
      using 1(3) False by (simp add: sendAll.simps [of sk buf s])
    have IH: "rc = 0 \<and> (\<exists>k. t = on_conn c (map PByte (drop ?n buf)) (?s1\<lparr>k_script := drop k (k_script ?s1)\<rparr>))"
      using 1(1) [OF False send [symmetric]] 1(2,4) rest by simp
    moreover have "on_conn c (map PByte (drop ?n buf)) (?s1\<lparr>k_script := sc\<rparr>) = on_conn c (map PByte buf) (s\<lparr>k_script := sc\<rparr>)" for sc
      using 1(2) by (simp add: socket_of_def on_conn_def take_map [symmetric] drop_map [symmetric])
    ultimately show ?thesis
      by (auto simp: drop_Suc [symmetric] simp del: drop_Suc)
  qed
qed

lemma sendAll_portions:
  assumes "socket_of s sk c" "k_script s = map Short ns @ rest" "\<forall>n \<in> set ns. 0 < n" "sum_list ns = length buf"
  shows "sendAll sk buf s = (0, on_conn c (map PByte buf) (s\<lparr>k_script := rest\<rparr>))"
  using assms
proof (induction ns arbitrary: s buf)
  case Nil
  then have "s\<lparr>k_script := rest\<rparr> = s" by simp
  with Nil show ?case by (simp add: sendAll.simps)
next
  case (Cons n ns)
  let ?s1 = "on_conn c (map PByte (take n buf)) (s\<lparr>k_script := map Short ns @ rest\<rparr>)"
  from Cons.prems have n: "n \<le> length buf" "buf \<noteq> []" by auto
  have "sendAll sk (drop n buf) ?s1 = (0, on_conn c (map PByte (drop n buf)) (?s1\<lparr>k_script := rest\<rparr>))"
    using Cons.prems by (intro Cons.IH) auto
  moreover have "sys_send sk buf s = (int n, ?s1)"
    using Cons.prems n by (simp add: sys_send_def sys_put_cases Let_def transfer_def take_map)
  moreover have "on_conn c (map PByte (drop n buf)) (?s1\<lparr>k_script := rest\<rparr>) = on_conn c (map PByte buf) (s\<lparr>k_script := rest\<rparr>)"
    using Cons.prems(1) by (simp add: socket_of_def on_conn_def take_map [symmetric] drop_map [symmetric])
  ultimately show ?case
    using n(2) by (simp add: sendAll.simps [of sk buf s])
qed

text \<open>The packet string on the wire; the length counts for what \<open>send\<close> took of its four bytes.\<close>

abbreviation pkgs_bytes :: "string \<Rightarrow> 32 word \<Rightarrow> string" where
  "pkgs_bytes pkgs pkgsLen \<equiv> take (nat (sint pkgsLen)) pkgs"

lemma send_pkgs_None:
  assumes "socket_of s sk c" "send_pkgs sk pkgs pkgsLen s = (None, t)"
  shows "\<exists>k n. t = on_conn c (map PByte (take n (htonl pkgsLen) @ pkgs_bytes pkgs pkgsLen)) (s\<lparr>k_script := drop k (k_script s)\<rparr>) \<and>
               n = transfer (first_answer s) 4"
proof -
  let ?n = "transfer (first_answer s) 4"
  let ?s1 = "on_conn c (map PByte (take ?n (htonl pkgsLen))) (s\<lparr>k_script := tl (k_script s)\<rparr>)"
  have "\<not> failing (first_answer s)"
    using assms by (auto simp: send_pkgs_def sys_send_def sys_put_cases Let_def)
  then have "sys_send sk (htonl pkgsLen) s = (int ?n, ?s1)"
    using assms(1) by (simp add: sys_send_def sys_put_cases Let_def take_map)
  with assms(2) obtain rc where sent: "sendAll sk (pkgs_bytes pkgs pkgsLen) ?s1 = (rc, t)" "rc \<noteq> -1"
    by (auto simp: send_pkgs_def Let_def split: prod.splits if_splits)
  moreover have "socket_of ?s1 sk c" using assms(1) by simp
  ultimately obtain k
    where "t = on_conn c (map PByte (pkgs_bytes pkgs pkgsLen)) (?s1\<lparr>k_script := drop k (k_script ?s1)\<rparr>)"
    using sendAll_sends by blast
  moreover have "on_conn c (map PByte (pkgs_bytes pkgs pkgsLen)) (?s1\<lparr>k_script := sc\<rparr>) =
        on_conn c (map PByte (take ?n (htonl pkgsLen) @ pkgs_bytes pkgs pkgsLen)) (s\<lparr>k_script := sc\<rparr>)" for sc
    using assms(1) by (simp add: socket_of_def on_conn_def)
  ultimately show ?thesis
    by (auto simp: drop_Suc [symmetric] simp del: drop_Suc)
qed

subsection \<open>The exchange\<close>

lemma recv_pid_cases:
  assumes "socket_of s sk c"
  shows "recv_pid peer junk sk s =
     (if failing (first_answer s)
      then (let t = s\<lparr>k_script := tl (k_script s), k_errno := Some (case first_answer s of Fail e \<Rightarrow> e)\<rparr>
            in (Ret (Inl (''recv: '' @ strerror t @ [CHR 0x0A])), t))
      else (case peer (k_conns s ! c) of
              None \<Rightarrow> Block
            | Some bytes \<Rightarrow>
                let m = transfer (first_answer s) (min 10 (length bytes))
                in Ret (Inr (take m bytes @ drop (min m (length bytes)) (take 10 junk))),
            s\<lparr>k_script := tl (k_script s)\<rparr>))"
  using assms
  by (auto simp: recv_pid_def sys_recv_def answer_pair Let_def socket_of_def min.commute
           split: sysans.splits option.splits)

text \<open>
  What is on the connection after a successful exchange: the descriptors in order, the length and the
  string; and the answer is the peer's answer to exactly that.
\<close>

definition fork_wire :: "ofile list \<Rightarrow> nat \<Rightarrow> string \<Rightarrow> 32 word \<Rightarrow> packet list" where
  "fork_wire fs n pkgs pkgsLen = map PFd fs @ map PByte (take n (htonl pkgsLen) @ pkgs_bytes pkgs pkgsLen)"

lemma exchange_Inr:
  assumes sk: "socket_of s sk c" "k_conns s ! c = []"
    and fds: "list_all2 (\<lambda>fd f. map_of (k_fds s) fd = Some f) fds fs"
    and run: "exchange peer junk sk fds pkgs pkgsLen s = (Ret (Inr buf), t)"
  shows "\<exists>n k m bytes. t = on_conn c (fork_wire fs n pkgs pkgsLen) (s\<lparr>k_script := drop k (k_script s)\<rparr>) \<and>
           peer (fork_wire fs n pkgs pkgsLen) = Some bytes \<and> m \<le> length bytes \<and> m \<le> 10 \<and>
           buf = take m bytes @ drop m (take 10 junk)"
proof -
  obtain s1 s2 where s1: "sendfd_all sk fds s = (None, s1)"
    and s2: "send_pkgs sk pkgs pkgsLen s1 = (None, s2)" and got: "recv_pid peer junk sk s2 = (Ret (Inr buf), t)"
    using run by (auto simp: exchange_def split: prod.splits option.splits)
  have s1': "s1 = on_conn c (map PFd fs) (s\<lparr>k_script := drop (length fds) (k_script s)\<rparr>)"
    using sendfd_all_None [OF sk(1) fds] s1 by blast
  then have "socket_of s1 sk c" using sk(1) by simp
  from send_pkgs_None [OF this s2] obtain k n where
    "s2 = on_conn c (map PByte (take n (htonl pkgsLen) @ pkgs_bytes pkgs pkgsLen)) (s1\<lparr>k_script := drop k (k_script s1)\<rparr>)"
    by blast
  moreover have "on_conn c (map PByte bs) (s1\<lparr>k_script := sc\<rparr>) = on_conn c (map PFd fs @ map PByte bs) (s\<lparr>k_script := sc\<rparr>)" for sc bs
    using sk(1) by (simp add: s1' socket_of_def on_conn_def)
  ultimately have s2': "s2 = on_conn c (fork_wire fs n pkgs pkgsLen) (s\<lparr>k_script := drop (k + length fds) (k_script s)\<rparr>)"
    using sk(1) by (simp add: fork_wire_def s1' socket_of_def)
  then have "socket_of s2 sk c" and conn: "k_conns s2 ! c = fork_wire fs n pkgs pkgsLen"
    using sk by (simp_all add: socket_of_def on_conn_def)
  from recv_pid_cases [OF this(1), of peer junk] got conn obtain bytes where bytes:
    "peer (fork_wire fs n pkgs pkgsLen) = Some bytes" and t: "t = s2\<lparr>k_script := tl (k_script s2)\<rparr>"
    and buf: "buf = (let m = transfer (first_answer s2) (min 10 (length bytes))
                     in take m bytes @ drop (min m (length bytes)) (take 10 junk))"
    by (auto simp: Let_def split: if_splits option.splits)
  let ?m = "transfer (first_answer s2) (min 10 (length bytes))"
  have m: "?m \<le> length bytes" "?m \<le> 10" by (auto simp: transfer_def split: sysans.splits)
  have "t = on_conn c (fork_wire fs n pkgs pkgsLen) (s\<lparr>k_script := drop (Suc (k + length fds)) (k_script s)\<rparr>)"
    by (simp add: t s2' drop_Suc tl_drop)
  with bytes buf m show ?thesis by (auto simp: Let_def min_absorb1)
qed

subsection \<open>Closing\<close>

lemma close_fds_None:
  assumes "close_fds fds s = (None, t)"
  shows "t = s\<lparr>k_fds := filter (\<lambda>(fd, _). fd \<notin> set fds) (k_fds s), k_script := drop (length fds) (k_script s)\<rparr>"
  using assms
proof (induction fds arbitrary: s)
  case (Cons fd fds)
  let ?s1 = "s\<lparr>k_script := tl (k_script s), k_fds := AList.delete fd (k_fds s)\<rparr>"
  have "close_fds fds ?s1 = (None, t)"
    using Cons.prems
    by (auto simp: sys_close_def answer_pair split: if_splits sysans.splits)
  from Cons.IH [OF this] show ?case
    by (simp add: AList.delete_eq drop_Suc case_prod_beta conj_commute eq_commute [of fd])
qed simp

lemma close_fds_succeeds:
  assumes "distinct fds" "\<forall>fd \<in> set fds. map_of (k_fds s) fd \<noteq> None" "\<forall>a \<in> set (take (length fds) (k_script s)). \<not> failing a"
  shows "\<exists>t. close_fds fds s = (None, t)"
  using assms
proof (induction fds arbitrary: s)
  case (Cons fd fds)
  let ?s1 = "s\<lparr>k_script := tl (k_script s), k_fds := AList.delete fd (k_fds s)\<rparr>"
  have "\<not> failing (first_answer s)"
    using Cons.prems(3) by (cases "k_script s") auto
  then have "sys_close fd s = (0, ?s1)"
    using Cons.prems(2) by (auto simp: sys_close_def answer_pair split: sysans.splits)
  moreover have "\<exists>t. close_fds fds ?s1 = (None, t)"
    using Cons.prems by (intro Cons.IH) (auto simp: delete_conv' split: list.splits elim: ballE intro: in_set_takeD, cases "k_script s", auto)
  ultimately show ?case by simp
qed simp

subsection \<open>A whole call\<close>

definition ns_files :: "string \<Rightarrow> ofile list" where
  "ns_files pid = map (\<lambda>n. OFile (ns_path pid n)) ns_names"

text \<open>The state of a worker that has opened the five files and the socket.\<close>

definition fds_ready :: "string \<Rightarrow> string \<Rightarrow> int list \<Rightarrow> int \<Rightarrow> kern \<Rightarrow> kern" where
  "fds_ready pid rootdir fds sk s =
     s\<lparr>k_fds := (sk, OSock (length (k_conns s))) # rev (zip fds (ns_files pid @ [OFile rootdir])) @ k_fds s,
       k_conns := k_conns s @ [[]], k_blocks := k_blocks s @ map (path_block pid) ns_names,
       k_script := drop 7 (k_script s)\<rparr>"

definition fresh_fds :: "int list \<Rightarrow> int \<Rightarrow> kern \<Rightarrow> bool" where
  "fresh_fds fds sk s =
     (length fds = 5 \<and> distinct (sk # fds) \<and> (\<forall>fd \<in> set (sk # fds). map_of (k_fds s) fd = None))"

definition sendFds_end :: "int list \<Rightarrow> int \<Rightarrow> (string + string) res \<times> kern \<Rightarrow> cptr res \<times> kern" where
  "sendFds_end fds sk r =
     (case r of
        (Ret (Inl e), s5) \<Rightarrow> (Ret (Errmsg e), s5)
      | (Ret (Inr buf), s5) \<Rightarrow>
          (case close_fds (sk # fds) s5 of
             (Some e, s6) \<Rightarrow> (Ret (Errmsg e), s6)
           | (None, s6) \<Rightarrow> (Ret (Heapbuf buf), s6))
      | (Panic m, s5) \<Rightarrow> (Panic m, s5) | (Exit m, s5) \<Rightarrow> (Exit m, s5) | (Block, s5) \<Rightarrow> (Block, s5))"

lemma length_ns_names [simp]: "length ns_names = 4"
  by (simp add: ns_names_def)

lemma first_answer_drop: "failing (case drop n sc of [] \<Rightarrow> Okay | a # _ \<Rightarrow> a) \<longleftrightarrow> n < length sc \<and> failing (sc ! n)"
  by (cases "n < length sc") (simp_all add: Cons_nth_drop_Suc [symmetric] split: list.splits)

lemma sendFds_connected:
  assumes "\<forall>a \<in> set (take 7 (k_script s)). \<not> failing a" "length sockPath < 108"
  shows "\<exists>fds sk. fresh_fds fds sk s \<and>
           sendFds peer junk sockPath pid rootdir pkgs pkgsLen s =
             sendFds_end fds sk (exchange peer junk sk fds pkgs pkgsLen (fds_ready pid rootdir fds sk s))"
proof -
  have ok: "\<not> (i < length (k_script s) \<and> failing (k_script s ! i))" if "i < 7" for i
    using assms(1) that by (fastforce simp: in_set_conv_nth)
  have "\<forall>a \<in> set (take (length ns_names) (k_script s)). \<not> failing a"
    using assms(1) set_take_subset_set_take [of 4 7 "k_script s"] by auto
  then obtain nsfds s1 where open_ns: "open_ns pid ns_names s = (Inr nsfds, s1)"
    using open_ns_succeeds by blast
  note s1 = open_ns_Inr [OF open_ns]
  then have s1_sel: "k_script s1 = drop 4 (k_script s)" "k_conns s1 = k_conns s" by simp_all
  define ch where "ch = lowest_fd (k_fds s1)"
  define s2 where "s2 = s1\<lparr>k_fds := (ch, OFile rootdir) # k_fds s1, k_script := drop 5 (k_script s)\<rparr>"
  define sk where "sk = lowest_fd (k_fds s2)"
  define s3 where "s3 = s2\<lparr>k_fds := (sk, OSock (length (k_conns s))) # k_fds s2, k_conns := k_conns s @ [[]], k_script := drop 6 (k_script s)\<rparr>"
  define s4 where "s4 = s3\<lparr>k_script := drop 7 (k_script s)\<rparr>"
  have open_root: "sys_open rootdir s1 = (ch, s2)"
    using s1_sel ok [of 4] by (auto simp: sys_open_cases first_answer_drop tl_drop drop_Suc [symmetric] ch_def s2_def)
  have sock: "sys_socket s2 = (sk, s3)"
    using s1_sel ok [of 5] by (auto simp: sys_socket_cases first_answer_drop tl_drop drop_Suc [symmetric] s2_def sk_def s3_def)
  have conn: "sys_connect s3 = (0, s4)"
    using ok [of 6] by (auto simp: sys_connect_cases first_answer_drop tl_drop drop_Suc [symmetric] s3_def s4_def)
  have "fst ` set (k_fds s1) = set nsfds \<union> fst ` set (k_fds s)"
    using s1 by (simp add: image_Un image_set del: set_map)
  then have "fresh_fds (nsfds @ [ch]) sk s"
    using s1 lowest_fd_fresh [of "k_fds s1"] lowest_fd_fresh [of "k_fds s2"]
    by (auto simp: fresh_fds_def map_of_eq_None_iff ch_def s2_def sk_def)
  moreover have "s4 = fds_ready pid rootdir (nsfds @ [ch]) sk s"
    using s1 by (simp add: fds_ready_def ns_files_def s4_def s3_def s2_def)
  moreover have "ch \<noteq> -1" "sk \<noteq> -1"
    by (simp_all add: ch_def sk_def)
  then have "sendFds peer junk sockPath pid rootdir pkgs pkgsLen s =
      sendFds_end (nsfds @ [ch]) sk (exchange peer junk sk (nsfds @ [ch]) pkgs pkgsLen s4)"
    using assms(2) by (simp add: sendFds_def sendFds_end_def open_ns open_root sock conn)
  ultimately show ?thesis by metis
qed

text \<open>With these descriptors the exchange runs on a new, empty connection.\<close>

lemma fresh_fds_elems:
  assumes "fresh_fds fds sk s"
  obtains a b c d r where "fds = [a, b, c, d, r]" "distinct [sk, a, b, c, d, r]"
    "\<forall>x \<in> {sk, a, b, c, d, r}. map_of (k_fds s) x = None"
proof -
  have "length fds = Suc (Suc (Suc (Suc (Suc 0))))" using assms by (simp add: fresh_fds_def)
  then obtain a b c d r where "fds = [a, b, c, d, r]"
    by (auto simp: length_Suc_conv)
  with assms that show thesis by (auto simp: fresh_fds_def)
qed

lemma fds_ready_facts:
  assumes "fresh_fds fds sk s"
  shows "socket_of (fds_ready pid rootdir fds sk s) sk (length (k_conns s))"
    and "k_conns (fds_ready pid rootdir fds sk s) ! length (k_conns s) = []"
    and "list_all2 (\<lambda>fd f. map_of (k_fds (fds_ready pid rootdir fds sk s)) fd = Some f) fds (ns_files pid @ [OFile rootdir])"
    and "filter (\<lambda>(fd, _). fd \<notin> set (sk # fds)) (k_fds (fds_ready pid rootdir fds sk s)) = k_fds s"
    and "distinct (sk # fds)"
    and "\<forall>fd \<in> set (sk # fds). map_of (k_fds (fds_ready pid rootdir fds sk s)) fd \<noteq> None"
    and "length (k_fds (fds_ready pid rootdir fds sk s)) = length (k_fds s) + 6"
proof -
  obtain a b c d r where e: "fds = [a, b, c, d, r]" "distinct [sk, a, b, c, d, r]"
    and none: "\<forall>x \<in> {sk, a, b, c, d, r}. map_of (k_fds s) x = None"
    using assms by (rule fresh_fds_elems)
  have keep: "filter (\<lambda>(fd, _). fd \<notin> set (sk # fds)) (k_fds s) = k_fds s"
    using none e(1) by (auto simp: filter_id_conv map_of_eq_None_iff image_iff)
  note defs = fds_ready_def ns_files_def ns_names_def
  show "socket_of (fds_ready pid rootdir fds sk s) sk (length (k_conns s))"
    "k_conns (fds_ready pid rootdir fds sk s) ! length (k_conns s) = []"
    by (simp_all add: defs socket_of_def)
  show "list_all2 (\<lambda>fd f. map_of (k_fds (fds_ready pid rootdir fds sk s)) fd = Some f) fds (ns_files pid @ [OFile rootdir])"
    using e by (auto simp: defs)
  show "filter (\<lambda>(fd, _). fd \<notin> set (sk # fds)) (k_fds (fds_ready pid rootdir fds sk s)) = k_fds s"
    using keep e(1) by (simp add: defs)
  show "distinct (sk # fds)" using e by simp
  show "\<forall>fd \<in> set (sk # fds). map_of (k_fds (fds_ready pid rootdir fds sk s)) fd \<noteq> None"
    using e by (simp add: defs)
  show "length (k_fds (fds_ready pid rootdir fds sk s)) = length (k_fds s) + 6"
    using e by (simp add: defs)
qed

text \<open>
  A failure among the first seven calls (the five files, the socket, the connection) leaves every
  descriptor opened before it open.
\<close>

lemma sendFds_early_failure:
  assumes sc: "k_script s = pre @ Fail e # rest" "\<forall>a \<in> set pre. \<not> failing a" "length pre < 7" and path: "length sockPath < 108"
  shows "\<exists>m t. sendFds peer junk sockPath pid rootdir pkgs pkgsLen s = (Ret (Errmsg m), t) \<and> k_errno t = Some e \<and>
               k_script t = rest \<and> (\<exists>new. k_fds t = new @ k_fds s \<and> length new = min (length pre) 6)"
proof (cases "length pre < 4")
  case True
  with open_ns_Inl [OF sc(1,2), of ns_names pid] show ?thesis
    by (auto simp: sendFds_def)
next
  case False
  then have "\<forall>a \<in> set (take (length ns_names) (k_script s)). \<not> failing a"
    using sc(1,2) by (auto dest: in_set_takeD)
  then obtain nsfds s1 where open_ns: "open_ns pid ns_names s = (Inr nsfds, s1)"
    using open_ns_succeeds by blast
  note s1 = open_ns_Inr [OF open_ns]
  from False sc(3) consider "length pre = 4" | "length pre = 5" | "length pre = 6" by linarith
  then show ?thesis
  proof cases
    case 1
    with sc(1) s1 show ?thesis
      by (simp add: sendFds_def open_ns sys_open_cases)
  next
    case 2
    then obtain a b c d x where "pre = [a, b, c, d, x]" by (auto simp: length_Suc_conv eval_nat_numeral)
    with sc s1 show ?thesis
      by (simp add: sendFds_def open_ns sys_open_cases sys_socket_cases)
  next
    case 3
    then obtain a b c d x y where "pre = [a, b, c, d, x, y]" by (auto simp: length_Suc_conv eval_nat_numeral)
    with sc s1 path show ?thesis
      by (simp add: sendFds_def open_ns sys_open_cases sys_socket_cases sys_connect_cases)
  qed
qed

subsection \<open>Success and failure of a whole call\<close>

lemma no_failing_split: "(\<forall>a \<in> set (take n sc). \<not> failing a) \<or> (\<exists>pre e rest. sc = pre @ Fail e # rest \<and> length pre < n \<and> (\<forall>a \<in> set pre. \<not> failing a))"
proof (cases "\<exists>a \<in> set (take n sc). failing a")
  case True
  from split_list_first_prop [OF this] obtain pre a post
    where "take n sc = pre @ a # post" "failing a" "\<forall>a \<in> set pre. \<not> failing a" by blast
  moreover from this(2) obtain e where "a = Fail e" by (cases a) auto
  moreover have "length pre < n"
    using arg_cong [OF calculation(1), of length] by simp
  moreover have "sc = pre @ a # post @ drop n sc"
    using append_take_drop_id [of n sc] calculation(1) by simp
  ultimately show ?thesis by blast
qed blast

lemma sendFds_success:
  assumes run: "sendFds peer junk sockPath pid rootdir pkgs pkgsLen s = (Ret (Heapbuf buf), t)" and path: "length sockPath < 108"
  shows "\<exists>n m bytes. k_fds t = k_fds s \<and> k_errno t = k_errno s \<and>
           k_conns t = k_conns s @ [fork_wire (ns_files pid @ [OFile rootdir]) n pkgs pkgsLen] \<and>
           peer (fork_wire (ns_files pid @ [OFile rootdir]) n pkgs pkgsLen) = Some bytes \<and> m \<le> length bytes \<and> m \<le> 10 \<and>
           buf = take m bytes @ drop m (take 10 junk)"
proof -
  have "\<forall>a \<in> set (take 7 (k_script s)). \<not> failing a"
    using no_failing_split [of 7 "k_script s"] sendFds_early_failure [OF _ _ _ path, of s _ _ _ peer junk pid rootdir pkgs pkgsLen] run
    by fastforce
  then obtain fds sk where fresh: "fresh_fds fds sk s" and eq: "sendFds peer junk sockPath pid rootdir pkgs pkgsLen s =
      sendFds_end fds sk (exchange peer junk sk fds pkgs pkgsLen (fds_ready pid rootdir fds sk s))"
    using sendFds_connected [OF _ path] by blast
  let ?r = "fds_ready pid rootdir fds sk s"
  from eq run obtain s5 where ex: "exchange peer junk sk fds pkgs pkgsLen ?r = (Ret (Inr buf), s5)"
    and cl: "close_fds (sk # fds) s5 = (None, t)"
    by (auto simp: sendFds_end_def split: prod.splits res.splits sum.splits option.splits)
  from exchange_Inr [OF fds_ready_facts(1,2,3) [OF fresh] ex] obtain n k m bytes where
    s5: "s5 = on_conn (length (k_conns s)) (fork_wire (ns_files pid @ [OFile rootdir]) n pkgs pkgsLen)
               (?r\<lparr>k_script := drop k (k_script ?r)\<rparr>)"
    and got: "peer (fork_wire (ns_files pid @ [OFile rootdir]) n pkgs pkgsLen) = Some bytes" "m \<le> length bytes" "m \<le> 10"
      "buf = take m bytes @ drop m (take 10 junk)"
    by blast
  have "k_fds t = k_fds s"
    using close_fds_None [OF cl] fds_ready_facts(4) [OF fresh] by (simp add: s5)
  moreover have "k_errno t = k_errno s" "k_conns t = k_conns s @ [fork_wire (ns_files pid @ [OFile rootdir]) n pkgs pkgsLen]"
    using close_fds_None [OF cl] by (simp_all add: s5 on_conn_def fds_ready_def)
  ultimately show ?thesis using got by blast
qed

lemma sendfd_all_fails:
  assumes "socket_of s sk c" "list_all2 (\<lambda>fd f. map_of (k_fds s) fd = Some f) fds fs"
    "k_script s = replicate i Okay @ Fail e # rest" "i < length fds"
  shows "\<exists>m t. sendfd_all sk fds s = (Some m, t) \<and> k_fds t = k_fds s \<and> k_errno t = Some e \<and> k_script t = rest"
  using assms
proof (induction fds arbitrary: s i fs)
  case (Cons fd fds)
  from Cons.prems(2) obtain f fs' where f: "map_of (k_fds s) fd = Some f"
      "list_all2 (\<lambda>fd f. map_of (k_fds s) fd = Some f) fds fs'"
    by (auto simp: list_all2_Cons1)
  show ?case
  proof (cases i)
    case 0
    with Cons.prems f show ?thesis by (simp add: sendfd_cases)
  next
    case (Suc i')
    let ?s1 = "on_conn c [PFd f] (s\<lparr>k_script := tl (k_script s)\<rparr>)"
    have "sendfd_all sk (fd # fds) s = sendfd_all sk fds ?s1"
      using Suc Cons.prems f by (simp add: sendfd_cases)
    moreover have "\<exists>m t. sendfd_all sk fds ?s1 = (Some m, t) \<and> k_fds t = k_fds ?s1 \<and> k_errno t = Some e \<and> k_script t = rest"
      using Suc Cons.prems f(2) by (intro Cons.IH) auto
    ultimately show ?thesis by simp
  qed
qed simp

lemma exchange_sent_fds:
  assumes "socket_of s sk c" "list_all2 (\<lambda>fd f. map_of (k_fds s) fd = Some f) fds fs"
    "k_script s = replicate (length fds) Okay @ rest"
  shows "exchange peer junk sk fds pkgs pkgsLen s =
     (case send_pkgs sk pkgs pkgsLen (on_conn c (map PFd fs) (s\<lparr>k_script := rest\<rparr>)) of
        (Some e, s2) \<Rightarrow> (Ret (Inl e), s2)
      | (None, s2) \<Rightarrow> recv_pid peer junk sk s2)"
proof -
  have "sendfd_all sk fds s = (None, on_conn c (map PFd fs) (s\<lparr>k_script := rest\<rparr>))"
    using assms by (auto simp: sendfd_all_None)
  then show ?thesis by (simp add: exchange_def)
qed

lemma exchange_fails:
  assumes sk: "socket_of s sk c" and fds: "list_all2 (\<lambda>fd f. map_of (k_fds s) fd = Some f) fds fs"
    and sc: "k_script s = replicate i Okay @ Fail e # rest" "i \<le> Suc (length fds)" and ne: "pkgs_bytes pkgs pkgsLen \<noteq> []"
  shows "\<exists>m t. exchange peer junk sk fds pkgs pkgsLen s = (Ret (Inl m), t) \<and> k_fds t = k_fds s \<and> k_errno t = Some e \<and> k_script t = rest"
proof (cases "i < length fds")
  case True
  with sendfd_all_fails [OF sk fds sc(1)] show ?thesis by (auto simp: exchange_def)
next
  case False
  with sc(2) consider "i = length fds" | "i = Suc (length fds)" by linarith
  then show ?thesis
  proof cases
    case 1
    then show ?thesis
      using exchange_sent_fds [OF sk fds, of "Fail e # rest" peer junk pkgs pkgsLen] sc(1) sk
      by (simp add: send_pkgs_def sys_send_def sys_put_cases)
  next
    case 2
    then have "k_script s = replicate (length fds) Okay @ Okay # Fail e # rest"
      using sc(1) by (simp add: replicate_append_same [symmetric])
    then show ?thesis
      using exchange_sent_fds [OF sk fds, of "Okay # Fail e # rest" peer junk pkgs pkgsLen] sk ne
      by (simp add: send_pkgs_def sys_send_def sys_put_cases Let_def transfer_def sendAll.simps del: on_conn_on_conn)
  qed
qed

lemma sendFds_failure:
  assumes sc: "k_script s = replicate j Okay @ Fail e # rest" "j \<le> 13" and path: "length sockPath < 108"
    and ne: "pkgs_bytes pkgs pkgsLen \<noteq> []"
  shows "\<exists>m t. sendFds peer junk sockPath pid rootdir pkgs pkgsLen s = (Ret (Errmsg m), t) \<and> k_errno t = Some e \<and>
               k_script t = rest \<and> length (k_fds t) = length (k_fds s) + min j 6"
proof (cases "j < 7")
  case True
  with sendFds_early_failure [OF sc(1) _ _ path] show ?thesis by fastforce
next
  case False
  then have "\<forall>a \<in> set (take 7 (k_script s)). \<not> failing a" using sc(1) by simp
  then obtain fds sk where fresh: "fresh_fds fds sk s" and eq: "sendFds peer junk sockPath pid rootdir pkgs pkgsLen s =
      sendFds_end fds sk (exchange peer junk sk fds pkgs pkgsLen (fds_ready pid rootdir fds sk s))"
    using sendFds_connected [OF _ path] by blast
  let ?r = "fds_ready pid rootdir fds sk s"
  have "k_script ?r = replicate (j - 7) Okay @ Fail e # rest"
    using False sc(1) by (simp add: fds_ready_def)
  moreover have "j - 7 \<le> Suc (length fds)" using sc(2) fresh by (simp add: fresh_fds_def)
  ultimately obtain m t where "exchange peer junk sk fds pkgs pkgsLen ?r = (Ret (Inl m), t)" "k_fds t = k_fds ?r" "k_errno t = Some e" "k_script t = rest"
    using exchange_fails [OF fds_ready_facts(1,3) [OF fresh] _ _ ne] by blast
  then show ?thesis
    using eq False fds_ready_facts(7) [OF fresh] by (simp add: sendFds_end_def)
qed

text \<open>A call that gets through: the descriptors at once, the string in portions \<open>ns\<close>.\<close>

lemma exchange_run:
  assumes sk: "socket_of s sk c" "k_conns s ! c = []" and fds: "list_all2 (\<lambda>fd f. map_of (k_fds s) fd = Some f) fds fs"
    and sc: "k_script s = replicate (Suc (length fds)) Okay @ map Short ns"
    and ns: "\<forall>n \<in> set ns. 0 < n" "sum_list ns = length (pkgs_bytes pkgs pkgsLen)"
  shows "exchange peer junk sk fds pkgs pkgsLen s =
           recv_pid peer junk sk (on_conn c (fork_wire fs 4 pkgs pkgsLen) (s\<lparr>k_script := []\<rparr>))"
proof -
  let ?s1 = "on_conn c (map PFd fs) (s\<lparr>k_script := Okay # map Short ns\<rparr>)"
  let ?s2 = "on_conn c (map PFd fs @ map PByte (htonl pkgsLen)) (s\<lparr>k_script := map Short ns @ []\<rparr>)"
  have c: "c < length (k_conns s)" using sk(1) by (simp add: socket_of_def)
  have "sys_send sk (htonl pkgsLen) ?s1 = (4, ?s2)"
    using sk(1) c by (simp add: sys_send_def sys_put_cases Let_def transfer_def)
  moreover have "sendAll sk (pkgs_bytes pkgs pkgsLen) ?s2 =
      (0, on_conn c (map PByte (pkgs_bytes pkgs pkgsLen)) (?s2\<lparr>k_script := []\<rparr>))"
    using sk(1) ns by (intro sendAll_portions [of _ _ _ ns]) simp_all
  moreover have "on_conn c (map PByte (pkgs_bytes pkgs pkgsLen)) (?s2\<lparr>k_script := []\<rparr>) =
      on_conn c (fork_wire fs 4 pkgs pkgsLen) (s\<lparr>k_script := []\<rparr>)"
    using c by (simp add: fork_wire_def on_conn_def)
  ultimately have "send_pkgs sk pkgs pkgsLen ?s1 = (None, on_conn c (fork_wire fs 4 pkgs pkgsLen) (s\<lparr>k_script := []\<rparr>))"
    by (simp add: send_pkgs_def)
  moreover have "k_script s = replicate (length fds) Okay @ Okay # map Short ns"
    using sc by (simp add: replicate_append_same [symmetric])
  ultimately show ?thesis
    using exchange_sent_fds [OF sk(1) fds, of "Okay # map Short ns" peer junk pkgs pkgsLen] by simp
qed

lemma sendFds_run:
  assumes sc: "k_script s = replicate 13 Okay @ map Short ns" and path: "length sockPath < 108"
    and ns: "\<forall>n \<in> set ns. 0 < n" "sum_list ns = length (pkgs_bytes pkgs pkgsLen)"
  shows "case peer (fork_wire (ns_files pid @ [OFile rootdir]) 4 pkgs pkgsLen) of
           None \<Rightarrow> \<exists>t. sendFds peer junk sockPath pid rootdir pkgs pkgsLen s = (Block, t)
         | Some bytes \<Rightarrow>
             \<exists>t. sendFds peer junk sockPath pid rootdir pkgs pkgsLen s =
                   (Ret (Heapbuf (take 10 bytes @ drop (length bytes) (take 10 junk))), t) \<and>
                 k_fds t = k_fds s \<and> k_errno t = k_errno s \<and> k_script t = [] \<and>
                 k_conns t = k_conns s @ [fork_wire (ns_files pid @ [OFile rootdir]) 4 pkgs pkgsLen]"
proof -
  have "\<forall>a \<in> set (take 7 (k_script s)). \<not> failing a" using sc by simp
  then obtain fds sk where fresh: "fresh_fds fds sk s" and eq: "sendFds peer junk sockPath pid rootdir pkgs pkgsLen s =
      sendFds_end fds sk (exchange peer junk sk fds pkgs pkgsLen (fds_ready pid rootdir fds sk s))"
    using sendFds_connected [OF _ path] by blast
  define r where "r = fds_ready pid rootdir fds sk s"
  define w where "w = fork_wire (ns_files pid @ [OFile rootdir]) 4 pkgs pkgsLen"
  define s2 where "s2 = on_conn (length (k_conns s)) w (r\<lparr>k_script := []\<rparr>)"
  note ready = fds_ready_facts(1,2,3,4,6) [OF fresh, of pid rootdir, folded r_def]
  have "k_script r = replicate (Suc (length fds)) Okay @ map Short ns"
    using sc fresh by (simp add: r_def fds_ready_def fresh_fds_def)
  then have ex: "exchange peer junk sk fds pkgs pkgsLen r = recv_pid peer junk sk s2"
    using exchange_run [OF ready(1,2,3) _ ns] by (simp add: w_def s2_def)
  have s2: "socket_of s2 sk (length (k_conns s))" "k_conns s2 ! length (k_conns s) = w" "k_script s2 = []"
    using ready(1,2) by (simp_all add: s2_def socket_of_def)
  note got = recv_pid_cases [OF s2(1), of peer junk]
  show ?thesis
  proof (cases "peer w")
    case None
    then show ?thesis using eq got s2 ex by (simp add: sendFds_end_def w_def r_def)
  next
    case (Some bytes)
    have fds2: "k_fds s2 = k_fds r" by (simp add: s2_def)
    obtain t where cl: "close_fds (sk # fds) s2 = (None, t)"
      using close_fds_succeeds [of "sk # fds" s2] fds_ready_facts(5) [OF fresh] ready(5) s2(3) unfolding fds2 by auto
    have upd: "s2\<lparr>k_script := tl (k_script s2)\<rparr> = s2" using s2(3) by simp
    have "recv_pid peer junk sk s2 = (Ret (Inr (take 10 bytes @ drop (length bytes) (take 10 junk))), s2)"
      using got s2 Some by (simp add: Let_def transfer_def upd min_def)
    moreover have "k_fds t = k_fds s" "k_errno t = k_errno s" "k_script t = []" "k_conns t = k_conns s @ [w]"
      using close_fds_None [OF cl] ready(4) s2(3) by (simp_all add: s2_def on_conn_def r_def fds_ready_def)
    ultimately show ?thesis using eq ex cl Some by (simp add: sendFds_end_def w_def r_def)
  qed
qed

end
