(* ===== verification/ForkListener.thy ===== *)
theory ForkListener
  imports CSystem
begin

text \<open>
  The fork server's side of a fork request: the module \<open>ns\<close> of the Python interpreter
  (\<open>lambda/nsmodule/nsmodule.c\<close>: \<open>fdlisten\<close>, \<open>forkenter\<close>, \<open>reset\<close>) and the loop that drives it
  (\<open>lambda/server.py\<close>: \<open>cache_loop\<close>).

  A received descriptor is the open file behind it, \<open>None\<close> the value \<open>-1\<close>.  \<open>eof\<close> says that the
  worker has closed its end of the connection; while it is open, a read beyond what was sent waits.
  The outcomes of the system calls are arguments.
\<close>

record ns_globals =
  ns_initialized :: bool
  newns :: "ofile option list"
  root_fd :: "ofile option"

record listen_env =
  le_socket :: bool
  le_bind :: bool
  le_pipe :: bool
  le_write :: bool
  le_listen :: bool
  le_accept :: bool

definition initSock :: "listen_env \<Rightarrow> unit res" where
  "initSock le =
     (if \<not> le_socket le then Exit ''socket''
      else if \<not> le_bind le then Exit ''bind''
      else if \<not> le_pipe le then Exit ''open''
      else if \<not> le_write le then Exit ''write''
      else Ret ())"

fun recvfd :: "bool \<Rightarrow> packet list \<Rightarrow> ofile option res \<times> packet list" where
  "recvfd eof [] = (if eof then Ret None else Block, [])"
| "recvfd eof (PFd f # w) = (Ret (Some f), w)"
| "recvfd eof (PByte b # w) = (undefined_c ''no control message'', w)"

fun recvfds :: "bool \<Rightarrow> nat \<Rightarrow> packet list \<Rightarrow> ofile option list res \<times> packet list" where
  "recvfds eof 0 w = (Ret [], w)"
| "recvfds eof (Suc n) w =
     (case recvfd eof w of
        (Ret f, w1) \<Rightarrow>
          (case recvfds eof n w1 of
             (Ret fs, w2) \<Rightarrow> (Ret (f # fs), w2)
           | (Panic m, w2) \<Rightarrow> (Panic m, w2) | (Exit m, w2) \<Rightarrow> (Exit m, w2) | (Block, w2) \<Rightarrow> (Block, w2))
      | (Panic m, w1) \<Rightarrow> (Panic m, w1) | (Exit m, w1) \<Rightarrow> (Exit m, w1) | (Block, w1) \<Rightarrow> (Block, w1))"

text \<open>
  One \<open>recv\<close>: at most \<open>n\<close> of the bytes that are there, none of them after one that came with a
  descriptor, which is dropped.
\<close>

fun recv_chunk :: "nat \<Rightarrow> packet list \<Rightarrow> string \<times> packet list" where
  "recv_chunk 0 w = ([], w)"
| "recv_chunk (Suc n) [] = ([], [])"
| "recv_chunk (Suc n) (PFd f # w) = ([NUL], w)"
| "recv_chunk (Suc n) (PByte b # w) = (case recv_chunk n w of (bs, w1) \<Rightarrow> (b # bs, w1))"

lemma recv_chunk_le: "length (snd (recv_chunk n w)) \<le> length w"
  by (induction n w rule: recv_chunk.induct) (auto split: prod.splits)

lemma recv_chunk_shrinks: "0 < n \<Longrightarrow> w \<noteq> [] \<Longrightarrow> length (snd (recv_chunk n w)) < length w"
proof (cases n; cases w)
  fix m p w'
  assume "n = Suc m" "w = p # w'"
  then show ?thesis using recv_chunk_le [of m w'] by (cases p) (auto split: prod.splits)
qed auto

text \<open>At the end of the stream \<open>recv\<close> gives zero, and the loop does not end either.\<close>

function recv_all :: "nat \<Rightarrow> packet list \<Rightarrow> string res \<times> packet list" where
  "recv_all len w =
     (if len = 0 then (Ret [], w)
      else if w = [] then (Block, [])
      else (case recv_chunk len w of
              (bs, w1) \<Rightarrow>
                (case recv_all (len - length bs) w1 of
                   (Ret cs, w2) \<Rightarrow> (Ret (bs @ cs), w2)
                 | (Panic m, w2) \<Rightarrow> (Panic m, w2) | (Exit m, w2) \<Rightarrow> (Exit m, w2) | (Block, w2) \<Rightarrow> (Block, w2))))"
  by auto
termination
  by (relation "measure (\<lambda>(len, w). length w)") (use recv_chunk_shrinks in \<open>auto, metis snd_conv\<close>)

declare recv_all.simps [simp del]

text \<open>The length and the string after the descriptors.\<close>

definition recv_pkgs :: "bool \<Rightarrow> packet list \<Rightarrow> (string + string) res" where
  "recv_pkgs eof w =
     (if w = [] \<and> \<not> eof then Block
      else
        (let (bs, w1) = recv_chunk 4 w;
             read_size = sint (ntohl (bs @ replicate (4 - length bs) NUL))
         in if read_size < 0 then Ret (Inl ''Failed to allocation memory.'')
            else (case recv_all (nat read_size) w1 of
                    (Ret buf, _) \<Rightarrow>
                      (case C_GoString buf of
                         Ret str \<Rightarrow> Ret (Inr str)
                       | Panic m \<Rightarrow> Panic m | Exit m \<Rightarrow> Exit m | Block \<Rightarrow> Block)
                  | (Panic m, _) \<Rightarrow> Panic m | (Exit m, _) \<Rightarrow> Exit m | (Block, _) \<Rightarrow> Block)))"

definition fdlisten_conn :: "bool \<Rightarrow> packet list \<Rightarrow> ns_globals \<Rightarrow> (string + string) res \<times> ns_globals" where
  "fdlisten_conn eof w g =
     (case recvfds eof 4 w of
        (Ret fds, w1) \<Rightarrow>
          (case recvfd eof w1 of
             (Ret rf, w2) \<Rightarrow> (recv_pkgs eof w2, g\<lparr>newns := fds, root_fd := rf\<rparr>)
           | (Panic m, _) \<Rightarrow> (Panic m, g\<lparr>newns := fds\<rparr>) | (Exit m, _) \<Rightarrow> (Exit m, g\<lparr>newns := fds\<rparr>)
           | (Block, _) \<Rightarrow> (Block, g\<lparr>newns := fds\<rparr>))
      | (Panic m, _) \<Rightarrow> (Panic m, g) | (Exit m, _) \<Rightarrow> (Exit m, g) | (Block, _) \<Rightarrow> (Block, g))"

definition fdlisten :: "listen_env \<Rightarrow> bool \<Rightarrow> packet list \<Rightarrow> ns_globals \<Rightarrow> (string + string) res \<times> ns_globals" where
  "fdlisten le eof w g =
     (let serve = (\<lambda>g1. if \<not> le_accept le then (Ret (Inl ''Accepting connection from socket failed.''), g1)
                         else fdlisten_conn eof w g1)
      in if ns_initialized g then serve g
         else (case initSock le of
                 Ret _ \<Rightarrow> if \<not> le_listen le then (Ret (Inl ''Listen on socket failed.''), g)
                          else serve (g\<lparr>ns_initialized := True\<rparr>)
               | Panic m \<Rightarrow> (Panic m, g) | Exit m \<Rightarrow> (Exit m, g) | Block \<Rightarrow> (Block, g)))"

text \<open>Zeroed descriptors are descriptor 0, the standard input.\<close>

definition ns_reset :: "ns_globals \<Rightarrow> string + ns_globals" where
  "ns_reset g =
     (if \<not> ns_initialized g then Inl ''Trying to reset but never initialized.''
      else Inr (g\<lparr>newns := replicate 4 (Some (OFile ''stdin'')), ns_initialized := False\<rparr>))"

subsection \<open>forkenter\<close>

text \<open>
  A request runs in three processes: the server itself, a child that joins the namespaces, and a
  grandchild that becomes the sandboxed interpreter.  The results of the two \<open>fork\<close> calls are those
  the caller sees (a process number, or \<open>-1\<close>); \<open>fe_rest\<close> is what follows the number in the buffer of
  the answer.
\<close>

datatype pyret = PyExc string | PyInt int

record fork_env =
  fe_pipe :: bool
  fe_fork1 :: int
  fe_read :: bool
  fe_setns :: "ofile \<Rightarrow> bool"
  fe_fork2 :: int
  fe_write :: bool
  fe_fchdir :: bool
  fe_chroot :: bool
  fe_rest :: string
  fe_send :: bool

record forked =
  fk_original :: pyret
  fk_reply :: "string option"
  fk_grandchild :: "pyret option"

definition joins :: "fork_env \<Rightarrow> ns_globals \<Rightarrow> bool" where
  "joins fe g = list_all (\<lambda>f. case f of None \<Rightarrow> False | Some x \<Rightarrow> fe_setns fe x) (newns g)"

text \<open>
  The end of the function, common to the server and the grandchild: a process whose \<open>gc_pid\<close> is zero
  takes itself for the grandchild.
\<close>

definition forkenter_end :: "fork_env \<Rightarrow> ns_globals \<Rightarrow> int \<Rightarrow> pyret \<times> string option" where
  "forkenter_end fe g gc_pid =
     (if None \<in> set (newns g) then (PyExc ''close passed ns file descriptor failed.'', None)
      else if root_fd g = None then (PyExc ''close passed root file descriptor failed.'', None)
      else if gc_pid = 0 then (PyInt 0, None)
      else if \<not> fe_send fe then (PyExc ''Parent failed to send child PID.'', None)
      else (PyInt gc_pid, Some (take 50 (strconv_Itoa gc_pid @ NUL # fe_rest fe))))"

text \<open>
  What the child writes to the pipe.  Without a first fork, or when a namespace cannot be joined,
  nobody writes, and the server's \<open>read\<close> meets the end of the pipe.
\<close>

definition written_pid :: "fork_env \<Rightarrow> ns_globals \<Rightarrow> int option" where
  "written_pid fe g =
     (if fe_fork1 fe = -1 \<or> \<not> joins fe g \<or> \<not> fe_write fe then None else Some (fe_fork2 fe))"

definition grandchild :: "fork_env \<Rightarrow> ns_globals \<Rightarrow> pyret option" where
  "grandchild fe g =
     (if fe_fork1 fe = -1 \<or> \<not> joins fe g \<or> fe_fork2 fe = -1 then None
      else if \<not> fe_fchdir fe then Some (PyExc ''Fchdir failed.'')
      else if \<not> fe_chroot fe then Some (PyExc ''Chroot failed.'')
      else Some (fst (forkenter_end fe g 0)))"

definition forkenter :: "fork_env \<Rightarrow> ns_globals \<Rightarrow> forked" where
  "forkenter fe g =
     (if \<not> fe_pipe fe
      then \<lparr>fk_original = PyExc ''Create pipe failed.'', fk_reply = None, fk_grandchild = None\<rparr>
      else if \<not> fe_read fe
      then \<lparr>fk_original = PyExc ''Read from PID pipe failed.'', fk_reply = None, fk_grandchild = grandchild fe g\<rparr>
      else (let (r, reply) = forkenter_end fe g (case written_pid fe g of None \<Rightarrow> 0 | Some n \<Rightarrow> n)
            in \<lparr>fk_original = r, fk_reply = reply, fk_grandchild = grandchild fe g\<rparr>))"

subsection \<open>cache_loop\<close>

text \<open>
  A Python process: the modules it has imported, the namespaces it joined and its root directory, and
  the variables of the module \<open>ns\<close>.
\<close>

record pyproc =
  py_mods :: "string list"
  py_ns :: "ofile list"
  py_root :: "ofile option"
  py_globals :: ns_globals

datatype pynext = Listens pyproc | Serves pyproc | Dies string

definition py_split :: "string \<Rightarrow> string list" where
  "py_split s = filter (\<lambda>w. w \<noteq> []) (strings_Split CHR '' '' (map (\<lambda>c. if is_space c then CHR '' '' else c) s))"

text \<open>The rest of one turn, and the test and the reset at the head of the next.\<close>

definition cache_turn :: "(string \<Rightarrow> bool) \<Rightarrow> string list \<Rightarrow> string \<Rightarrow> pyret \<Rightarrow> pyproc \<Rightarrow> pynext" where
  "cache_turn importable mods signal r p =
     (case r of
        PyExc m \<Rightarrow> Dies m
      | PyInt n \<Rightarrow>
          (let p1 = (if n = 0 then p\<lparr>py_mods := py_mods p @ filter importable mods\<rparr> else p)
           in if n \<noteq> 0 then Listens p1
              else if signal = ''cache''
              then (case ns_reset (py_globals p1) of
                      Inl m \<Rightarrow> Dies m
                    | Inr g \<Rightarrow> Listens (p1\<lparr>py_globals := g\<rparr>))
              else Serves p1))"

definition in_sandbox :: "pyproc \<Rightarrow> pyproc" where
  "in_sandbox p = p\<lparr>py_ns := List.map_filter id (newns (py_globals p)), py_root := root_fd (py_globals p)\<rparr>"

record cache_result =
  cr_server :: pynext
  cr_forked :: "pynext option"
  cr_answer :: "string option"

text \<open>
  One turn of the loop on a connection: what becomes of the server, of the process it forked, and what
  the worker reads.  When the server dies the connection ends, unless the grandchild still holds it.
\<close>

definition cache_loop ::
  "listen_env \<Rightarrow> fork_env \<Rightarrow> (string \<Rightarrow> bool) \<Rightarrow> bool \<Rightarrow> packet list \<Rightarrow> pyproc \<Rightarrow> cache_result" where
  "cache_loop le fe importable eof w p =
     (let dead = (\<lambda>m. \<lparr>cr_server = Dies m, cr_forked = None, cr_answer = Some []\<rparr>) in
      case fdlisten le eof w (py_globals p) of
        (Ret (Inl e), g) \<Rightarrow> dead e
      | (Panic m, g) \<Rightarrow> dead m
      | (Exit m, g) \<Rightarrow> dead m
      | (Block, g) \<Rightarrow> \<lparr>cr_server = Listens (p\<lparr>py_globals := g\<rparr>), cr_forked = None, cr_answer = None\<rparr>
      | (Ret (Inr str), g) \<Rightarrow>
          (let data = py_split str; p1 = p\<lparr>py_globals := g\<rparr>; f = forkenter fe g in
           if data = [] then dead ''IndexError: list index out of range''
           else \<lparr>cr_server = cache_turn importable (butlast data) (last data) (fk_original f) p1,
                 cr_forked = map_option (\<lambda>r. cache_turn importable (butlast data) (last data) r (in_sandbox p1)) (fk_grandchild f),
                 cr_answer =
                   (case fk_reply f of
                      Some a \<Rightarrow> Some a
                    | None \<Rightarrow> (case fk_original f of PyInt _ \<Rightarrow> None
                              | PyExc _ \<Rightarrow> if fk_grandchild f = None then Some [] else None))\<rparr>))"

end
