(* ===== verification/ForkProtocol.thy ===== *)
theory ForkProtocol
  imports ForkClientProps ForkListener
begin

text \<open>
  Both ends of a fork request together: what the worker's \<open>sendFds\<close> puts on the connection is what the
  fork server's \<open>fdlisten\<close> takes off it, and the answer of \<open>forkenter\<close> is what \<open>forkRequest\<close> returns.
\<close>

subsection \<open>The server reads what the worker wrote\<close>

lemma recvfds_fork_wire: "recvfds eof (length fs) (map PFd fs @ w) = (Ret (map Some fs), w)"
  by (induction fs) simp_all

lemma recv_chunk_bytes:
  "length bs \<le> n \<Longrightarrow> recv_chunk n (map PByte bs) = (bs, [])"
  "n \<le> length bs \<Longrightarrow> recv_chunk n (map PByte bs) = (take n bs, map PByte (drop n bs))"
proof -
  show "length bs \<le> n \<Longrightarrow> recv_chunk n (map PByte bs) = (bs, [])"
    by (induction bs arbitrary: n) (case_tac n; simp)+
  show "n \<le> length bs \<Longrightarrow> recv_chunk n (map PByte bs) = (take n bs, map PByte (drop n bs))"
  proof (induction n arbitrary: bs)
    case (Suc n)
    then show ?case by (cases bs) simp_all
  qed simp
qed

lemma recv_all_bytes: "recv_all (length bs) (map PByte bs) = (Ret bs, [])"
  by (cases "bs = []") (simp_all add: recv_all.simps [of "length bs"] recv_chunk_bytes(1) recv_all.simps [of 0])

lemma sint_word_of_nat: "n < 2147483648 \<Longrightarrow> sint (word_of_nat n :: 32 word) = int n"
proof -
  assume "n < 2147483648"
  then have "signed_take_bit 31 (int n) = int n"
    by (intro signed_take_bit_int_eq_self) simp_all
  then show ?thesis
    by (simp add: sint_uint unsigned_of_nat signed_take_bit_take_bit take_bit_of_nat) (simp add: of_nat_take_bit signed_take_bit_take_bit)
qed

text \<open>The request the worker sends for a string: the string, its zero byte, and their length.\<close>

definition request_wire :: "ofile list \<Rightarrow> string \<Rightarrow> packet list" where
  "request_wire fs str = fork_wire fs 4 (C_CString str) (word_of_nat (length str + 1))"

lemma request_wire_eq:
  assumes "length str < 2147483647"
  shows "request_wire fs str = map PFd fs @ map PByte (htonl (word_of_nat (length str + 1)) @ C_CString str)"
proof -
  have "nat (sint (word_of_nat (length str + 1) :: 32 word)) = length str + 1"
    using sint_word_of_nat [of "length str + 1"] assms by simp
  then show ?thesis
    by (simp add: request_wire_def fork_wire_def C_CString_def)
qed

lemma recv_pkgs_request:
  assumes "length str < 2147483647" "NUL \<notin> set str"
  shows "recv_pkgs eof (map PByte (htonl (word_of_nat (length str + 1)) @ C_CString str)) = Ret (Inr str)"
proof -
  let ?h = "htonl (word_of_nat (length str + 1))"
  have "recv_chunk 4 (map PByte (?h @ C_CString str)) = (?h, map PByte (C_CString str))"
    by (subst recv_chunk_bytes(2)) simp_all
  moreover have "nat (sint (ntohl ?h)) = length (C_CString str)" "0 \<le> sint (ntohl ?h)"
    using assms(1) sint_word_of_nat [of "length str + 1"] by (simp_all add: ntohl_htonl C_CString_def)
  ultimately show ?thesis
    using recv_all_bytes [of "C_CString str"] GoString_CString [OF assms(2)]
    by (simp add: recv_pkgs_def Let_def C_CString_def)
qed

lemma fdlisten_request:
  assumes "length str < 2147483647" "NUL \<notin> set str" "length fs = 4"
  shows "fdlisten_conn eof (request_wire (fs @ [rf]) str) g = (Ret (Inr str), g\<lparr>newns := map Some fs, root_fd := Some rf\<rparr>)"
proof -
  define w where "w = map PByte (htonl (word_of_nat (length str + 1)) @ C_CString str)"
  have fds: "recvfds eof 4 (map PFd fs @ PFd rf # w) = (Ret (map Some fs), PFd rf # w)"
    using recvfds_fork_wire [of eof fs] assms(3) by metis
  have wire: "request_wire (fs @ [rf]) str = map PFd fs @ PFd rf # w"
    unfolding w_def request_wire_eq [OF assms(1)] by simp
  have str: "recv_pkgs eof w = Ret (Inr str)"
    unfolding w_def by (rule recv_pkgs_request [OF assms(1,2)])
  show ?thesis
    unfolding fdlisten_conn_def wire fds prod.case res.case recvfd.simps str ..
qed

subsection \<open>The words of a request\<close>

definition plain_word :: "string \<Rightarrow> bool" where
  "plain_word w = (w \<noteq> [] \<and> (\<forall>c \<in> set w. \<not> is_space c \<and> c \<noteq> NUL))"

lemma map_Join: "map f (strings_Join sep ws) = strings_Join (map f sep) (map (map f) ws)"
  by (induction sep ws rule: strings_Join.induct) simp_all

lemma py_split_Join:
  assumes "ws \<noteq> []" "\<forall>w \<in> set ws. plain_word w"
  shows "py_split (strings_Join '' '' ws) = ws"
proof -
  let ?f = "\<lambda>c. if is_space c then CHR '' '' else c"
  have "map ?f w = w" if "w \<in> set ws" for w
  proof (rule map_idI)
    fix c assume "c \<in> set w"
    with assms(2) that have "\<not> is_space c" unfolding plain_word_def by blast
    then show "?f c = c" by simp
  qed
  then have same: "map (map ?f) ws = ws" by (rule map_idI)
  have "map ?f (strings_Join '' '' ws) = strings_Join '' '' ws"
    unfolding map_Join same by (simp add: is_space_def)
  moreover have "CHR '' '' \<notin> set w" if "w \<in> set ws" for w
    using assms(2) that unfolding plain_word_def is_space_def by blast
  then have "strings_Split CHR '' '' (strings_Join '' '' ws) = ws"
    using assms(1) by (intro strings_Split_Join) simp_all
  moreover have "filter (\<lambda>w. w \<noteq> []) ws = ws"
    using assms(2) unfolding plain_word_def filter_id_conv by blast
  ultimately show ?thesis
    unfolding py_split_def by simp
qed

lemma forkRequest_words:
  assumes "\<forall>w \<in> set imps. plain_word w"
  shows "py_split (forkRequest_signal imps is_handler) = imps @ [if is_handler then ''serve'' else ''cache'']"
    and "NUL \<notin> set (forkRequest_signal imps is_handler)"
proof -
  let ?ws = "imps @ [if is_handler then ''serve'' else ''cache'']"
  have ws: "\<forall>w \<in> set ?ws. plain_word w"
    using assms by (auto simp: plain_word_def is_space_def)
  then show "py_split (forkRequest_signal imps is_handler) = ?ws"
    unfolding forkRequest_signal_def by (intro py_split_Join) simp_all
  have "set (strings_Join '' '' vs) \<subseteq> insert CHR '' '' (\<Union>w \<in> set vs. set w)" for vs
    by (induction "'' ''" vs rule: strings_Join.induct) auto
  then show "NUL \<notin> set (forkRequest_signal imps is_handler)"
    using ws unfolding forkRequest_signal_def plain_word_def by fastforce
qed

text \<open>A process number as the server prints it fits the ten bytes of the worker's buffer.\<close>

lemma length_nat_digits: "n < 10 ^ Suc k \<Longrightarrow> length (nat_digits n) \<le> Suc k"
proof (induction k arbitrary: n)
  case (Suc k)
  then have "n div 10 < 10 ^ Suc k" by (simp add: less_mult_imp_div_less)
  from Suc.IH [OF this] show ?case by (subst nat_digits.simps) simp
qed (simp add: nat_digits.simps)

lemma Itoa_pid:
  assumes "0 < pid" "pid \<le> 999999999"
  shows "length (strconv_Itoa pid) < 10" "NUL \<notin> set (strconv_Itoa pid)" "strconv_Itoa pid \<noteq> []"
proof -
  have "nat pid < 10 ^ Suc 8" using assms by simp
  from length_nat_digits [OF this] show "length (strconv_Itoa pid) < 10"
    using assms by (simp add: strconv_Itoa_def)
  have "digit_val NUL = None" by (simp add: digit_val_def)
  then show "NUL \<notin> set (strconv_Itoa pid)"
    using assms nat_digits_digit [of NUL "nat pid"] by (auto simp: strconv_Itoa_def)
  show "strconv_Itoa pid \<noteq> []" by (simp add: strconv_Itoa_def)
qed

subsection \<open>The interface between the two\<close>

lemma fork_attempts_Suc:
  assumes "call (s\<lparr>k_errno := None\<rparr>) = (Ret (Heapbuf mem), t)" "k_errno t = None"
    "C_GoString mem = Ret pid" "pid \<noteq> []"
  shows "fork_attempts (Suc k) call s = (Ret (pid, None), t)"
  using assms by simp

text \<open>
  What the worker relies on: for the files it accepts, the fork server answers a request with the number
  of the process it forked, ended by a zero byte.
\<close>

locale fork_peer =
  fixes peer :: peer and accepts :: "ofile list \<Rightarrow> bool" and child :: int
  assumes child_range: "accepts fs \<Longrightarrow> 0 < child \<and> child \<le> 999999999"
    and answers: "accepts fs \<Longrightarrow> length fs = 5 \<Longrightarrow> \<forall>w \<in> set imps. plain_word w \<Longrightarrow>
      length (forkRequest_signal imps is_handler) < 2147483647 \<Longrightarrow>
      \<exists>rest. peer (request_wire fs (forkRequest_signal imps is_handler)) = Some (strconv_Itoa child @ NUL # rest)"
begin

lemma forkRequest_returns:
  assumes acc: "accepts (ns_files targetPid @ [OFile rootDir])" and imps: "\<forall>w \<in> set imps. plain_word w"
    and len: "length (forkRequest_signal imps is_handler) < 2147483647" and path: "length sockPath < 108"
    and sc: "k_script s = replicate 13 Okay @ map Short ns" "\<forall>n \<in> set ns. 0 < n"
      "sum_list ns = length (forkRequest_signal imps is_handler) + 1"
  shows "\<exists>t. forkRequest_c peer junk sockPath targetPid rootDir imps is_handler s = (Ret (strconv_Itoa child, None), t) \<and>
             k_fds t = k_fds s \<and>
             k_conns t = k_conns s @ [request_wire (ns_files targetPid @ [OFile rootDir]) (forkRequest_signal imps is_handler)]"
proof -
  let ?str = "forkRequest_signal imps is_handler" and ?s0 = "s\<lparr>k_errno := None\<rparr>"
  let ?w = "request_wire (ns_files targetPid @ [OFile rootDir]) ?str"
  have five: "length (ns_files targetPid @ [OFile rootDir]) = 5" by (simp add: ns_files_def)
  obtain rest where ans: "peer ?w = Some (strconv_Itoa child @ NUL # rest)"
    using answers [OF acc five imps len] by blast
  have sum: "sum_list ns = length (pkgs_bytes (C_CString ?str) (word_of_nat (length ?str + 1)))"
    using sc(3) len sint_word_of_nat [of "length ?str + 1"] by (simp add: C_CString_def)
  note pid = Itoa_pid [OF child_range [OF acc, THEN conjunct1] child_range [OF acc, THEN conjunct2]]
  let ?bytes = "strconv_Itoa child @ NUL # rest"
  obtain t where run: "sendFds peer junk sockPath targetPid rootDir (C_CString ?str) (word_of_nat (length ?str + 1)) ?s0 =
      (Ret (Heapbuf (take 10 ?bytes @ drop (length ?bytes) (take 10 junk))), t)"
    and t: "k_fds t = k_fds s" "k_errno t = None" "k_conns t = k_conns s @ [?w]"
    using sendFds_run [OF _ path sc(2) sum, of ?s0 peer junk targetPid rootDir, folded request_wire_def] sc(1) ans by auto
  have "take 10 ?bytes = strconv_Itoa child @ NUL # take (9 - length (strconv_Itoa child)) rest"
    using pid(1) by (simp add: take_Cons')
  then have str: "C_GoString (take 10 ?bytes @ drop (length ?bytes) (take 10 junk)) = Ret (strconv_Itoa child)"
    using GoString_prefix [OF pid(2)] by simp
  have "fork_attempts (Suc 4) (sendFds peer junk sockPath targetPid rootDir (C_CString ?str) (word_of_nat (length ?str + 1))) s =
      (Ret (strconv_Itoa child, None), t)"
    by (rule fork_attempts_Suc [OF _ t(2) str pid(3)]) (rule run)
  with t show ?thesis unfolding forkRequest_c_def Let_def by (auto simp only: eval_nat_numeral)
qed

end

subsection \<open>The fork server keeps the contract\<close>

definition server_peer :: "listen_env \<Rightarrow> fork_env \<Rightarrow> (string \<Rightarrow> bool) \<Rightarrow> pyproc \<Rightarrow> peer" where
  "server_peer le fe importable p w = cr_answer (cache_loop le fe importable False w p)"

definition listening :: "listen_env \<Rightarrow> pyproc \<Rightarrow> bool" where
  "listening le p = (le_accept le \<and> (ns_initialized (py_globals p) \<or> (initSock le = Ret () \<and> le_listen le)))"

definition server_ready :: "listen_env \<Rightarrow> fork_env \<Rightarrow> pyproc \<Rightarrow> ofile list \<Rightarrow> bool" where
  "server_ready le fe p fs =
     (listening le p \<and> fe_pipe fe \<and> fe_fork1 fe \<noteq> -1 \<and> fe_read fe \<and> fe_write fe \<and> fe_send fe \<and>
      0 < fe_fork2 fe \<and> fe_fork2 fe \<le> 999999999 \<and> fe_fchdir fe \<and> fe_chroot fe \<and> list_all (fe_setns fe) fs)"

abbreviation accepted :: "pyproc \<Rightarrow> ofile list \<Rightarrow> ofile \<Rightarrow> ns_globals" where
  "accepted p fs rf \<equiv> (py_globals p)\<lparr>ns_initialized := True, newns := map Some fs, root_fd := Some rf\<rparr>"

lemma fdlisten_accepted:
  assumes "listening le p" "length str < 2147483647" "NUL \<notin> set str" "length fs = 4"
  shows "fdlisten le eof (request_wire (fs @ [rf]) str) (py_globals p) = (Ret (Inr str), accepted p fs rf)"
proof -
  have same: "g\<lparr>ns_initialized := True\<rparr> = g" if "ns_initialized g" for g :: ns_globals
    using that by simp
  show ?thesis
    using assms(1) fdlisten_request [OF assms(2-4)] same [of "py_globals p"]
    by (auto simp: fdlisten_def Let_def listening_def)
qed

lemma cache_loop_request:
  assumes ready: "server_ready le fe p fs" and fs: "length fs = 4" and imps: "\<forall>w \<in> set imps. plain_word w"
    and len: "length (forkRequest_signal imps is_handler) < 2147483647"
  shows "cache_loop le fe importable eof (request_wire (fs @ [rf]) (forkRequest_signal imps is_handler)) p =
     (let p1 = p\<lparr>py_globals := accepted p fs rf\<rparr>;
          c = p1\<lparr>py_mods := py_mods p @ filter importable imps, py_ns := fs, py_root := Some rf\<rparr>
      in \<lparr>cr_server = Listens p1,
          cr_forked = Some (if is_handler then Serves c
                            else Listens (c\<lparr>py_globals := (py_globals c)\<lparr>newns := replicate 4 (Some (OFile ''stdin'')), ns_initialized := False\<rparr>\<rparr>)),
          cr_answer = Some (take 50 (strconv_Itoa (fe_fork2 fe) @ NUL # fe_rest fe))\<rparr>)"
proof -
  let ?g = "accepted p fs rf"
  have listen: "fdlisten le eof (request_wire (fs @ [rf]) (forkRequest_signal imps is_handler)) (py_globals p) =
      (Ret (Inr (forkRequest_signal imps is_handler)), ?g)"
    using fdlisten_accepted [OF _ len forkRequest_words(2) [OF imps] fs] ready by (simp add: server_ready_def)
  have "joins fe ?g"
    using ready by (simp add: server_ready_def joins_def list_all_iff)
  then have fork: "forkenter fe ?g = \<lparr>fk_original = PyInt (fe_fork2 fe),
      fk_reply = Some (take 50 (strconv_Itoa (fe_fork2 fe) @ NUL # fe_rest fe)), fk_grandchild = Some (PyInt 0)\<rparr>"
    using ready by (auto simp: server_ready_def forkenter_def written_pid_def grandchild_def forkenter_end_def Let_def)
  have mf: "List.map_filter id (map Some fs) = fs"
    by (induction fs) (simp_all add: List.map_filter_def)
  show ?thesis
    using ready
    by (simp add: cache_loop_def listen fork forkRequest_words(1) [OF imps] Let_def cache_turn_def in_sandbox_def
                  mf ns_reset_def server_ready_def del: take_append)
qed

interpretation fork_srv: fork_peer "server_peer le fe importable p" "\<lambda>fs. server_ready le fe p (butlast fs)" "fe_fork2 fe"
  for le fe importable p
proof unfold_locales
  fix fs assume "server_ready le fe p (butlast fs)"
  then show "0 < fe_fork2 fe \<and> fe_fork2 fe \<le> 999999999" by (simp add: server_ready_def)
next
  fix fs imps is_handler
  assume acc: "server_ready le fe p (butlast fs)" "length fs = 5" and imps: "\<forall>w \<in> set imps. plain_word w"
    and len: "length (forkRequest_signal imps is_handler) < 2147483647"
  from acc(2) have "fs \<noteq> []" by auto
  with acc(2) have fs: "fs = butlast fs @ [last fs]" "length (butlast fs) = 4" by simp_all
  have "length (strconv_Itoa (fe_fork2 fe)) < 10"
    using acc(1) by (intro Itoa_pid) (simp_all add: server_ready_def)
  then have "take 50 (strconv_Itoa (fe_fork2 fe) @ NUL # fe_rest fe) =
      strconv_Itoa (fe_fork2 fe) @ NUL # take (49 - length (strconv_Itoa (fe_fork2 fe))) (fe_rest fe)"
    by (simp add: take_Cons')
  then show "\<exists>rest. server_peer le fe importable p (request_wire fs (forkRequest_signal imps is_handler)) =
      Some (strconv_Itoa (fe_fork2 fe) @ NUL # rest)"
    using cache_loop_request [OF acc(1) fs(2) imps len, of importable False "last fs", folded fs(1)]
    by (simp add: server_peer_def Let_def)
qed

subsection \<open>Requests that get through\<close>

definition ex_listen :: listen_env where
  "ex_listen = \<lparr>le_socket = True, le_bind = True, le_pipe = True, le_write = True, le_listen = True, le_accept = True\<rparr>"

definition ex_fork :: fork_env where
  "ex_fork = \<lparr>fe_pipe = True, fe_fork1 = 41, fe_read = True, fe_setns = (\<lambda>_. True), fe_fork2 = 42, fe_write = True,
              fe_fchdir = True, fe_chroot = True, fe_rest = [], fe_send = True\<rparr>"

definition ex_proc :: pyproc where
  "ex_proc = \<lparr>py_mods = [], py_ns = [], py_root = None,
              py_globals = \<lparr>ns_initialized = False, newns = [], root_fd = None\<rparr>\<rparr>"

definition ex_kern :: "sysans list \<Rightarrow> kern" where
  "ex_kern script = \<lparr>k_fds = [(0, OFile ''stdin'')], k_conns = [], k_errno = None, k_blocks = [], k_script = script\<rparr>"

text \<open>
  C9.  A fork request that meets no error is carried out: whatever portions the package string is sent
  in, the fork server forks exactly one process, which joins the four namespaces of the target, has
  the given directory as its root and imports the requested packages (those that can be imported) on
  top of the server's own; it serves the lambda or waits as a new cache entry, as the request says.
  The server keeps listening with the modules it had, and \<open>forkRequest\<close> returns the number of that
  process, with every descriptor it opened closed again.
\<close>

theorem fork_request_roundtrip:
  assumes "server_ready le fe p (ns_files targetPid)" "\<forall>w \<in> set imps. plain_word w"
    and "length (forkRequest_signal imps is_handler) < 2147483647" "length sockPath < 108"
    and "k_script s = replicate 13 Okay @ map Short ns" "\<forall>n \<in> set ns. 0 < n"
    and "sum_list ns = length (forkRequest_signal imps is_handler) + 1"
  shows "\<exists>t g c. forkRequest_c (server_peer le fe importable p) junk sockPath targetPid rootDir imps is_handler s =
                   (Ret (strconv_Itoa (fe_fork2 fe), None), t) \<and> k_fds t = k_fds s \<and>
           cr_server (cache_loop le fe importable False (last (k_conns t)) p) = Listens (p\<lparr>py_globals := g\<rparr>) \<and>
           cr_forked (cache_loop le fe importable False (last (k_conns t)) p) =
             Some (if is_handler then Serves c else Listens c) \<and>
           py_mods c = py_mods p @ filter importable imps \<and> py_ns c = ns_files targetPid \<and> py_root c = Some (OFile rootDir)"
proof -
  obtain t where t: "forkRequest_c (server_peer le fe importable p) junk sockPath targetPid rootDir imps is_handler s =
      (Ret (strconv_Itoa (fe_fork2 fe), None), t)" "k_fds t = k_fds s"
      "last (k_conns t) = request_wire (ns_files targetPid @ [OFile rootDir]) (forkRequest_signal imps is_handler)"
    using fork_srv.forkRequest_returns [of le fe p targetPid rootDir imps is_handler sockPath s ns importable junk] assms by auto
  have "length (ns_files targetPid) = 4" by (simp add: ns_files_def)
  from cache_loop_request [OF assms(1) this assms(2,3), of importable False "OFile rootDir", folded t(3)] t(1,2)
  show ?thesis by (cases is_handler) (simp_all add: Let_def, blast+)
qed

theorem fork_request_roundtrip_witness:
  "\<exists>t. forkRequest_c (server_peer ex_listen ex_fork (\<lambda>_. True) ex_proc) (replicate 10 CHR ''x'') ''/host/fs.sock'' ''7''
         ''/root'' [''numpy''] True (ex_kern (replicate 13 Okay @ map Short [3, 9])) = (Ret (strconv_Itoa 42, None), t) \<and>
       k_fds t = [(0, OFile ''stdin'')]"
proof -
  let ?s = "ex_kern (replicate 13 Okay @ map Short [3, 9])"
  have "server_ready ex_listen ex_fork ex_proc (ns_files ''7'')" "\<forall>w \<in> set [''numpy'']. plain_word w"
    "length (forkRequest_signal [''numpy''] True) = 11"
    by (simp_all add: server_ready_def ex_listen_def ex_fork_def ex_proc_def listening_def initSock_def list_all_iff
                      plain_word_def is_space_def forkRequest_signal_def)
  then show ?thesis
    using fork_request_roundtrip [of ex_listen ex_fork ex_proc "''7''" "[''numpy'']" True "''/host/fs.sock''" ?s "[3, 9]"
        "\<lambda>_. True" "replicate 10 CHR ''x''" "''/root''"]
    by (auto simp: ex_kern_def ex_fork_def)
qed

text \<open>
  Whatever the system answers, a \<open>sendFds\<close> that returns the answer of the fork server has
  left the table of descriptors as it was, and has put on one new connection the descriptors of the
  four namespaces and of the root directory, in this order, then the length of the package string and
  all of its bytes; the answer is a prefix, of at most ten bytes, of what the peer answers to that.
  (\<open>n\<close> is how many of the four bytes of the length one \<open>send\<close> took.)
\<close>

theorem sendFds_wire:
  assumes "sendFds peer junk sockPath pid rootdir pkgs pkgsLen s = (Ret (Heapbuf buf), t)" "length sockPath < 108"
  shows "\<exists>n m bytes. k_fds t = k_fds s \<and>
           k_conns t = k_conns s @ [map PFd (ns_files pid @ [OFile rootdir]) @
             map PByte (take n (htonl pkgsLen) @ take (nat (sint pkgsLen)) pkgs)] \<and>
           peer (last (k_conns t)) = Some bytes \<and> m \<le> length bytes \<and> m \<le> 10 \<and>
           buf = take m bytes @ drop m (take 10 junk)"
  using sendFds_success [OF assms] by (auto simp: fork_wire_def)

theorem sendFds_wire_witness:
  "\<exists>t. sendFds (\<lambda>w. Some (''42'' @ [NUL])) (replicate 10 CHR ''x'') ''/host/fs.sock'' ''7'' ''/root'' (C_CString ''serve'') 6
         (ex_kern []) = (Ret (Heapbuf (''42'' @ NUL # ''xxxxxxx'')), t) \<and> k_fds t = [(0, OFile ''stdin'')]"
proof -
  let ?r = "sendFds (\<lambda>w. Some (''42'' @ [NUL])) (replicate 10 CHR ''x'') ''/host/fs.sock'' ''7'' ''/root'' (C_CString ''serve'') 6 (ex_kern [])"
  have "fst ?r = Ret (Heapbuf (''42'' @ NUL # ''xxxxxxx''))" by code_simp
  then show ?thesis
    using sendFds_wire [of "\<lambda>w. Some (''42'' @ [NUL])" "replicate 10 CHR ''x''" "''/host/fs.sock''" "''7''" "''/root''"
        "C_CString ''serve''" 6 "ex_kern []" "''42'' @ NUL # ''xxxxxxx''" "snd ?r"]
    by (cases ?r) (auto simp: ex_kern_def)
qed

subsection \<open>Requests that fail\<close>

lemma fork_attempts_failures:
  assumes "\<And>k u. k_script u = concat (replicate (Suc k) sc) \<Longrightarrow>
      \<exists>m t. call u = (Ret (Errmsg m), t) \<and> k_errno t = Some e \<and> k_script t = concat (replicate k sc) \<and> length (k_fds t) = length (k_fds u) + d"
    and "k_script s = concat (replicate n sc)"
  shows "\<exists>t. fork_attempts n call s = (Ret ([], None), t) \<and> length (k_fds t) = length (k_fds s) + n * d"
  using assms(2)
proof (induction n arbitrary: s)
  case (Suc n)
  then obtain m t where "call (s\<lparr>k_errno := None\<rparr>) = (Ret (Errmsg m), t)" "k_errno t = Some e"
    "k_script t = concat (replicate n sc)" "length (k_fds t) = length (k_fds s) + d"
    using assms(1) [of "s\<lparr>k_errno := None\<rparr>" n] by auto
  with Suc.IH [of t] show ?case by auto
qed simp

text \<open>
  A fork request that fails leaks descriptors.  When each of the five attempts fails at the same
  call (the four namespaces and the root directory are calls 0 to 4, then the socket, the connection, five
  messages with descriptors, the length and the string), \<open>forkRequest\<close> returns an empty process number
  and no error, and every file and socket the attempts had opened is still open: up to thirty of them.
\<close>

theorem failed_fork_request_leaks:
  assumes "j \<le> 13" "length sockPath < 108" "length (forkRequest_signal imps is_handler) < 2147483647"
    and "k_script s = concat (replicate 5 (replicate j Okay @ [Fail e]))"
  shows "\<exists>t. forkRequest_c peer junk sockPath targetPid rootDir imps is_handler s = (Ret ([], None), t) \<and>
             length (k_fds t) = length (k_fds s) + 5 * min j 6"
  unfolding forkRequest_c_def Let_def
proof (rule fork_attempts_failures [OF _ assms(4)])
  fix k and u :: kern
  let ?str = "forkRequest_signal imps is_handler"
  assume "k_script u = concat (replicate (Suc k) (replicate j Okay @ [Fail e]))"
  then have "k_script u = replicate j Okay @ Fail e # concat (replicate k (replicate j Okay @ [Fail e]))" by simp
  moreover have "pkgs_bytes (C_CString ?str) (word_of_nat (length ?str + 1)) \<noteq> []"
    using assms(3) sint_word_of_nat [of "length ?str + 1"] by (simp add: C_CString_def)
  ultimately show "\<exists>m t. sendFds peer junk sockPath targetPid rootDir (C_CString ?str) (word_of_nat (length ?str + 1)) u =
      (Ret (Errmsg m), t) \<and> k_errno t = Some e \<and> k_script t = concat (replicate k (replicate j Okay @ [Fail e])) \<and>
      length (k_fds t) = length (k_fds u) + min j 6"
    by (intro sendFds_failure) (use assms(1,2) in auto)
qed

theorem failed_fork_request_leaks_witness:
  "\<exists>t. forkRequest_c (\<lambda>_. None) [] ''/host/fs.sock'' ''7'' ''/root'' [] False
         (ex_kern (concat (replicate 5 (replicate 6 Okay @ [Fail ''ECONNREFUSED''])))) = (Ret ([], None), t) \<and>
       length (k_fds t) = 31"
  using failed_fork_request_leaks [of 6 "''/host/fs.sock''" "[]" False
      "ex_kern (concat (replicate 5 (replicate 6 Okay @ [Fail ''ECONNREFUSED''])))" "''ECONNREFUSED''" "\<lambda>_. None" "[]" "''7''" "''/root''"]
  by (auto simp: ex_kern_def forkRequest_signal_def)



text \<open>
  The path of a namespace is printed into a block that is one byte too short for its zero byte: every
  successful call leaves four blocks that were written past their end (and are not freed).
\<close>

lemma namespace_paths_overrun:
  assumes "open_ns pid ns_names s = (Inr fds, t)"
  shows "\<exists>blocks. k_blocks t = k_blocks s @ blocks \<and> length blocks = 4 \<and> (\<forall>(n, bytes) \<in> set blocks. length bytes = n + 1)"
  using open_ns_Inr [OF assms]
  by (auto simp: path_block_def ns_path_def C_CString_def)

subsection \<open>The cache manager's view\<close>

text \<open>
  \<open>CacheManager\<close> takes the results of the attempts as an argument; here they are those of the C code,
  until one of them ends the process or never returns.
\<close>

fun fork_answers :: "nat \<Rightarrow> (kern \<Rightarrow> cptr res \<times> kern) \<Rightarrow> kern \<Rightarrow> (string + string) list" where
  "fork_answers 0 call s = []"
| "fork_answers (Suc k) call s =
     (case call (s\<lparr>k_errno := None\<rparr>) of
        (Ret p, s1) \<Rightarrow>
          (case k_errno s1 of
             Some e \<Rightarrow> Inl e # fork_answers k call s1
           | None \<Rightarrow>
               (case p of
                  Errmsg m \<Rightarrow> []
                | Heapbuf mem \<Rightarrow> (case C_GoString mem of Ret pid \<Rightarrow> Inr pid # fork_answers k call s1 | _ \<Rightarrow> [])))
      | _ \<Rightarrow> [])"

lemma fork_attempts_answers:
  "fork_attempts n call s = (Ret r, t) \<Longrightarrow> r = forkRequest_loop (fork_answers n call s) \<and> length (fork_answers n call s) \<le> n"
proof (induction n arbitrary: s)
  case (Suc n)
  obtain o1 s1 where call: "call (s\<lparr>k_errno := None\<rparr>) = (o1, s1)" by fastforce
  show ?case
  proof (cases "k_errno s1")
    case (Some e)
    with Suc.prems call obtain p where "o1 = Ret p" "fork_attempts n call s1 = (Ret r, t)" by (cases o1) auto
    with Suc.IH [of s1] Some call show ?thesis by simp
  next
    case None
    with Suc.prems call obtain mem pid where m: "o1 = Ret (Heapbuf mem)" "C_GoString mem = Ret pid"
      by (auto split: res.splits cptr.splits)
    show ?thesis
    proof (cases "pid = []")
      case True
      with Suc.IH [of s1] Suc.prems None call m show ?thesis by simp
    next
      case False
      have "length (fork_answers n call u) \<le> n" for u
        by (induction n arbitrary: u) (auto split: prod.splits res.splits option.splits cptr.splits)
      with False Suc.prems None call m show ?thesis by simp
    qed
  qed
qed simp



end
