(* ===== verification/FdClient.thy ===== *)
theory FdClient
  imports ForkListener ForkClientProps
begin

text \<open>
  The command \<open>fdclient\<close> (\<open>lambda/nsmodule/fdclient.go\<close>), which sends namespaces to a fork server by
  hand.  Its C code ends the process on an error.  It sends a fixed number of bytes of its strings:
  \<open>beyond\<close> is the memory after the zero byte.
\<close>

definition fdclient_ns :: "string list" where
  "fdclient_ns = [''cgroup'', ''ipc'', ''uts'', ''net'', ''pid'', ''mnt'']"

definition fdclient_sendfd :: "int \<Rightarrow> int \<Rightarrow> kern \<Rightarrow> int res \<times> kern" where
  "fdclient_sendfd sk fd s =
     (case sys_sendmsg sk fd s of (n, s1) \<Rightarrow> if n \<noteq> 1 then (Exit ''sendmsg'', s1) else (Ret 0, s1))"

fun fdclient_open :: "string \<Rightarrow> string list \<Rightarrow> kern \<Rightarrow> int list res \<times> kern" where
  "fdclient_open pid [] s = (Ret [], s)"
| "fdclient_open pid (n # ns) s =
     (let path = ns_path pid n;
          s1 = c_malloc_store (10 + length pid + length n) (C_CString path) s
      in case sys_open path s1 of
           (fd, s2) \<Rightarrow>
             if fd = -1 then (Exit ''open'', s2)
             else (case fdclient_open pid ns s2 of
                     (Ret fds, s3) \<Rightarrow> (Ret (fd # fds), s3)
                   | (Panic m, s3) \<Rightarrow> (Panic m, s3) | (Exit m, s3) \<Rightarrow> (Exit m, s3) | (Block, s3) \<Rightarrow> (Block, s3)))"

fun fdclient_send_all :: "int \<Rightarrow> int list \<Rightarrow> kern \<Rightarrow> unit res \<times> kern" where
  "fdclient_send_all sk [] s = (Ret (), s)"
| "fdclient_send_all sk (fd # fds) s =
     (case fdclient_sendfd sk fd s of
        (Ret _, s1) \<Rightarrow> fdclient_send_all sk fds s1
      | (Panic m, s1) \<Rightarrow> (Panic m, s1) | (Exit m, s1) \<Rightarrow> (Exit m, s1) | (Block, s1) \<Rightarrow> (Block, s1))"

definition memory_at :: "string \<Rightarrow> (nat \<Rightarrow> char) \<Rightarrow> nat \<Rightarrow> string" where
  "memory_at str beyond n = take n (C_CString str @ map beyond [0..<n])"

text \<open>After the descriptors: the two buffers, the answer (only printed), and \<open>close\<close>, whose failure is too.\<close>

definition fdclient_strings :: "peer \<Rightarrow> (nat \<Rightarrow> char) \<Rightarrow> int \<Rightarrow> string \<Rightarrow> string \<Rightarrow> kern \<Rightarrow> int res \<times> kern" where
  "fdclient_strings peer beyond sk rootdir pkgs s =
     (case sys_send sk (memory_at rootdir beyond 500) s of (rc, s1) \<Rightarrow>
        if rc = -1 then (Exit ''Sending root directory failed.'', s1)
        else
      (case sys_send sk (memory_at pkgs beyond 5000) s1 of (rc, s2) \<Rightarrow>
        if rc = -1 then (Exit ''Sending package string failed.'', s2)
        else
      (case sys_recv peer sk 50 s2 of
         (Ret _, s3) \<Rightarrow> (Ret 0, snd (sys_close sk s3))
       | (Panic m, s3) \<Rightarrow> (Panic m, s3) | (Exit m, s3) \<Rightarrow> (Exit m, s3) | (Block, s3) \<Rightarrow> (Block, s3))))"

definition fdclient_sendFds ::
  "peer \<Rightarrow> (nat \<Rightarrow> char) \<Rightarrow> string \<Rightarrow> string \<Rightarrow> string \<Rightarrow> string \<Rightarrow> kern \<Rightarrow> int res \<times> kern" where
  "fdclient_sendFds peer beyond sockPath pid rootdir pkgs s =
     (case fdclient_open pid fdclient_ns s of
        (Ret nsfds, s1) \<Rightarrow>
          (case sys_socket s1 of (sk, s2) \<Rightarrow>
             if sk = -1 then (Exit ''socket'', s2)
             else if 108 \<le> length sockPath then (undefined_c ''sun_path overflow'', s2)
             else
           (case sys_connect s2 of (rc, s3) \<Rightarrow>
             if rc = -1 then (Exit ''connect'', s3)
             else
           (case fdclient_send_all sk nsfds s3 of
              (Ret _, s4) \<Rightarrow> fdclient_strings peer beyond sk rootdir pkgs s4
            | (Panic m, s4) \<Rightarrow> (Panic m, s4) | (Exit m, s4) \<Rightarrow> (Exit m, s4) | (Block, s4) \<Rightarrow> (Block, s4))))
      | (Panic m, s1) \<Rightarrow> (Panic m, s1) | (Exit m, s1) \<Rightarrow> (Exit m, s1) | (Block, s1) \<Rightarrow> (Block, s1))"

text \<open>With fewer than three arguments the usage is printed and the program goes on.\<close>

definition fdclient_main :: "peer \<Rightarrow> (nat \<Rightarrow> char) \<Rightarrow> string list \<Rightarrow> kern \<Rightarrow> unit res \<times> kern" where
  "fdclient_main peer beyond args s =
     (case (go_index args 1, go_index args 2, go_index args 3) of
        (Ret sockPath, Ret targetPid, Ret rootDir) \<Rightarrow>
          (case fdclient_sendFds peer beyond sockPath targetPid rootDir ''threading: subprocess: serve'' s of
             (Ret _, s1) \<Rightarrow> (Ret (), s1)
           | (Panic m, s1) \<Rightarrow> (Panic m, s1) | (Exit m, s1) \<Rightarrow> (Exit m, s1) | (Block, s1) \<Rightarrow> (Block, s1))
      | (Panic m, _, _) \<Rightarrow> (Panic m, s)
      | (_, Panic m, _) \<Rightarrow> (Panic m, s)
      | (_, _, Panic m) \<Rightarrow> (Panic m, s))"

subsection \<open>The protocol it speaks\<close>

lemma fdclient_needs_four_args: "length args < 4 \<Longrightarrow> \<exists>m. fst (fdclient_main peer beyond args s) = Panic m"
  by (auto simp: fdclient_main_def go_index_def)

lemma fdclient_open_eq:
  "fdclient_open pid ns s = (case open_ns pid ns s of (Inl e, t) \<Rightarrow> (Exit ''open'', t) | (Inr fds, t) \<Rightarrow> (Ret fds, t))"
  by (induction ns arbitrary: s) (auto simp: Let_def split: prod.splits sum.splits)

lemma fdclient_send_all_eq:
  "fdclient_send_all sk fds s = (case sendfd_all sk fds s of (None, t) \<Rightarrow> (Ret (), t) | (Some e, t) \<Rightarrow> (Exit ''sendmsg'', t))"
  by (induction fds arbitrary: s) (auto simp: fdclient_sendfd_def sendfd_def split: prod.splits option.splits)

lemma sys_recv_conns: "k_conns (snd (sys_recv peer fd n s)) = k_conns s"
  by (auto simp: sys_recv_def answer_pair Let_def split: sysans.splits option.splits ofile.splits)

lemma sys_close_conns: "k_conns (snd (sys_close fd s)) = k_conns s"
  by (auto simp: sys_close_def answer_pair split: sysans.splits)

lemma fdclient_strings_Ret:
  assumes sk: "socket_of s sk c" and run: "fdclient_strings peer beyond sk rootdir pkgs s = (Ret r, t)"
  shows "\<exists>bytes. k_conns t ! c = k_conns s ! c @ map PByte bytes \<and> length (k_conns t) = length (k_conns s)"
proof -
  have c: "c < length (k_conns s)" using sk by (simp add: socket_of_def)
  let ?n1 = "transfer (first_answer s) (length (memory_at rootdir beyond 500))"
  let ?s1 = "on_conn c (map PByte (take ?n1 (memory_at rootdir beyond 500))) (s\<lparr>k_script := tl (k_script s)\<rparr>)"
  have s1: "sys_send sk (memory_at rootdir beyond 500) s = (int ?n1, ?s1)"
    using run sk by (auto simp: fdclient_strings_def sys_send_def sys_put_cases Let_def take_map split: if_splits)
  have sk1: "socket_of ?s1 sk c" using sk by simp
  let ?n2 = "transfer (first_answer ?s1) (length (memory_at pkgs beyond 5000))"
  let ?s2 = "on_conn c (map PByte (take ?n2 (memory_at pkgs beyond 5000))) (?s1\<lparr>k_script := tl (k_script ?s1)\<rparr>)"
  have "\<not> failing (first_answer ?s1)"
    using run s1 sys_put_cases [OF sk1] by (auto simp: fdclient_strings_def sys_send_def [of sk "memory_at pkgs beyond 5000"] split: if_splits)
  then have s2: "sys_send sk (memory_at pkgs beyond 5000) ?s1 = (int ?n2, ?s2)"
    using sys_put_cases [OF sk1] by (simp add: sys_send_def Let_def take_map)
  from run s1 s2 obtain x s3 where s3: "sys_recv peer sk 50 ?s2 = (Ret x, s3)" "t = snd (sys_close sk s3)"
    by (auto simp: fdclient_strings_def split: prod.splits res.splits)
  have "k_conns s3 = k_conns ?s2"
    using sys_recv_conns [of peer sk 50 ?s2] s3(1) by simp
  moreover have "k_conns t = k_conns s3"
    using s3(2) by (simp add: sys_close_conns)
  ultimately show ?thesis
    using c by (auto simp: simp flip: map_append)
qed

lemma fdclient_wire:
  assumes run: "fdclient_sendFds peer beyond sockPath pid rootdir pkgs s = (Ret r, t)"
  shows "\<exists>bytes. last (k_conns t) = map (\<lambda>n. PFd (OFile (ns_path pid n))) fdclient_ns @ map PByte bytes"
proof -
  obtain nsfds s1 where open_ns: "open_ns pid fdclient_ns s = (Inr nsfds, s1)"
    using run by (auto simp: fdclient_sendFds_def fdclient_open_eq split: prod.splits sum.splits)
  note s1 = open_ns_Inr [OF open_ns]
  define sk where "sk = lowest_fd (k_fds s1)"
  define s2 where "s2 = s1\<lparr>k_fds := (sk, OSock (length (k_conns s1))) # k_fds s1, k_conns := k_conns s1 @ [[]], k_script := tl (k_script s1)\<rparr>"
  have sock: "sys_socket s1 = (sk, s2)"
    using run by (auto simp: fdclient_sendFds_def fdclient_open_eq open_ns sys_socket_cases sk_def s2_def split: if_splits)
  define s3 where "s3 = s2\<lparr>k_script := tl (k_script s2)\<rparr>"
  have conn: "sys_connect s2 = (0, s3)"
    using run by (auto simp: fdclient_sendFds_def fdclient_open_eq open_ns sock sys_connect_cases s3_def split: if_splits)
  let ?c = "length (k_conns s1)"
  have skc: "socket_of s3 sk ?c" "k_conns s3 ! ?c = []" "length (k_conns s3) = Suc ?c"
    by (simp_all add: s3_def s2_def socket_of_def)
  have keys: "fst ` set (k_fds s1) = set nsfds \<union> fst ` set (k_fds s)"
    using s1 by (simp add: image_Un image_set del: set_map)
  let ?fs = "map (\<lambda>n. OFile (ns_path pid n)) fdclient_ns"
  have "sk \<notin> set nsfds" using keys lowest_fd_fresh [of "k_fds s1"] by (auto simp: sk_def)
  moreover have "map_of (k_fds s1) (nsfds ! i) = Some (?fs ! i)" if "i < length nsfds" for i
  proof -
    have "map_of (rev (zip nsfds ?fs)) (nsfds ! i) = Some (?fs ! i)"
      using s1 that by (subst map_of_eq_Some_iff) (auto simp: in_set_zip rev_map [symmetric] map_fst_zip distinct_map)
    then show ?thesis using s1 by (simp add: map_add_Some_iff)
  qed
  ultimately have "list_all2 (\<lambda>fd f. map_of (k_fds s3) fd = Some f) nsfds ?fs"
    using s1 by (auto simp: list_all2_conv_all_nth s3_def s2_def in_set_conv_nth)
  note sent = sendfd_all_None [OF skc(1) this]
  obtain s4 where s4: "sendfd_all sk nsfds s3 = (None, s4)" and strs: "fdclient_strings peer beyond sk rootdir pkgs s4 = (Ret r, t)"
    using run by (auto simp: fdclient_sendFds_def fdclient_open_eq open_ns sock conn fdclient_send_all_eq split: prod.splits option.splits if_splits)
  have s4': "k_conns s4 ! ?c = map PFd ?fs" "length (k_conns s4) = Suc ?c" "socket_of s4 sk ?c"
    using sent [of s4] s4 skc by (simp_all add: socket_of_def)
  from fdclient_strings_Ret [OF s4'(3) strs] obtain bytes where
    "k_conns t ! ?c = map PFd ?fs @ map PByte bytes" "length (k_conns t) = Suc ?c" using s4' by auto
  then have "last (k_conns t) = map PFd ?fs @ map PByte bytes"
    by (metis diff_Suc_1 last_conv_nth list.size(3) nat.distinct(1))
  then show ?thesis by (auto simp: comp_def)
qed

text \<open>
  The fork server does not understand what this command sends: it expects five descriptors, gets six, and
  reads the byte of the sixth as the length of the package string.
\<close>

lemma fdclient_not_understood:
  assumes "fdclient_sendFds peer beyond sockPath pid rootdir pkgs s = (Ret r, t)"
  shows "\<exists>m. fst (fdlisten_conn eof (last (k_conns t)) g) = Panic m"
proof -
  obtain bytes where w: "last (k_conns t) = map (\<lambda>n. PFd (OFile (ns_path pid n))) fdclient_ns @ map PByte bytes"
    using fdclient_wire [OF assms] by blast
  have "ntohl [NUL, NUL, NUL, NUL] = 0" by simp
  then show ?thesis
    by (simp add: w fdclient_ns_def fdlisten_conn_def recv_pkgs_def eval_nat_numeral recv_all.simps C_GoString_def)
qed

end
