(* ===== verification/InstallerConc.thy ===== *)
theory InstallerConc
  imports PipInstaller
begin

text \<open>
  Calls of \<open>Install\<close> that run at the same time (\<open>worker/pip-manager/installManager.go\<close>), as a step
  relation over the installer and the state of each call.  The steps are those between which another call
  can run: the look-up under the map's mutex, the end of \<open>pip\<close>, the wait for a package's lock, and each
  deferred unlock.  A package's lock is written by the call that met it first, from then until it returns.
\<close>

datatype pc = Head | Running string | Waiting nat | Returning goerror | Ended goerror

record call =
  c_pc :: pc
  c_todo :: "string list"
  c_held :: "nat list"

record pstate =
  ps_inst :: installer
  ps_calls :: "call list"

definition set_call :: "nat \<Rightarrow> call \<Rightarrow> installer \<Rightarrow> pstate \<Rightarrow> pstate" where
  "set_call i c st s = \<lparr>ps_inst = st, ps_calls = (ps_calls s)[i := c]\<rparr>"

text \<open>What call \<open>i\<close> does next; \<open>None\<close> when it waits or has ended.\<close>

definition call_step :: "(string list \<Rightarrow> goerror) \<Rightarrow> installer \<Rightarrow> call \<Rightarrow> (call \<times> installer) option" where
  "call_step run st c =
     (case c_pc c of
        Head \<Rightarrow>
          (case c_todo c of
             [] \<Rightarrow> Some (c\<lparr>c_pc := Returning None\<rparr>, st)
           | pkg # todo \<Rightarrow>
               (case pkgStates st pkg of
                  None \<Rightarrow> Some (\<lparr>c_pc = Running pkg, c_todo = todo, c_held = length (i_locks st) # c_held c\<rparr>, lock_fresh pkg st)
                | Some l \<Rightarrow> Some (\<lparr>c_pc = Waiting l, c_todo = todo, c_held = c_held c\<rparr>, st)))
      | Running pkg \<Rightarrow>
          (case run (i_args st @ [pkg]) of
             Some e \<Rightarrow> Some (c\<lparr>c_pc := Returning (Some (install_error pkg e))\<rparr>, forget pkg st)
           | None \<Rightarrow> Some (c\<lparr>c_pc := Head\<rparr>, st))
      | Waiting l \<Rightarrow> (case rlock l st of (Ret _, st1) \<Rightarrow> Some (c\<lparr>c_pc := Head\<rparr>, st1) | _ \<Rightarrow> None)
      | Returning r \<Rightarrow>
          (case c_held c of
             [] \<Rightarrow> Some (c\<lparr>c_pc := Ended r\<rparr>, st)
           | l # held \<Rightarrow> Some (c\<lparr>c_held := held\<rparr>, unlock l st))
      | Ended r \<Rightarrow> None)"

inductive pip_step :: "(string list \<Rightarrow> goerror) \<Rightarrow> pstate \<Rightarrow> pstate \<Rightarrow> bool" for run where
  step: "i < length (ps_calls s) \<Longrightarrow> call_step run (ps_inst s) (ps_calls s ! i) = Some (c, st) \<Longrightarrow>
         pip_step run s (set_call i c st s)"

inductive_cases pip_stepE: "pip_step run s s'"

inductive pip_reach :: "(string list \<Rightarrow> goerror) \<Rightarrow> pstate \<Rightarrow> pstate \<Rightarrow> bool" for run s where
  here: "pip_reach run s s"
| there: "pip_reach run s u \<Longrightarrow> pip_step run u v \<Longrightarrow> pip_reach run s v"

definition new_call :: "string list \<Rightarrow> call" where
  "new_call pkgs = \<lparr>c_pc = Head, c_todo = pkgs, c_held = []\<rparr>"

definition start_calls :: "installer \<Rightarrow> string list list \<Rightarrow> pstate" where
  "start_calls st pkgss = \<lparr>ps_inst = st, ps_calls = map new_call pkgss\<rparr>"

fun ended :: "call \<Rightarrow> bool" where
  "ended c = (case c_pc c of Ended _ \<Rightarrow> True | _ \<Rightarrow> False)"

lemma pip_reach_trans: "pip_reach run u v \<Longrightarrow> pip_reach run s u \<Longrightarrow> pip_reach run s v"
  by (induction rule: pip_reach.induct) (auto intro: pip_reach.there)

subsection \<open>Every run ends\<close>

definition call_work :: "call \<Rightarrow> nat" where
  "call_work c =
     (case c_pc c of
        Head \<Rightarrow> 4 * length (c_todo c) + length (c_held c) + 2
      | Running _ \<Rightarrow> 4 * length (c_todo c) + length (c_held c) + 4
      | Waiting _ \<Rightarrow> 4 * length (c_todo c) + length (c_held c) + 3
      | Returning _ \<Rightarrow> length (c_held c) + 1
      | Ended _ \<Rightarrow> 0)"

definition work :: "pstate \<Rightarrow> nat" where
  "work s = sum_list (map call_work (ps_calls s))"

lemma sum_list_update_less:
  "i < length xs \<Longrightarrow> f x < f (xs ! i) \<Longrightarrow> sum_list (map f (xs[i := x])) < (sum_list (map f xs) :: nat)"
  by (induction xs arbitrary: i) (auto split: nat.splits)

lemma call_step_work: "call_step run st c = Some (c', st') \<Longrightarrow> call_work c' < call_work c"
  by (auto simp: call_step_def call_work_def split: pc.splits list.splits option.splits prod.splits res.splits)

lemma pip_step_work: "pip_step run s s' \<Longrightarrow> work s' < work s"
  by (auto simp: work_def set_call_def elim!: pip_stepE intro!: sum_list_update_less call_step_work)

subsection \<open>The invariant of calls in a common order\<close>

text \<open>
  \<open>f\<close> gives the package of each lock, \<open>rank\<close> the common order.  A call's locks belong to packages before
  all it still has to do and before the one it waits for.
\<close>

definition call_ok :: "(string \<Rightarrow> nat) \<Rightarrow> (nat \<Rightarrow> string) \<Rightarrow> nat \<Rightarrow> call \<Rightarrow> bool" where
  "call_ok rank f n c \<longleftrightarrow>
     (\<forall>h \<in> set (c_held c). h < n) \<and> distinct (c_held c) \<and> sorted_wrt (\<lambda>p q. rank p < rank q) (c_todo c) \<and>
     (\<forall>h \<in> set (c_held c). \<forall>p \<in> set (c_todo c). rank (f h) < rank p) \<and>
     (\<forall>l. c_pc c = Waiting l \<longrightarrow> l < n \<and> (\<forall>h \<in> set (c_held c). rank (f h) < rank (f l)) \<and> (\<forall>p \<in> set (c_todo c). rank (f l) < rank p)) \<and>
     (ended c \<longrightarrow> c_held c = [])"

definition pip_inv :: "(string \<Rightarrow> nat) \<Rightarrow> (nat \<Rightarrow> string) \<Rightarrow> pstate \<Rightarrow> bool" where
  "pip_inv rank f s \<longleftrightarrow>
     locks_ok (ps_inst s) \<and> (\<forall>p l. pkgStates (ps_inst s) p = Some l \<longrightarrow> f l = p) \<and>
     (\<forall>i < length (ps_calls s). call_ok rank f (length (i_locks (ps_inst s))) (ps_calls s ! i)) \<and>
     (\<forall>i < length (ps_calls s). \<forall>j < length (ps_calls s). i \<noteq> j \<longrightarrow>
        set (c_held (ps_calls s ! i)) \<inter> set (c_held (ps_calls s ! j)) = {}) \<and>
     busy (ps_inst s) = (\<Union>i < length (ps_calls s). set (c_held (ps_calls s ! i)))"

lemma call_ok_mono:
  assumes "call_ok rank f n c" "n \<le> n'" "\<And>l. l < n \<Longrightarrow> f' l = f l"
  shows "call_ok rank f' n' c"
  using assms unfolding call_ok_def by (auto intro: order_less_le_trans)

lemma busy_update:
  assumes "i < length cs" "\<And>j. j < length cs \<Longrightarrow> j \<noteq> i \<Longrightarrow> set (c_held (cs ! i)) \<inter> set (c_held (cs ! j)) = {}"
  shows "(\<Union>j < length cs. set (c_held (cs[i := c] ! j))) =
         (\<Union>j < length cs. set (c_held (cs ! j))) - set (c_held (cs ! i)) \<union> set (c_held c)"
proof (intro set_eqI iffI)
  fix x assume "x \<in> (\<Union>j < length cs. set (c_held (cs[i := c] ! j)))"
  then obtain j where "j < length cs" "x \<in> set (c_held (cs[i := c] ! j))" by blast
  with assms show "x \<in> (\<Union>j < length cs. set (c_held (cs ! j))) - set (c_held (cs ! i)) \<union> set (c_held c)"
    by (cases "j = i") auto
next
  fix x assume "x \<in> (\<Union>j < length cs. set (c_held (cs ! j))) - set (c_held (cs ! i)) \<union> set (c_held c)"
  with assms(1) show "x \<in> (\<Union>j < length cs. set (c_held (cs[i := c] ! j)))"
    by (auto simp: nth_list_update split: if_splits)
qed

lemma pip_inv_update:
  assumes inv: "pip_inv rank f s" and i: "i < length (ps_calls s)"
    and n: "length (i_locks (ps_inst s)) \<le> length (i_locks st)" "\<And>l. l < length (i_locks (ps_inst s)) \<Longrightarrow> f' l = f l"
    and st: "locks_ok st" "\<forall>p l. pkgStates st p = Some l \<longrightarrow> f' l = p" "call_ok rank f' (length (i_locks st)) c"
    and held: "set (c_held c) \<subseteq> set (c_held (ps_calls s ! i)) \<union> {l. length (i_locks (ps_inst s)) \<le> l}"
    and busy: "busy st = busy (ps_inst s) - set (c_held (ps_calls s ! i)) \<union> set (c_held c)"
  shows "pip_inv rank f' (set_call i c st s)"
proof -
  note I = inv [unfolded pip_inv_def]
  have other: "set (c_held c) \<inter> set (c_held (ps_calls s ! j)) = {}" if "j < length (ps_calls s)" "j \<noteq> i" for j
  proof -
    have "set (c_held (ps_calls s ! i)) \<inter> set (c_held (ps_calls s ! j)) = {}" using I that i by blast
    moreover have "\<forall>h \<in> set (c_held (ps_calls s ! j)). h < length (i_locks (ps_inst s))"
      using I that(1) unfolding call_ok_def by blast
    ultimately show ?thesis using held by fastforce
  qed
  have "call_ok rank f' (length (i_locks st)) (ps_calls s ! j)" if "j < length (ps_calls s)" for j
  proof (rule call_ok_mono [OF _ n])
    show "call_ok rank f (length (i_locks (ps_inst s))) (ps_calls s ! j)" using I that by blast
  qed
  then show ?thesis
    unfolding pip_inv_def set_call_def
    using st other busy I i busy_update [of i "ps_calls s" c]
    by (auto simp: nth_list_update) blast
qed

text \<open>What a single call may do to the installer for the invariant of all of them to survive.\<close>

definition call_inv :: "(string \<Rightarrow> nat) \<Rightarrow> (nat \<Rightarrow> string) \<Rightarrow> installer \<Rightarrow> call \<Rightarrow> bool" where
  "call_inv rank f st c \<longleftrightarrow>
     call_ok rank f (length (i_locks st)) c \<and> locks_ok st \<and> (\<forall>p l. pkgStates st p = Some l \<longrightarrow> f l = p) \<and> set (c_held c) \<subseteq> busy st"

definition call_frame :: "(nat \<Rightarrow> string) \<Rightarrow> installer \<Rightarrow> call \<Rightarrow> (nat \<Rightarrow> string) \<Rightarrow> installer \<Rightarrow> call \<Rightarrow> bool" where
  "call_frame f st c f' st' c' \<longleftrightarrow>
     length (i_locks st) \<le> length (i_locks st') \<and> (\<forall>l < length (i_locks st). f' l = f l) \<and>
     set (c_held c') \<subseteq> set (c_held c) \<union> {l. length (i_locks st) \<le> l} \<and>
     busy st' = busy st - set (c_held c) \<union> set (c_held c')"

lemma call_step_Head:
  assumes inv: "call_inv rank f st c" and pc: "c_pc c = Head" and step: "call_step run st c = Some (c', st')"
  shows "\<exists>f'. call_inv rank f' st' c' \<and> call_frame f st c f' st' c'"
proof (cases "c_todo c")
  case Nil
  with pc step have "c' = c\<lparr>c_pc := Returning None\<rparr>" "st' = st" by (simp_all add: call_step_def)
  with inv show ?thesis by (intro exI [of _ f]) (auto simp: call_inv_def call_frame_def call_ok_def)
next
  case (Cons pkg todo)
  let ?n = "length (i_locks st)"
  show ?thesis
  proof (cases "pkgStates st pkg")
    case None
    have c': "c' = \<lparr>c_pc = Running pkg, c_todo = todo, c_held = ?n # c_held c\<rparr>" and st': "st' = lock_fresh pkg st"
      using pc Cons None step by (simp_all add: call_step_def)
    have "call_ok rank (f(?n := pkg)) (Suc ?n) c'"
      using inv Cons by (auto simp: call_inv_def call_ok_def c' less_Suc_eq)
    moreover have "\<forall>p l. pkgStates st' p = Some l \<longrightarrow> (f(?n := pkg)) l = p"
    proof (intro allI impI)
      fix p l assume "pkgStates st' p = Some l"
      moreover have "pkgStates st p = Some l \<Longrightarrow> l \<noteq> ?n \<and> f l = p"
        using inv by (auto simp: call_inv_def locks_ok_def)
      ultimately show "(f(?n := pkg)) l = p" by (auto simp: st' split: if_splits)
    qed
    ultimately have "call_inv rank (f(?n := pkg)) st' c'"
      using inv by (auto simp: call_inv_def st' c' locks_ok_fresh)
    moreover have "call_frame f st c (f(?n := pkg)) st' c'"
      using inv by (auto simp: call_inv_def call_frame_def st' c')
    ultimately show ?thesis by blast
  next
    case (Some l)
    have c': "c' = \<lparr>c_pc = Waiting l, c_todo = todo, c_held = c_held c\<rparr>" and st': "st' = st"
      using pc Cons Some step by (simp_all add: call_step_def)
    have "f l = pkg" "l < ?n" using inv Some by (auto simp: call_inv_def locks_ok_def)
    then have "call_ok rank f ?n c'" using inv Cons by (auto simp: call_inv_def call_ok_def c')
    with inv show ?thesis by (intro exI [of _ f]) (auto simp: call_inv_def call_frame_def st' c')
  qed
qed

lemma call_step_Running:
  assumes inv: "call_inv rank f st c" and pc: "c_pc c = Running pkg" and step: "call_step run st c = Some (c', st')"
  shows "call_inv rank f st' c' \<and> call_frame f st c f st' c'"
proof (cases "run (i_args st @ [pkg])")
  case None
  with pc step have "c' = c\<lparr>c_pc := Head\<rparr>" "st' = st" by (simp_all add: call_step_def)
  with inv show ?thesis by (auto simp: call_inv_def call_frame_def call_ok_def)
next
  case (Some e)
  with pc step have "c' = c\<lparr>c_pc := Returning (Some (install_error pkg e))\<rparr>" "st' = forget pkg st"
    by (simp_all add: call_step_def)
  with inv show ?thesis by (auto simp: call_inv_def call_frame_def call_ok_def locks_ok_def)
qed

lemma call_step_Waiting:
  assumes inv: "call_inv rank f st c" and pc: "c_pc c = Waiting l" and step: "call_step run st c = Some (c', st')"
  shows "call_inv rank f st' c' \<and> call_frame f st c f st' c'"
proof -
  have free: "\<not> rw_writer (i_locks st ! l)"
    using pc step by (auto simp: call_step_def rlock_def)
  then have c': "c' = c\<lparr>c_pc := Head\<rparr>" and st': "rlock l st = (Ret (), st')"
    using pc step by (simp_all add: call_step_def rlock_def)
  have l: "l < length (i_locks st)" using inv pc by (simp add: call_inv_def call_ok_def)
  with free have "l \<notin> busy st" by (simp add: busy_def)
  from rlock_free [OF this l] st' have "pkgStates st' = pkgStates st" "busy st' = busy st" "length (i_locks st') = length (i_locks st)"
    by simp_all
  with inv show ?thesis by (auto simp: call_inv_def call_frame_def call_ok_def locks_ok_def c')
qed

lemma call_step_Returning:
  assumes inv: "call_inv rank f st c" and pc: "c_pc c = Returning r" and step: "call_step run st c = Some (c', st')"
  shows "call_inv rank f st' c' \<and> call_frame f st c f st' c'"
proof (cases "c_held c")
  case Nil
  with pc step have "c' = c\<lparr>c_pc := Ended r\<rparr>" "st' = st" by (simp_all add: call_step_def)
  with inv Nil show ?thesis by (auto simp: call_inv_def call_frame_def call_ok_def)
next
  case (Cons l held)
  with pc step have c': "c' = c\<lparr>c_held := held\<rparr>" and st': "st' = unlock l st" by (simp_all add: call_step_def)
  have ok: "call_ok rank f (length (i_locks st)) c'"
    using inv Cons pc by (simp add: call_inv_def call_ok_def c')
  have dist: "l \<notin> set held" "insert l (set held) \<subseteq> busy st" "locks_ok st'"
    using inv Cons by (simp_all add: call_inv_def call_ok_def locks_ok_def st')
  have "call_inv rank f st' c'"
    using inv ok dist by (auto simp: call_inv_def c' st')
  moreover have "call_frame f st c f st' c'"
    using dist Cons by (auto simp: call_frame_def c' st')
  ultimately show ?thesis by blast
qed

lemma call_step_inv:
  assumes "call_inv rank f st c" "call_step run st c = Some (c', st')"
  shows "\<exists>f'. call_inv rank f' st' c' \<and> call_frame f st c f' st' c'"
proof (cases "c_pc c")
  case Head
  with assms show ?thesis by (blast intro: call_step_Head)
next
  case (Ended r)
  with assms(2) show ?thesis by (simp add: call_step_def)
qed (use assms in \<open>blast dest: call_step_Running call_step_Waiting call_step_Returning\<close>)+

lemma pip_inv_call_inv:
  "pip_inv rank f s \<Longrightarrow> i < length (ps_calls s) \<Longrightarrow> call_inv rank f (ps_inst s) (ps_calls s ! i)"
  unfolding pip_inv_def call_inv_def by blast

lemma pip_step_inv:
  assumes "pip_inv rank f s" "pip_step run s s'"
  shows "\<exists>f'. pip_inv rank f' s'"
  using assms(2)
proof cases
  case (step i c st)
  from call_step_inv [OF pip_inv_call_inv [OF assms(1) step(2)] step(3)] obtain f'
    where f': "call_inv rank f' st c" "call_frame f (ps_inst s) (ps_calls s ! i) f' st c" by blast
  have "pip_inv rank f' (set_call i c st s)"
    using f' by (intro pip_inv_update [OF assms(1) step(2)]) (simp_all add: call_inv_def call_frame_def)
  with step(1) show ?thesis by blast
qed

lemma pip_reach_inv: "pip_reach run s s' \<Longrightarrow> \<exists>f. pip_inv rank f s \<Longrightarrow> \<exists>f. pip_inv rank f s'"
  by (induction rule: pip_reach.induct) (blast dest: pip_step_inv)+

lemma start_inv:
  assumes "locks_ok st" "busy st = {}" "\<forall>p q l. pkgStates st p = Some l \<longrightarrow> pkgStates st q = Some l \<longrightarrow> p = q"
    and "\<forall>pkgs \<in> set pkgss. sorted_wrt (\<lambda>p q. rank p < rank q) pkgs"
  shows "\<exists>f. pip_inv rank f (start_calls st pkgss)"
proof -
  define f where "f l = (THE p. pkgStates st p = Some l)" for l
  have "f l = p" if "pkgStates st p = Some l" for p l
    unfolding f_def using that assms(3) by blast
  then have "pip_inv rank f (start_calls st pkgss)"
    using assms(1,2,4) by (auto simp: pip_inv_def start_calls_def new_call_def call_ok_def)
  then show ?thesis by blast
qed

subsection \<open>Progress\<close>

text \<open>A call that cannot move has ended or waits for a lock that is being written.\<close>

lemma stuck_call:
  "call_step run st c = None \<Longrightarrow> ended c \<or> (\<exists>l. c_pc c = Waiting l \<and> rw_writer (i_locks st ! l))"
  by (auto simp: call_step_def rlock_def split: pc.splits list.splits option.splits if_splits)

lemma pip_progress:
  assumes inv: "pip_inv rank f s" and stuck: "\<nexists>s'. pip_step run s s'"
  shows "\<forall>c \<in> set (ps_calls s). ended c"
proof (rule ccontr)
  assume "\<not> (\<forall>c \<in> set (ps_calls s). ended c)"
  define W where "W = {l. \<exists>i < length (ps_calls s). c_pc (ps_calls s ! i) = Waiting l \<and> rw_writer (i_locks (ps_inst s) ! l)}"
  have none: "call_step run (ps_inst s) (ps_calls s ! i) = None" if "i < length (ps_calls s)" for i
    using stuck that by (metis not_None_eq pip_step.step surj_pair)
  have waits: "\<exists>l \<in> W. c_pc (ps_calls s ! i) = Waiting l" if "i < length (ps_calls s)" "\<not> ended (ps_calls s ! i)" for i
    using stuck_call [OF none [OF that(1)]] that by (auto simp: W_def)
  then have "W \<noteq> {}"
    using \<open>\<not> (\<forall>c \<in> set (ps_calls s). ended c)\<close> by (fastforce simp: in_set_conv_nth)
  moreover have "finite W"
    by (rule finite_subset [of _ "{..< length (i_locks (ps_inst s))}"])
       (use inv in \<open>auto simp: W_def pip_inv_def call_ok_def\<close>)
  ultimately obtain l where l: "l \<in> W" "\<And>k. k \<in> W \<Longrightarrow> rank (f k) \<le> rank (f l)"
    using Max_in [of "(\<lambda>l. rank (f l)) ` W"] Max_ge [of "(\<lambda>l. rank (f l)) ` W"] by fastforce
  then obtain i where i: "i < length (ps_calls s)" "c_pc (ps_calls s ! i) = Waiting l" "rw_writer (i_locks (ps_inst s) ! l)"
    by (auto simp: W_def)
  moreover have "l < length (i_locks (ps_inst s))"
    using inv i by (auto simp: pip_inv_def call_ok_def)
  ultimately have "l \<in> busy (ps_inst s)" by (simp add: busy_def)
  then obtain j where j: "j < length (ps_calls s)" "l \<in> set (c_held (ps_calls s ! j))"
    using inv by (auto simp: pip_inv_def)
  have ok: "call_ok rank f (length (i_locks (ps_inst s))) (ps_calls s ! j)"
    using inv j(1) by (simp add: pip_inv_def)
  with j(2) have "\<not> ended (ps_calls s ! j)" by (auto simp: call_ok_def)
  with waits [OF j(1)] obtain k where "k \<in> W" "c_pc (ps_calls s ! j) = Waiting k" by blast
  with ok j(2) have "rank (f l) < rank (f k)" by (auto simp: call_ok_def)
  with l(2) [OF \<open>k \<in> W\<close>] show False by simp
qed

lemma pip_runs_to_end:
  assumes "\<exists>f. pip_inv rank f s"
  shows "\<exists>s'. pip_reach run s s' \<and> (\<forall>c \<in> set (ps_calls s'). ended c) \<and> busy (ps_inst s') = {}"
  using assms
proof (induction "work s" arbitrary: s rule: less_induct)
  case less
  then obtain f where inv: "pip_inv rank f s" by blast
  show ?case
  proof (cases "\<exists>s'. pip_step run s s'")
    case True
    then obtain s1 where s1: "pip_step run s s1" by blast
    from less.hyps [OF pip_step_work [OF s1] pip_step_inv [OF inv s1]] obtain s'
      where s': "pip_reach run s1 s'" "\<forall>c \<in> set (ps_calls s'). ended c" "busy (ps_inst s') = {}" by blast
    moreover have "pip_reach run s s'"
      by (rule pip_reach_trans [OF s'(1)]) (rule pip_reach.there [OF pip_reach.here s1])
    ultimately show ?thesis by blast
  next
    case False
    from pip_progress [OF inv False] have ended: "\<forall>c \<in> set (ps_calls s). ended c" .
    then have "busy (ps_inst s) = {}"
      using inv by (auto simp: pip_inv_def call_ok_def)
    with ended show ?thesis by (blast intro: pip_reach.here)
  qed
qed

text \<open>
  C20.  Calls of \<open>Install\<close> that run at the same time and name their packages in one common order (each at
  most once) never block each other for good: in whatever state their steps have led to, the number of
  steps still possible is bounded by \<open>work\<close>, which each step lowers, and all of them return, with no lock
  held for writing; a state in which no step is possible is one where all have returned.
\<close>

theorem ordered_installs_return:
  fixes rank :: "string \<Rightarrow> nat"
  assumes "locks_ok st" "busy st = {}" "\<forall>p q l. pkgStates st p = Some l \<longrightarrow> pkgStates st q = Some l \<longrightarrow> p = q"
    and "\<forall>pkgs \<in> set pkgss. sorted_wrt (\<lambda>p q. rank p < rank q) pkgs"
    and "pip_reach run (start_calls st pkgss) s"
  shows "(\<forall>s'. pip_step run s s' \<longrightarrow> work s' < work s) \<and>
         ((\<nexists>s'. pip_step run s s') \<longrightarrow> (\<forall>c \<in> set (ps_calls s). ended c)) \<and>
         (\<exists>s'. pip_reach run s s' \<and> (\<forall>c \<in> set (ps_calls s'). ended c) \<and> busy (ps_inst s') = {})"
proof -
  obtain f where f: "pip_inv rank f s"
    using pip_reach_inv [OF assms(5)] start_inv [OF assms(1-4)] by blast
  then show ?thesis
    using pip_step_work pip_progress [OF f] pip_runs_to_end by blast
qed

lemma ex_installer_inj: "\<forall>p q l. pkgStates ex_installer p = Some l \<longrightarrow> pkgStates ex_installer q = Some l \<longrightarrow> p = q"
  by (simp add: ex_installer_def)

theorem ordered_installs_return_witness:
  "\<exists>s'. pip_reach (\<lambda>_. None) (start_calls ex_installer [[''a'', ''bb''], [''bb'', ''ccc'']]) s' \<and>
        (\<forall>c \<in> set (ps_calls s'). ended c) \<and> busy (ps_inst s') = {}"
  using ordered_installs_return [OF ex_installer_ok ex_installer_inj, of "[[''a'', ''bb''], [''bb'', ''ccc'']]" length "\<lambda>_. None"
      "start_calls ex_installer [[''a'', ''bb''], [''bb'', ''ccc'']]"]
  by (simp add: pip_reach.here)

lemma pip_reach_step:
  assumes "pip_reach run s0 s" "i < length (ps_calls s)" "call_step run (ps_inst s) (ps_calls s ! i) = Some (c, st)"
    "s' = set_call i c st s"
  shows "pip_reach run s0 s'"
  using assms pip_step.step pip_reach.there by metis

text \<open>
  Two calls that name the same two new packages in opposite orders can wait for each other without
  end: each holds the lock of the package it installed first, and keeps it until it returns.
\<close>

theorem opposite_installs_deadlock:
  assumes "p \<noteq> q" "pkgStates st p = None" "pkgStates st q = None" "run (i_args st @ [p]) = None" "run (i_args st @ [q]) = None"
  shows "\<exists>s. pip_reach run (start_calls st [[p, q], [q, p]]) s \<and> (\<nexists>s'. pip_step run s s') \<and>
             (\<forall>c \<in> set (ps_calls s). \<not> ended c)"
proof -
  let ?n = "length (i_locks st)"
  let ?st1 = "lock_fresh p st" let ?st2 = "lock_fresh q ?st1"
  let ?R = "\<lambda>s. pip_reach run (start_calls st [[p, q], [q, p]]) s"
  let ?c = "\<lambda>pc todo l. \<lparr>c_pc = pc, c_todo = todo, c_held = [l]\<rparr>"
  have "?R (start_calls st [[p, q], [q, p]])" by (rule pip_reach.here)
  then have "?R \<lparr>ps_inst = ?st1, ps_calls = [?c (Running p) [q] ?n, new_call [q, p]]\<rparr>"
    by (rule pip_reach_step [of _ _ _ 0]) (use assms in \<open>simp_all add: start_calls_def new_call_def call_step_def set_call_def\<close>)
  then have "?R \<lparr>ps_inst = ?st2, ps_calls = [?c (Running p) [q] ?n, ?c (Running q) [p] (Suc ?n)]\<rparr>"
    by (rule pip_reach_step [of _ _ _ 1]) (use assms in \<open>simp_all add: new_call_def call_step_def set_call_def\<close>)
  then have "?R \<lparr>ps_inst = ?st2, ps_calls = [?c Head [q] ?n, ?c (Running q) [p] (Suc ?n)]\<rparr>"
    by (rule pip_reach_step [of _ _ _ 0]) (use assms in \<open>simp_all add: call_step_def set_call_def\<close>)
  then have "?R \<lparr>ps_inst = ?st2, ps_calls = [?c Head [q] ?n, ?c Head [p] (Suc ?n)]\<rparr>"
    by (rule pip_reach_step [of _ _ _ 1]) (use assms in \<open>simp_all add: call_step_def set_call_def\<close>)
  then have wait: "?R \<lparr>ps_inst = ?st2, ps_calls = [?c (Waiting (Suc ?n)) [] ?n, ?c Head [p] (Suc ?n)]\<rparr>"
    by (rule pip_reach_step [of _ _ _ 0]) (use assms in \<open>simp_all add: call_step_def set_call_def\<close>)
  let ?s = "\<lparr>ps_inst = ?st2, ps_calls = [?c (Waiting (Suc ?n)) [] ?n, ?c (Waiting ?n) [] (Suc ?n)]\<rparr>"
  from wait have reach: "?R ?s"
    by (rule pip_reach_step [of _ _ _ 1]) (use assms in \<open>simp_all add: call_step_def set_call_def\<close>)
  have "rw_writer (i_locks ?st2 ! ?n)" "rw_writer (i_locks ?st2 ! Suc ?n)"
    by (simp_all add: lock_fresh_def nth_append)
  then have "call_step run ?st2 (ps_calls ?s ! i) = None" if "i < 2" for i
    using that by (auto simp: less_2_cases_iff call_step_def rlock_def)
  then have "\<nexists>s'. pip_step run ?s s'"
    by (auto elim!: pip_stepE)
  with reach show ?thesis by (intro exI [of _ ?s]) simp
qed

theorem opposite_installs_deadlock_witness:
  "\<exists>s. pip_reach (\<lambda>_. None) (start_calls ex_installer [[''numpy'', ''scipy''], [''scipy'', ''numpy'']]) s \<and>
       (\<nexists>s'. pip_step (\<lambda>_. None) s s') \<and> (\<forall>c \<in> set (ps_calls s). \<not> ended c)"
  by (rule opposite_installs_deadlock) (simp_all add: ex_installer_def)

subsection \<open>A call that runs alone\<close>

text \<open>The steps of a single call give what \<open>Install\<close> gives.\<close>

lemma release_all:
  "pip_reach run s0 \<lparr>ps_inst = st, ps_calls = [\<lparr>c_pc = Returning r, c_todo = todo, c_held = held\<rparr>]\<rparr> \<Longrightarrow>
   pip_reach run s0 \<lparr>ps_inst = fold unlock held st, ps_calls = [\<lparr>c_pc = Ended r, c_todo = todo, c_held = []\<rparr>]\<rparr>"
proof (induction held arbitrary: st)
  case Nil
  then show ?case by (rule pip_reach_step [of _ _ _ 0]) (simp_all add: call_step_def set_call_def)
next
  case (Cons l held)
  from Cons.prems have "pip_reach run s0 \<lparr>ps_inst = unlock l st, ps_calls = [\<lparr>c_pc = Returning r, c_todo = todo, c_held = held\<rparr>]\<rparr>"
    by (rule pip_reach_step [of _ _ _ 0]) (simp_all add: call_step_def set_call_def)
  from Cons.IH [OF this] show ?case by simp
qed

lemma install_loop_steps:
  assumes "install_loop run pkgs held st = (Ret r, held', st')"
    and "pip_reach run s0 \<lparr>ps_inst = st, ps_calls = [\<lparr>c_pc = Head, c_todo = pkgs, c_held = held\<rparr>]\<rparr>"
  shows "\<exists>todo. pip_reach run s0 \<lparr>ps_inst = st', ps_calls = [\<lparr>c_pc = Returning r, c_todo = todo, c_held = held'\<rparr>]\<rparr>"
  using assms
proof (induction run pkgs held st rule: install_loop.induct)
  case (1 run held st)
  then show ?case
    by (intro exI [of _ "[]"]) (rule pip_reach_step [of _ _ _ 0], auto simp: call_step_def set_call_def)
next
  case (2 run pkg pkgs held st)
  show ?case
  proof (cases "pkgStates st pkg")
    case None
    let ?l = "length (i_locks st)" and ?st1 = "lock_fresh pkg st"
    from "2.prems"(2) have at: "pip_reach run s0 \<lparr>ps_inst = ?st1, ps_calls = [\<lparr>c_pc = Running pkg, c_todo = pkgs, c_held = ?l # held\<rparr>]\<rparr>"
      by (rule pip_reach_step [of _ _ _ 0]) (use None in \<open>simp_all add: call_step_def set_call_def\<close>)
    show ?thesis
    proof (cases "run (i_args st @ [pkg])")
      case None
      from at have "pip_reach run s0 \<lparr>ps_inst = ?st1, ps_calls = [\<lparr>c_pc = Head, c_todo = pkgs, c_held = ?l # held\<rparr>]\<rparr>"
        by (rule pip_reach_step [of _ _ _ 0]) (use None in \<open>simp_all add: call_step_def set_call_def\<close>)
      with "2.IH"(1) [OF \<open>pkgStates st pkg = None\<close> refl refl None] "2.prems"(1) \<open>pkgStates st pkg = None\<close> None show ?thesis by (simp add: Let_def)
    next
      case (Some e)
      with "2.prems"(1) \<open>pkgStates st pkg = None\<close> have res: "r = Some (install_error pkg e)" "held' = ?l # held" "st' = forget pkg ?st1"
        by (simp_all add: Let_def)
      from at have "pip_reach run s0 \<lparr>ps_inst = st', ps_calls = [\<lparr>c_pc = Returning r, c_todo = pkgs, c_held = held'\<rparr>]\<rparr>"
        by (rule pip_reach_step [of _ _ _ 0]) (use Some in \<open>simp_all add: call_step_def set_call_def res\<close>)
      then show ?thesis by blast
    qed
  next
    case (Some l)
    with "2.prems"(1) obtain st1 where st1: "rlock l st = (Ret (), st1)" by (auto simp: rlock_def split: if_splits)
    from "2.prems"(2) have "pip_reach run s0 \<lparr>ps_inst = st, ps_calls = [\<lparr>c_pc = Waiting l, c_todo = pkgs, c_held = held\<rparr>]\<rparr>"
      by (rule pip_reach_step [of _ _ _ 0]) (use Some in \<open>simp_all add: call_step_def set_call_def\<close>)
    then have "pip_reach run s0 \<lparr>ps_inst = st1, ps_calls = [\<lparr>c_pc = Head, c_todo = pkgs, c_held = held\<rparr>]\<rparr>"
      by (rule pip_reach_step [of _ _ _ 0]) (use st1 in \<open>simp_all add: call_step_def set_call_def\<close>)
    with "2.IH"(2) [OF Some st1 [symmetric]] "2.prems"(1) Some st1 show ?thesis by simp
  qed
qed

lemma Install_steps:
  assumes "Install run pkgs st = (Ret r, st')"
  shows "\<exists>c. pip_reach run (start_calls st [pkgs]) \<lparr>ps_inst = st', ps_calls = [c]\<rparr> \<and> c_pc c = Ended r"
proof -
  obtain held st1 where loop: "install_loop run pkgs [] st = (Ret r, held, st1)" and st': "st' = fold unlock held st1"
    using assms by (auto simp: Install_def split: prod.splits res.splits)
  have "pip_reach run (start_calls st [pkgs]) \<lparr>ps_inst = st, ps_calls = [\<lparr>c_pc = Head, c_todo = pkgs, c_held = []\<rparr>]\<rparr>"
    using pip_reach.here by (simp add: start_calls_def new_call_def)
  from install_loop_steps [OF loop this] obtain todo
    where "pip_reach run (start_calls st [pkgs]) \<lparr>ps_inst = st1, ps_calls = [\<lparr>c_pc = Returning r, c_todo = todo, c_held = held\<rparr>]\<rparr>" by blast
  from release_all [OF this] show ?thesis unfolding st' by fastforce
qed

end
