(* ===== verification/ProxyConc.thy ===== *)
theory ProxyConc
  imports LoadBalancerProps
begin

text \<open>
  Requests that the load balancer serves at the same time (\<open>load_balancer/proxy.go\<close>: \<open>handler\<close> and
  \<open>attemptServers\<close>), as a step relation.  A step is what happens under one lock, or between two: the
  test and the count under the condition variable's lock, a sleep and the broadcast that ends it, the
  increment and the decrement of a server's connections.  The choice of a server reads shared variables
  without a lock, so it may give any server or none here; a request that panics is ended by the HTTP
  server where it is, without the rest of \<open>handler\<close>.
\<close>

datatype rstate =
    RNew
  | RAsleep
  | RTry "string list"
  | RChosen nat "string list"
  | RAt nat "string list"
  | RBack nat "string list option"
  | RLeave
  | RSignal
  | RDone
  | RDead "nat option"

record lbstate =
  lb_p :: proxy
  lb_rs :: "rstate list"

definition full :: "proxy \<Rightarrow> bool" where
  "full p = (p_MaxConn p \<noteq> - 1 \<and> p_MaxConn p \<le> p_Connections p)"

definition add_conn :: "int \<Rightarrow> proxy \<Rightarrow> proxy" where
  "add_conn d p = p\<lparr>p_Connections := p_Connections p + d\<rparr>"

definition add_server_conn :: "int \<Rightarrow> nat \<Rightarrow> proxy \<Rightarrow> proxy" where
  "add_server_conn d k p = upd_server k (\<lambda>s. s\<lparr>s_Connections := s_Connections s + d\<rparr>) p"

fun wake :: "rstate \<Rightarrow> rstate" where
  "wake RAsleep = RNew"
| "wake r = r"

abbreviation tries_left :: "proxy \<Rightarrow> string list \<Rightarrow> bool" where
  "tries_left p ign \<equiv> length ign < min 3 (length (p_Servers p))"

text \<open>The choice of a server and \<open>ReverseProxy\<close> change indices, the map of paths and loads, never a count.\<close>

definition same_counts :: "proxy \<Rightarrow> proxy \<Rightarrow> bool" where
  "same_counts p p' \<longleftrightarrow> p_Connections p' = p_Connections p \<and> p_MaxConn p' = p_MaxConn p \<and> conns p' = conns p"

text \<open>
  One request: its next state and the proxy it leaves.  \<open>answer\<close> is \<open>ReverseProxy\<close> up to its return,
  with a response or with an error other than a refused connection, which is \<open>refuse\<close>.
\<close>

inductive rstep :: "proxy \<Rightarrow> rstate \<Rightarrow> rstate \<Rightarrow> proxy \<Rightarrow> bool" where
  enter: "\<not> full p \<Longrightarrow> rstep p RNew (RTry []) (add_conn 1 p)"
| sleep: "full p \<Longrightarrow> rstep p RNew RAsleep p"
| give_up: "\<not> tries_left p ign \<Longrightarrow> rstep p (RTry ign) RLeave p"
| nobody: "tries_left p ign \<Longrightarrow> same_counts p p' \<Longrightarrow> rstep p (RTry ign) RLeave p'"
| choose: "tries_left p ign \<Longrightarrow> same_counts p p' \<Longrightarrow> k < length (p_Servers p) \<Longrightarrow> rstep p (RTry ign) (RChosen k ign) p'"
| choose_panics: "tries_left p ign \<Longrightarrow> same_counts p p' \<Longrightarrow> rstep p (RTry ign) (RDead None) p'"
| take_conn: "rstep p (RChosen k ign) (RAt k ign) (add_server_conn 1 k p)"
| answer: "same_counts p p' \<Longrightarrow> rstep p (RAt k ign) (RBack k None) p'"
| refuse: "same_counts p p' \<Longrightarrow> rstep p (RAt k ign) (RBack k (Some (ign @ [s_Name (p_Servers p ! k)]))) p'"
| proxy_panics: "rstep p (RAt k ign) (RDead (Some k)) p"
| drop_answered: "rstep p (RBack k None) RLeave (add_server_conn (- 1) k p)"
| drop_refused: "rstep p (RBack k (Some ign)) (RTry ign) (add_server_conn (- 1) k p)"
| leave: "rstep p RLeave RSignal (add_conn (- 1) p)"

inductive lbstep :: "lbstate \<Rightarrow> lbstate \<Rightarrow> bool" where
  request: "i < length (lb_rs s) \<Longrightarrow> rstep (lb_p s) (lb_rs s ! i) r p \<Longrightarrow>
            lbstep s \<lparr>lb_p = p, lb_rs = (lb_rs s)[i := r]\<rparr>"
| broadcast: "i < length (lb_rs s) \<Longrightarrow> lb_rs s ! i = RSignal \<Longrightarrow>
              lbstep s (s\<lparr>lb_rs := map wake ((lb_rs s)[i := RDone])\<rparr>)"
| arrive: "lbstep s (s\<lparr>lb_rs := lb_rs s @ [RNew]\<rparr>)"

inductive lbreach :: "lbstate \<Rightarrow> lbstate \<Rightarrow> bool" for s where
  here: "lbreach s s"
| there: "lbreach s u \<Longrightarrow> lbstep u v \<Longrightarrow> lbreach s v"

inductive_cases rstepE: "rstep p r r' p'"

subsection \<open>Counting requests\<close>

definition count :: "(rstate \<Rightarrow> bool) \<Rightarrow> rstate list \<Rightarrow> int" where
  "count P rs = sum_list (map (\<lambda>r. of_bool (P r)) rs)"

lemma count_update: "i < length rs \<Longrightarrow> count P (rs[i := r]) = count P rs - of_bool (P (rs ! i)) + of_bool (P r)"
  by (simp add: count_def map_update sum_list_list_update_int)

lemma count_append [simp]: "count P (rs @ rs') = count P rs + count P rs'" "count P [] = 0" "count P (r # rs) = of_bool (P r) + count P rs"
  by (simp_all add: count_def)

lemma count_map_wake: "(\<And>r. P (wake r) = P r) \<Longrightarrow> count P (map wake rs) = count P rs"
  by (simp add: count_def comp_def)

lemma count_nonneg: "0 \<le> count P rs"
  unfolding count_def by (rule sum_list_nonneg) auto

lemma count_mono: "(\<And>r. P r \<Longrightarrow> Q r) \<Longrightarrow> count P rs \<le> count Q rs"
  by (induction rs) (auto simp: count_def)

lemma count_pos: "0 < count P rs \<longleftrightarrow> (\<exists>r \<in> set rs. P r)"
  by (induction rs) (auto simp: add_pos_nonneg count_nonneg dest: order_le_less_trans [OF count_nonneg])

text \<open>A request inside \<open>handler\<close>, and one counted at a server.\<close>

fun inside :: "rstate \<Rightarrow> bool" where
  "inside RNew = False" | "inside RAsleep = False" | "inside RSignal = False" | "inside RDone = False" | "inside _ = True"

fun at_server :: "nat \<Rightarrow> rstate \<Rightarrow> bool" where
  "at_server k (RAt j _) = (j = k)"
| "at_server k (RBack j _) = (j = k)"
| "at_server k (RDead (Some j)) = (j = k)"
| "at_server k _ = False"

fun valid_server :: "nat \<Rightarrow> rstate \<Rightarrow> bool" where
  "valid_server n (RChosen k ign) = (k < n \<and> length ign < 3)"
| "valid_server n (RAt k ign) = (k < n \<and> length ign < 3)"
| "valid_server n (RBack k _) = (k < n)"
| "valid_server n _ = True"

lemma wake_pred [simp]: "inside (wake r) = inside r" "at_server k (wake r) = at_server k r" "valid_server n (wake r) = valid_server n r"
  by (cases r; simp)+

subsection \<open>The invariant\<close>

text \<open>
  The proxy's count is the number of requests inside, a server's count the number of requests at it; and a
  request sleeps only while there is no room, or a broadcast is still due.
\<close>

definition lb_inv :: "lbstate \<Rightarrow> bool" where
  "lb_inv s \<longleftrightarrow>
     p_Connections (lb_p s) = count inside (lb_rs s) \<and>
     (\<forall>k < length (p_Servers (lb_p s)). conns (lb_p s) ! k = count (at_server k) (lb_rs s)) \<and>
     (\<forall>r \<in> set (lb_rs s). valid_server (length (p_Servers (lb_p s))) r) \<and>
     (0 \<le> p_MaxConn (lb_p s) \<longrightarrow> p_Connections (lb_p s) \<le> p_MaxConn (lb_p s)) \<and>
     (RAsleep \<in> set (lb_rs s) \<longrightarrow> full (lb_p s) \<or> RSignal \<in> set (lb_rs s))"

lemma length_conns [simp]: "length (conns p) = length (p_Servers p)"
  by (simp add: conns_def)

lemma same_counts_facts:
  assumes "same_counts p p'"
  shows "length (p_Servers p') = length (p_Servers p)" "p_Connections p' = p_Connections p" "p_MaxConn p' = p_MaxConn p"
    "conns p' = conns p"
  using assms length_conns [of p] length_conns [of p'] unfolding same_counts_def by simp_all

lemma conn_simps [simp]:
  "conns (add_conn d p) = conns p" "p_Servers (add_conn d p) = p_Servers p" "p_MaxConn (add_conn d p) = p_MaxConn p"
  "p_Connections (add_conn d p) = p_Connections p + d"
  "p_Connections (add_server_conn d k p) = p_Connections p" "p_MaxConn (add_server_conn d k p) = p_MaxConn p"
  "length (p_Servers (add_server_conn d k p)) = length (p_Servers p)"
  by (simp_all add: add_conn_def add_server_conn_def conns_def)

lemma conns_add_server: "k < length (p_Servers p) \<Longrightarrow> j < length (p_Servers p) \<Longrightarrow>
    conns (add_server_conn d k p) ! j = conns p ! j + (if j = k then d else 0)"
  by (simp add: add_server_conn_def conns_def nth_list_update)

lemma wake_not_asleep: "wake r \<noteq> RAsleep"
  by (cases r) simp_all

text \<open>The counters move with the request.\<close>

lemma rstep_counts:
  assumes "rstep p r r' p'" "valid_server (length (p_Servers p)) r"
  shows "p_Connections p' = p_Connections p - of_bool (inside r) + of_bool (inside r')"
    and "k < length (p_Servers p) \<Longrightarrow> conns p' ! k = conns p ! k - of_bool (at_server k r) + of_bool (at_server k r')"
    and "length (p_Servers p') = length (p_Servers p)" and "p_MaxConn p' = p_MaxConn p"
    and "valid_server (length (p_Servers p')) r'"
  using assms by (induction rule: rstep.induct) (simp_all add: same_counts_facts conns_add_server)

lemma rstep_room:
  "rstep p r r' p' \<Longrightarrow> inside r' \<Longrightarrow> \<not> inside r \<Longrightarrow> \<not> full p"
  by (cases rule: rstep.cases) auto

lemma rstep_sleep:
  assumes "rstep p r r' p'"
  shows "r' = RAsleep \<Longrightarrow> full p \<and> p' = p" and "r \<noteq> RAsleep \<and> r \<noteq> RSignal"
    and "full p \<Longrightarrow> full p' \<or> r' = RSignal"
  using assms by (cases rule: rstep.cases; auto simp: full_def same_counts_def)+

lemma in_set_update_other:
  assumes "x \<in> set xs" "xs ! i \<noteq> x"
  shows "x \<in> set (xs[i := y])"
proof -
  obtain j where j: "j < length xs" "xs ! j = x" using assms(1) unfolding in_set_conv_nth by blast
  with assms(2) have "i \<noteq> j" by auto
  with j(2) have "xs[i := y] ! j = x" by simp
  with j(1) show ?thesis by (metis length_list_update nth_mem)
qed

lemma lbstep_inv:
  assumes step: "lbstep s s'" and inv: "lb_inv s"
  shows "lb_inv s'"
  using step
proof cases
  case (request i r p)
  let ?n = "length (p_Servers (lb_p s))"
  have valid: "valid_server ?n (lb_rs s ! i)" using inv request(2) by (simp add: lb_inv_def)
  note c = rstep_counts [OF request(3) valid]
  have conn: "p_Connections p = count inside ((lb_rs s)[i := r])"
    using inv c(1) request(2) by (simp add: lb_inv_def count_update)
  moreover have "conns p ! k = count (at_server k) ((lb_rs s)[i := r])" if "k < ?n" for k
    using inv c(2) [OF that] request(2) that by (simp add: lb_inv_def count_update)
  moreover have "\<forall>x \<in> set ((lb_rs s)[i := r]). valid_server ?n x"
    using inv c(3,5) set_update_subset_insert [of "lb_rs s" i r] by (fastforce simp: lb_inv_def)
  moreover have "p_Connections p \<le> p_MaxConn p" if max: "0 \<le> p_MaxConn p"
  proof (cases "inside r \<and> \<not> inside (lb_rs s ! i)")
    case True
    with rstep_room [OF request(3)] c(1,4) max show ?thesis by (auto simp: full_def)
  next
    case False
    with inv c(1,4) max show ?thesis by (auto simp: lb_inv_def)
  qed
  moreover have "full p \<or> RSignal \<in> set ((lb_rs s)[i := r])" if asleep: "RAsleep \<in> set ((lb_rs s)[i := r])"
  proof -
    note sl = rstep_sleep [OF request(3)]
    have keep: "RSignal \<in> set (lb_rs s) \<Longrightarrow> RSignal \<in> set ((lb_rs s)[i := r])"
      using sl(2) by (intro in_set_update_other) auto
    have "full (lb_p s) \<or> RSignal \<in> set (lb_rs s)"
      using asleep set_update_subset_insert [of "lb_rs s" i r] sl(1) inv by (auto simp: lb_inv_def)
    with keep sl(3) request(2) show ?thesis by (auto intro: set_update_memI)
  qed
  ultimately show ?thesis using request(1) c(3) by (simp add: lb_inv_def)
next
  case (broadcast i)
  have "count inside (map wake ((lb_rs s)[i := RDone])) = count inside (lb_rs s)"
    "\<And>k. count (at_server k) (map wake ((lb_rs s)[i := RDone])) = count (at_server k) (lb_rs s)"
    using broadcast by (simp_all add: count_map_wake count_update)
  moreover have "RAsleep \<notin> set (map wake ((lb_rs s)[i := RDone]))"
    using wake_not_asleep by (metis imageE list.set_map)
  moreover have "\<forall>x \<in> set (map wake ((lb_rs s)[i := RDone])). valid_server (length (p_Servers (lb_p s))) x"
    using inv set_update_subset_insert [of "lb_rs s" i RDone] by (fastforce simp: lb_inv_def)
  ultimately show ?thesis using inv broadcast(1) by (auto simp: lb_inv_def)
next
  case arrive
  with inv show ?thesis by (auto simp: lb_inv_def)
qed

lemma lbreach_inv: "lbreach s s' \<Longrightarrow> lb_inv s \<Longrightarrow> lb_inv s'"
  by (induction rule: lbreach.induct) (blast intro: lbstep_inv)+

subsection \<open>Progress\<close>

fun is_dead :: "rstate \<Rightarrow> bool" where
  "is_dead (RDead _) = True"
| "is_dead _ = False"

definition can_move :: "lbstate \<Rightarrow> nat \<Rightarrow> bool" where
  "can_move s i \<longleftrightarrow> (\<exists>r p. rstep (lb_p s) (lb_rs s ! i) r p) \<or> lb_rs s ! i = RSignal"

lemma same_counts_refl [simp]: "same_counts p p"
  by (simp add: same_counts_def)

lemma can_move_cases: "can_move s i \<or> lb_rs s ! i = RDone \<or> lb_rs s ! i = RAsleep \<or> is_dead (lb_rs s ! i)"
proof (cases "lb_rs s ! i")
  case RNew
  then show ?thesis unfolding can_move_def by (cases "full (lb_p s)") (metis rstep.enter rstep.sleep)+
next
  case (RTry ign)
  then show ?thesis unfolding can_move_def by (metis rstep.give_up rstep.nobody same_counts_refl)
next
  case (RBack k x)
  then show ?thesis unfolding can_move_def by (cases x) (metis rstep.drop_answered rstep.drop_refused)+
qed (auto simp: can_move_def intro: rstep.intros same_counts_refl)

text \<open>If nothing moves, the requests inside are those that crashed there.\<close>

lemma stuck_inside:
  assumes "\<forall>i < length (lb_rs s). \<not> can_move s i"
  shows "count inside (lb_rs s) = count is_dead (lb_rs s)"
proof -
  have "inside r = is_dead r" if "r \<in> set (lb_rs s)" for r
  proof -
    obtain i where "i < length (lb_rs s)" "r = lb_rs s ! i" using \<open>r \<in> set (lb_rs s)\<close> by (metis in_set_conv_nth)
    with assms can_move_cases [of s i] show ?thesis by (auto elim: is_dead.elims)
  qed
  then have "map (\<lambda>r. of_bool (inside r) :: int) (lb_rs s) = map (\<lambda>r. of_bool (is_dead r)) (lb_rs s)" by simp
  then show ?thesis unfolding count_def by (rule arg_cong)
qed

subsection \<open>Every run ends\<close>

text \<open>
  What a request may still do, \<open>n\<close> being the number of requests: a broadcast may cost one more turn to
  each of the others.
\<close>

fun rwork :: "nat \<Rightarrow> rstate \<Rightarrow> nat" where
  "rwork n RNew = n + 17"
| "rwork n RAsleep = n + 16"
| "rwork n (RTry ign) = n + 3 + 4 * (3 - length ign)"
| "rwork n (RChosen _ ign) = n + 2 + 4 * (3 - length ign)"
| "rwork n (RAt _ ign) = n + 1 + 4 * (3 - length ign)"
| "rwork n (RBack _ None) = n + 3"
| "rwork n (RBack _ (Some ign)) = n + 4 + 4 * (3 - length ign)"
| "rwork n RLeave = n + 2"
| "rwork n RSignal = n + 1"
| "rwork n RDone = 0"
| "rwork n (RDead _) = 0"

definition lb_work :: "lbstate \<Rightarrow> nat" where
  "lb_work s = sum_list (map (rwork (length (lb_rs s))) (lb_rs s))"

lemma rstep_work: "rstep p r r' p' \<Longrightarrow> valid_server m r \<Longrightarrow> rwork n r' < rwork n r"
  by (induction rule: rstep.induct) auto

lemma sum_list_update_nat: "i < length xs \<Longrightarrow> sum_list (xs[i := v]) + xs ! i = sum_list xs + (v :: nat)"
  by (induction xs arbitrary: i) (auto split: nat.splits)

lemma wake_work: "sum_list (map (rwork n) (map wake rs)) \<le> sum_list (map (rwork n) rs) + length rs"
proof (induction rs)
  case (Cons r rs)
  have "rwork n (wake r) \<le> rwork n r + 1" by (cases r) auto
  with Cons show ?case by simp
qed simp

lemma lbstep_work:
  assumes "lbstep s s'" "length (lb_rs s') = length (lb_rs s)" "lb_inv s"
  shows "lb_work s' < lb_work s"
  using assms(1)
proof cases
  case (request i r p)
  have "valid_server (length (p_Servers (lb_p s))) (lb_rs s ! i)" using assms(3) request(2) by (simp add: lb_inv_def)
  with rstep_work [OF request(3)] have "rwork (length (lb_rs s)) r < rwork (length (lb_rs s)) (lb_rs s ! i)" by blast
  with sum_list_update_nat [of i "map (rwork (length (lb_rs s))) (lb_rs s)" "rwork (length (lb_rs s)) r"] request(1,2) show ?thesis
    by (simp add: lb_work_def map_update)
next
  case (broadcast i)
  let ?n = "length (lb_rs s)"
  have "sum_list (map (rwork ?n) ((lb_rs s)[i := RDone])) + (?n + 1) = sum_list (map (rwork ?n) (lb_rs s))"
    using sum_list_update_nat [of i "map (rwork ?n) (lb_rs s)" 0] broadcast(2,3) by (simp add: map_update)
  with wake_work [of ?n "(lb_rs s)[i := RDone]"] broadcast(1) show ?thesis
    by (simp add: lb_work_def)
next
  case arrive
  with assms(2) show ?thesis by simp
qed

subsection \<open>Crashed requests\<close>

lemma wake_dead [simp]: "is_dead (wake r) = is_dead r"
  by (cases r) simp_all

lemma dead_le_inside: "count is_dead rs \<le> count inside rs"
  by (rule count_mono) (auto elim: is_dead.elims)

lemma rstep_dead: "rstep p r r' p' \<Longrightarrow> is_dead r = False"
  by (induction rule: rstep.induct) simp_all

lemma closed_full:
  assumes "lb_inv s" "0 \<le> p_MaxConn (lb_p s)" "p_MaxConn (lb_p s) \<le> count is_dead (lb_rs s)"
  shows "full (lb_p s)"
  using assms dead_le_inside [of "lb_rs s"] by (auto simp: lb_inv_def full_def)

lemma lbstep_closed:
  assumes step: "lbstep s s'" and inv: "lb_inv s" "0 \<le> p_MaxConn (lb_p s)" "p_MaxConn (lb_p s) \<le> count is_dead (lb_rs s)"
  shows "p_MaxConn (lb_p s') = p_MaxConn (lb_p s) \<and> count is_dead (lb_rs s) \<le> count is_dead (lb_rs s') \<and>
         length (lb_rs s) \<le> length (lb_rs s') \<and>
         (\<forall>i < length (lb_rs s'). (length (lb_rs s) \<le> i \<or> lb_rs s ! i \<in> {RNew, RAsleep}) \<longrightarrow> lb_rs s' ! i \<in> {RNew, RAsleep})"
  using step
proof cases
  case (request i r p)
  have "p_MaxConn p = p_MaxConn (lb_p s)"
    using rstep_counts(4) [OF request(3)] inv(1) request(2) by (simp add: lb_inv_def)
  moreover have "r \<in> {RNew, RAsleep}" if "lb_rs s ! i \<in> {RNew, RAsleep}"
    using request(3) that closed_full [OF inv] by (auto elim: rstepE)
  ultimately show ?thesis
    using request(1,2) rstep_dead [OF request(3)] by (auto simp: count_update nth_list_update)
next
  case (broadcast i)
  have "count is_dead (map wake ((lb_rs s)[i := RDone])) = count is_dead (lb_rs s)"
    using broadcast by (simp add: count_map_wake count_update)
  with broadcast show ?thesis by (auto simp: nth_list_update)
next
  case arrive
  then show ?thesis by (auto simp: nth_append)
qed

lemma lbreach_closed:
  assumes "lbreach s s'" "lb_inv s" "0 \<le> p_MaxConn (lb_p s)" "p_MaxConn (lb_p s) \<le> count is_dead (lb_rs s)"
  shows "lb_inv s' \<and> p_MaxConn (lb_p s') = p_MaxConn (lb_p s) \<and> p_MaxConn (lb_p s') \<le> count is_dead (lb_rs s') \<and>
         length (lb_rs s) \<le> length (lb_rs s') \<and>
         (\<forall>i < length (lb_rs s'). (length (lb_rs s) \<le> i \<or> lb_rs s ! i \<in> {RNew, RAsleep}) \<longrightarrow> lb_rs s' ! i \<in> {RNew, RAsleep})"
  using assms
proof (induction rule: lbreach.induct)
  case (there u v)
  then have u: "lb_inv u" "p_MaxConn (lb_p u) = p_MaxConn (lb_p s)" "p_MaxConn (lb_p u) \<le> count is_dead (lb_rs u)"
    "length (lb_rs s) \<le> length (lb_rs u)"
    "\<forall>i < length (lb_rs u). (length (lb_rs s) \<le> i \<or> lb_rs s ! i \<in> {RNew, RAsleep}) \<longrightarrow> lb_rs u ! i \<in> {RNew, RAsleep}" by blast+
  have c: "p_MaxConn (lb_p v) = p_MaxConn (lb_p u)" "count is_dead (lb_rs u) \<le> count is_dead (lb_rs v)"
    "length (lb_rs u) \<le> length (lb_rs v)"
    "\<And>i. i < length (lb_rs v) \<Longrightarrow> length (lb_rs u) \<le> i \<or> lb_rs u ! i \<in> {RNew, RAsleep} \<Longrightarrow> lb_rs v ! i \<in> {RNew, RAsleep}"
    using lbstep_closed [OF there(2) u(1) _ u(3)] there(5) u(2) by auto
  have "lb_rs v ! i \<in> {RNew, RAsleep}" if "i < length (lb_rs v)" "length (lb_rs s) \<le> i \<or> lb_rs s ! i \<in> {RNew, RAsleep}" for i
    using c(4) [OF that(1)] u(5) that(2) by (cases "i < length (lb_rs u)") auto
  with c u lbstep_inv [OF there(2) u(1)] show ?case by auto
qed auto

subsection \<open>Requests at the same time\<close>

definition idle :: "proxy \<Rightarrow> bool" where
  "idle p \<longleftrightarrow> p_Connections p = 0 \<and> (\<forall>k < length (p_Servers p). conns p ! k = 0)"

definition lb_start :: "proxy \<Rightarrow> lbstate" where
  "lb_start p = \<lparr>lb_p = p, lb_rs = []\<rparr>"

lemma lb_start_inv: "idle p \<Longrightarrow> lb_inv (lb_start p)"
  by (simp add: idle_def lb_start_def lb_inv_def)

text \<open>
  C5.  However requests interleave, and whichever servers are chosen, the load balancer's counts are
  right: \<open>Connections\<close> of the proxy is the number of requests inside \<open>handler\<close> (those that crashed
  there included), \<open>Connections\<close> of each server is the number of requests being served by it, and with
  a limit there are never more requests inside than \<open>MaxConn\<close>.
\<close>

theorem lb_counts_requests:
  assumes "idle p" "lbreach (lb_start p) s"
  shows "p_Connections (lb_p s) = count inside (lb_rs s) \<and>
         (\<forall>k < length (p_Servers (lb_p s)). s_Connections (p_Servers (lb_p s) ! k) = count (at_server k) (lb_rs s)) \<and>
         (0 \<le> p_MaxConn (lb_p s) \<longrightarrow> count inside (lb_rs s) \<le> p_MaxConn (lb_p s))"
  using lbreach_inv [OF assms(2) lb_start_inv [OF assms(1)]]
  by (auto simp: lb_inv_def conns_def)


definition ex_lb :: "int \<Rightarrow> proxy" where
  "ex_lb maxConn = \<lparr>p_Host = [], p_Port = 0, p_Scheme = [], p_Policy = ''RoundRobin'', p_LoadFormula = [],
     p_Servers = [\<lparr>s_Name = ''a'', s_Scheme = [], s_Host = [], s_Port = 0, s_MaxConn = -1, s_CPUUsage = Fin 0, s_MemUsage = Fin 0, s_Connections = 0\<rparr>],
     p_RequestServerMap = Map.empty, p_LoadHigh = Fin 0, p_LoadLow = Fin 0, p_Connections = 0, p_MaxConn = maxConn,
     p_RRServerIdx = 0, p_LeastLoadIdx = 0\<rparr>"

lemma ex_lb_reach:
  "lbreach (lb_start (ex_lb 1)) \<lparr>lb_p = add_server_conn 1 0 (add_conn 1 (ex_lb 1)), lb_rs = [RAt 0 [], RAsleep]\<rparr>"
proof -
  let ?p = "ex_lb 1" let ?p1 = "add_conn 1 ?p"
  let ?R = "lbreach (lb_start ?p)"
  have "?R \<lparr>lb_p = ?p, lb_rs = []\<rparr>" using lbreach.here by (simp add: lb_start_def)
  from lbreach.there [OF this lbstep.arrive] have "?R \<lparr>lb_p = ?p, lb_rs = [RNew]\<rparr>" by simp
  from lbreach.there [OF this lbstep.arrive] have "?R \<lparr>lb_p = ?p, lb_rs = [RNew, RNew]\<rparr>" by simp
  from lbreach.there [OF this lbstep.request [of 0 _ "RTry []" ?p1]] have "?R \<lparr>lb_p = ?p1, lb_rs = [RTry [], RNew]\<rparr>"
    using rstep.enter [of ?p] by (simp add: ex_lb_def full_def)
  from lbreach.there [OF this lbstep.request [of 1 _ RAsleep ?p1]] have "?R \<lparr>lb_p = ?p1, lb_rs = [RTry [], RAsleep]\<rparr>"
    using rstep.sleep [of ?p1] by (simp add: ex_lb_def full_def)
  from lbreach.there [OF this lbstep.request [of 0 _ "RChosen 0 []" ?p1]] have "?R \<lparr>lb_p = ?p1, lb_rs = [RChosen 0 [], RAsleep]\<rparr>"
    using rstep.choose [of "[]" ?p1 ?p1 0] by (simp add: ex_lb_def)
  from lbreach.there [OF this lbstep.request [of 0 _ "RAt 0 []"]] show ?thesis
    using rstep.take_conn [of ?p1 0 "[]"] by simp
qed

theorem lb_counts_requests_witness:
  "\<exists>s. lbreach (lb_start (ex_lb 1)) s \<and> RAsleep \<in> set (lb_rs s) \<and> p_Connections (lb_p s) = 1 \<and>
       s_Connections (p_Servers (lb_p s) ! 0) = count (at_server 0) (lb_rs s)"
proof -
  have "idle (ex_lb 1)" by (simp add: idle_def ex_lb_def conns_def)
  note r = lb_counts_requests [OF this ex_lb_reach]
  show ?thesis
    by (intro exI conjI, rule ex_lb_reach) (use r in \<open>simp_all add: ex_lb_def\<close>)
qed


text \<open>
  A request that panics inside \<open>handler\<close> keeps its slot: once \<open>MaxConn\<close> requests have done so,
  no request that is waiting or still to come is ever let in.
\<close>

theorem crashed_requests_close_proxy:
  assumes "lb_inv s" "0 \<le> p_MaxConn (lb_p s)" "p_MaxConn (lb_p s) \<le> count is_dead (lb_rs s)" "lbreach s s'"
  shows "\<forall>i < length (lb_rs s'). (length (lb_rs s) \<le> i \<or> lb_rs s ! i \<in> {RNew, RAsleep}) \<longrightarrow> lb_rs s' ! i \<in> {RNew, RAsleep}"
  using lbreach_closed [OF assms(4,1-3)] by blast

theorem crashed_requests_close_proxy_witness:
  "\<forall>s'. lbreach \<lparr>lb_p = add_conn 1 (ex_lb 1), lb_rs = [RDead None, RNew]\<rparr> s' \<longrightarrow> 1 < length (lb_rs s') \<longrightarrow> lb_rs s' ! 1 \<in> {RNew, RAsleep}"
proof (intro allI impI)
  fix s'
  let ?s = "\<lparr>lb_p = add_conn 1 (ex_lb 1), lb_rs = [RDead None, RNew]\<rparr>"
  assume "lbreach ?s s'" "1 < length (lb_rs s')"
  moreover have "lb_inv ?s" by (simp add: lb_inv_def ex_lb_def conns_def add_conn_def)
  ultimately show "lb_rs s' ! 1 \<in> {RNew, RAsleep}"
    using crashed_requests_close_proxy [of ?s s'] by (auto simp: ex_lb_def add_conn_def)
qed

subsection \<open>A request that is served alone\<close>

text \<open>The steps of a single request lead from where \<open>lb_handler\<close> starts to where it ends.\<close>

lemma lbreach_request:
  assumes "lbreach s \<lparr>lb_p = p, lb_rs = [r]\<rparr>" "rstep p r r' p'"
  shows "lbreach s \<lparr>lb_p = p', lb_rs = [r']\<rparr>"
  using lbreach.there [OF assms(1) lbstep.request [of 0 _ r' p']] assms(2) by simp

lemma choose_by_policy_frame:
  assumes "lb_ok p" "choose_by_policy ign path p = (Ret t, p1)"
  shows "p_Connections p1 = p_Connections p" "p_MaxConn p1 = p_MaxConn p"
  using assms lardChooseServer_Ret [of p ign path t p1]
  by (auto simp: choose_by_policy_def roundRobinChooseServer_def lard_take_def simp del: rr_loop.simps split: if_splits option.splits)

lemma choose_by_policy_steps:
  assumes ok: "lb_ok p" and pick: "choose_by_policy ign path p = (Ret (Some i), p1)" and left: "tries_left p ign"
    and at: "lbreach s \<lparr>lb_p = p, lb_rs = [RTry ign]\<rparr>"
  shows "lbreach s \<lparr>lb_p = p1, lb_rs = [RAt i ign]\<rparr>"
proof -
  note some = choose_by_policy_some [OF ok pick] and frame = choose_by_policy_frame [OF ok pick]
  let ?pc = "p1\<lparr>p_Servers := p_Servers p\<rparr>"
  have "same_counts p ?pc" using frame by (simp add: same_counts_def conns_def)
  from lbreach_request [OF at rstep.choose [OF left this]] some
  have "lbreach s \<lparr>lb_p = ?pc, lb_rs = [RChosen i ign]\<rparr>" by blast
  from lbreach_request [OF this rstep.take_conn] have "lbreach s \<lparr>lb_p = add_server_conn 1 i ?pc, lb_rs = [RAt i ign]\<rparr>" .
  moreover have "add_server_conn 1 i ?pc = p1"
    using some by (simp add: add_server_conn_def)
  ultimately show ?thesis by simp
qed

lemma same_servers_counts: "same_servers p p' \<Longrightarrow> same_counts p p'"
  unfolding same_servers_def same_counts_def by (metis proxy.select_convs proxy.surjective proxy.update_convs(6))

lemma attemptServers_steps:
  assumes "attempt_with choose_by_policy env ign (p, r) = (Ret (tried, w), (p', r'))" "lb_ok p"
    and "lbreach s \<lparr>lb_p = p, lb_rs = [RTry ign]\<rparr>"
  shows "lbreach s \<lparr>lb_p = p', lb_rs = [RLeave]\<rparr>"
  using assms
proof (induction "3 - length ign" arbitrary: ign p r tried w rule: less_induct)
  case less
  from less.prems(1) show ?case
  proof (cases rule: attempt_with_cases)
    case limit
    then have "\<not> tries_left p ign" by linarith
    from lbreach_request [OF less.prems(3) rstep.give_up [OF this]] limit show ?thesis by simp
  next
    case (nobody p1)
    have "same_counts p p1"
      using choose_by_policy_frame [OF less.prems(2) nobody(2)] choose_by_policy_none [OF less.prems(2) nobody(2)]
      by (simp add: same_counts_def conns_def)
    with lbreach_request [OF less.prems(3) rstep.nobody [OF nobody(1)]] nobody show ?thesis by auto
  next
    case (answered i p1 code err p2 r2)
    have "lbreach s \<lparr>lb_p = p1, lb_rs = [RAt i ign]\<rparr>"
      by (rule choose_by_policy_steps [OF less.prems(2) answered(2,1) less.prems(3)])
    from lbreach_request [OF this rstep.answer [OF same_servers_counts [OF ReverseProxy_servers(1) [OF answered(3)]]]]
    have "lbreach s \<lparr>lb_p = p2, lb_rs = [RBack i None]\<rparr>" .
    from lbreach_request [OF this rstep.drop_answered] answered show ?thesis
      by (simp add: add_server_conn_def)
  next
    case (again i p1 code err w1 p2 r2 tried' w')
    note ss = ReverseProxy_servers(1) [OF again(3)] and some = choose_by_policy_some [OF less.prems(2) again(2)]
    have "lbreach s \<lparr>lb_p = p1, lb_rs = [RAt i ign]\<rparr>"
      by (rule choose_by_policy_steps [OF less.prems(2) again(2,1) less.prems(3)])
    moreover have "s_Name (p_Servers p1 ! i) = s_Name (p_Servers p2 ! i)"
    proof -
      have "map s_Name (p_Servers p2) ! i = map s_Name (p_Servers p1) ! i" using ss by (simp add: same_servers_def)
      then show ?thesis using some same_servers_length [OF ss] by simp
    qed
    ultimately have "lbreach s \<lparr>lb_p = p2, lb_rs = [RBack i (Some (ign @ [s_Name (p_Servers p2 ! i)]))]\<rparr>"
      using lbreach_request [OF _ rstep.refuse [OF same_servers_counts [OF ss]]] by metis
    from lbreach_request [OF this rstep.drop_refused]
    have "lbreach s \<lparr>lb_p = dec_conn i p2, lb_rs = [RTry (ign @ [s_Name (p_Servers p2 ! i)])]\<rparr>"
      by (simp add: add_server_conn_def)
    moreover have "lb_ok (dec_conn i p2)"
      using policy.attempt_once(2) [OF less.prems(2) again(2,3) refl] .
    ultimately show ?thesis
      by (intro less.hyps [OF _ again(5)]) (use again(1) in \<open>simp_all, linarith?\<close>)
  qed
qed


definition ex_conc_env :: lb_env where
  "ex_conc_env = \<lparr>le_parse = (\<lambda>_. None), le_do = (\<lambda>_. Inl ''timeout'')\<rparr>"


end
