(* ===== verification/HandlerInstall.thy ===== *)
theory HandlerInstall
  imports HandlerExamples PipInstaller
begin

text \<open>
  Handlers over the real installer: \<open>RunStart\<close> calls \<open>Install\<close> with the packages of the lambda.
\<close>

definition with_installer :: "(string list \<Rightarrow> goerror) \<Rightarrow> installer \<Rightarrow> 'c run_env \<Rightarrow> 'c run_env" where
  "with_installer run st env = env\<lparr>e_install := \<lambda>pkgs. fst (Install run pkgs st)\<rparr>"

text \<open>A package that this call has met before is locked for writing, by the call itself.\<close>

lemma install_loop_waits_for_itself:
  assumes "locks_ok st" "\<forall>p \<in> set pkgs. run (i_args st @ [p]) = None"
    and "\<forall>p \<in> set pkgs. \<forall>l. pkgStates st p = Some l \<longrightarrow> l \<in> busy st"
    and "\<not> distinct pkgs \<or> (\<exists>p \<in> set pkgs. pkgStates st p \<noteq> None)"
  shows "fst (install_loop run pkgs held st) = Block"
  using assms
proof (induction pkgs arbitrary: st held)
  case (Cons pkg pkgs)
  show ?case
  proof (cases "pkgStates st pkg")
    case None
    let ?st1 = "lock_fresh pkg st"
    have busy: "\<forall>p \<in> set pkgs. \<forall>l. pkgStates ?st1 p = Some l \<longrightarrow> l \<in> busy ?st1"
      using Cons.prems(3) by auto
    have "\<not> distinct pkgs \<or> (\<exists>p \<in> set pkgs. pkgStates ?st1 p \<noteq> None)"
      using Cons.prems(4) None by auto
    with Cons.IH [OF locks_ok_fresh [OF Cons.prems(1)] _ busy] Cons.prems(2) None show ?thesis by (simp add: Let_def)
  next
    case (Some l)
    with Cons.prems(3) have "rw_writer (i_locks st ! l)" by (simp add: busy_def)
    with Some show ?thesis by (simp add: rlock_def)
  qed
qed simp

lemma Install_waits_for_itself:
  assumes "locks_ok st" "\<forall>p \<in> set pkgs. pkgStates st p = None \<and> run (i_args st @ [p]) = None" "\<not> distinct pkgs"
  shows "fst (Install run pkgs st) = Block"
proof -
  have "fst (install_loop run pkgs [] st) = Block"
    using assms by (intro install_loop_waits_for_itself) auto
  then show ?thesis
    unfolding Install_def by (cases "install_loop run pkgs [] st") simp
qed

text \<open>
  A lambda whose package list names a package twice, none of its packages being installed yet, hangs:
  its first request waits in \<open>Install\<close> for a lock that it holds itself, and since it also holds the
  handler's mutex, so does every later request that gets this handler.
\<close>

theorem repeated_package_blocks_handler:
  assumes "h < length (heap s)" "\<not> h_locked (heap s ! h)" "h_sandbox (heap s ! h) = None"
    and "hmMap s (h_name (heap s ! h)) = Some hm" "sbHardLimit s = 0" "\<not> distinct (hm_installs hm)"
    and "locks_ok st" "\<forall>p \<in> set (hm_installs hm). pkgStates st p = None \<and> run (i_args st @ [p]) = None"
  shows "\<exists>s'. RunStart ops (with_installer run st env) h s = (Block, s') \<and>
              (\<forall>env'. RunStart ops env' h s' = (Block, s'))"
proof -
  let ?s1 = "s\<lparr>numSbCreating := numSbCreating s + 1\<rparr>"
  have "create_sandbox ops (with_installer run st env) hm h s = (Block, ?s1)"
    using Install_waits_for_itself [OF assms(7,8,6)] by (simp add: create_sandbox_def with_installer_def)
  moreover have "await_memory (e_memUsage (with_installer run st env)) h s = (Ret (), s)"
    using assms(5) by (simp add: await_memory.simps)
  ultimately have "RunStart ops (with_installer run st env) h s = (Block, upd_handler h (\<lambda>x. x\<lparr>h_locked := True\<rparr>) ?s1)"
    using assms(2,3,4) by (simp add: RunStart_def)
  moreover have "RunStart ops env' h (upd_handler h (\<lambda>x. x\<lparr>h_locked := True\<rparr>) ?s1) =
      (Block, upd_handler h (\<lambda>x. x\<lparr>h_locked := True\<rparr>) ?s1)" for env'
    using assms(1) by (simp add: RunStart_def)
  ultimately show ?thesis by blast
qed

definition ex_repeated :: "sockContainer handlerManagerSet" where
  "ex_repeated = snd (Get (\<lambda>n. Inr (n, [], [''numpy'', ''numpy''])) ''f'' ex_new)"

theorem repeated_package_blocks_handler_witness:
  "\<exists>s'. RunStart ex_ops (with_installer (\<lambda>_. None) ex_installer ex_env) 0 ex_repeated = (Block, s') \<and>
        RunStart ex_ops ex_env 0 s' = (Block, s')"
proof -
  have s: "0 < length (heap ex_repeated)" "\<not> h_locked (heap ex_repeated ! 0)" "h_sandbox (heap ex_repeated ! 0) = None"
    "map_option hm_installs (hmMap ex_repeated (h_name (heap ex_repeated ! 0))) = Some [''numpy'', ''numpy'']" "sbHardLimit ex_repeated = 0"
    by code_simp+
  then obtain hm where hm: "hmMap ex_repeated (h_name (heap ex_repeated ! 0)) = Some hm" "hm_installs hm = [''numpy'', ''numpy'']" by auto
  show ?thesis
    using repeated_package_blocks_handler [OF s(1-3) hm(1) s(5) _ ex_installer_ok(1), of "\<lambda>_. None" ex_ops ex_env]
    by (auto simp: hm(2) ex_installer_def)
qed

end
