(* ===== verification/Launch.thy ===== *)
theory Launch
  imports Admin AdminProps LoadBalancerClaims WorkerServer WorkerConfig Registry PipInstaller DockerContainer CacheManager HandlerInstall
begin

text \<open>
  How the processes start: the worker (\<open>worker/main.go\<close>, \<open>worker/server/server.go\<close>: \<open>Main\<close>,
  \<open>NewServer\<close>; \<open>worker/handler/handler.go\<close>: \<open>NewHandlerManagerSet\<close>), the load balancer
  (\<open>load_balancer/run.go\<close>) and the commands of the admin tool that run them; which handler gets a
  request; the cached reading of the memory in use; the benchmark timers.

  A process that returns from these functions with \<open>Ret\<close> is serving; \<open>http.ListenAndServe\<close> itself
  comes back only with an error.
\<close>

subsection \<open>http.ServeMux\<close>

text \<open>A pattern that ends in a slash stands for all paths below it, any other for itself; the longest wins.\<close>

definition mux_matches :: "string \<Rightarrow> string \<Rightarrow> bool" where
  "mux_matches pattern path = (if strings_HasSuffix pattern ''/'' then strings_HasPrefix path pattern else path = pattern)"

fun mux :: "(string \<times> 'h) list \<Rightarrow> string \<Rightarrow> (string \<times> 'h) option" where
  "mux [] path = None"
| "mux ((pattern, h) # rs) path =
     (case mux rs path of
        None \<Rightarrow> if mux_matches pattern path then Some (pattern, h) else None
      | Some (pattern', h') \<Rightarrow>
          if mux_matches pattern path \<and> length pattern' < length pattern then Some (pattern, h) else Some (pattern', h'))"

subsection \<open>The load balancer\<close>

datatype lb_route = Forward | LbStatus

definition lb_routes :: "(string \<times> lb_route) list" where
  "lb_routes = [(''/'', Forward), (''/status'', LbStatus)]"

definition lb_Run :: "'f config_reader \<Rightarrow> (int \<Rightarrow> goerror) \<Rightarrow> string \<Rightarrow> proxy res" where
  "lb_Run cr bind config_file =
     (case ReadConfig cr config_file of
        (p, Some e) \<Rightarrow> Exit e
      | (p, None) \<Rightarrow>
          (case bind (p_Port p) of
             Some _ \<Rightarrow> Exit ''Make sure the port is available and not reserved''
           | None \<Rightarrow> Ret p))"

definition origin :: "proxy \<Rightarrow> string" where
  "origin p = p_Scheme p @ ''://'' @ p_Host p @ '':'' @ strconv_Itoa (p_Port p)"

text \<open>The second argument is whether the first \<open>Write\<close> failed.\<close>

definition statusHandler :: "bool \<Rightarrow> lb_reply list" where
  "statusHandler failed = WriteBody (''ready'' @ [CHR 0x0A]) # (if failed then [WriteCode StatusInternalServerError] else [])"

definition lb_serve :: "lb_env \<Rightarrow> bool \<Rightarrow> lb_request \<Rightarrow> proxy \<Rightarrow> (proxy, lb_reply list) outcome" where
  "lb_serve env failed r p =
     (case mux lb_routes (r_Path r) of
        None \<Rightarrow> (Ret [NotFound], p)
      | Some (_, LbStatus) \<Rightarrow> (Ret (statusHandler failed), p)
      | Some (_, Forward) \<Rightarrow>
          (case lb_handler env r p of
             (Ret (_, ws), p1) \<Rightarrow> (Ret ws, p1)
           | (Panic m, p1) \<Rightarrow> (Panic m, p1) | (Exit m, p1) \<Rightarrow> (Exit m, p1) | (Block, p1) \<Rightarrow> (Block, p1)))"

definition loadBalancerExec :: "'f config_reader \<Rightarrow> (int \<Rightarrow> goerror) \<Rightarrow> string \<Rightarrow> proxy option res" where
  "loadBalancerExec cr bind config =
     (if config = [] then Ret None
      else (case lb_Run cr bind config of Ret p \<Rightarrow> Ret (Some p) | Panic m \<Rightarrow> Panic m | Exit m \<Rightarrow> Exit m | Block \<Rightarrow> Block))"

subsection \<open>The worker\<close>

text \<open>What the start of a worker asks of its surroundings, in the order in which it does.\<close>

record 'c start_env =
  se_mkdirAll :: "string \<Rightarrow> goerror"
  se_minio :: goerror
  se_pip :: "string list \<Rightarrow> goerror"
  se_random :: "byte list \<times> goerror"
  se_sizes :: "string list option"
  se_root :: "string + ('c \<times> string \<times> string)"
  se_openPipe :: goerror
  se_rootReady :: bool
  se_timeo :: "string + int"
  se_evictor :: "goerror \<times> goerror \<times> goerror"

record 'c running =
  rn_regMgr :: "registryManager option"
  rn_pipMgr :: installer
  rn_sbFactory :: factory_spec
  rn_cacheMgr :: "('c cacheManager \<times> int) option"
  rn_worker :: "'c worker"

definition start_handlers :: "'c start_env \<Rightarrow> config \<Rightarrow> (string + 'c running) res" where
  "start_handlers env c =
     (case InitRegistryManager (se_mkdirAll env) (se_minio env) (Registry c) (Registry_dir c) of
        (_, Some e) \<Rightarrow> Ret (Inl e)
      | (rm, None) \<Rightarrow>
     (case InitInstallManager (se_pip env) (Pip_index c) (Pkgs_dir c) (Startup_pkgs c) of
        Ret (Inl e) \<Rightarrow> Ret (Inl e)
      | Panic m \<Rightarrow> Panic m | Exit m \<Rightarrow> Exit m | Block \<Rightarrow> Block
      | Ret (Inr pm) \<Rightarrow>
     (case InitHandlerContainerFactory (se_random env) (Sandbox c) (Cluster_name c) of
        Inl e \<Rightarrow> Ret (Inl e)
      | Inr sf \<Rightarrow>
     (case InitCacheManager (Import_cache_size c) (se_sizes env) (se_root env) (se_openPipe env) (se_rootReady env)
             (se_timeo env) (se_evictor env) of
        Ret (Inl e) \<Rightarrow> Ret (Inl e)
      | Panic m \<Rightarrow> Panic m | Exit m \<Rightarrow> Exit m | Block \<Rightarrow> Block
      | Ret (Inr cm) \<Rightarrow>
          Ret (Inr \<lparr>rn_regMgr = rm, rn_pipMgr = pm, rn_sbFactory = sf, rn_cacheMgr = cm,
                    rn_worker = new_worker (Worker_dir c) (Max_runners c) (Handler_cache_size c) (Sandbox_create_hard_limit c)\<rparr>)))))"

definition NewServer :: "'c start_env \<Rightarrow> config \<Rightarrow> (string + 'c running) res" where
  "NewServer env c = start_handlers env c"

datatype worker_route = RunRoute | StatusRoute | RidRoute | HistRoute

definition worker_routes :: "(string \<times> worker_route) list" where
  "worker_routes = [(''/runLambda/'', RunRoute), (''/status'', StatusRoute), (''/rid'', RidRoute), (''/history'', HistRoute)]"

text \<open>\<open>Main\<close>: the parsed configuration, the opening of the benchmark log and the binding of the port are arguments.\<close>

definition server_Main ::
  "'c start_env \<Rightarrow> (string \<Rightarrow> string + config) \<Rightarrow> (string \<Rightarrow> goerror) \<Rightarrow> (string \<Rightarrow> goerror) \<Rightarrow> string \<Rightarrow> 'c running res" where
  "server_Main env parse open_log bind config_path =
     (case parse config_path of
        Inl e \<Rightarrow> Exit e
      | Inr c \<Rightarrow>
          (case NewServer env c of
             Ret (Inl e) \<Rightarrow> Exit e
           | Panic m \<Rightarrow> Panic m | Exit m \<Rightarrow> Exit m | Block \<Rightarrow> Block
           | Ret (Inr r) \<Rightarrow>
               (case (if Benchmark_file c \<noteq> [] then open_log (Benchmark_file c) else None) of
                  Some e \<Rightarrow> Exit (''error opening benchmark log file: '' @ e)
                | None \<Rightarrow> (case bind (CHR '':'' # Worker_port c) of Some e \<Rightarrow> Exit e | None \<Rightarrow> Ret r))))"

definition worker_main :: "(string \<Rightarrow> 'r res) \<Rightarrow> string list \<Rightarrow> 'r res" where
  "worker_main main args =
     (if length args \<noteq> 2 then (case go_index args 0 of Ret a \<Rightarrow> Exit (''usage: '' @ a @ '' <json-config>'' @ [CHR 0x0A]) | _ \<Rightarrow> Panic ''index out of range'')
      else main (args ! 1))"

definition worker_exec :: "(string \<Rightarrow> 'r res) \<Rightarrow> string \<Rightarrow> 'r option res" where
  "worker_exec main config =
     (if config = [] then Ret None
      else (case main config of Ret r \<Rightarrow> Ret (Some r) | Panic m \<Rightarrow> Panic m | Exit m \<Rightarrow> Exit m | Block \<Rightarrow> Block))"

subsection \<open>The memory in use\<close>

text \<open>The reading is renewed when it is older than a second; times are in nanoseconds.\<close>

record memReading =
  memUsage :: int
  memLastUpdateTime :: int

definition getMemUsage :: "int \<Rightarrow> int \<times> int \<Rightarrow> memReading \<Rightarrow> int \<times> memReading" where
  "getMemUsage now v c =
     (let c1 = (if 1000000000 < now - memLastUpdateTime c then \<lparr>memUsage = fst v - snd v, memLastUpdateTime = now\<rparr> else c)
      in (memUsage c1, c1))"

subsection \<open>Benchmark timers\<close>

record timer =
  t_start :: int
  t_name :: string
  t_unit :: string

definition CreateTimer :: "string \<Rightarrow> string \<Rightarrow> timer" where
  "CreateTimer name unit = \<lparr>t_start = 0, t_name = name, t_unit = unit\<rparr>"

definition Timer_Start :: "int \<Rightarrow> timer \<Rightarrow> timer" where
  "Timer_Start now t = t\<lparr>t_start := now\<rparr>"

text \<open>Go's division truncates.\<close>

definition timer_diff :: "int \<Rightarrow> timer \<Rightarrow> int" where
  "timer_diff now t =
     (let diff = now - t_start t
      in if t_unit t = ''us'' then go_div diff 1000 else if t_unit t = ''ms'' then go_div diff 1000000 else diff)"

definition Timer_End :: "int \<Rightarrow> timer \<Rightarrow> string" where
  "Timer_End now t = t_name t @ '': '' @ strconv_Itoa (timer_diff now t) @ '' '' @ t_unit t @ [CHR 0x0A]"

definition Timer_Error :: "string \<Rightarrow> int \<Rightarrow> timer \<Rightarrow> string" where
  "Timer_Error message now t = ''ERROR:'' @ message @ '' '' @ strconv_Itoa (timer_diff now t) @ '' '' @ t_unit t @ [CHR 0x0A]"

subsection \<open>Requests find their handler\<close>

lemma HasPrefix_Cons_slash [simp]: "strings_HasPrefix (c # cs) ''/'' \<longleftrightarrow> c = slash"
  by (simp add: strings_HasPrefix_def)

lemma lb_routes_path:
  "path = slash # rest \<Longrightarrow> mux lb_routes path = Some (if path = ''/status'' then (''/status'', LbStatus) else (''/'', Forward))"
  by (simp add: lb_routes_def mux_matches_def strings_HasSuffix_def)

text \<open>A lambda's path is forwarded by the load balancer and run by the worker.\<close>

lemma lambda_path_routes:
  "mux lb_routes (''/runLambda/'' @ name) = Some (''/'', Forward) \<and>
   mux worker_routes (''/runLambda/'' @ name) = Some (''/runLambda/'', RunRoute)"
  by (simp add: lb_routes_def worker_routes_def mux_matches_def strings_HasSuffix_def strings_HasPrefix_def)

subsection \<open>A cluster's first load balancer\<close>

lemma no_servers_not_found:
  assumes "p_Servers p = []" "p_MaxConn p = - 1"
  shows "lb_handler env r p = (Ret ([], [NotFound]), p)"
proof -
  have "p\<lparr>p_Connections := p_Connections p\<rparr> = p" by simp
  with assms show ?thesis by (simp add: lb_handler_def attemptServers_def attempt_limit)
qed

text \<open>What the started process sees of the configuration.\<close>

definition lb_reader :: "'d admin_env \<Rightarrow> 'd admin \<Rightarrow> content config_reader" where
  "lb_reader env s = \<lparr>cr_read = ioutil_ReadFile (ae_ioerr env) (a_fs s), cr_yaml = decode_proxy env, cr_json = decode_proxy env\<rparr>"

definition default_proxy :: "int \<Rightarrow> proxy" where
  "default_proxy port = (SetDefaultValues zero_proxy)\<lparr>p_Port := (if port = 0 then 7079 else port)\<rparr>"

lemma default_proxy_fields:
  "p_Port (default_proxy port) = (if port = 0 then 7079 else port)" "p_Servers (default_proxy port) = []"
  "p_MaxConn (default_proxy port) = - 1"
  by (simp_all add: default_proxy_def SetDefaultValues_def zero_proxy_def)

text \<open>A saved default configuration, whatever its port, is read back and accepted.\<close>

lemma read_default_proxy:
  assumes "ae_ioerr env = (\<lambda>_. None)" "map_of (a_fs s) path = Some (File (ProxyJson ((SetDefaultValues zero_proxy)\<lparr>p_Port := port\<rparr>)))"
  shows "ReadConfig (lb_reader env s) path = (default_proxy port, None)"
proof -
  let ?p0 = "(SetDefaultValues zero_proxy)\<lparr>p_Port := port\<rparr>"
  have dec: "decode_proxy env (ProxyJson ?p0) = (?p0, None)"
    by (simp add: decode_proxy_def SetDefaultValues_def zero_proxy_def)
  have p: "SetDefaultValues ?p0 = default_proxy port"
    by (simp add: default_proxy_def SetDefaultValues_def zero_proxy_def)
  have "validateFields (default_proxy port) = None"
    by (auto simp: default_proxy_def SetDefaultValues_def zero_proxy_def validateFields_def generateValidationErrors_def validation_def removeEmpty_def)
  then show ?thesis
    using assms by (simp add: ReadConfig_def lb_reader_def ioutil_ReadFile_def dec p Let_def)
qed

text \<open>
  The first load balancer of a cluster.  On the configuration that \<open>new\<close> leaves, the command
  \<open>load-balancer\<close> saves the port, starts the process and files its pid; the process accepts the saved
  configuration and listens on the port that was given, or on 7079 if none was.  The command adds none of the
  cluster's workers, so that every request, but for \<open>/status\<close>, is answered with 404.
\<close>

theorem first_load_balancer_has_no_servers:
  assumes "cluster_at ws" "calm env"
    and "\<forall>d \<in> {''logs'', ''config''}. map_of (a_fs s) (abs_path (ws @ [d])) = Some Dir"
    and "map_of (a_fs s) (configPath (abs_path ws) ''load_balancer'') = Some (File (ProxyJson (SetDefaultValues zero_proxy)))"
    and "map_of (a_fs s) (logPath (abs_path ws) ''load_balancer.out'') = None" "map_of (a_fs s) (pidPath (abs_path ws) ''load_balancer'') = None"
    and "bind (if port = 0 then 7079 else port) = None"
  shows "\<exists>s' pid p. loadBalancer env (abs_path ws) port s = (Ret None, s') \<and>
     a_procs s' = a_procs s @ [(pid, [ae_arg0 env, ''load-balancer-exec'', ''-config='' @ configPath (abs_path ws) ''load_balancer''])] \<and>
     map_of (a_fs s') (pidPath (abs_path ws) ''load_balancer'') = Some (File (Text (strconv_Itoa pid))) \<and>
     loadBalancerExec (lb_reader env s') bind (configPath (abs_path ws) ''load_balancer'') = Ret (Some p) \<and>
     p_Port p = (if port = 0 then 7079 else port) \<and> p_Servers p = [] \<and>
     (\<forall>lenv failed r rest. r_Path r = slash # rest \<and> r_Path r \<noteq> ''/status'' \<longrightarrow> lb_serve lenv failed r p = (Ret [NotFound], p))"
proof -
  let ?conf = "abs_path (ws @ [''config'', ''load_balancer.json''])"
  let ?out = "abs_path (ws @ [''logs'', ''load_balancer.out''])"
  let ?pid = "abs_path (ws @ [''logs'', ''load_balancer.pid''])"
  let ?cmd = "[ae_arg0 env, ''load-balancer-exec'', ''-config='' @ ?conf]"
  have io: "ae_ioerr env = (\<lambda>_. None)" using assms(2) by (simp add: calm_def)
  have paths: "configPath (abs_path ws) ''load_balancer'' = ?conf" "logPath (abs_path ws) ''load_balancer.out'' = ?out"
    "pidPath (abs_path ws) ''load_balancer'' = ?pid"
    using assms(1) by (simp_all add: configPath_def logPath_def pidPath_def cluster_at_join)
  have dirs: "path_Dir ?conf = abs_path (ws @ [''config''])" "path_Dir ?out = abs_path (ws @ [''logs''])"
    "path_Dir ?pid = abs_path (ws @ [''logs''])"
    using assms(1) by (simp_all add: cluster_at_dir)
  have ne: "?conf \<noteq> ?out" "?conf \<noteq> ?pid" "?out \<noteq> ?pid" "abs_path (ws @ [''logs'']) \<noteq> ?conf" "abs_path (ws @ [''logs'']) \<noteq> ?out"
    using cluster_at_inj [OF assms(1)] by simp_all
  obtain pid where pid: "ae_start env ?cmd (length (a_procs s)) = Inr pid"
    using assms(2) unfolding calm_def by blast
  have "map_of (a_fs s) ?conf = Some (File (ProxyJson ((SetDefaultValues zero_proxy)\<lparr>p_Port := p_Port (SetDefaultValues zero_proxy)\<rparr>)))"
    using assms(4) paths by simp
  from read_default_proxy [OF io this]
  have "fst (read_proxy env s ?conf) = default_proxy (p_Port (SetDefaultValues zero_proxy))"
    by (simp add: read_proxy_def lb_reader_def)
  then have start: "(fst (read_proxy env s ?conf))\<lparr>p_Port := port\<rparr> = (SetDefaultValues zero_proxy)\<lparr>p_Port := port\<rparr>"
    by (simp add: default_proxy_def)
  define s' where "s' = s\<lparr>a_procs := a_procs s @ [(pid, ?cmd)],
      a_fs := AList.update ?pid (File (Text (strconv_Itoa pid))) (AList.update ?out (File (Text []))
        (AList.update ?conf (File (ProxyJson ((SetDefaultValues zero_proxy)\<lparr>p_Port := port\<rparr>))) (a_fs s)))\<rparr>"
  have run: "loadBalancer env (abs_path ws) port s = (Ret None, s')"
    using io paths dirs ne pid assms(3-6) start
    by (simp add: loadBalancer_def on_cluster_at [OF assms(1)] SaveConfig_def write_file_def ioutil_WriteFile_def and_then_def
        start_process_def s'_def Let_def AList.update_conv')
  have "ReadConfig (lb_reader env s') ?conf = (default_proxy port, None)"
    using ne by (intro read_default_proxy io) (simp add: s'_def AList.update_conv')
  moreover have "?conf \<noteq> []" using assms(1) by (cases ws) (simp_all add: cluster_at_def)
  ultimately have exec: "loadBalancerExec (lb_reader env s') bind ?conf = Ret (Some (default_proxy port))"
    using assms(7) by (simp add: loadBalancerExec_def lb_Run_def default_proxy_fields)
  have serve: "lb_serve lenv failed r (default_proxy port) = (Ret [NotFound], default_proxy port)"
    if "r_Path r = slash # rest" "r_Path r \<noteq> ''/status''" for lenv failed r rest
    using no_servers_not_found [OF default_proxy_fields(2,3)] lb_routes_path [OF that(1)] that(2) by (simp add: lb_serve_def)
  show ?thesis
    unfolding paths
    by (intro exI [of _ s'] exI [of _ pid] exI [of _ "default_proxy port"] conjI run exec)
       (use serve in \<open>auto simp: s'_def AList.update_conv' default_proxy_fields\<close>)
qed

definition ex_new_cluster :: "unit admin" where
  "ex_new_cluster = ex_empty\<lparr>a_fs :=
     [(''/c/logs'', Dir), (''/c/config'', Dir), (''/c/config/load_balancer.json'', File (ProxyJson (SetDefaultValues zero_proxy)))]\<rparr>"

theorem first_load_balancer_has_no_servers_witness:
  "\<exists>s' p. loadBalancer ex_admin_env ''/c'' 0 ex_new_cluster = (Ret None, s') \<and>
     loadBalancerExec (lb_reader ex_admin_env s') (\<lambda>_. None) ''/c/config/load_balancer.json'' = Ret (Some p) \<and> p_Port p = 7079 \<and>
     lb_serve \<lparr>le_parse = (\<lambda>_. None), le_do = (\<lambda>_. Inl ''unreachable'')\<rparr> False
       \<lparr>r_RequestURI = ''/runLambda/f'', r_Path = ''/runLambda/f''\<rparr> p = (Ret [NotFound], p)"
proof -
  let ?s = ex_new_cluster
  have paths: "configPath (abs_path [''c'']) ''load_balancer'' = ''/c/config/load_balancer.json''"
    "logPath (abs_path [''c'']) ''load_balancer.out'' = ''/c/logs/load_balancer.out''"
    "pidPath (abs_path [''c'']) ''load_balancer'' = ''/c/logs/load_balancer.pid''"
    by code_simp+
  have fs: "\<forall>d \<in> {''logs'', ''config''}. map_of (a_fs ?s) (abs_path ([''c''] @ [d])) = Some Dir"
    "map_of (a_fs ?s) (configPath (abs_path [''c'']) ''load_balancer'') = Some (File (ProxyJson (SetDefaultValues zero_proxy)))"
    "map_of (a_fs ?s) (logPath (abs_path [''c'']) ''load_balancer.out'') = None"
    "map_of (a_fs ?s) (pidPath (abs_path [''c'']) ''load_balancer'') = None"
    unfolding paths by (simp_all add: ex_new_cluster_def)
  show ?thesis
    using first_load_balancer_has_no_servers [OF ex_calm(2,1) fs, of "\<lambda>_. None" 0] unfolding paths by fastforce
qed

subsection \<open>The start of a worker\<close>

lemma InitInstallManager_start:
  assumes "\<forall>args. run args = None"
  shows "distinct startup \<Longrightarrow> \<exists>pm. InitInstallManager run pip_index dir startup = Ret (Inr pm) \<and> locks_ok pm \<and> busy pm = {} \<and>
           dom (pkgStates pm) = set startup"
    and "\<not> distinct startup \<Longrightarrow> InitInstallManager run pip_index dir startup = Block"
proof -
  define st where "st = \<lparr>i_args = [''install'', ''--no-deps''] @ (if pip_index \<noteq> [] then [''-i'', pip_index] else []) @ [''-t'', dir],
      pkgStates = Map.empty, i_locks = []\<rparr>"
  have st: "locks_ok st" "busy st = {}" "dom (pkgStates st) = {}" by (simp_all add: st_def locks_ok_def busy_def)
  have init: "InitInstallManager run pip_index dir startup =
     (case Install run startup st of (Ret (Some e), st) \<Rightarrow> Ret (Inl e) | (Ret None, st) \<Rightarrow> Ret (Inr st)
        | (Panic m, st) \<Rightarrow> Panic m | (Exit m, st) \<Rightarrow> Exit m | (Block, st) \<Rightarrow> Block)"
    by (simp only: InitInstallManager_def Let_def st_def)
  {
    assume "distinct startup"
    from install_loop_effect [OF st(1) this, of "[]" run] st(2)
    obtain r held st1 where loop: "install_loop run startup [] st = (Ret r, held, st1)" and ok: "locks_ok st1"
      and b: "busy st1 \<subseteq> set held" and to: "installs_to run st startup r st1" by auto
    have "r = None" using to assms by (auto simp: installs_to_def split: option.splits)
    with to st(3) have "dom (pkgStates st1) = set startup" by (auto simp: installs_to_def)
    moreover have "Install run startup st = (Ret None, fold unlock held st1)" using loop \<open>r = None\<close> by (simp add: Install_def)
    ultimately show "\<exists>pm. InitInstallManager run pip_index dir startup = Ret (Inr pm) \<and> locks_ok pm \<and> busy pm = {} \<and>
           dom (pkgStates pm) = set startup"
      using ok b by (simp add: init locks_ok_def)
  }
  {
    assume "\<not> distinct startup"
    then have "fst (Install run startup st) = Block"
      using st(1,3) assms by (intro Install_waits_for_itself) auto
    then show "InitInstallManager run pip_index dir startup = Block" by (cases "Install run startup st") (simp add: init)
  }
qed

text \<open>
  C32.  The start of a worker without import cache, where \<open>pip\<close> works.  If the startup packages are distinct it
  comes up: all of them are recorded as installed, no package lock is held, and there are no handlers yet.  If one is named twice it hangs before it listens, waiting for a lock that
  it holds itself.  A registry directory that cannot be made does not stop it; the first \<open>Pull\<close>
  then dereferences a nil pointer.
\<close>

theorem worker_start:
  assumes "parse path = Inr c" "Registry c = ''local''" "Import_cache_size c = 0" "Benchmark_file c = []"
    and "InitHandlerContainerFactory (se_random env) (Sandbox c) (Cluster_name c) = Inr sf"
    and "\<forall>args. se_pip env args = None" "bind (CHR '':'' # Worker_port c) = None"
  shows "if distinct (Startup_pkgs c)
     then \<exists>r. server_Main env parse open_log bind path = Ret r \<and>
            dom (pkgStates (rn_pipMgr r)) = set (Startup_pkgs c) \<and> locks_ok (rn_pipMgr r) \<and> busy (rn_pipMgr r) = {} \<and>
            rn_worker r = new_worker (Worker_dir c) (Max_runners c) (Handler_cache_size c) (Sandbox_create_hard_limit c) \<and>
            rn_cacheMgr r = None \<and>
            (\<exists>rm. rn_regMgr r = Some rm \<and>
               (\<forall>fs os name. registry_Pull fs os rm name =
                  (if se_mkdirAll env (Registry_dir c) = None then Ret (local_Pull fs (Registry_dir c) name) else nil_deref)))
     else server_Main env parse open_log bind path = Block"
proof -
  obtain rm where rm: "InitRegistryManager (se_mkdirAll env) (se_minio env) (Registry c) (Registry_dir c) = (Some rm, None)"
    "\<forall>fs os name. registry_Pull fs os rm name =
       (if se_mkdirAll env (Registry_dir c) = None then Ret (local_Pull fs (Registry_dir c) name) else nil_deref)"
    using assms(2) by (cases "se_mkdirAll env (Registry_dir c)") (simp_all add: InitRegistryManager_def NewLocalManager_def)
  show ?thesis
  proof (cases "distinct (Startup_pkgs c)")
    case True
    with InitInstallManager_start(1) [OF assms(6)]
    obtain pm where "InitInstallManager (se_pip env) (Pip_index c) (Pkgs_dir c) (Startup_pkgs c) = Ret (Inr pm)"
      and "locks_ok pm" "busy pm = {}" "dom (pkgStates pm) = set (Startup_pkgs c)" by blast
    with True rm assms(1,3-5,7) show ?thesis
      by (simp add: server_Main_def NewServer_def start_handlers_def InitCacheManager_def)
  next
    case False
    with InitInstallManager_start(2) [OF assms(6)] rm(1) assms(1) show ?thesis
      by (simp add: server_Main_def NewServer_def start_handlers_def)
  qed
qed

definition ex_start :: "unit start_env" where
  "ex_start = \<lparr>se_mkdirAll = (\<lambda>_. None), se_minio = None, se_pip = (\<lambda>_. None), se_random = ([], None), se_sizes = None,
     se_root = Inl ''unused'', se_openPipe = None, se_rootReady = True, se_timeo = Inr 0, se_evictor = (None, None, None)\<rparr>"

definition ex_worker_config :: "string list \<Rightarrow> config" where
  "ex_worker_config pkgs = zero_config\<lparr>Worker_port := ''8080'', Registry := ''local'', Registry_dir := ''/c/registry'', Sandbox := ''docker'',
     Startup_pkgs := pkgs\<rparr>"

theorem worker_start_witness:
  "(\<exists>r. server_Main ex_start (\<lambda>_. Inr (ex_worker_config [''a'', ''b''])) (\<lambda>_. None) (\<lambda>_. None) ''/c/worker.json'' = Ret r \<and>
        dom (pkgStates (rn_pipMgr r)) = {''a'', ''b''}) \<and>
   server_Main ex_start (\<lambda>_. Inr (ex_worker_config [''a'', ''a''])) (\<lambda>_. None) (\<lambda>_. None) ''/c/worker.json'' = Block"
proof -
  have c: "Registry (ex_worker_config pkgs) = ''local''" "Import_cache_size (ex_worker_config pkgs) = 0"
    "Benchmark_file (ex_worker_config pkgs) = []" "Startup_pkgs (ex_worker_config pkgs) = pkgs"
    "InitHandlerContainerFactory (se_random ex_start) (Sandbox (ex_worker_config pkgs)) (Cluster_name (ex_worker_config pkgs)) =
       Inr (DockerSpec [] [] (cluster_labels (Cluster_name (ex_worker_config pkgs)) ''handler'') False)"
    "\<forall>args. se_pip ex_start args = None" for pkgs
    by (simp_all add: ex_worker_config_def zero_config_def InitHandlerContainerFactory_def ex_start_def)
  have start: "if distinct pkgs
     then \<exists>r. server_Main ex_start (\<lambda>_. Inr (ex_worker_config pkgs)) (\<lambda>_. None) (\<lambda>_. None) ''/c/worker.json'' = Ret r \<and>
            dom (pkgStates (rn_pipMgr r)) = set pkgs
     else server_Main ex_start (\<lambda>_. Inr (ex_worker_config pkgs)) (\<lambda>_. None) (\<lambda>_. None) ''/c/worker.json'' = Block" for pkgs
    using worker_start [where parse = "\<lambda>_. Inr (ex_worker_config pkgs)" and bind = "\<lambda>_. None" and path = "''/c/worker.json''"
        and open_log = "\<lambda>_. None", OF refl c(1,2,3,5,6) refl] by (auto simp: c split: if_splits)
  show ?thesis
    using start [of "[''a'', ''b'']"] start [of "[''a'', ''a'']"] by simp
qed

subsection \<open>The memory limit\<close>

text \<open>The reading that is used is never older than a second.\<close>

lemma getMemUsage_age:
  "snd (getMemUsage now v c) = c' \<Longrightarrow> memLastUpdateTime c \<le> now \<Longrightarrow>
     0 \<le> now - memLastUpdateTime c' \<and> now - memLastUpdateTime c' \<le> 1000000000 \<and>
     (c' = c \<or> memUsage c' = fst v - snd v)"
  by (auto simp: getMemUsage_def Let_def)

text \<open>
  But the first reading is the initial 0, taken when the process starts and not measured: in the first second a
  new worker admits its first sandbox whatever memory is in use.
\<close>

lemma no_limit_in_first_second:
  assumes "now - start \<le> 1000000000" "0 \<le> hl"
  shows "fst (getMemUsage now v \<lparr>memUsage = 0, memLastUpdateTime = start\<rparr>) = 0 \<and>
         await_memory [fst (getMemUsage now v \<lparr>memUsage = 0, memLastUpdateTime = start\<rparr>)] h (NewHandlerManagerSet wd mr sz hl) =
           (Ret (), NewHandlerManagerSet wd mr sz hl)"
  using assms by (simp add: getMemUsage_def Let_def await_memory.simps over_hard_limit_def NewHandlerManagerSet_def)

subsection \<open>The timers\<close>

lemma go_div_nonneg: "0 \<le> a \<Longrightarrow> 0 < b \<Longrightarrow> go_div a b = a div b"
  by (cases "a = 0") (simp_all add: go_div_def)

text \<open>A measured time, in whole units, is short of the elapsed time by less than one unit.\<close>

lemma timer_diff_bounds:
  assumes "t_start t \<le> now"
  shows "t_unit t = ''us'' \<Longrightarrow> timer_diff now t * 1000 \<le> now - t_start t \<and> now - t_start t < (timer_diff now t + 1) * 1000"
    and "t_unit t = ''ms'' \<Longrightarrow> timer_diff now t * 1000000 \<le> now - t_start t \<and> now - t_start t < (timer_diff now t + 1) * 1000000"
    and "t_unit t \<notin> {''us'', ''ms''} \<Longrightarrow> timer_diff now t = now - t_start t"
  using assms by (auto simp: timer_diff_def go_div_nonneg Let_def)

lemma timer_line:
  "Timer_End now (Timer_Start now0 (CreateTimer name ''ms'')) =
     name @ '': '' @ strconv_Itoa (go_div (now - now0) 1000000) @ '' ms'' @ [CHR 0x0A]"
  by (simp add: Timer_End_def Timer_Start_def CreateTimer_def timer_diff_def)

end
