(* ===== verification/Cli.thy ===== *)
theory Cli
  imports OLPrelude GoStrings "HOL-Library.AList"
begin

text \<open>
  The command line of the admin tool: Go's \<open>flag\<close> package as \<open>urfave/cli\<close> uses it, and of that library the path
  from the arguments to a command's action (\<open>App.Run\<close>, \<open>Command.Run\<close>, \<open>normalizeFlags\<close>, the
  \<open>Context\<close> accessors).  Errors are kept as values, their texts are not.
\<close>

subsection \<open>Flags and their values\<close>

datatype flag_value = StringValue string | IntValue int | BoolValue bool

record cli_flag =
  cf_Name :: string
  cf_Value :: flag_value

datatype flag_error =
  BadSyntax string | NotDefined string | HelpRequested | NeedsArgument string | BadValue string string | TwoForms string string

text \<open>\<open>strconv.ParseInt(s, 0, 64)\<close>: hexadecimal after \<open>0x\<close>, octal after \<open>0\<close>, else decimal.\<close>

definition base_digit :: "nat \<Rightarrow> char \<Rightarrow> nat option" where
  "base_digit base c =
     (case map_of (zip ''0123456789abcdefABCDEF'' ([0..<16] @ [10..<16])) c of
        Some d \<Rightarrow> if d < base then Some d else None | None \<Rightarrow> None)"

fun base_value :: "nat \<Rightarrow> nat \<Rightarrow> string \<Rightarrow> nat option" where
  "base_value base acc [] = Some acc"
| "base_value base acc (c # cs) =
     (case base_digit base c of None \<Rightarrow> None | Some d \<Rightarrow> base_value base (base * acc + d) cs)"

definition unsigned_value :: "string \<Rightarrow> nat option" where
  "unsigned_value s =
     (case s of
        [] \<Rightarrow> None
      | c # cs \<Rightarrow>
          if c = CHR ''0''
          then (case cs of
                  [] \<Rightarrow> Some 0
                | x # ds \<Rightarrow> if x = CHR ''x'' \<or> x = CHR ''X'' then (if ds = [] then None else base_value 16 0 ds) else base_value 8 0 cs)
          else base_value 10 0 s)"

definition strconv_ParseInt :: "string \<Rightarrow> int option" where
  "strconv_ParseInt s =
     (case s of
        [] \<Rightarrow> None
      | c # cs \<Rightarrow>
          let neg = (c = CHR ''-''); ds = (if neg \<or> c = CHR ''+'' then cs else s)
          in case unsigned_value ds of
               None \<Rightarrow> None
             | Some n \<Rightarrow> let i = (if neg then - int n else int n) in if in_int64 i then Some i else None)"

definition strconv_ParseBool :: "string \<Rightarrow> bool option" where
  "strconv_ParseBool s =
     (if s \<in> set [''1'', ''t'', ''T'', ''true'', ''TRUE'', ''True''] then Some True
      else if s \<in> set [''0'', ''f'', ''F'', ''false'', ''FALSE'', ''False''] then Some False
      else None)"

definition value_String :: "flag_value \<Rightarrow> string" where
  "value_String v = (case v of StringValue s \<Rightarrow> s | IntValue i \<Rightarrow> strconv_Itoa i | BoolValue b \<Rightarrow> if b then ''true'' else ''false'')"

definition value_Set :: "flag_value \<Rightarrow> string \<Rightarrow> flag_value option" where
  "value_Set v s =
     (case v of
        StringValue _ \<Rightarrow> Some (StringValue s)
      | IntValue _ \<Rightarrow> map_option IntValue (strconv_ParseInt s)
      | BoolValue _ \<Rightarrow> map_option BoolValue (strconv_ParseBool s))"

subsection \<open>FlagSet.Parse\<close>

datatype token = NotFlag | Terminator | Malformed | Flag string "string option"

text \<open>An equals sign in the first place of the name is an error, a later one ends the name.\<close>

definition split_value :: "string \<Rightarrow> string \<times> string option" where
  "split_value name =
     (case name of
        [] \<Rightarrow> ([], None)
      | c # cs \<Rightarrow>
          (case dropWhile (\<lambda>x. x \<noteq> CHR ''='') cs of
             [] \<Rightarrow> (name, None)
           | _ # v \<Rightarrow> (c # takeWhile (\<lambda>x. x \<noteq> CHR ''='') cs, Some v)))"

definition token_of :: "string \<Rightarrow> token" where
  "token_of s =
     (if length s < 2 \<or> hd s \<noteq> CHR ''-'' then NotFlag
      else if s = ''--'' then Terminator
      else
        let name = (if s ! 1 = CHR ''-'' then drop 2 s else tl s)
        in if hd name = CHR ''-'' \<or> hd name = CHR ''='' then Malformed
           else (case split_value name of (n, v) \<Rightarrow> Flag n v))"

type_synonym flags = "(string \<times> flag_value) list"

text \<open>The state of a parse: the values, the names that were set, and the arguments that are left.\<close>

fun flag_Parse :: "string list \<Rightarrow> flags \<Rightarrow> string list \<Rightarrow> flag_error option \<times> flags \<times> string list \<times> string list" where
  "flag_Parse [] formal actual = (None, formal, actual, [])"
| "flag_Parse (s # rest) formal actual =
     (case token_of s of
        NotFlag \<Rightarrow> (None, formal, actual, s # rest)
      | Terminator \<Rightarrow> (None, formal, actual, rest)
      | Malformed \<Rightarrow> (Some (BadSyntax s), formal, actual, s # rest)
      | Flag name v \<Rightarrow>
          (case map_of formal name of
             None \<Rightarrow> (Some (if name = ''help'' \<or> name = ''h'' then HelpRequested else NotDefined name), formal, actual, rest)
           | Some old \<Rightarrow>
               (case (case old of BoolValue _ \<Rightarrow> Some (case v of None \<Rightarrow> ''true'' | Some x \<Rightarrow> x) | _ \<Rightarrow> v) of
                  Some x \<Rightarrow>
                    (case value_Set old x of
                       None \<Rightarrow> (Some (BadValue name x), formal, actual, rest)
                     | Some new \<Rightarrow> flag_Parse rest (AList.update name new formal) (name # actual))
                | None \<Rightarrow>
                    (case rest of
                       [] \<Rightarrow> (Some (NeedsArgument name), formal, actual, [])
                     | x # rest' \<Rightarrow>
                         (case value_Set old x of
                            None \<Rightarrow> (Some (BadValue name x), formal, actual, rest')
                          | Some new \<Rightarrow> flag_Parse rest' (AList.update name new formal) (name # actual))))))"

subsection \<open>The library\<close>

definition flag_names :: "cli_flag \<Rightarrow> string list" where
  "flag_names f = map (\<lambda>w. rev (dropWhile (\<lambda>c. c = CHR '' '') (rev (dropWhile (\<lambda>c. c = CHR '' '') w)))) (strings_Split CHR '','' (cf_Name f))"

text \<open>\<open>flagSet\<close>: the \<open>flag\<close> package panics at the second flag of a name.\<close>

definition cli_flagSet :: "cli_flag list \<Rightarrow> flags option" where
  "cli_flagSet fs =
     (let formal = concat (map (\<lambda>f. map (\<lambda>n. (n, cf_Value f)) (flag_names f)) fs)
      in if distinct (map fst formal) then Some formal else None)"

text \<open>The forms of one flag: the one that was used gives the others their value.\<close>

definition normalizeFlag :: "cli_flag \<Rightarrow> string list \<Rightarrow> flags \<Rightarrow> flag_error + flags" where
  "normalizeFlag f visited formal =
     (case filter (\<lambda>n. n \<in> set visited) (flag_names f) of
        [] \<Rightarrow> Inr formal
      | [n] \<Rightarrow>
          (case map_of formal n of
             None \<Rightarrow> Inr formal
           | Some v \<Rightarrow> Inr (fold (\<lambda>m. AList.update m v) (filter (\<lambda>m. m \<noteq> n) (flag_names f)) formal))
      | n # m # _ \<Rightarrow> Inl (TwoForms m n))"

fun normalizeFlags :: "cli_flag list \<Rightarrow> string list \<Rightarrow> flags \<Rightarrow> flag_error + flags" where
  "normalizeFlags [] visited formal = Inr formal"
| "normalizeFlags (f # fs) visited formal =
     (case normalizeFlag f visited formal of Inl e \<Rightarrow> Inl e | Inr formal1 \<Rightarrow> normalizeFlags fs visited formal1)"

record cli_context =
  cx_flags :: flags
  cx_Args :: "string list"

definition ctx_String :: "cli_context \<Rightarrow> string \<Rightarrow> string" where
  "ctx_String cx name = (case map_of (cx_flags cx) name of None \<Rightarrow> [] | Some v \<Rightarrow> value_String v)"

definition ctx_Int :: "cli_context \<Rightarrow> string \<Rightarrow> int" where
  "ctx_Int cx name =
     (case map_of (cx_flags cx) name of
        None \<Rightarrow> 0
      | Some v \<Rightarrow> (case strconv_ParseInt (value_String v) of None \<Rightarrow> 0 | Some i \<Rightarrow> i))"

definition ctx_Bool :: "cli_context \<Rightarrow> string \<Rightarrow> bool" where
  "ctx_Bool cx name =
     (case map_of (cx_flags cx) name of
        None \<Rightarrow> False
      | Some v \<Rightarrow> (case strconv_ParseBool (value_String v) of None \<Rightarrow> False | Some b \<Rightarrow> b))"

definition HelpFlag :: cli_flag where
  "HelpFlag = \<lparr>cf_Name = ''help, h'', cf_Value = BoolValue False\<rparr>"

text \<open>A command; one without action it is the library's own \<open>help\<close>.\<close>

record 'a cli_command =
  cc_Names :: "string list"
  cc_Flags :: "cli_flag list"
  cc_Action :: "'a option"

datatype 'a cli_result =
  Completions | AppHelp | CommandHelp string | NoHelpTopic string | Misused flag_error | CliPanic | Run 'a cli_context

definition helpCommand :: "'a cli_command" where
  "helpCommand = \<lparr>cc_Names = [''help'', ''h''], cc_Flags = [], cc_Action = None\<rparr>"

definition app_Command :: "'a cli_command list \<Rightarrow> string \<Rightarrow> 'a cli_command option" where
  "app_Command cmds name = find (\<lambda>c. name \<in> set (cc_Names c)) cmds"

definition ShowCommandHelp :: "'a cli_command list \<Rightarrow> string \<Rightarrow> 'a cli_result" where
  "ShowCommandHelp cmds name = (if name = [] \<or> app_Command cmds name \<noteq> None then CommandHelp name else NoHelpTopic name)"

definition help_action :: "'a cli_command list \<Rightarrow> string list \<Rightarrow> 'a cli_result" where
  "help_action cmds args = (case args of [] \<Rightarrow> AppHelp | a # _ \<Rightarrow> ShowCommandHelp cmds a)"

text \<open>Arguments in front of the first flag are moved behind the flags; \<open>--\<close> and what follows it stays at the end.\<close>

definition flag_like :: "string \<Rightarrow> bool" where
  "flag_like a = (a \<noteq> ''-'' \<and> strings_HasPrefix a ''-'')"

definition reorder_args :: "string list \<Rightarrow> string list" where
  "reorder_args rest =
     (let before = takeWhile (\<lambda>a. a \<noteq> ''--'') rest; flag_args = dropWhile (\<lambda>a. \<not> flag_like a) before
      in if flag_args = [] then rest
         else flag_args @ takeWhile (\<lambda>a. \<not> flag_like a) before @ dropWhile (\<lambda>a. a \<noteq> ''--'') rest)"

definition command_Run :: "'a cli_command list \<Rightarrow> bool \<Rightarrow> 'a cli_command \<Rightarrow> string list \<Rightarrow> 'a cli_result" where
  "command_Run cmds shellComplete c rest =
     (let fs = cc_Flags c @ [HelpFlag] in
      case cli_flagSet fs of
        None \<Rightarrow> CliPanic
      | Some formal \<Rightarrow>
          (case flag_Parse (reorder_args rest) formal [] of
             (err, formal1, actual, args) \<Rightarrow>
               (case normalizeFlags fs actual formal1 of
                  Inl e \<Rightarrow> Misused e
                | Inr formal2 \<Rightarrow>
                    let cx = \<lparr>cx_flags = formal2, cx_Args = args\<rparr> in
                    if shellComplete then Completions
                    else (case err of
                            Some e \<Rightarrow> Misused e
                          | None \<Rightarrow>
                              if ctx_Bool cx ''h'' \<or> ctx_Bool cx ''help'' then CommandHelp (hd (cc_Names c))
                              else (case cc_Action c of None \<Rightarrow> help_action cmds args | Some a \<Rightarrow> Run a cx)))))"

definition app_Run :: "'a cli_command list \<Rightarrow> string list \<Rightarrow> 'a cli_result" where
  "app_Run commands arguments =
     (if arguments = [] then CliPanic else
      let own_help = (app_Command commands ''help'' \<noteq> None);
          cmds = (if own_help then commands else commands @ [helpCommand]);
          app_flags = (if own_help then [] else [HelpFlag]);
          shellComplete = (last arguments = ''--generate-bash-completion'');
          argv = (if shellComplete then butlast arguments else arguments)
      in case cli_flagSet app_flags of
           None \<Rightarrow> CliPanic
         | Some formal \<Rightarrow>
             (case flag_Parse (tl argv) formal [] of
                (err, formal1, actual, args) \<Rightarrow>
                  (case normalizeFlags app_flags actual formal1 of
                     Inl e \<Rightarrow> Misused e
                   | Inr formal2 \<Rightarrow>
                       let cx = \<lparr>cx_flags = formal2, cx_Args = args\<rparr>;
                           cmd = (case args of [] \<Rightarrow> None | a # _ \<Rightarrow> app_Command cmds a)
                       in if shellComplete \<and> cmd = None then Completions
                          else (case err of
                                  Some e \<Rightarrow> Misused e
                                | None \<Rightarrow>
                                    if ctx_Bool cx ''help'' \<or> ctx_Bool cx ''h'' then AppHelp
                                    else (case cmd of
                                            Some c \<Rightarrow> command_Run cmds shellComplete c (tl args)
                                          | None \<Rightarrow> help_action cmds args)))))"

subsection \<open>Numbers are read back\<close>

lemma base_digit_digit: "base_digit 10 c = digit_val c"
  by (auto simp: base_digit_def digit_val_def upt_rec)

lemma base_value_10: "base_value 10 acc s = parse_nat acc s"
  by (induction s arbitrary: acc) (auto simp: base_digit_digit split: option.splits)

lemma nat_digits_no_leading_zero: "0 < n \<Longrightarrow> hd (nat_digits n) \<noteq> CHR ''0''"
proof (induction n rule: nat_digits.induct)
  case (1 n)
  show ?case
  proof (cases "n < 10")
    case True
    with 1(2) have "digit_char n \<noteq> digit_char 0" using digit_val_char [of n] digit_val_char [of 0] by auto
    with True show ?thesis by (simp add: nat_digits.simps [of n] digit_char_def)
  next
    case False
    with 1 show ?thesis by (simp add: nat_digits.simps [of n])
  qed
qed

lemma unsigned_value_digits: "unsigned_value (nat_digits n) = Some n"
proof (cases "n = 0")
  case True
  have "nat_digits 0 = ''0''" by (simp add: nat_digits.simps [of 0] digit_char_def)
  with True show ?thesis by (simp add: unsigned_value_def)
next
  case False
  then have "hd (nat_digits n) \<noteq> CHR ''0''" using nat_digits_no_leading_zero by simp
  then have "unsigned_value (nat_digits n) = base_value 10 0 (nat_digits n)"
    by (cases "nat_digits n") (simp_all add: unsigned_value_def)
  then show ?thesis by (simp add: base_value_10 parse_nat_digits)
qed

lemma strconv_ParseInt_Itoa: "in_int64 i \<Longrightarrow> strconv_ParseInt (strconv_Itoa i) = Some i"
proof (cases "i < 0")
  case True
  then show "in_int64 i \<Longrightarrow> ?thesis"
    by (simp add: strconv_Itoa_def strconv_ParseInt_def unsigned_value_digits)
next
  case False
  obtain c cs where d: "nat_digits (nat i) = c # cs" by (cases "nat_digits (nat i)") simp_all
  with nat_digits_hd [of "nat i"] have "c \<noteq> CHR ''-''" "c \<noteq> CHR ''+''" by simp_all
  with False d unsigned_value_digits [of "nat i"] show "in_int64 i \<Longrightarrow> ?thesis"
    by (simp add: strconv_Itoa_def strconv_ParseInt_def)
qed

subsection \<open>Reading one argument\<close>

lemma token_of_assignment:
  assumes "name \<noteq> []" "CHR ''='' \<notin> set name" "hd name \<noteq> CHR ''-''"
  shows "token_of (''--'' @ name @ CHR ''='' # v) = Flag name (Some v)" "token_of (CHR ''-'' # name @ CHR ''='' # v) = Flag name (Some v)"
proof -
  obtain c cs where n: "name = c # cs" using assms(1) by (cases name) auto
  have "takeWhile (\<lambda>x. x \<noteq> CHR ''='') (cs @ CHR ''='' # v) = cs" "dropWhile (\<lambda>x. x \<noteq> CHR ''='') (cs @ CHR ''='' # v) = CHR ''='' # v"
    using assms(2) n by (subst takeWhile_append2 dropWhile_append2; force)+
  moreover have "c \<noteq> CHR ''=''" using assms(2) n by auto
  ultimately show "token_of (''--'' @ name @ CHR ''='' # v) = Flag name (Some v)"
    "token_of (CHR ''-'' # name @ CHR ''='' # v) = Flag name (Some v)"
    using assms(3) n by (simp_all add: token_of_def split_value_def)
qed

subsection \<open>Reading the options of a command\<close>

text \<open>An option as it is passed, in the long form.\<close>

definition option_arg :: "string \<Rightarrow> string \<Rightarrow> string" where
  "option_arg name v = ''--'' @ name @ CHR ''='' # v"

lemma flag_Parse_option:
  assumes "name \<noteq> []" "CHR ''='' \<notin> set name" "hd name \<noteq> CHR ''-''" "map_of formal name = Some old"
  shows "flag_Parse (option_arg name v # rest) formal actual =
     (case value_Set old v of
        None \<Rightarrow> (Some (BadValue name v), formal, actual, rest)
      | Some new \<Rightarrow> flag_Parse rest (AList.update name new formal) (name # actual))"
  using assms token_of_assignment(1) [OF assms(1-3)] by (cases old; cases "value_Set old v") (simp_all add: option_arg_def)

lemma token_of_other: "\<not> strings_HasPrefix a ''-'' \<Longrightarrow> token_of a = NotFlag"
  by (cases a) (simp_all add: token_of_def strings_HasPrefix_def)

lemma flag_Parse_other: "\<not> strings_HasPrefix a ''-'' \<Longrightarrow> flag_Parse (a # rest) formal actual = (None, formal, actual, a # rest)"
  by (simp add: token_of_other)

text \<open>Arguments that begin with a flag are taken as they are.\<close>

lemma reorder_args_same: "rest = [] \<or> flag_like (hd rest) \<Longrightarrow> ''--'' \<notin> set rest \<Longrightarrow> reorder_args rest = rest"
proof -
  assume a: "rest = [] \<or> flag_like (hd rest)" and "''--'' \<notin> set rest"
  then have "takeWhile (\<lambda>a. a \<noteq> ''--'') rest = rest" "dropWhile (\<lambda>a. a \<noteq> ''--'') rest = []"
    by (auto simp: takeWhile_eq_all_conv dropWhile_eq_Nil_conv)
  then show ?thesis using a by (cases rest) (simp_all add: reorder_args_def)
qed

lemma app_Run_command:
  assumes "app_Command commands ''help'' = None" "app_Command commands name = Some c" "\<not> strings_HasPrefix name ''-''"
    and "last (name # rest) \<noteq> ''--generate-bash-completion''"
  shows "app_Run commands (arg0 # name # rest) = command_Run (commands @ [helpCommand]) False c rest"
proof -
  have flags: "cli_flagSet [HelpFlag] = Some [(''help'', BoolValue False), (''h'', BoolValue False)]" by code_simp
  have names: "flag_names HelpFlag = [''help'', ''h'']" by code_simp
  have "app_Command (commands @ [helpCommand]) name = Some c"
    using assms(2) by (induction commands) (auto simp: app_Command_def)
  then show ?thesis
    using assms(1,4) token_of_other [OF assms(3)]
    by (simp add: app_Run_def Let_def flags normalizeFlag_def names ctx_Bool_def value_String_def
        strconv_ParseBool_def split: if_splits)
qed

lemma option_arg_simps [simp]:
  "flag_like (option_arg name v)" "option_arg name v \<noteq> ''--''" "''--'' \<noteq> option_arg name v" "strings_HasPrefix (option_arg name v) ''-''"
  by (simp_all add: option_arg_def flag_like_def strings_HasPrefix_def)

end
