(* ===== verification/AdminCommands.thy ===== *)
theory AdminCommands
  imports Cli
begin

text \<open>
  The commands of the admin tool and their options (\<open>worker/admin/main.go\<close>: \<open>main\<close>), and what each command's
  function reads of them.
\<close>

subsection \<open>The table of commands\<close>

text \<open>The functions of the table.\<close>

datatype admin_action =
  NewCluster | Status | Workers | WorkerExec | Rethinkdb | Nginx | LoadBalancerExec | LoadBalance | RegistryStart
| Upload | Kill | Setconf

definition string_flag :: "string \<Rightarrow> cli_flag" where
  "string_flag name = \<lparr>cf_Name = name, cf_Value = StringValue []\<rparr>"

definition int_flag :: "string \<Rightarrow> int \<Rightarrow> cli_flag" where
  "int_flag name v = \<lparr>cf_Name = name, cf_Value = IntValue v\<rparr>"

definition bool_flag :: "string \<Rightarrow> cli_flag" where
  "bool_flag name = \<lparr>cf_Name = name, cf_Value = BoolValue False\<rparr>"

definition clusterFlag :: cli_flag where
  "clusterFlag = string_flag ''cluster''"

definition cli_entry :: "string \<Rightarrow> cli_flag list \<Rightarrow> 'a \<Rightarrow> 'a cli_command" where
  "cli_entry name fs act = \<lparr>cc_Names = [name], cc_Flags = fs, cc_Action = Some act\<rparr>"

definition new_command :: "admin_action cli_command" where
  "new_command = cli_entry ''new'' [clusterFlag] NewCluster"

definition status_command :: "admin_action cli_command" where
  "status_command = cli_entry ''status'' [clusterFlag] Status"

definition workers_command :: "admin_action cli_command" where
  "workers_command =
     cli_entry ''workers'' [clusterFlag, bool_flag ''foreach'', int_flag ''port, p'' 7081, int_flag ''num-workers, n'' 1] Workers"

definition worker_exec_command :: "admin_action cli_command" where
  "worker_exec_command = cli_entry ''worker-exec'' [string_flag ''config, c''] WorkerExec"

definition rethinkdb_command :: "admin_action cli_command" where
  "rethinkdb_command = cli_entry ''rethinkdb'' [clusterFlag, int_flag ''num-nodes, n'' 1] Rethinkdb"

definition nginx_command :: "admin_action cli_command" where
  "nginx_command = cli_entry ''nginx'' [clusterFlag, int_flag ''port, p'' 9080, int_flag ''num-nodes, n'' 1] Nginx"

definition load_balancer_exec_command :: "admin_action cli_command" where
  "load_balancer_exec_command = cli_entry ''load-balancer-exec'' [string_flag ''config, c''] LoadBalancerExec"

text \<open>The port of the load balancer is declared as a string.\<close>

definition load_balancer_command :: "admin_action cli_command" where
  "load_balancer_command = cli_entry ''load-balancer'' [clusterFlag, string_flag ''port, p''] LoadBalance"

definition registry_command :: "admin_action cli_command" where
  "registry_command =
     cli_entry ''registry'' [clusterFlag, string_flag ''access-key'', string_flag ''secret-key'', int_flag ''port, p'' 9000] RegistryStart"

definition upload_command :: "admin_action cli_command" where
  "upload_command =
     cli_entry ''upload''
       [clusterFlag, string_flag ''access-key'', string_flag ''secret-key'', string_flag ''address'', string_flag ''handler'', string_flag ''file'']
       Upload"

definition kill_command :: "admin_action cli_command" where
  "kill_command = cli_entry ''kill'' [clusterFlag] Kill"

definition setconf_command :: "admin_action cli_command" where
  "setconf_command = cli_entry ''setconf'' [clusterFlag] Setconf"

definition admin_commands :: "admin_action cli_command list" where
  "admin_commands =
     [new_command, status_command, workers_command, worker_exec_command, rethinkdb_command, nginx_command,
      load_balancer_exec_command, load_balancer_command, registry_command, upload_command, kill_command, setconf_command]"

subsection \<open>What the functions read from their context\<close>

datatype invocation =
  DoNew string
| DoStatus string
| DoWorkers string bool int int
| DoWorkerExec string
| DoRethinkdb string int
| DoNginx string int int
| DoLoadBalancerExec string
| DoLoadBalancer string int
| DoRegistry string string string int
| DoUpload string string string string string
| DoKill string
| DoSetconf string "string list"

fun invocation_of :: "admin_action \<Rightarrow> cli_context \<Rightarrow> invocation" where
  "invocation_of NewCluster cx = DoNew (ctx_String cx ''cluster'')"
| "invocation_of Status cx = DoStatus (ctx_String cx ''cluster'')"
| "invocation_of Workers cx =
     DoWorkers (ctx_String cx ''cluster'') (ctx_Bool cx ''foreach'') (ctx_Int cx ''port'') (ctx_Int cx ''num-workers'')"
| "invocation_of WorkerExec cx = DoWorkerExec (ctx_String cx ''config'')"
| "invocation_of Rethinkdb cx = DoRethinkdb (ctx_String cx ''cluster'') (ctx_Int cx ''num-nodes'')"
| "invocation_of Nginx cx = DoNginx (ctx_String cx ''cluster'') (ctx_Int cx ''port'') (ctx_Int cx ''num-nodes'')"
| "invocation_of LoadBalancerExec cx = DoLoadBalancerExec (ctx_String cx ''config'')"
| "invocation_of LoadBalance cx = DoLoadBalancer (ctx_String cx ''cluster'') (ctx_Int cx ''port'')"
| "invocation_of RegistryStart cx =
     DoRegistry (ctx_String cx ''cluster'') (ctx_String cx ''access-key'') (ctx_String cx ''secret-key'') (ctx_Int cx ''port'')"
| "invocation_of Upload cx =
     DoUpload (ctx_String cx ''access-key'') (ctx_String cx ''secret-key'') (ctx_String cx ''address'') (ctx_String cx ''handler'')
       (ctx_String cx ''file'')"
| "invocation_of Kill cx = DoKill (ctx_String cx ''cluster'')"
| "invocation_of Setconf cx = DoSetconf (ctx_String cx ''cluster'') (cx_Args cx)"

lemmas command_defs =
  new_command_def status_command_def workers_command_def worker_exec_command_def rethinkdb_command_def nginx_command_def
  load_balancer_exec_command_def load_balancer_command_def registry_command_def upload_command_def kill_command_def
  setconf_command_def cli_entry_def clusterFlag_def

subsection \<open>From the command line to the command\<close>

lemma no_redefined_flags: "\<forall>c \<in> set admin_commands. cli_flagSet (cc_Flags c @ [HelpFlag]) \<noteq> None"
  by code_simp

lemma command_names: "distinct (concat (map cc_Names admin_commands))" "app_Command admin_commands ''help'' = None"
  by code_simp+

fun argv_of :: "invocation \<Rightarrow> string list" where
  "argv_of (DoNew c) = [''new'', option_arg ''cluster'' c]"
| "argv_of (DoStatus c) = [''status'', option_arg ''cluster'' c]"
| "argv_of (DoWorkers c foreach port n) =
     [''workers'', option_arg ''cluster'' c, option_arg ''foreach'' (if foreach then ''true'' else ''false''),
      option_arg ''port'' (strconv_Itoa port), option_arg ''num-workers'' (strconv_Itoa n)]"
| "argv_of (DoWorkerExec f) = [''worker-exec'', option_arg ''config'' f]"
| "argv_of (DoRethinkdb c n) = [''rethinkdb'', option_arg ''cluster'' c, option_arg ''num-nodes'' (strconv_Itoa n)]"
| "argv_of (DoNginx c port n) =
     [''nginx'', option_arg ''cluster'' c, option_arg ''port'' (strconv_Itoa port), option_arg ''num-nodes'' (strconv_Itoa n)]"
| "argv_of (DoLoadBalancerExec f) = [''load-balancer-exec'', option_arg ''config'' f]"
| "argv_of (DoLoadBalancer c port) = [''load-balancer'', option_arg ''cluster'' c, option_arg ''port'' (strconv_Itoa port)]"
| "argv_of (DoRegistry c access secret port) =
     [''registry'', option_arg ''cluster'' c, option_arg ''access-key'' access, option_arg ''secret-key'' secret,
      option_arg ''port'' (strconv_Itoa port)]"
| "argv_of (DoUpload access secret address handler file) =
     [''upload'', option_arg ''access-key'' access, option_arg ''secret-key'' secret, option_arg ''address'' address,
      option_arg ''handler'' handler, option_arg ''file'' file]"
| "argv_of (DoKill c) = [''kill'', option_arg ''cluster'' c]"
| "argv_of (DoSetconf c args) = [''setconf'', option_arg ''cluster'' c] @ args"

text \<open>The numbers fit into an \<open>int\<close>, and no plain argument looks like a flag.\<close>

fun passable :: "invocation \<Rightarrow> bool" where
  "passable (DoWorkers c foreach port n) = (in_int64 port \<and> in_int64 n)"
| "passable (DoRethinkdb c n) = in_int64 n"
| "passable (DoNginx c port n) = (in_int64 port \<and> in_int64 n)"
| "passable (DoLoadBalancer c port) = in_int64 port"
| "passable (DoRegistry c access secret port) = in_int64 port"
| "passable (DoSetconf c args) = list_all (\<lambda>a. \<not> strings_HasPrefix a ''-'') args"
| "passable _ = True"

definition parsed :: "string list \<Rightarrow> invocation option" where
  "parsed argv = (case app_Run admin_commands argv of Run act cx \<Rightarrow> Some (invocation_of act cx) | _ \<Rightarrow> None)"

lemma option_arg_not_completion:
  "hd name \<noteq> CHR ''g'' \<Longrightarrow> name \<noteq> [] \<Longrightarrow> option_arg name v \<noteq> ''--generate-bash-completion''"
  by (cases name) (simp_all add: option_arg_def)

lemma flag_names_simps:
  "flag_names (string_flag ''cluster'') = [''cluster'']" "flag_names (string_flag ''config, c'') = [''config'', ''c'']"
  "flag_names (string_flag ''port, p'') = [''port'', ''p'']" "flag_names (int_flag ''port, p'' v) = [''port'', ''p'']"
  "flag_names (int_flag ''num-workers, n'' v) = [''num-workers'', ''n'']" "flag_names (int_flag ''num-nodes, n'' v) = [''num-nodes'', ''n'']"
  "flag_names (bool_flag ''foreach'') = [''foreach'']" "flag_names (string_flag ''access-key'') = [''access-key'']"
  "flag_names (string_flag ''secret-key'') = [''secret-key'']" "flag_names (string_flag ''address'') = [''address'']"
  "flag_names (string_flag ''handler'') = [''handler'']" "flag_names (string_flag ''file'') = [''file'']"
  "flag_names HelpFlag = [''help'', ''h'']"
  by code_simp+

lemma flag_values [simp]:
  "cf_Value (string_flag n) = StringValue []" "cf_Value (int_flag n v) = IntValue v" "cf_Value (bool_flag n) = BoolValue False"
  "cf_Value HelpFlag = BoolValue False"
  by (simp_all add: string_flag_def int_flag_def bool_flag_def HelpFlag_def)

lemmas parse_simps = option_arg_not_completion strings_HasPrefix_def command_Run_def reorder_args_same cli_flagSet_def flag_names_simps normalizeFlag_def value_Set_def value_String_def
  strconv_ParseBool_def strconv_ParseInt_Itoa ctx_Bool_def ctx_Int_def ctx_String_def flag_Parse_option flag_Parse_other

lemma find_commands:
  "app_Command admin_commands ''new'' = Some new_command" "app_Command admin_commands ''status'' = Some status_command"
  "app_Command admin_commands ''workers'' = Some workers_command" "app_Command admin_commands ''worker-exec'' = Some worker_exec_command"
  "app_Command admin_commands ''rethinkdb'' = Some rethinkdb_command" "app_Command admin_commands ''nginx'' = Some nginx_command"
  "app_Command admin_commands ''load-balancer-exec'' = Some load_balancer_exec_command"
  "app_Command admin_commands ''load-balancer'' = Some load_balancer_command"
  "app_Command admin_commands ''registry'' = Some registry_command" "app_Command admin_commands ''upload'' = Some upload_command"
  "app_Command admin_commands ''kill'' = Some kill_command" "app_Command admin_commands ''setconf'' = Some setconf_command"
  by code_simp+

lemma parsed_command:
  assumes "app_Command admin_commands name = Some c" "\<not> strings_HasPrefix name ''-''" "last (name # rest) \<noteq> ''--generate-bash-completion''"
  shows "parsed (arg0 # name # rest) =
     (case command_Run (admin_commands @ [helpCommand]) False c rest of Run act cx \<Rightarrow> Some (invocation_of act cx) | _ \<Rightarrow> None)"
  using app_Run_command [OF command_names(2) assms, of arg0] by (simp add: parsed_def)

lemmas parse_command =
  parsed_command [OF find_commands(1)] parsed_command [OF find_commands(2)] parsed_command [OF find_commands(3)]
  parsed_command [OF find_commands(4)] parsed_command [OF find_commands(5)] parsed_command [OF find_commands(6)]
  parsed_command [OF find_commands(7)] parsed_command [OF find_commands(8)] parsed_command [OF find_commands(9)]
  parsed_command [OF find_commands(10)] parsed_command [OF find_commands(11)] parsed_command [OF find_commands(12)]

declare flag_Parse.simps(2) [simp del]

lemma parsed_simple:
  "parsed (arg0 # argv_of (DoNew c)) = Some (DoNew c)" "parsed (arg0 # argv_of (DoStatus c)) = Some (DoStatus c)"
  "parsed (arg0 # argv_of (DoKill c)) = Some (DoKill c)" "parsed (arg0 # argv_of (DoWorkerExec f)) = Some (DoWorkerExec f)"
  "parsed (arg0 # argv_of (DoLoadBalancerExec f)) = Some (DoLoadBalancerExec f)"
  by (simp_all add: parse_command parse_simps command_defs)

lemma parsed_keys:
  "parsed (arg0 # argv_of (DoUpload access secret address handler file)) = Some (DoUpload access secret address handler file)"
  "in_int64 port \<Longrightarrow> parsed (arg0 # argv_of (DoRegistry c access secret port)) = Some (DoRegistry c access secret port)"
  by (simp_all add: parse_command parse_simps command_defs)

lemma parsed_numbers:
  "in_int64 n \<Longrightarrow> parsed (arg0 # argv_of (DoRethinkdb c n)) = Some (DoRethinkdb c n)"
  "in_int64 port \<Longrightarrow> parsed (arg0 # argv_of (DoLoadBalancer c port)) = Some (DoLoadBalancer c port)"
  "in_int64 port \<Longrightarrow> in_int64 n \<Longrightarrow> parsed (arg0 # argv_of (DoNginx c port n)) = Some (DoNginx c port n)"
  by (simp_all add: parse_command parse_simps command_defs)

lemma parsed_workers:
  "in_int64 port \<Longrightarrow> in_int64 n \<Longrightarrow>
     parsed (arg0 # argv_of (DoWorkers c foreach port n)) = Some (DoWorkers c foreach port n)"
  by (cases foreach) (simp_all add: parse_command parse_simps command_defs)

lemma parsed_setconf:
  assumes "list_all (\<lambda>a. \<not> strings_HasPrefix a ''-'') args"
  shows "parsed (arg0 # argv_of (DoSetconf c args)) = Some (DoSetconf c args)"
proof -
  have args: "''--'' \<notin> set args" "''--generate-bash-completion'' \<notin> set args"
    using assms by (auto simp: list_all_iff strings_HasPrefix_def)
  have last: "last (option_arg ''cluster'' c # args) \<noteq> ''--generate-bash-completion''"
    using args(2) option_arg_not_completion [of "''cluster''" c] last_in_set [of args] by (cases "args = []") (auto simp del: last_in_set)
  have "flag_Parse args formal actual = (None, formal, actual, args)" for formal actual
    using assms by (cases args) (simp_all add: flag_Parse_other)
  with args(1) last show ?thesis
    by (simp add: parse_command parse_simps command_defs)
qed



text \<open>
  The port of a load balancer is declared as a string and read as a number: a text that is not a number is
  accepted and becomes 0, for which the load balancer takes its default.  For \<open>workers\<close>, as for the other
  commands with a port, it is an error of usage and nothing runs.
\<close>

theorem load_balancer_port_unchecked:
  assumes "strconv_ParseInt t = None"
  shows "parsed [arg0, ''load-balancer'', option_arg ''cluster'' c, option_arg ''port'' t] = Some (DoLoadBalancer c 0) \<and>
         app_Run admin_commands [arg0, ''workers'', option_arg ''cluster'' c, option_arg ''port'' t] = Misused (BadValue ''port'' t)"
proof
  show "parsed [arg0, ''load-balancer'', option_arg ''cluster'' c, option_arg ''port'' t] = Some (DoLoadBalancer c 0)"
    using assms by (simp add: parse_command parse_simps command_defs)
  show "app_Run admin_commands [arg0, ''workers'', option_arg ''cluster'' c, option_arg ''port'' t] = Misused (BadValue ''port'' t)"
    using assms app_Run_command [OF command_names(2) find_commands(3), of "[option_arg ''cluster'' c, option_arg ''port'' t]" arg0]
    by (simp add: parse_simps command_defs)
qed

theorem load_balancer_port_unchecked_witness:
  "parsed [''admin'', ''load-balancer'', ''--cluster=c'', ''--port=80a''] = Some (DoLoadBalancer ''c'' 0)"
proof -
  have "strconv_ParseInt ''80a'' = None" "option_arg ''cluster'' ''c'' = ''--cluster=c''" "option_arg ''port'' ''80a'' = ''--port=80a''"
    by code_simp+
  then show ?thesis using load_balancer_port_unchecked [of "''80a''" "''admin''" "''c''"] by simp
qed

text \<open>Options that are left out have their defaults.\<close>

lemma default_options:
  "parsed [arg0, ''workers'', option_arg ''cluster'' c] = Some (DoWorkers c False 7081 1)"
  "parsed [arg0, ''nginx'', option_arg ''cluster'' c] = Some (DoNginx c 9080 1)"
  "parsed [arg0, ''load-balancer'', option_arg ''cluster'' c] = Some (DoLoadBalancer c 0)"
  "parsed [arg0, ''rethinkdb'', option_arg ''cluster'' c] = Some (DoRethinkdb c 1)"
proof -
  have i: "in_int64 7081" "in_int64 9080" "in_int64 1" by (simp_all add: in_int64_def)
  have p: "strconv_ParseInt [] = None" by code_simp
  show "parsed [arg0, ''workers'', option_arg ''cluster'' c] = Some (DoWorkers c False 7081 1)"
    "parsed [arg0, ''nginx'', option_arg ''cluster'' c] = Some (DoNginx c 9080 1)"
    "parsed [arg0, ''load-balancer'', option_arg ''cluster'' c] = Some (DoLoadBalancer c 0)"
    "parsed [arg0, ''rethinkdb'', option_arg ''cluster'' c] = Some (DoRethinkdb c 1)"
    using i p by (simp_all add: parse_command parse_simps command_defs)
qed

text \<open>The short form of an option, and its value in an argument of its own.\<close>

lemma short_tokens:
  "token_of ''-p'' = Flag ''p'' None" "token_of ''-n=2'' = Flag ''n'' (Some ''2'')" "token_of ''--cluster'' = Flag ''cluster'' None"
  "token_of ''-p=1'' = Flag ''p'' (Some ''1'')" "token_of ''--port=2'' = Flag ''port'' (Some ''2'')"
  by code_simp+

lemma short_options:
  "parsed [arg0, ''workers'', ''-p'', ''9000'', ''-n=2'', ''--cluster'', ''c''] = Some (DoWorkers ''c'' False 9000 2)" (is ?short)
  "app_Run admin_commands [arg0, ''workers'', ''-p=1'', ''--port=2''] = Misused (TwoForms ''p'' ''port'')" (is ?twice)
proof -
  have n: "strconv_ParseInt ''9000'' = Some 9000" "strconv_ParseInt ''2'' = Some 2" "strconv_ParseInt ''1'' = Some 1" by code_simp+
  have i: "in_int64 9000" "in_int64 2" by (simp_all add: in_int64_def)
  show ?short
    using n i by (simp add: parse_command parse_simps command_defs flag_like_def short_tokens flag_Parse.simps)
  show ?twice
    using n app_Run_command [OF command_names(2) find_commands(3), of "[''-p=1'', ''--port=2'']" arg0]
    by (simp add: parse_simps command_defs flag_like_def short_tokens flag_Parse.simps)
qed

text \<open>The command lines of the processes that the tool starts itself have one dash.\<close>

lemma parsed_exec:
  "parsed [arg0, ''worker-exec'', ''-config='' @ f] = Some (DoWorkerExec f)"
  "parsed [arg0, ''load-balancer-exec'', ''-config='' @ f] = Some (DoLoadBalancerExec f)"
proof -
  have t: "token_of (''-config='' @ f) = Flag ''config'' (Some f)" using token_of_assignment(2) [of "''config''" f] by simp
  have r: "reorder_args [''-config='' @ f] = [''-config='' @ f]" by (rule reorder_args_same) (simp_all add: flag_like_def strings_HasPrefix_def)
  show "parsed [arg0, ''worker-exec'', ''-config='' @ f] = Some (DoWorkerExec f)"
    "parsed [arg0, ''load-balancer-exec'', ''-config='' @ f] = Some (DoLoadBalancerExec f)"
    using t r by (simp_all add: parse_command parse_simps command_defs flag_Parse.simps(2))
qed

end
