(* ===== verification/AdminMain.thy ===== *)
theory AdminMain
  imports AdminCommands Launch
begin

text \<open>
  \<open>main\<close> of the admin tool (\<open>worker/admin/main.go\<close>): from the command line to the operations of \<open>Admin\<close> and
  \<open>Launch\<close>.
\<close>

text \<open>
  What the commands meet outside: the surroundings of the servers that \<open>worker-exec\<close> and \<open>load-balancer-exec\<close>
  run, and the answers of the object store to \<open>registry\<close> and \<open>upload\<close>.
\<close>

record ('c, 'd) main_env =
  me_admin :: "'d admin_env"
  me_docker :: goerror
  me_types :: "string list"
  me_start :: "'c start_env"
  me_open_log :: "string \<Rightarrow> goerror"
  me_listen :: "string \<Rightarrow> goerror"
  me_bind :: "int \<Rightarrow> goerror"
  me_rounds :: "bucket_round list"
  me_minio :: goerror
  me_store :: "string \<Rightarrow> string \<Rightarrow> string \<Rightarrow> string \<Rightarrow> string \<Rightarrow> goerror \<times> bool \<times> goerror \<times> goerror \<times> goerror"
  me_text :: "flag_error \<Rightarrow> string"

definition only_result :: "'r res \<Rightarrow> 'd admin \<Rightarrow> 'd command" where
  "only_result r s = (case r of Ret _ \<Rightarrow> (Ret None, s) | Panic m \<Rightarrow> (Panic m, s) | Exit m \<Rightarrow> (Exit m, s) | Block \<Rightarrow> (Block, s))"

fun perform :: "('c, 'd) main_env \<Rightarrow> invocation \<Rightarrow> 'd admin \<Rightarrow> 'd command" where
  "perform env (DoNew c) s = newCluster (me_admin env) c s"
| "perform env (DoStatus c) s =
     (case admin_status (me_admin env) (me_types env) c s of
        Ret (Inl e) \<Rightarrow> (Ret (Some e), s)
      | r \<Rightarrow> only_result r s)"
| "perform env (DoWorkers c foreach port n) s = workers (me_admin env) c foreach port n s"
| "perform env (DoWorkerExec f) s = 
     only_result (worker_exec (server_Main (me_start env) (parse_config (me_admin env) s) (me_open_log env) (me_listen env)) f) s"
| "perform env (DoRethinkdb c n) s = rethinkdb (me_admin env) c n s"
| "perform env (DoNginx c port n) s = nginx (me_admin env) c port n s"
| "perform env (DoLoadBalancerExec f) s = 
     only_result (loadBalancerExec (lb_reader (me_admin env) s) (me_bind env) f) s"
| "perform env (DoLoadBalancer c port) s = loadBalancer (me_admin env) c port s"
| "perform env (DoRegistry c access secret port) s = registry (me_admin env) (me_rounds env) (me_minio env) c access secret port s"
| "perform env (DoUpload access secret address handler file) s =
     (case me_store env access secret address handler file of
        (minio_err, exists, exists_err, make_err, put_err) \<Rightarrow> (Ret (upload minio_err exists exists_err make_err put_err), s))"
| "perform env (DoKill c) s = kill (me_admin env) (me_types env) c s"
| "perform env (DoSetconf c args) s = setconf (me_admin env) c args s"

definition admin_main :: "('c, 'd) main_env \<Rightarrow> string list \<Rightarrow> 'd admin \<Rightarrow> 'd command" where
  "admin_main env argv s =
     (case me_docker env of
        Some e \<Rightarrow> (Exit (''failed to get docker client: '' @ e), s)
      | None \<Rightarrow>
          (case app_Run admin_commands argv of
             Run act cx \<Rightarrow>
               (case perform env (invocation_of act cx) s of (Ret (Some e), s1) \<Rightarrow> (Exit e, s1) | r \<Rightarrow> r)
           | Misused e \<Rightarrow> (Exit (me_text env e), s)
           | NoHelpTopic t \<Rightarrow> (Exit (''No help topic for '' @ [CHR 0x27] @ t @ [CHR 0x27]), s)
           | CliPanic \<Rightarrow> (Panic ''flag redefined'', s)
           | _ \<Rightarrow> (Ret None, s)))"

subsection \<open>A cluster from its first command to its workers\<close>

lemma admin_main_parsed:
  assumes "me_docker env = None" "parsed argv = Some i"
  shows "admin_main env argv s = (case perform env i s of (Ret (Some e), s1) \<Rightarrow> (Exit e, s1) | r \<Rightarrow> r)"
  using assms by (simp add: admin_main_def parsed_def split: cli_result.splits)

lemma server_Main_plain:
  assumes "parse path = Inr c" "plain_template c" "\<forall>args. se_pip env args = None" "bind (CHR '':'' # Worker_port c) = None"
  shows "\<exists>r. server_Main env parse open_log bind path = Ret r \<and>
     rn_worker r = new_worker (Worker_dir c) (Max_runners c) (Handler_cache_size c) (Sandbox_create_hard_limit c)"
proof -
  obtain rm where "InitRegistryManager (se_mkdirAll env) (se_minio env) (Registry c) (Registry_dir c) = (rm, None)"
    using assms(2) by (simp add: plain_template_def InitRegistryManager_def)
  moreover have "distinct (Startup_pkgs c)" using assms(2) by (simp add: plain_template_def)
  then obtain pm where "InitInstallManager (se_pip env) (Pip_index c) (Pkgs_dir c) (Startup_pkgs c) = Ret (Inr pm)"
    using InitInstallManager_start(1) [OF assms(3)] by blast
  ultimately show ?thesis
    using assms
    by (simp add: server_Main_def NewServer_def start_handlers_def InitCacheManager_def InitHandlerContainerFactory_def plain_template_def)
qed

text \<open>
  C10.  A cluster from the command line.  Where there was nothing, \<open>admin new\<close> and \<open>admin workers\<close> succeed; the
  processes started are command lines of the same tool, which reads each of them as \<open>worker-exec\<close> on the
  configuration of that worker, and the worker then comes up, with the directory of its own and without
  handlers, if its port, counted from the given one, is free and \<open>pip\<close> works.
\<close>

theorem admin_starts_serving_workers:
  assumes "cluster_at ws" and "calm (me_admin env)" and "vacant ws (a_fs s)"
    and "\<forall>f. same_outside ws f (ae_untar (me_admin env) (basePath (abs_path ws)) f)"
    and "me_docker env = None" and "in_int64 portbase" and "in_int64 n"
    and "\<forall>args. se_pip (me_start env) args = None"
    and "\<forall>i < nat n. me_listen env (CHR '':'' # strconv_Itoa (portbase + int i)) = None"
  shows "\<exists>s1 s2. admin_main env (arg0 # argv_of (DoNew (abs_path ws))) s = (Ret None, s1) \<and>
     admin_main env (arg0 # argv_of (DoWorkers (abs_path ws) False portbase n)) s1 = (Ret None, s2) \<and>
     length (a_procs s2) = length (a_procs s1) + nat n \<and>
     (\<forall>i < nat n.
        parsed (snd (a_procs s2 ! (length (a_procs s1) + i))) = Some (DoWorkerExec (configPath (abs_path ws) (worker_id i))) \<and>
        admin_main env (snd (a_procs s2 ! (length (a_procs s1) + i))) s2 = (Ret None, s2) \<and>
        (\<exists>r. \<exists>c :: config. server_Main (me_start env) (parse_config (me_admin env) s2) (me_open_log env) (me_listen env)
                 (configPath (abs_path ws) (worker_id i)) = Ret r \<and>
               rn_worker r = new_worker (workerPath (abs_path ws) (worker_id i)) (Max_runners c) (Handler_cache_size c)
                               (Sandbox_create_hard_limit c)))"
proof -
  let ?a = "me_admin env"
  obtain s1 s2 pids where new: "newCluster ?a (abs_path ws) s = (Ret None, s1)"
    and run: "workers ?a (abs_path ws) False portbase n s1 = (Ret None, s2)"
    and len: "length pids = nat n" and procs: "a_procs s2 = a_procs s1 @ zip pids (map (worker_cmd ?a ws) [0..<nat n])"
    and conf: "\<forall>i < nat n. \<exists>c. parse_config ?a s2 (configPath (abs_path ws) (worker_id i)) = Inr c \<and> plain_template c \<and>
           Worker_port c = strconv_Itoa (portbase + int i) \<and> Worker_dir c = workerPath (abs_path ws) (worker_id i)"
    using new_cluster_workers [OF assms(1-4), of portbase n] by blast
  have cmd: "parsed (snd (a_procs s2 ! (length (a_procs s1) + i))) = Some (DoWorkerExec (configPath (abs_path ws) (worker_id i)))"
    if "i < nat n" for i
  proof -
    have "snd (a_procs s2 ! (length (a_procs s1) + i)) = worker_cmd ?a ws i" using that len by (simp add: procs nth_append)
    then show ?thesis by (simp only: worker_cmd_def parsed_exec)
  qed
  have up: "\<exists>r. \<exists>c :: config. server_Main (me_start env) (parse_config ?a s2) (me_open_log env) (me_listen env) (configPath (abs_path ws) (worker_id i)) = Ret r \<and>
      rn_worker r = new_worker (workerPath (abs_path ws) (worker_id i)) (Max_runners c) (Handler_cache_size c) (Sandbox_create_hard_limit c)"
    if i: "i < nat n" for i
  proof -
    obtain c where c: "parse_config ?a s2 (configPath (abs_path ws) (worker_id i)) = Inr c" "plain_template c"
      "Worker_port c = strconv_Itoa (portbase + int i)" "Worker_dir c = workerPath (abs_path ws) (worker_id i)"
      using conf i by blast
    have "me_listen env (CHR '':'' # Worker_port c) = None" using assms(9) i c(3) by simp
    from server_Main_plain [where parse = "parse_config ?a s2" and open_log = "me_open_log env" and bind = "me_listen env" and env = "me_start env", OF c(1,2) assms(8) this]
    show ?thesis unfolding c(4) by blast
  qed
  have ne: "configPath (abs_path ws) (worker_id i) \<noteq> []" for i
    unfolding cluster_paths(2) [OF assms(1)] by (cases ws) simp_all
  have "admin_main env (snd (a_procs s2 ! (length (a_procs s1) + i))) s2 = (Ret None, s2)" if "i < nat n" for i
    using up [OF that] ne [of i] by (auto simp: admin_main_parsed [OF assms(5) cmd [OF that]] worker_exec_def only_result_def)
  moreover have "admin_main env (arg0 # argv_of (DoNew (abs_path ws))) s = (Ret None, s1)"
    using new by (simp add: admin_main_parsed [OF assms(5) parsed_simple(1)] del: argv_of.simps)
  moreover have "admin_main env (arg0 # argv_of (DoWorkers (abs_path ws) False portbase n)) s1 = (Ret None, s2)"
    using run by (simp add: admin_main_parsed [OF assms(5) parsed_workers [OF assms(6,7)]] del: argv_of.simps)
  moreover have "length (a_procs s2) = length (a_procs s1) + nat n" using len by (simp add: procs)
  ultimately show ?thesis using cmd up by blast
qed

definition ex_main :: "(unit, unit) main_env" where
  "ex_main = \<lparr>me_admin = ex_admin_env, me_docker = None, me_types = [], me_start = ex_start, me_open_log = (\<lambda>_. None), me_listen = (\<lambda>_. None),
     me_bind = (\<lambda>_. None), me_rounds = [], me_minio = None, me_store = (\<lambda>_ _ _ _ _. (None, True, None, None, None)), me_text = (\<lambda>_. ''usage'')\<rparr>"

theorem admin_starts_serving_workers_witness:
  "\<exists>s1 s2. admin_main ex_main [''admin'', ''new'', ''--cluster=/c''] ex_empty = (Ret None, s1) \<and>
     admin_main ex_main (''admin'' # argv_of (DoWorkers ''/c'' False 7081 2)) s1 = (Ret None, s2) \<and>
     length (a_procs s2) = length (a_procs s1) + 2 \<and>
     admin_main ex_main (snd (a_procs s2 ! (length (a_procs s1) + 1))) s2 = (Ret None, s2)"
proof -
  have env: "me_admin ex_main = ex_admin_env" "me_docker ex_main = None" "\<forall>args. se_pip (me_start ex_main) args = None"
    "\<forall>i < nat 2. me_listen ex_main (CHR '':'' # strconv_Itoa (7081 + int i)) = None"
    by (simp_all add: ex_main_def ex_start_def)
  have untar: "\<forall>f. same_outside [''c''] f (ae_untar (me_admin ex_main) (basePath (abs_path [''c''])) f)" by (simp add: env(1))
  have calm: "calm (me_admin ex_main)" using ex_calm(1) by (simp add: env(1))
  have i: "in_int64 7081" "in_int64 2" by (simp_all add: in_int64_def)
  have argv: "''admin'' # argv_of (DoNew (abs_path [''c''])) = [''admin'', ''new'', ''--cluster=/c'']" by code_simp
  have c: "abs_path [''c''] = ''/c''" by code_simp
  obtain s1 s2 where "admin_main ex_main [''admin'', ''new'', ''--cluster=/c''] ex_empty = (Ret None, s1)"
    "admin_main ex_main (''admin'' # argv_of (DoWorkers ''/c'' False 7081 2)) s1 = (Ret None, s2)"
    "length (a_procs s2) = length (a_procs s1) + nat 2"
    and all: "\<forall>i < nat 2. admin_main ex_main (snd (a_procs s2 ! (length (a_procs s1) + i))) s2 = (Ret None, s2)"
    using admin_starts_serving_workers [OF ex_calm(2) calm ex_vacant untar env(2) i env(3,4), of "''admin''"]
    unfolding argv unfolding c by blast
  moreover have "admin_main ex_main (snd (a_procs s2 ! (length (a_procs s1) + 1))) s2 = (Ret None, s2)"
    by (rule all [rule_format]) simp
  ultimately show ?thesis by (intro exI [of _ s1] exI [of _ s2]) (simp del: argv_of.simps)
qed

end
