(* ===== verification/Shutdown.thy ===== *)
theory Shutdown
  imports WorkerProps CacheManager DockerContainer
begin

text \<open>
  The end of a worker: on a signal \<open>Main\<close> (\<open>worker/server/server.go\<close>) cleans up and exits.  \<open>Cleanup\<close> of
  \<open>worker/handler/handler.go\<close> nukes the listed handlers, then cleans up the factory of the sandboxes
  (\<open>sandbox/sockFactory.go\<close>, \<open>sandbox/dockerFactory.go\<close>) and the import cache (\<open>cacheManager.go\<close>,
  \<open>cacheFactory.go\<close>).  The errors of the system calls are not looked at, so the calls are recorded, not answered.
\<close>

subsection \<open>The factories\<close>

datatype cleanup_call = RemoveAll string | Unmount string

definition sock_factory_Cleanup :: "string \<Rightarrow> cleanup_call list" where
  "sock_factory_Cleanup rootDir =
     map (\<lambda>cgroup. RemoveAll (path_Join [''/sys/fs/cgroup'', cgroup, OLCGroupName])) CGroupList @ [Unmount rootDir, RemoveAll rootDir]"

definition docker_factory_Cleanup :: "cleanup_call list" where
  "docker_factory_Cleanup = []"

definition factory_Cleanup :: "factory_spec \<Rightarrow> cleanup_call list" where
  "factory_Cleanup sf =
     (case sf of
        SockSpec rootDir _ _ _ \<Rightarrow> sock_factory_Cleanup rootDir
      | DockerSpec _ _ _ _ \<Rightarrow> docker_factory_Cleanup)"

definition cacheFactory_Cleanup :: "factory_spec \<Rightarrow> cleanup_call list" where
  "cacheFactory_Cleanup delegate = factory_Cleanup delegate"

subsection \<open>The process\<close>

text \<open>The import cache, if there is one, with the factory of its containers, and the calls made so far.\<close>

record 'c process =
  pr_worker :: "'c worker"
  pr_factory :: factory_spec
  pr_cache :: "('c cacheManager \<times> factory_spec) option"
  pr_calls :: "cleanup_call list"

definition cm_Cleanup ::
  "'c container \<Rightarrow> (int \<Rightarrow> goerror) \<Rightarrow> 'c process \<Rightarrow> ('c process, unit) outcome" where
  "cm_Cleanup ops fp p =
     (case pr_cache p of
        None \<Rightarrow> (Ret (), p)
      | Some (cm, cf) \<Rightarrow>
          (case cache_Cleanup ops fp cm of
             (Ret _, cm1) \<Rightarrow> (Ret (), p\<lparr>pr_cache := Some (cm1, cf), pr_calls := pr_calls p @ cacheFactory_Cleanup cf\<rparr>)
           | (Panic m, cm1) \<Rightarrow> (Panic m, p\<lparr>pr_cache := Some (cm1, cf)\<rparr>)
           | (Exit m, cm1) \<Rightarrow> (Exit m, p\<lparr>pr_cache := Some (cm1, cf)\<rparr>)
           | (Block, cm1) \<Rightarrow> (Block, p\<lparr>pr_cache := Some (cm1, cf)\<rparr>)))"

definition hms_Cleanup ::
  "'c container \<Rightarrow> (int \<Rightarrow> goerror) \<Rightarrow> string list \<Rightarrow> 'c process \<Rightarrow> ('c process, unit) outcome" where
  "hms_Cleanup ops fp names p =
     (case server_cleanup ops names (pr_worker p) of
        (Ret _, w1) \<Rightarrow> cm_Cleanup ops fp (p\<lparr>pr_worker := w1, pr_calls := pr_calls p @ factory_Cleanup (pr_factory p)\<rparr>)
      | (Panic m, w1) \<Rightarrow> (Panic m, p\<lparr>pr_worker := w1\<rparr>)
      | (Exit m, w1) \<Rightarrow> (Exit m, p\<lparr>pr_worker := w1\<rparr>)
      | (Block, w1) \<Rightarrow> (Block, p\<lparr>pr_worker := w1\<rparr>))"

text \<open>The goroutine that waits for a signal.\<close>

definition on_signal ::
  "'c container \<Rightarrow> (int \<Rightarrow> goerror) \<Rightarrow> string list \<Rightarrow> 'c process \<Rightarrow> ('c process, unit) outcome" where
  "on_signal ops fp names p =
     (case hms_Cleanup ops fp names p of
        (Ret _, p1) \<Rightarrow> (Exit ''exit status 1'', p1)
      | (Panic m, p1) \<Rightarrow> (Panic m, p1)
      | (Exit m, p1) \<Rightarrow> (Exit m, p1)
      | (Block, p1) \<Rightarrow> (Block, p1))"

subsection \<open>All that is listed is nuked\<close>

lemma nuke_all_effect:
  assumes "distinct hs" "\<forall>h \<in> set hs. h < length (heap s) \<and> h_sandbox (heap s ! h) \<noteq> None"
  shows "\<exists>s'. nuke_all ops hs s = (Ret (), s') \<and> length (heap s') = length (heap s) \<and>
    (\<forall>h < length (heap s). h_sandbox (heap s' ! h) =
       (if h \<in> set hs then map_option (nuke_container ops) (h_sandbox (heap s ! h)) else h_sandbox (heap s ! h)))"
  using assms
proof (induction hs arbitrary: s)
  case (Cons h hs)
  then obtain c where c: "h_sandbox (heap s ! h) = Some c" "h < length (heap s)" by auto
  let ?s1 = "upd_handler h (\<lambda>x. x\<lparr>h_sandbox := Some (nuke_container ops c)\<rparr>) s"
  have "\<forall>k \<in> set hs. k < length (heap ?s1) \<and> h_sandbox (heap ?s1 ! k) \<noteq> None"
    using Cons.prems by (auto simp: nth_list_update_if)
  with Cons.IH [of ?s1] Cons.prems(1) obtain s' where s': "nuke_all ops hs ?s1 = (Ret (), s')" "length (heap s') = length (heap s)"
    "\<forall>k < length (heap s). h_sandbox (heap s' ! k) =
       (if k \<in> set hs then map_option (nuke_container ops) (h_sandbox (heap ?s1 ! k)) else h_sandbox (heap ?s1 ! k))"
    by auto
  then show ?case
    using Cons.prems(1) c by (auto simp: nuke_def nth_list_update_if)
qed simp

lemma nuke_all_panics:
  assumes "h \<in> set hs" "h_sandbox (heap s ! h) = None" "\<forall>h \<in> set hs. h < length (heap s)"
  shows "fst (nuke_all ops hs s) = nil_deref"
  using assms
proof (induction hs arbitrary: s)
  case (Cons k hs)
  show ?case
  proof (cases "h_sandbox (heap s ! k)")
    case None
    then show ?thesis by (simp add: nuke_def)
  next
    case (Some c)
    let ?s1 = "upd_handler k (\<lambda>x. x\<lparr>h_sandbox := Some (nuke_container ops c)\<rparr>) s"
    have "fst (nuke_all ops hs ?s1) = nil_deref"
      by (rule Cons.IH) (use Cons.prems Some in \<open>auto simp: nth_list_update_if\<close>)
    then show ?thesis using Some by (simp add: nuke_def)
  qed
qed simp

lemma managed_handlers_wf:
  assumes "hms_wf s" "distinct names"
  shows "distinct (managed_handlers names s)"
    and "h \<in> set (managed_handlers names s) \<Longrightarrow> h < length (heap s) \<and> h_name (heap s ! h) \<in> set names"
proof -
  define lst where "lst name = (case hmMap s name of None \<Rightarrow> [] | Some hm \<Rightarrow> contents (hm_handlers hm))" for name
  have lst: "distinct (lst name)" "\<forall>h \<in> set (lst name). h < length (heap s) \<and> h_name (heap s ! h) = name" for name
    using hms_wfD(2) [OF assms(1), of name] lm_contents_distinct
    by (cases "hmMap s name"; force simp: hm_wf_def lst_def)+
  have mh: "managed_handlers ns s = concat (map lst ns)" for ns
    unfolding managed_handlers_def by (rule arg_cong [where f = concat]) (simp add: lst_def cong: map_cong)
  show "h \<in> set (managed_handlers names s) \<Longrightarrow> h < length (heap s) \<and> h_name (heap s ! h) \<in> set names"
    using lst(2) by (auto simp: mh)
  show "distinct (managed_handlers names s)"
    using assms(2)
  proof (induction names)
    case (Cons name names)
    have "set (lst name) \<inter> set (managed_handlers names s) = {}"
    proof -
      have "name = n" if "h \<in> set (lst name)" "h \<in> set (lst n)" for h n using lst(2) that by metis
      with Cons.prems show ?thesis by (auto simp: mh)
    qed
    with Cons lst(1) show ?case by (simp add: mh)
  qed (simp add: mh)
qed

lemma nth_list_update_at: "k < length xs \<Longrightarrow> xs[i := v] ! k = (if k = i then v else xs ! k)"
  by (auto simp: nth_list_update)

lemma Kill_effect:
  assumes "i < length (fheap s)" "fs_Sandbox (fheap s ! i) \<noteq> None"
  shows "\<exists>r s'. Kill ops fp i s = (Ret r, s') \<and> length (fheap s') = length (fheap s) \<and>
    (\<forall>k < length (fheap s). (fs_Sandbox (fheap s' ! k) \<noteq> None) = (fs_Sandbox (fheap s ! k) \<noteq> None) \<and>
       fs_Dead (fheap s' ! k) = (k = i \<or> fs_Dead (fheap s ! k)))"
  using assms
  by (auto simp: Kill_def Let_def nth_list_update_at split: option.splits)

lemma kill_all_effect:
  assumes "\<forall>i \<in> set is. i < length (fheap s) \<and> fs_Sandbox (fheap s ! i) \<noteq> None"
  shows "\<exists>s'. kill_all ops fp is s = (Ret (), s') \<and> (\<forall>k < length (fheap s). fs_Dead (fheap s' ! k) = (k \<in> set is \<or> fs_Dead (fheap s ! k)))"
  using assms
proof (induction "is" arbitrary: s)
  case (Cons i "is")
  with Kill_effect [of i s ops fp] obtain r s1 where s1: "Kill ops fp i s = (Ret r, s1)" "length (fheap s1) = length (fheap s)"
    "\<forall>k < length (fheap s). (fs_Sandbox (fheap s1 ! k) \<noteq> None) = (fs_Sandbox (fheap s ! k) \<noteq> None) \<and>
       fs_Dead (fheap s1 ! k) = (k = i \<or> fs_Dead (fheap s ! k))" by auto
  with Cons.IH [of s1] Cons.prems show ?case by auto
qed simp


text \<open>A worker whose mutex was left held never obeys.\<close>

lemma signal_ignored: "hms_locked (w_set (pr_worker p)) \<Longrightarrow> fst (on_signal ops fp names p) = Block"
  by (simp add: on_signal_def hms_Cleanup_def server_cleanup_def Cleanup_handlers_def)

definition ex_process :: "sockContainer process" where
  "ex_process = \<lparr>pr_worker = \<lparr>w_set = ex_idle, w_hist = hist_Init 4\<rparr>, pr_factory = SockSpec ''/tmp/olhandlers-1'' ''handlers'' ''-ipu'' [],
     pr_cache = None, pr_calls = []\<rparr>"


end
