(* ===== verification/LambdaRuntime.thy ===== *)
theory LambdaRuntime
  imports WorkerServer
begin

text \<open>
  The server that runs a lambda in its sandbox (\<open>lambda/server.py\<close>: \<open>init\<close>, \<open>SockFileHandler\<close>, \<open>lambda_server\<close>).
  The module of the lambda, Python's \<open>json\<close> and the answers of the web framework to other methods are arguments;
  an exception is given by the text of its traceback.
\<close>

record ('e, 'v) lambda_func =
  lf_loads :: "string \<Rightarrow> 'e option"
  lf_handler :: "'e \<Rightarrow> string + 'v"
  lf_dumps :: "'v \<Rightarrow> string + string"
  lf_headers :: "(string \<times> string list) list"
  lf_other :: "string \<Rightarrow> http_response"

definition py_respond :: "('e, 'v) lambda_func \<Rightarrow> int \<Rightarrow> string \<Rightarrow> http_response" where
  "py_respond lf code body = \<lparr>hr_StatusCode = code, hr_Header = lf_headers lf, hr_Body = body\<rparr>"

text \<open>
  \<open>post\<close>: the inner \<open>except\<close> is for bad JSON, the outer one for whatever the lambda or the encoder raises.  The interpreter is
  Python 2, where \<open>str\<close> leaves the body as it is.
\<close>

definition SockFileHandler_post :: "('e, 'v) lambda_func \<Rightarrow> string \<Rightarrow> http_response" where
  "SockFileHandler_post lf data =
     (case lf_loads lf data of
        None \<Rightarrow> py_respond lf 400 (''bad POST data: '' @ [CHR 0x22] @ data @ [CHR 0x22])
      | Some event \<Rightarrow>
          (case lf_handler lf event of
             Inl trace \<Rightarrow> py_respond lf 500 trace
           | Inr v \<Rightarrow> (case lf_dumps lf v of Inl trace \<Rightarrow> py_respond lf 500 trace | Inr t \<Rightarrow> py_respond lf 200 t)))"

definition sandbox_serves :: "('e, 'v) lambda_func \<Rightarrow> string \<Rightarrow> string \<Rightarrow> http_response" where
  "sandbox_serves lf http_method data = (if http_method = ''POST'' then SockFileHandler_post lf data else lf_other lf http_method)"

text \<open>
  \<open>lambda_server\<close>: the lambda is imported, once, the socket bound, and \<open>ready\<close> written to the pipe on which
  \<open>RunStart\<close> waits.  An error on the way ends the process, and nothing is written.
\<close>

record runtime =
  rt_initialized :: bool
  rt_ready :: bool

definition py_init :: "goerror \<Rightarrow> runtime \<Rightarrow> string + runtime" where
  "py_init import_error rt =
     (if rt_initialized rt then Inr rt
      else (case import_error of Some e \<Rightarrow> Inl e | None \<Rightarrow> Inr (rt\<lparr>rt_initialized := True\<rparr>)))"

definition lambda_server :: "goerror \<Rightarrow> goerror \<Rightarrow> goerror \<Rightarrow> runtime \<Rightarrow> string + runtime" where
  "lambda_server import_error bind_error pipe_error rt =
     (case py_init import_error rt of
        Inl e \<Rightarrow> Inl e
      | Inr rt1 \<Rightarrow>
          (case bind_error of
             Some e \<Rightarrow> Inl e
           | None \<Rightarrow> (case pipe_error of Some e \<Rightarrow> Inl e | None \<Rightarrow> Inr (rt1\<lparr>rt_ready := True\<rparr>))))"

lemma lambda_server_ready:
  "lambda_server import_error bind_error pipe_error rt = Inr rt' \<Longrightarrow>
     rt_ready rt' \<and> rt_initialized rt' \<and> bind_error = None \<and> pipe_error = None \<and> (rt_initialized rt \<or> import_error = None)"
  by (auto simp: lambda_server_def py_init_def split: option.splits if_splits)

text \<open>Every request by \<open>POST\<close> is answered, with one of three codes, and with the lambda's value only if nothing was raised.\<close>

lemma post_codes:
  "hr_StatusCode (SockFileHandler_post lf data) \<in> {200, 400, 500}"
  "hr_StatusCode (SockFileHandler_post lf data) = 200 \<longleftrightarrow>
     (\<exists>event v t. lf_loads lf data = Some event \<and> lf_handler lf event = Inr v \<and> lf_dumps lf v = Inr t \<and>
        hr_Body (SockFileHandler_post lf data) = t)"
  by (auto simp: SockFileHandler_post_def py_respond_def split: option.splits sum.splits)

text \<open>
  A lambda whose module cannot be imported never reports \<open>ready\<close>; its first request waits the 20 seconds out and
  fails.
\<close>

lemma broken_lambda_not_ready:
  assumes "lambda_server (Some e) bind_error pipe_error \<lparr>rt_initialized = False, rt_ready = False\<rparr> = r"
    and "e_ready env \<longleftrightarrow> (\<exists>rt. r = Inr rt \<and> rt_ready rt)"
    and "\<not> h_locked (heap s ! h)" "h_sandbox (heap s ! h) = None" "hmMap s (h_name (heap s ! h)) = Some hm"
    and "await_memory (e_memUsage env) h s = (Ret (), s1)" "create_sandbox ops env hm h s1 = (Ret None, s2)"
  shows "RunStart ops env h s = (Ret (Inl ''handler server failed to initialize after 20s''), s2)"
proof -
  have "\<not> e_ready env" using assms(1,2) by (auto simp: lambda_server_def py_init_def)
  then show ?thesis using assms(3-7) by (simp add: RunStart_def)
qed

end
