(* ===== verification/EndToEnd.thy ===== *)
theory EndToEnd
  imports Gateway LambdaRuntime Launch
begin

text \<open>
  A request on its whole way: the routes of the load balancer, its choice of a worker, the routes of the worker,
  \<open>RunLambda\<close>, the lambda's server in the sandbox, and back.
\<close>

lemma lb_handler_answered:
  assumes "lb_ok p" and "p_Policy p = ''RoundRobin''" and "distinct (map s_Name (p_Servers p))" and "p_Servers p \<noteq> []"
    and "p_MaxConn p = - 1 \<or> p_Connections p < p_MaxConn p"
    and "\<forall>url. le_parse env url = None" and "\<forall>url. le_do env url = Inr resp" and "l_readErr resp = None"
  shows "\<exists>a p'. lb_handler env r p = (Ret (a, write_reply resp), p')"
proof -
  let ?p1 = "p\<lparr>p_Connections := p_Connections p + 1\<rparr>"
  have "lb_ok ?p1" using assms(1) by (simp add: lb_ok_def)
  then obtain a p2 r2 where "attemptServers env [] (?p1, r) = (Ret ([a], write_reply resp), (p2, r2))"
    using roundRobin_answered [of ?p1 env resp r] assms(2-4,6-8) by auto
  then show ?thesis using assms(5) by (auto simp: lb_handler_def Let_def)
qed


text \<open>A lambda that doubles a text, and a code that is faithful on its answer.\<close>

definition ex_lambda :: "(string, string) lambda_func" where
  "ex_lambda = \<lparr>lf_loads = Some, lf_handler = (\<lambda>t. if t = [] then Inl ''Traceback'' else Inr (t @ t)), lf_dumps = Inr, lf_headers = [],
     lf_other = (\<lambda>m. \<lparr>hr_StatusCode = 405, hr_Header = [], hr_Body = []\<rparr>)\<rparr>"

definition ex_lambda_env :: "sockContainer worker_env" where
  "ex_lambda_env = (ex_wenv (\<lambda>_. Inr (sandbox_serves ex_lambda ''POST'' ''ab'')))\<lparr>we_body := Inr ''ab''\<rparr>"

definition ex_decode :: "string \<Rightarrow> httpResp option" where
  "ex_decode t = Some \<lparr>ResponseCode = 200, ResponseHeader = cors_headers [], ResponseBody = t, TotalMem = 4, FreeMem = 1, CPUUsage = Fin 0\<rparr>"

definition ex_lambda_out :: "w_reply list" where
  "ex_lambda_out = snd (snd (RunLambda ex_ops ex_lambda_env ''POST'' ''/runLambda/f'' ex_worker))"

lemma ex_lambda_out: "ex_lambda_out = [WHeader 200, WBody (the (ex_decode ''abab''))]"
  by code_simp


end
