(* ===== verification/LoadGenerator.thy ===== *)
theory LoadGenerator
  imports AdminCommands HandlerManager GoFloat "HOL-Library.Multiset"
begin

text \<open>
  The load generator (\<open>benchmark/main.go\<close>): from the configuration to a channel of jobs for every command, the goroutines
  that post them, and the times they report.  Answers and clock are arguments; the channels \<open>done\<close> and \<open>chls\<close>, which
  are made and never used, are left out.
\<close>

subsection \<open>Configuration and jobs\<close>

record benchCommand =
  bc_Cmd :: string
  bc_NumThreads :: int
  bc_TotalCmds :: int
  bc_NumLambdas :: int

record benchmarkConfig =
  bg_Host :: string
  bg_Port :: int
  bg_OlPath :: string
  bg_RegistryMachines :: "string list"
  bg_Cmds :: "benchCommand list"

record job =
  j_ID :: int
  j_url :: string
  j_lambda :: string
  j_cmds :: string

record perfMetrics =
  pm_jobID :: int
  pm_lambda :: string
  pm_runTime :: int

text \<open>The channel of jobs is its contents, its capacity and whether it is closed.\<close>

record workerPool =
  wp_workerID :: int
  wp_numWorkers :: int
  wp_numJobs :: int
  wp_jobs :: "job list"
  wp_capacity :: int
  wp_closed :: bool

definition LAMBDA_BASE :: string where
  "LAMBDA_BASE = ''hello_''"

definition BENCHMARK_PREPARE_SCRIPT :: string where
  "BENCHMARK_PREPARE_SCRIPT = ''/mnt/lambda_scheduler/s19-lambda/benchmark/benchmark_prepare.sh''"

definition RUN_LAMBDA_BASE :: string where
  "RUN_LAMBDA_BASE = ''/runLambda/''"

definition bench_readConfig ::
  "(string \<Rightarrow> string + string) \<Rightarrow> (string \<Rightarrow> string + benchmarkConfig) \<Rightarrow> string \<Rightarrow> string + benchmarkConfig" where
  "bench_readConfig read_file unmarshal conf = (case read_file conf of Inl e \<Rightarrow> Inl e | Inr bytes \<Rightarrow> unmarshal bytes)"

text \<open>The command line of the script that would upload the lambdas.\<close>

definition prepBenchmark :: "benchmarkConfig \<Rightarrow> string list" where
  "prepBenchmark cfg =
     [''/bin/bash'', BENCHMARK_PREPARE_SCRIPT, strconv_Itoa (int (length (bg_Cmds cfg))), bg_OlPath cfg] @ bg_RegistryMachines cfg"

definition makeUrl :: "string \<Rightarrow> int \<Rightarrow> string" where
  "makeUrl host port = ''http://'' @ host @ '':'' @ strconv_Itoa port"

definition new_pool :: "nat \<Rightarrow> benchCommand \<Rightarrow> workerPool res" where
  "new_pool i c =
     (if bc_TotalCmds c < 0 then Panic ''makechan: size out of range''
      else Ret \<lparr>wp_workerID = int i, wp_numWorkers = bc_NumThreads c, wp_numJobs = bc_TotalCmds c,
                wp_jobs = [], wp_capacity = bc_TotalCmds c, wp_closed = False\<rparr>)"

definition chan_send :: "job \<Rightarrow> workerPool \<Rightarrow> (workerPool, unit) outcome" where
  "chan_send j p =
     (if wp_closed p then (Panic ''send on closed channel'', p)
      else if int (length (wp_jobs p)) < wp_capacity p then (Ret (), p\<lparr>wp_jobs := wp_jobs p @ [j]\<rparr>)
      else (Block, p))"

fun send_jobs :: "nat list \<Rightarrow> job \<Rightarrow> workerPool \<Rightarrow> (workerPool, unit) outcome" where
  "send_jobs [] template p = (Ret (), p)"
| "send_jobs (i # is) template p =
     (case chan_send (template\<lparr>j_ID := int i\<rparr>) p of
        (Ret _, p1) \<Rightarrow> send_jobs is (template\<lparr>j_ID := int i\<rparr>) p1
      | r \<Rightarrow> r)"

definition addLambdaRequests :: "workerPool \<Rightarrow> job \<Rightarrow> (workerPool, unit) outcome" where
  "addLambdaRequests p template =
     (case send_jobs [0..<nat (wp_numJobs p)] template p of
        (Ret _, p1) \<Rightarrow> (Ret (), p1\<lparr>wp_closed := True\<rparr>)
      | r \<Rightarrow> r)"

definition job_template :: "string \<Rightarrow> nat \<Rightarrow> benchCommand \<Rightarrow> job" where
  "job_template url i c =
     \<lparr>j_ID = 0, j_url = url @ RUN_LAMBDA_BASE @ LAMBDA_BASE @ strconv_Itoa (int i + 1),
      j_lambda = LAMBDA_BASE @ strconv_Itoa (int i + 1), j_cmds = bc_Cmd c\<rparr>"

fun make_pools :: "nat \<Rightarrow> benchCommand list \<Rightarrow> workerPool list res" where
  "make_pools i [] = Ret []"
| "make_pools i (c # cs) =
     (case new_pool i c of
        Ret p \<Rightarrow> (case make_pools (Suc i) cs of Ret ps \<Rightarrow> Ret (p # ps) | r \<Rightarrow> r)
      | Panic m \<Rightarrow> Panic m | Exit m \<Rightarrow> Exit m | Block \<Rightarrow> Block)"

fun fill_pools :: "string \<Rightarrow> nat \<Rightarrow> benchCommand list \<Rightarrow> workerPool list \<Rightarrow> workerPool list res" where
  "fill_pools url i (c # cs) (p # ps) =
     (case addLambdaRequests p (job_template url i c) of
        (Ret _, p1) \<Rightarrow> (case fill_pools url (Suc i) cs ps of Ret ps1 \<Rightarrow> Ret (p1 # ps1) | r \<Rightarrow> r)
      | (Panic m, _) \<Rightarrow> Panic m | (Exit m, _) \<Rightarrow> Exit m | (Block, _) \<Rightarrow> Block)"
| "fill_pools url i _ _ = Ret []"

subsection \<open>The goroutines\<close>

text \<open>
  A goroutine takes a job from the channel, posts it and appends the time to \<open>Metrics\<close>, which all share: it reads the
  slice and later stores the longer one.  An error of the request ends the process.
\<close>

datatype wpc = Ranging | Posting job | Reading perfMetrics | Storing perfMetrics "perfMetrics list" | Finished | Crashed

record bench =
  b_pools :: "workerPool list"
  b_workers :: "(nat \<times> wpc) list"
  b_Metrics :: "perfMetrics list"
  b_posted :: "job list"
  b_exit :: goerror

definition singleLambdaRequest :: "string + int \<times> int \<Rightarrow> int res" where
  "singleLambdaRequest ans = (case ans of Inl e \<Rightarrow> Exit e | Inr (start_time, end_time) \<Rightarrow> Ret (go_div (end_time - start_time) 1000000))"

definition cmdWorker :: "string + int \<times> int \<Rightarrow> nat \<Rightarrow> wpc \<Rightarrow> bench \<Rightarrow> (wpc \<times> bench) option" where
  "cmdWorker ans k pc s =
     (case pc of
        Ranging \<Rightarrow>
          (case wp_jobs (b_pools s ! k) of
             j # js \<Rightarrow> Some (Posting j, s\<lparr>b_pools := (b_pools s)[k := (b_pools s ! k)\<lparr>wp_jobs := js\<rparr>]\<rparr>)
           | [] \<Rightarrow> if wp_closed (b_pools s ! k) then Some (Finished, s) else None)
      | Posting j \<Rightarrow>
          (case singleLambdaRequest ans of
             Ret t \<Rightarrow> Some (Reading \<lparr>pm_jobID = j_ID j, pm_lambda = j_lambda j, pm_runTime = t\<rparr>, s\<lparr>b_posted := b_posted s @ [j]\<rparr>)
           | Exit e \<Rightarrow> Some (Crashed, s\<lparr>b_posted := b_posted s @ [j], b_exit := Some e\<rparr>)
           | _ \<Rightarrow> None)
      | Reading m \<Rightarrow> Some (Storing m (b_Metrics s), s)
      | Storing m xs \<Rightarrow> Some (Ranging, s\<lparr>b_Metrics := xs @ [m]\<rparr>)
      | _ \<Rightarrow> None)"

inductive bench_step :: "(job \<Rightarrow> string + int \<times> int \<Rightarrow> bool) \<Rightarrow> bench \<Rightarrow> bench \<Rightarrow> bool" for answers where
  step: "b_exit s = None \<Longrightarrow> i < length (b_workers s) \<Longrightarrow> b_workers s ! i = (k, pc) \<Longrightarrow>
         (\<forall>j. pc = Posting j \<longrightarrow> answers j ans) \<Longrightarrow> cmdWorker ans k pc s = Some (pc', s') \<Longrightarrow>
         bench_step answers s (s'\<lparr>b_workers := (b_workers s)[i := (k, pc')]\<rparr>)"

inductive_cases bench_stepE: "bench_step answers s s'"

text \<open>\<open>runWorkload\<close>: all goroutines are started, then it waits until each has called \<open>wg.Done\<close>.\<close>

definition runWorkload :: "workerPool list \<Rightarrow> bench" where
  "runWorkload pools =
     \<lparr>b_pools = pools,
      b_workers = concat (map (\<lambda>k. replicate (nat (wp_numWorkers (pools ! k))) (k, Ranging)) [0..<length pools]),
      b_Metrics = [], b_posted = [], b_exit = None\<rparr>"

definition workload_done :: "bench \<Rightarrow> bool" where
  "workload_done s \<longleftrightarrow> (\<forall>w \<in> set (b_workers s). snd w = Finished)"

definition genWorkload :: "benchmarkConfig \<Rightarrow> bench res" where
  "genWorkload cfg =
     (case make_pools 0 (bg_Cmds cfg) of
        Ret pools \<Rightarrow>
          (case fill_pools (makeUrl (bg_Host cfg) (bg_Port cfg)) 0 (bg_Cmds cfg) pools of
             Ret pools1 \<Rightarrow> Ret (runWorkload pools1)
           | Panic m \<Rightarrow> Panic m | Exit m \<Rightarrow> Exit m | Block \<Rightarrow> Block)
      | Panic m \<Rightarrow> Panic m | Exit m \<Rightarrow> Exit m | Block \<Rightarrow> Block)"

subsection \<open>The report\<close>

text \<open>A map of maps, as association lists: the order in which Go runs through a map is any.\<close>

definition add_metric :: "perfMetrics \<Rightarrow> (string \<times> (int \<times> int) list) list \<Rightarrow> (string \<times> (int \<times> int) list) list" where
  "add_metric m mm =
     AList.update (pm_lambda m)
       (AList.update (pm_jobID m) (pm_runTime m) (case map_of mm (pm_lambda m) of None \<Rightarrow> [] | Some r \<Rightarrow> r)) mm"

definition genMetricsMap :: "perfMetrics list \<Rightarrow> (string \<times> (int \<times> int) list) list" where
  "genMetricsMap ms = fold add_metric ms []"

definition mean_of :: "int list \<Rightarrow> float64" where
  "mean_of vs = fdiv (foldl (\<lambda>s v. fadd s (float_of v)) (float_of 0) vs) (float_of (int (length vs)))"

definition std_of :: "(float64 \<Rightarrow> float64) \<Rightarrow> int list \<Rightarrow> float64" where
  "std_of math_Sqrt vs =
     math_Sqrt (fdiv (foldl (\<lambda>s v. let d = fsub (float_of v) (mean_of vs) in fadd s (fmul d d)) (float_of 0) vs)
                 (float_of (int (length vs) - 1)))"

definition aggregateMetrics :: "(float64 \<Rightarrow> float64) \<Rightarrow> perfMetrics list \<Rightarrow> (string \<times> float64 \<times> float64) list" where
  "aggregateMetrics math_Sqrt ms = map (\<lambda>(l, r). (l, mean_of (map snd r), std_of math_Sqrt (map snd r))) (genMetricsMap ms)"

subsection \<open>The command\<close>

definition test_command :: "unit cli_command" where
  "test_command = cli_entry ''test'' [string_flag ''config, c''] ()"

text \<open>An empty name is complained about and then read like any other.\<close>

definition startBenchmark :: "(string \<Rightarrow> string + benchmarkConfig) \<Rightarrow> cli_context \<Rightarrow> bench res" where
  "startBenchmark read_config cx =
     (case read_config (ctx_String cx ''config'') of
        Inl e \<Rightarrow> Exit e
      | Inr cfg \<Rightarrow> genWorkload cfg)"

text \<open>\<open>main\<close>, up to the workload, which \<open>None\<close> says is not begun.\<close>

definition bench_main :: "(flag_error \<Rightarrow> string) \<Rightarrow> (string \<Rightarrow> string + benchmarkConfig) \<Rightarrow> string list \<Rightarrow> bench option res" where
  "bench_main text_of read_config argv =
     (case app_Run [test_command] argv of
        Run _ cx \<Rightarrow>
          (case startBenchmark read_config cx of
             Ret s \<Rightarrow> Ret (Some s) | Panic m \<Rightarrow> Panic m | Exit m \<Rightarrow> Exit m | Block \<Rightarrow> Block)
      | Misused e \<Rightarrow> Exit (text_of e)
      | NoHelpTopic t \<Rightarrow> Exit (''No help topic for '' @ [CHR 0x27] @ t @ [CHR 0x27])
      | CliPanic \<Rightarrow> Panic ''flag redefined''
      | _ \<Rightarrow> Ret None)"

subsection \<open>The workload is what the configuration says\<close>

definition command_jobs :: "string \<Rightarrow> nat \<Rightarrow> benchCommand \<Rightarrow> job list" where
  "command_jobs url i c = map (\<lambda>n. (job_template url i c)\<lparr>j_ID := int n\<rparr>) [0..<nat (bc_TotalCmds c)]"

definition filled_pool :: "string \<Rightarrow> nat \<Rightarrow> benchCommand \<Rightarrow> workerPool" where
  "filled_pool url i c =
     \<lparr>wp_workerID = int i, wp_numWorkers = bc_NumThreads c, wp_numJobs = bc_TotalCmds c,
      wp_jobs = command_jobs url i c, wp_capacity = bc_TotalCmds c, wp_closed = True\<rparr>"

definition filled_pools :: "string \<Rightarrow> nat \<Rightarrow> benchCommand list \<Rightarrow> workerPool list" where
  "filled_pools url i cs = map (\<lambda>(k, c). filled_pool url k c) (enumerate i cs)"

lemma send_jobs_fits:
  "\<not> wp_closed p \<Longrightarrow> int (length (wp_jobs p) + length is) \<le> wp_capacity p \<Longrightarrow>
   send_jobs is t p = (Ret (), p\<lparr>wp_jobs := wp_jobs p @ map (\<lambda>i. t\<lparr>j_ID := int i\<rparr>) is\<rparr>)"
  by (induction "is" arbitrary: t p) (simp_all add: chan_send_def)

lemma addLambdaRequests_fills:
  assumes "new_pool i c = Ret p"
  shows "addLambdaRequests p (job_template url i c) = (Ret (), filled_pool url i c)"
proof -
  have p: "0 \<le> bc_TotalCmds c" "p = \<lparr>wp_workerID = int i, wp_numWorkers = bc_NumThreads c, wp_numJobs = bc_TotalCmds c,
      wp_jobs = [], wp_capacity = bc_TotalCmds c, wp_closed = False\<rparr>"
    using assms by (simp_all add: new_pool_def split: if_splits)
  then show ?thesis
    by (subst addLambdaRequests_def, subst send_jobs_fits) (simp_all add: filled_pool_def command_jobs_def)
qed

lemma fill_pools_filled:
  "make_pools i cs = Ret ps \<Longrightarrow> fill_pools url i cs ps = Ret (filled_pools url i cs)"
proof (induction cs arbitrary: i ps)
  case (Cons c cs)
  then obtain p ps' where "new_pool i c = Ret p" "make_pools (Suc i) cs = Ret ps'" "ps = p # ps'"
    by (auto split: res.splits)
  with Cons.IH addLambdaRequests_fills [of i c p url] show ?case by (simp add: filled_pools_def)
qed (simp add: filled_pools_def)

lemma make_pools_outcome:
  "if \<forall>c \<in> set cs. 0 \<le> bc_TotalCmds c then \<exists>ps. make_pools i cs = Ret ps else make_pools i cs = Panic ''makechan: size out of range''"
proof (induction cs arbitrary: i)
  case (Cons c cs)
  from Cons [of "Suc i"] show ?case by (auto simp: new_pool_def split: if_splits)
qed simp

lemma genWorkload_starts:
  "\<forall>c \<in> set (bg_Cmds cfg). 0 \<le> bc_TotalCmds c \<Longrightarrow>
   genWorkload cfg = Ret (runWorkload (filled_pools (makeUrl (bg_Host cfg) (bg_Port cfg)) 0 (bg_Cmds cfg)))"
  using make_pools_outcome [of "bg_Cmds cfg" 0] by (auto simp: genWorkload_def fill_pools_filled)

lemma negative_workload_panics:
  "c \<in> set (bg_Cmds cfg) \<Longrightarrow> bc_TotalCmds c < 0 \<Longrightarrow> genWorkload cfg = Panic ''makechan: size out of range''"
  using make_pools_outcome [of "bg_Cmds cfg" 0] by (auto simp: genWorkload_def split: if_splits)

subsection \<open>Every job is posted once\<close>

lemma sum_list_update_add:
  "k < length xs \<Longrightarrow> sum_list (xs[k := v]) + xs ! k = sum_list xs + (v :: 'a :: comm_monoid_add)"
  by (induction xs arbitrary: k) (auto simp: ac_simps split: nat.splits)

definition in_hand :: "wpc \<Rightarrow> job multiset" where
  "in_hand pc = (case pc of Posting j \<Rightarrow> {#j#} | _ \<Rightarrow> {#})"

definition jobs_left :: "bench \<Rightarrow> job multiset" where
  "jobs_left s = sum_list (map (\<lambda>w. in_hand (snd w)) (b_workers s)) + sum_list (map (\<lambda>p. mset (wp_jobs p)) (b_pools s))"

definition bench_inv :: "workerPool list \<Rightarrow> nat list \<Rightarrow> bench \<Rightarrow> bool" where
  "bench_inv ps ks s \<longleftrightarrow>
     map fst (b_workers s) = ks \<and> (\<forall>k \<in> set ks. k < length ps) \<and> length (b_pools s) = length ps \<and>
     (\<forall>k < length ps. wp_closed (b_pools s ! k)) \<and>
     (\<forall>k < length ps. k \<notin> set ks \<longrightarrow> wp_jobs (b_pools s ! k) = wp_jobs (ps ! k)) \<and>
     (\<forall>k. (k, Finished) \<in> set (b_workers s) \<longrightarrow> wp_jobs (b_pools s ! k) = []) \<and>
     (b_exit s = None \<longrightarrow> Crashed \<notin> snd ` set (b_workers s)) \<and>
     mset (b_posted s) + jobs_left s = sum_list (map (\<lambda>p. mset (wp_jobs p)) ps)"

lemma update_workers:
  assumes "i < length (b_workers s)" "b_workers s ! i = (k, pc)" "cmdWorker ans k pc s = Some (pc', s')"
  shows "map fst ((b_workers s)[i := (k, pc')]) = map fst (b_workers s)" "b_workers s' = b_workers s"
    "set ((b_workers s)[i := (k, pc')]) \<subseteq> insert (k, pc') (set (b_workers s))" "k \<in> fst ` set (b_workers s)"
proof -
  show "map fst ((b_workers s)[i := (k, pc')]) = map fst (b_workers s)"
    using assms(1,2) by (simp add: map_update list_update_same_conv)
  show "b_workers s' = b_workers s"
    using assms(3) by (auto simp: cmdWorker_def split: wpc.splits list.splits res.splits if_splits)
  show "set ((b_workers s)[i := (k, pc')]) \<subseteq> insert (k, pc') (set (b_workers s))" by (rule set_update_subset_insert)
  show "k \<in> fst ` set (b_workers s)" using assms(1,2) by (metis fst_conv image_eqI nth_mem)
qed

text \<open>What a goroutine does to the jobs that are left.\<close>

lemma cmdWorker_jobs:
  assumes "cmdWorker ans k pc s = Some (pc', s')" "k < length (b_pools s)"
  shows "mset (b_posted s') + in_hand pc' + sum_list (map (\<lambda>p. mset (wp_jobs p)) (b_pools s')) =
         mset (b_posted s) + in_hand pc + sum_list (map (\<lambda>p. mset (wp_jobs p)) (b_pools s))"
proof (cases pc)
  case Ranging
  show ?thesis
  proof (cases "wp_jobs (b_pools s ! k)")
    case Nil
    with Ranging assms show ?thesis by (auto simp: cmdWorker_def in_hand_def split: if_splits)
  next
    case (Cons j js)
    with Ranging assms(1) have s': "pc' = Posting j" "s' = s\<lparr>b_pools := (b_pools s)[k := (b_pools s ! k)\<lparr>wp_jobs := js\<rparr>]\<rparr>"
      by (simp_all add: cmdWorker_def)
    have "sum_list (map (\<lambda>p. mset (wp_jobs p)) (b_pools s')) + add_mset j (mset js) = sum_list (map (\<lambda>p. mset (wp_jobs p)) (b_pools s)) + mset js"
      using sum_list_update_add [of k "map (\<lambda>p. mset (wp_jobs p)) (b_pools s)" "mset js"] assms(2) Cons
      by (simp add: s'(2) map_update)
    then show ?thesis using Ranging by (simp add: s' in_hand_def)
  qed
qed (use assms in \<open>auto simp: cmdWorker_def in_hand_def split: res.splits\<close>)

text \<open>What it leaves alone.\<close>

lemma cmdWorker_frame:
  assumes "cmdWorker ans k pc s = Some (pc', s')" "k < length (b_pools s)"
  shows "length (b_pools s') = length (b_pools s)"
    "\<And>n. n < length (b_pools s) \<Longrightarrow> wp_closed (b_pools s' ! n) = wp_closed (b_pools s ! n)"
    "\<And>n. n \<noteq> k \<Longrightarrow> wp_jobs (b_pools s' ! n) = wp_jobs (b_pools s ! n)"
    "\<And>n. wp_jobs (b_pools s ! n) = [] \<Longrightarrow> wp_jobs (b_pools s' ! n) = []"
    "pc' = Finished \<Longrightarrow> wp_jobs (b_pools s' ! k) = []"
    "b_exit s = None \<Longrightarrow> b_exit s' = None \<Longrightarrow> pc' \<noteq> Crashed"
  using assms
  by (auto simp: cmdWorker_def nth_list_update_if singleLambdaRequest_def split: wpc.splits list.splits sum.splits res.splits if_splits prod.splits)

lemma exchange_cancel:
  fixes h :: "'a :: cancel_comm_monoid_add"
  assumes "x' + h = x + h'" "p' + h' + q' = p + h + q"
  shows "p' + (x' + q') = p + (x + q)"
proof -
  have "p' + (x' + q') + (h + h') = (x' + h) + (p' + h' + q')" by (simp add: ac_simps)
  also have "\<dots> = p + (x + q) + (h + h')" unfolding assms by (simp add: ac_simps)
  finally show ?thesis by simp
qed

lemma bench_inv_pool:
  assumes "bench_inv ps ks s" "k \<in> fst ` set (b_workers s)"
  shows "k < length (b_pools s)" "k \<in> set ks" "wp_closed (b_pools s ! k)"
proof -
  have "map fst (b_workers s) = ks" using assms(1) by (simp add: bench_inv_def)
  then show k: "k \<in> set ks" using assms(2) by (metis set_map)
  with assms(1) show "k < length (b_pools s)" "wp_closed (b_pools s ! k)" by (simp_all add: bench_inv_def)
qed

lemma jobs_left_step:
  assumes "i < length (b_workers s)" "b_workers s ! i = (k, pc)" "cmdWorker ans k pc s = Some (pc', s')" "k < length (b_pools s)"
  shows "mset (b_posted s') + jobs_left (s'\<lparr>b_workers := (b_workers s)[i := (k, pc')]\<rparr>) = mset (b_posted s) + jobs_left s"
proof -
  let ?f = "\<lambda>w :: nat \<times> wpc. in_hand (snd w)"
  have "sum_list (map ?f ((b_workers s)[i := (k, pc')])) + in_hand pc = sum_list (map ?f (b_workers s)) + in_hand pc'"
    using sum_list_update_add [of i "map ?f (b_workers s)" "in_hand pc'"] assms(1,2) by (simp add: map_update)
  from exchange_cancel [OF this cmdWorker_jobs [OF assms(3,4)]] show ?thesis by (simp add: jobs_left_def)
qed

lemma bench_inv_step:
  assumes inv: "bench_inv ps ks s" and "bench_step answers s t"
  shows "bench_inv ps ks t"
  using assms(2)
proof cases
  case (step i k pc ans pc' s')
  note U = update_workers [OF step(3,4,6)]
  note k = bench_inv_pool [OF inv U(4)]
  note F = cmdWorker_frame [OF step(6) k(1)]
  show ?thesis
    unfolding bench_inv_def step(1)
  proof (intro conjI allI impI, goal_cases)
    case (5 n)
    then have "n \<noteq> k" using k(2) by auto
    then show ?case using F(3) inv 5 by (simp add: bench_inv_def)
  next
    case (6 n)
    then have "(n, Finished) = (k, pc') \<or> (n, Finished) \<in> set (b_workers s)" using U(3) by auto
    then show ?case using F(4,5) inv by (auto simp: bench_inv_def)
  next
    case 7
    then have "pc' \<noteq> Crashed" using F(6) step(2) by simp
    moreover have "Crashed \<notin> snd ` set (b_workers s)" using inv step(2) by (simp add: bench_inv_def)
    ultimately show ?case using U(3) by auto
  next
    case 8
    then show ?case using jobs_left_step [OF step(3,4,6) k(1)] inv by (simp add: bench_inv_def)
  qed (use inv U(1) F(1,2) in \<open>auto simp: bench_inv_def\<close>)
qed

definition total_jobs :: "workerPool list \<Rightarrow> nat" where
  "total_jobs ps = sum_list (map (\<lambda>p. length (wp_jobs p)) ps)"

text \<open>Four steps for a job, one for the end of a goroutine.\<close>

definition pc_work :: "wpc \<Rightarrow> nat" where
  "pc_work pc = (case pc of Ranging \<Rightarrow> 1 | Posting _ \<Rightarrow> 4 | Reading _ \<Rightarrow> 3 | Storing _ _ \<Rightarrow> 2 | _ \<Rightarrow> 0)"

definition bench_work :: "bench \<Rightarrow> nat" where
  "bench_work s = 4 * total_jobs (b_pools s) + sum_list (map (\<lambda>w. pc_work (snd w)) (b_workers s))"

lemma cmdWorker_work:
  assumes "cmdWorker ans k pc s = Some (pc', s')" "k < length (b_pools s)"
  shows "4 * total_jobs (b_pools s') + pc_work pc' < 4 * total_jobs (b_pools s) + pc_work pc"
proof (cases "pc = Ranging \<and> wp_jobs (b_pools s ! k) \<noteq> []")
  case True
  then obtain j js where c: "wp_jobs (b_pools s ! k) = j # js" by (cases "wp_jobs (b_pools s ! k)") auto
  then have s': "pc' = Posting j" "b_pools s' = (b_pools s)[k := (b_pools s ! k)\<lparr>wp_jobs := js\<rparr>]"
    using True assms(1) by (auto simp: cmdWorker_def)
  have "total_jobs (b_pools s') + Suc (length js) = total_jobs (b_pools s) + length js"
    using sum_list_update_add [of k "map (\<lambda>p. length (wp_jobs p)) (b_pools s)" "length js"] assms(2) c
    by (simp add: total_jobs_def s'(2) map_update)
  then show ?thesis using True by (simp add: s'(1) pc_work_def)
next
  case False
  then show ?thesis
    using assms(1) by (auto simp: cmdWorker_def pc_work_def split: wpc.splits list.splits res.splits if_splits)
qed

lemma bench_work_step:
  assumes "bench_inv ps ks s" "bench_step answers s t"
  shows "bench_work t < bench_work s"
  using assms(2)
proof cases
  case (step i k pc ans pc' s')
  note k = bench_inv_pool(1) [OF assms(1) update_workers(4) [OF step(3,4,6)]]
  let ?f = "\<lambda>w :: nat \<times> wpc. pc_work (snd w)"
  have "sum_list (map ?f ((b_workers s)[i := (k, pc')])) + pc_work pc = sum_list (map ?f (b_workers s)) + pc_work pc'"
    using sum_list_update_add [of i "map ?f (b_workers s)" "pc_work pc'"] step(3,4) by (simp add: map_update)
  then show ?thesis using cmdWorker_work [OF step(6) k] by (simp add: step(1) bench_work_def)
qed

lemma bench_run:
  assumes "bench_inv ps ks s"
  shows "(bench_step answers ^^ n) s t \<Longrightarrow> bench_inv ps ks t \<and> n + bench_work t \<le> bench_work s"
proof (induction n arbitrary: t)
  case (Suc n)
  from Suc.prems obtain u where u: "(bench_step answers ^^ n) s u" "bench_step answers u t" by auto
  with Suc.IH have inv: "bench_inv ps ks u" "n + bench_work u \<le> bench_work s" by blast+
  from bench_inv_step [OF inv(1) u(2)] bench_work_step [OF inv(1) u(2)] inv(2) show ?case by simp
qed (use assms in simp)

text \<open>A goroutine that cannot move has ended.\<close>

lemma bench_stuck:
  assumes "bench_inv ps ks s" "b_exit s = None" "\<nexists>t. bench_step answers s t" "\<forall>j. \<exists>ans. answers j ans"
  shows "workload_done s"
proof -
  have "snd w = Finished" if "w \<in> set (b_workers s)" for w
  proof (rule ccontr)
    assume fin: "snd w \<noteq> Finished"
    obtain i where i: "i < length (b_workers s)" "b_workers s ! i = w" using \<open>w \<in> _\<close> by (auto simp: in_set_conv_nth)
    obtain k pc where w: "w = (k, pc)" by (cases w)
    have k: "wp_closed (b_pools s ! k)" using bench_inv_pool(3) [OF assms(1), of k] \<open>w \<in> _\<close> w by force
    obtain ans where ans: "\<forall>j. pc = Posting j \<longrightarrow> answers j ans" using assms(4) by (cases pc) auto
    have "Crashed \<notin> snd ` set (b_workers s)" using assms(1,2) by (simp add: bench_inv_def)
    then have "pc \<noteq> Crashed" using \<open>w \<in> _\<close> w by force
    then have "cmdWorker ans k pc s \<noteq> None"
      using fin w k by (auto simp: cmdWorker_def singleLambdaRequest_def split: wpc.splits list.splits sum.splits)
    then obtain x where "cmdWorker ans k pc s = Some x" by blast
    moreover obtain pc' s' where "x = (pc', s')" by (cases x)
    ultimately have "cmdWorker ans k pc s = Some (pc', s')" by simp
    from bench_step.step [where answers = answers, OF assms(2) i(1) i(2) [unfolded w] ans this] assms(3) show False by blast
  qed
  then show ?thesis by (simp add: workload_done_def)
qed

subsection \<open>Start and end of a workload\<close>

lemma map_nth_fun: "map (\<lambda>k. f (xs ! k)) [0..<length xs] = map f xs"
  by (rule nth_equalityI) auto

lemma runWorkload_workers:
  "length (b_workers (runWorkload ps)) = sum_list (map (\<lambda>p. nat (wp_numWorkers p)) ps)"
  "(k, pc) \<in> set (b_workers (runWorkload ps)) \<longleftrightarrow> k < length ps \<and> 0 < wp_numWorkers (ps ! k) \<and> pc = Ranging"
  by (auto simp: runWorkload_def length_concat comp_def map_nth_fun [of "\<lambda>p. nat (wp_numWorkers p)"])

lemma sum_list_all_zero: "\<forall>x \<in> set xs. f x = 0 \<Longrightarrow> sum_list (map f xs) = (0 :: 'a :: comm_monoid_add)"
  by (induction xs) auto

lemma runWorkload_inv:
  assumes "\<forall>p \<in> set ps. wp_closed p"
  shows "bench_inv ps (map fst (b_workers (runWorkload ps))) (runWorkload ps)"
proof -
  let ?ws = "b_workers (runWorkload ps)"
  have w: "fst x < length ps \<and> snd x = Ranging" if "x \<in> set ?ws" for x
    using that runWorkload_workers(2) [of "fst x" "snd x" ps] by simp
  have "sum_list (map (\<lambda>w. in_hand (snd w)) ?ws) = {#}"
    by (rule sum_list_all_zero) (use w in \<open>auto simp: in_hand_def\<close>)
  moreover have "b_pools (runWorkload ps) = ps" "b_exit (runWorkload ps) = None" "b_posted (runWorkload ps) = []"
    by (simp_all add: runWorkload_def)
  ultimately show ?thesis
    using assms w by (fastforce simp: bench_inv_def jobs_left_def)
qed

lemma runWorkload_work: "bench_work (runWorkload ps) = 4 * total_jobs ps + length (b_workers (runWorkload ps))"
proof -
  have "pc_work (snd x) = 1" if "x \<in> set (b_workers (runWorkload ps))" for x
    using that runWorkload_workers(2) [of "fst x" "snd x" ps] by (simp add: pc_work_def)
  then have "sum_list (map (\<lambda>w. pc_work (snd w)) ws) = length ws" if "set ws \<subseteq> set (b_workers (runWorkload ps))" for ws
    using that by (induction ws) auto
  moreover have "b_pools (runWorkload ps) = ps" by (simp add: runWorkload_def)
  ultimately show ?thesis by (simp add: bench_work_def)
qed

lemma done_posted:
  assumes inv: "bench_inv ps ks s" and fin: "workload_done s"
  shows "mset (b_posted s) = sum_list (map (\<lambda>k. if k \<in> set ks then mset (wp_jobs (ps ! k)) else {#}) [0..<length ps])"
proof -
  let ?J = "\<lambda>k. mset (wp_jobs (ps ! k))"
  have ks: "map fst (b_workers s) = ks" "length (b_pools s) = length ps" using inv by (simp_all add: bench_inv_def)
  have "mset (wp_jobs (b_pools s ! k)) = (if k \<in> set ks then {#} else ?J k)" if "k < length ps" for k
  proof (cases "k \<in> set ks")
    case True
    then obtain pc where "(k, pc) \<in> set (b_workers s)" using ks(1) by auto
    moreover from this fin have "pc = Finished" by (auto simp: workload_done_def)
    ultimately show ?thesis using inv True by (simp add: bench_inv_def)
  next
    case False
    then show ?thesis using inv that by (simp add: bench_inv_def)
  qed
  then have "map (\<lambda>p. mset (wp_jobs p)) (b_pools s) = map (\<lambda>k. if k \<in> set ks then {#} else ?J k) [0..<length ps]"
    using ks(2) by (intro nth_equalityI) auto
  moreover have "sum_list (map (\<lambda>w. in_hand (snd w)) (b_workers s)) = {#}"
    by (rule sum_list_all_zero) (use fin in \<open>auto simp: workload_done_def in_hand_def\<close>)
  ultimately have left: "jobs_left s = sum_list (map (\<lambda>k. if k \<in> set ks then {#} else ?J k) [0..<length ps])"
    by (simp add: jobs_left_def)
  have "sum_list (map (\<lambda>p. mset (wp_jobs p)) ps) = sum_list (map (\<lambda>k. (if k \<in> set ks then ?J k else {#}) + (if k \<in> set ks then {#} else ?J k)) [0..<length ps])"
    unfolding map_nth_fun [of "\<lambda>p. mset (wp_jobs p)", symmetric] by (rule arg_cong [where f = sum_list]) simp
  also have "\<dots> = sum_list (map (\<lambda>k. if k \<in> set ks then ?J k else {#}) [0..<length ps]) + jobs_left s"
    by (simp only: sum_list_addf left)
  finally show ?thesis using inv by (simp add: bench_inv_def)
qed

subsection \<open>The metrics\<close>

definition metric_key :: "perfMetrics \<Rightarrow> string \<times> int" where
  "metric_key m = (pm_lambda m, pm_jobID m)"

definition job_key :: "job \<Rightarrow> string \<times> int" where
  "job_key j = (j_lambda j, j_ID j)"

definition pc_metrics :: "wpc \<Rightarrow> perfMetrics list" where
  "pc_metrics pc = (case pc of Reading m \<Rightarrow> [m] | Storing m xs \<Rightarrow> m # xs | _ \<Rightarrow> [])"

definition all_posted :: "job list \<Rightarrow> perfMetrics list \<Rightarrow> bool" where
  "all_posted js ms \<longleftrightarrow> (\<forall>m \<in> set ms. metric_key m \<in> job_key ` set js)"

lemma all_posted_simps [simp]:
  "all_posted js []" "all_posted js (m # ms) \<longleftrightarrow> metric_key m \<in> job_key ` set js \<and> all_posted js ms"
  "all_posted js (ms @ ns) \<longleftrightarrow> all_posted js ms \<and> all_posted js ns" "all_posted js ms \<Longrightarrow> all_posted (js @ ks) ms"
  by (auto simp: all_posted_def)

definition metrics_inv :: "bench \<Rightarrow> bool" where
  "metrics_inv s \<longleftrightarrow> all_posted (b_posted s) (b_Metrics s) \<and> (\<forall>w \<in> set (b_workers s). all_posted (b_posted s) (pc_metrics (snd w)))"

lemma cmdWorker_metrics:
  assumes "cmdWorker ans k pc s = Some (pc', s')" "all_posted (b_posted s) (b_Metrics s)" "all_posted (b_posted s) (pc_metrics pc)"
  shows "all_posted (b_posted s') (b_Metrics s')" "all_posted (b_posted s') (pc_metrics pc')" "\<exists>js. b_posted s' = b_posted s @ js"
  using assms
  by (auto simp: cmdWorker_def pc_metrics_def metric_key_def job_key_def split: wpc.splits list.splits res.splits if_splits)

lemma metrics_inv_step:
  assumes "metrics_inv s" "bench_step answers s t"
  shows "metrics_inv t"
  using assms(2)
proof cases
  case (step i k pc ans pc' s')
  have "(k, pc) \<in> set (b_workers s)" using step(3,4) by (metis nth_mem)
  then have "all_posted (b_posted s) (b_Metrics s)" "all_posted (b_posted s) (pc_metrics pc)"
    using assms(1) unfolding metrics_inv_def by auto
  note C = cmdWorker_metrics [OF step(6) this]
  have "all_posted (b_posted s') (pc_metrics (snd w))" if "w \<in> set ((b_workers s)[i := (k, pc')])" for w
  proof (cases "w = (k, pc')")
    case False
    with that update_workers(3) [OF step(3,4,6)] have "w \<in> set (b_workers s)" by blast
    then show ?thesis using assms(1) C(3) unfolding metrics_inv_def by auto
  qed (simp add: C(2))
  with C(1) show ?thesis by (simp add: metrics_inv_def step(1))
qed

text \<open>With one goroutine nothing is lost.\<close>

definition single_inv :: "bench \<Rightarrow> bool" where
  "single_inv s \<longleftrightarrow> (\<exists>k pc. b_workers s = [(k, pc)] \<and>
     (case pc of
        Reading m \<Rightarrow> map metric_key (b_Metrics s) @ [metric_key m] = map job_key (b_posted s)
      | Storing m xs \<Rightarrow> xs = b_Metrics s \<and> map metric_key (b_Metrics s) @ [metric_key m] = map job_key (b_posted s)
      | Crashed \<Rightarrow> True
      | _ \<Rightarrow> map metric_key (b_Metrics s) = map job_key (b_posted s)))"

lemma single_inv_step:
  assumes "single_inv s" "bench_step answers s t"
  shows "single_inv t"
  using assms(2)
proof cases
  case (step i k pc ans pc' s')
  have "i = 0" "b_workers s = [(k, pc)]" using assms(1) step(3,4) by (auto simp: single_inv_def)
  then show ?thesis
    using assms(1) step(6)
    by (auto simp: step(1) single_inv_def cmdWorker_def metric_key_def job_key_def
        split: wpc.splits list.splits res.splits if_splits)
qed

lemma run_metrics:
  assumes "(bench_step answers ^^ n) (runWorkload ps) s"
  shows "metrics_inv s" "length (b_workers (runWorkload ps)) = 1 \<Longrightarrow> single_inv s"
proof -
  have "b_Metrics (runWorkload ps) = []" "b_posted (runWorkload ps) = []" by (simp_all add: runWorkload_def)
  note start0 = this
  have "pc_metrics (snd w) = []" if "w \<in> set (b_workers (runWorkload ps))" for w
    using that runWorkload_workers(2) [of "fst w" "snd w" ps] by (simp add: pc_metrics_def)
  then have start: "metrics_inv (runWorkload ps)" by (simp add: metrics_inv_def start0)
  show "metrics_inv s"
    using assms by (induction n arbitrary: s) (auto simp: start intro: metrics_inv_step)
  assume one: "length (b_workers (runWorkload ps)) = 1"
  then obtain k pc where w: "b_workers (runWorkload ps) = [(k, pc)]"
    by (cases "b_workers (runWorkload ps)") auto
  then have "pc = Ranging" using runWorkload_workers(2) [of k pc ps] by simp
  then have "single_inv (runWorkload ps)" unfolding single_inv_def w by (simp add: start0)
  then show "single_inv s"
    using assms by (induction n arbitrary: s) (auto intro: single_inv_step)
qed

subsection \<open>The workload of a configuration\<close>

definition config_jobs :: "benchmarkConfig \<Rightarrow> (benchCommand \<Rightarrow> bool) \<Rightarrow> job list" where
  "config_jobs cfg sel =
     concat (map (\<lambda>(i, c). command_jobs (makeUrl (bg_Host cfg) (bg_Port cfg)) i c) (filter (\<lambda>(i, c). sel c) (enumerate 0 (bg_Cmds cfg))))"

lemma sum_selected:
  "sum_list (map (\<lambda>(i, c). if sel c then mset (f i c) else {#}) xs) = mset (concat (map (\<lambda>(i, c). f i c) (filter (\<lambda>(i, c). sel c) xs)))"
  by (induction xs) auto

lemma filled_pools_facts:
  fixes i :: nat
  shows "\<forall>p \<in> set (filled_pools url i cs). wp_closed p"
    "map wp_numWorkers (filled_pools url i cs) = map bc_NumThreads cs"
    "total_jobs (filled_pools url i cs) = sum_list (map (\<lambda>c. nat (bc_TotalCmds c)) cs)"
proof -
  show "\<forall>p \<in> set (filled_pools url i cs). wp_closed p" by (auto simp: filled_pools_def filled_pool_def)
  show "map wp_numWorkers (filled_pools url i cs) = map bc_NumThreads cs"
    by (induction cs arbitrary: i) (simp_all add: filled_pools_def filled_pool_def)
  show "total_jobs (filled_pools url i cs) = sum_list (map (\<lambda>c. nat (bc_TotalCmds c)) cs)"
    by (induction cs arbitrary: i) (simp_all add: total_jobs_def filled_pools_def filled_pool_def command_jobs_def)
qed

lemma config_run:
  assumes ps: "ps = filled_pools (makeUrl (bg_Host cfg) (bg_Port cfg)) 0 (bg_Cmds cfg)"
    and run: "(bench_step answers ^^ n) (runWorkload ps) s"
  shows "n \<le> 4 * sum_list (map (\<lambda>c. nat (bc_TotalCmds c)) (bg_Cmds cfg)) + sum_list (map (\<lambda>c. nat (bc_NumThreads c)) (bg_Cmds cfg))"
    and "mset (b_posted s) \<subseteq># mset (config_jobs cfg (\<lambda>c. True))"
    and "workload_done s \<Longrightarrow> mset (b_posted s) = mset (config_jobs cfg (\<lambda>c. 0 < bc_NumThreads c))"
    and "\<exists>ks. bench_inv ps ks s"
proof -
  let ?ks = "map fst (b_workers (runWorkload ps))"
  note facts = filled_pools_facts [of "makeUrl (bg_Host cfg) (bg_Port cfg)" 0 "bg_Cmds cfg", folded ps]
  from bench_run [OF runWorkload_inv [OF facts(1)] run]
  have inv: "bench_inv ps ?ks s" and n: "n + bench_work s \<le> bench_work (runWorkload ps)" by blast+
  show "\<exists>ks. bench_inv ps ks s" using inv by blast
  have "map (\<lambda>p. nat (wp_numWorkers p)) ps = map (\<lambda>c. nat (bc_NumThreads c)) (bg_Cmds cfg)"
    using arg_cong [OF facts(2), of "map nat"] by (simp add: comp_def)
  then show "n \<le> 4 * sum_list (map (\<lambda>c. nat (bc_TotalCmds c)) (bg_Cmds cfg)) + sum_list (map (\<lambda>c. nat (bc_NumThreads c)) (bg_Cmds cfg))"
    using n by (simp add: runWorkload_work facts(3) runWorkload_workers(1))
  have sel: "sum_list (map (\<lambda>p. if sel (wp_numWorkers p) then mset (wp_jobs p) else {#}) ps) = mset (config_jobs cfg (\<lambda>c. sel (bc_NumThreads c)))" for sel
    unfolding config_jobs_def sum_selected [symmetric]
    by (simp add: ps filled_pools_def filled_pool_def comp_def case_prod_unfold cong: if_cong)
  have "mset (b_posted s) \<subseteq># sum_list (map (\<lambda>p. mset (wp_jobs p)) ps)"
    using inv unfolding bench_inv_def by (metis mset_subset_eq_add_left)
  then show "mset (b_posted s) \<subseteq># mset (config_jobs cfg (\<lambda>c. True))" using sel [of "\<lambda>_. True"] by simp
  assume "workload_done s"
  from done_posted [OF inv this]
  have "mset (b_posted s) = sum_list (map (\<lambda>k. if k \<in> set ?ks then mset (wp_jobs (ps ! k)) else {#}) [0..<length ps])" .
  also have "\<dots> = sum_list (map (\<lambda>k. if 0 < wp_numWorkers (ps ! k) then mset (wp_jobs (ps ! k)) else {#}) [0..<length ps])"
  proof -
    have "k \<in> set ?ks \<longleftrightarrow> 0 < wp_numWorkers (ps ! k)" if "k < length ps" for k
      using that runWorkload_workers(2) [of k _ ps] by force
    then show ?thesis by (intro arg_cong [where f = sum_list] map_cong) auto
  qed
  also have "\<dots> = sum_list (map (\<lambda>p. if 0 < wp_numWorkers p then mset (wp_jobs p) else {#}) ps)"
    by (simp only: map_nth_fun [of "\<lambda>p. if 0 < wp_numWorkers p then mset (wp_jobs p) else {#}"])
  finally show "mset (b_posted s) = mset (config_jobs cfg (\<lambda>c. 0 < bc_NumThreads c))"
    using sel [of "\<lambda>n. 0 < n"] by simp
qed

lemma single_inv_done:
  assumes "single_inv s" "workload_done s"
  shows "map metric_key (b_Metrics s) = map job_key (b_posted s)"
proof -
  obtain k pc where w: "b_workers s = [(k, pc)]" using assms(1) unfolding single_inv_def by blast
  with assms(2) have "pc = Finished" by (simp add: workload_done_def)
  with assms(1) w show ?thesis by (simp add: single_inv_def)
qed

text \<open>
  C19.  The load generator, however its goroutines are scheduled and whatever the answers are.  Jobs are sent to their
  channels without waiting, and the run ends after at most four steps for each job and one for each goroutine; no job
  of the configuration is posted twice, and what is reported are jobs that were posted.  Where the run
  ends without an error of a request, every goroutine has returned, and the jobs posted are exactly those of the
  commands that have a thread.  With a single goroutine each of them is reported, in the order of the requests.
\<close>

theorem workload_posts_each_job_once:
  assumes "\<forall>c \<in> set (bg_Cmds cfg). 0 \<le> bc_TotalCmds c" and "\<forall>j. \<exists>ans. answers j ans"
  shows "\<exists>s0. genWorkload cfg = Ret s0 \<and>
     (\<forall>n s. (bench_step answers ^^ n) s0 s \<longrightarrow>
        n \<le> 4 * sum_list (map (\<lambda>c. nat (bc_TotalCmds c)) (bg_Cmds cfg)) + sum_list (map (\<lambda>c. nat (bc_NumThreads c)) (bg_Cmds cfg)) \<and>
        mset (b_posted s) \<subseteq># mset (config_jobs cfg (\<lambda>c. True)) \<and>
        metric_key ` set (b_Metrics s) \<subseteq> job_key ` set (b_posted s) \<and>
        (b_exit s = None \<and> (\<nexists>t. bench_step answers s t) \<longrightarrow>
           workload_done s \<and> mset (b_posted s) = mset (config_jobs cfg (\<lambda>c. 0 < bc_NumThreads c)) \<and>
           (length (b_workers s0) = 1 \<longrightarrow> map metric_key (b_Metrics s) = map job_key (b_posted s))))"
proof -
  define ps where ps: "ps = filled_pools (makeUrl (bg_Host cfg) (bg_Port cfg)) 0 (bg_Cmds cfg)"
  note start = genWorkload_starts [OF assms(1), folded ps]
  have fin: "workload_done s" if "(bench_step answers ^^ n) (runWorkload ps) s" "b_exit s = None" "\<nexists>t. bench_step answers s t" for n s
    using config_run(4) [OF ps that(1)] bench_stuck that(2,3) assms(2) by blast
  have keys: "metric_key ` set (b_Metrics s) \<subseteq> job_key ` set (b_posted s)" if "(bench_step answers ^^ n) (runWorkload ps) s" for n s
    using run_metrics(1) [OF that] by (auto simp: metrics_inv_def all_posted_def)
  show ?thesis
  proof (intro exI [of _ "runWorkload ps"] conjI allI impI, goal_cases)
    case (5 n s)
    then show ?case using fin by blast
  next
    case (6 n s)
    with fin config_run(3) [OF ps] show ?case by blast
  next
    case (7 n s)
    with fin run_metrics(2) single_inv_done show ?case by blast
  qed (use start config_run(1,2) [OF ps] keys in auto)
qed

subsection \<open>Runs that can be computed\<close>

fun run_schedule :: "(nat \<times> (string + int \<times> int)) list \<Rightarrow> bench \<Rightarrow> bench option" where
  "run_schedule [] s = Some s"
| "run_schedule ((i, ans) # sched) s =
     (if b_exit s \<noteq> None \<or> length (b_workers s) \<le> i then None
      else (case b_workers s ! i of (k, pc) \<Rightarrow>
        (case cmdWorker ans k pc s of
           None \<Rightarrow> None
         | Some (pc', s') \<Rightarrow> run_schedule sched (s'\<lparr>b_workers := (b_workers s)[i := (k, pc')]\<rparr>))))"

lemma run_schedule_run:
  "run_schedule sched s = Some t \<Longrightarrow> \<forall>j. \<forall>x \<in> set sched. answers j (snd x) \<Longrightarrow> (bench_step answers ^^ length sched) s t"
proof (induction sched s rule: run_schedule.induct)
  case (2 i ans sched s)
  obtain k pc where w: "b_workers s ! i = (k, pc)" by (cases "b_workers s ! i")
  with 2(2) obtain pc' s' where c: "cmdWorker ans k pc s = Some (pc', s')" "b_exit s = None" "i < length (b_workers s)"
    by (auto split: if_splits option.splits)
  have "bench_step answers s (s'\<lparr>b_workers := (b_workers s)[i := (k, pc')]\<rparr>)"
    by (rule bench_step.step [where answers = answers, OF c(2,3) w _ c(1)]) (use 2(3) in auto)
  moreover have "(bench_step answers ^^ length sched) (s'\<lparr>b_workers := (b_workers s)[i := (k, pc')]\<rparr>) t"
    using 2 w c by simp
  ultimately show ?case by (simp del: relpowp.simps add: relpowp_Suc_I2)
qed simp

lemma done_stuck: "workload_done s \<Longrightarrow> \<not> bench_step answers s t"
proof
  assume "workload_done s" "bench_step answers s t"
  from this(2) show False
  proof cases
    case (step i k pc ans pc' s')
    with \<open>workload_done s\<close> have "pc = Finished" by (metis nth_mem snd_conv workload_done_def)
    with step(6) show False by (simp add: cmdWorker_def)
  qed
qed

definition ex_bench :: "int \<Rightarrow> benchmarkConfig" where
  "ex_bench threads = \<lparr>bg_Host = ''localhost'', bg_Port = 80, bg_OlPath = ''/ol'', bg_RegistryMachines = [],
     bg_Cmds = [\<lparr>bc_Cmd = ''x'', bc_NumThreads = threads, bc_TotalCmds = 2, bc_NumLambdas = 1\<rparr>]\<rparr>"

definition ex_answer :: "job \<Rightarrow> string + int \<times> int \<Rightarrow> bool" where
  "ex_answer j ans \<longleftrightarrow> ans = Inr (0, 5000000)"

definition ex_run :: "int \<Rightarrow> nat list \<Rightarrow> bench option" where
  "ex_run threads is = (case genWorkload (ex_bench threads) of Ret s \<Rightarrow> run_schedule (map (\<lambda>i. (i, Inr (0, 5000000))) is) s | _ \<Rightarrow> None)"

lemma ex_run_run:
  "ex_run threads is = Some s \<Longrightarrow> \<exists>s0. genWorkload (ex_bench threads) = Ret s0 \<and> (bench_step ex_answer ^^ length is) s0 s"
  using run_schedule_run [of "map (\<lambda>i. (i, Inr (0, 5000000))) is" _ s ex_answer]
  by (auto simp: ex_run_def ex_answer_def split: res.splits)

theorem workload_posts_each_job_once_witness:
  "\<exists>s0 s. genWorkload (ex_bench 1) = Ret s0 \<and> (bench_step ex_answer ^^ 9) s0 s \<and>
     mset (b_posted s) = mset (config_jobs (ex_bench 1) (\<lambda>c. 0 < bc_NumThreads c)) \<and>
     map metric_key (b_Metrics s) = map job_key (b_posted s) \<and> length (b_posted s) = 2"
proof -
  have "case ex_run 1 (replicate 9 0) of Some s \<Rightarrow> b_exit s = None \<and> workload_done s \<and> length (b_posted s) = 2 | None \<Rightarrow> False" by code_simp
  then obtain s where s: "ex_run 1 (replicate 9 0) = Some s" "b_exit s = None" "workload_done s" "length (b_posted s) = 2"
    by (auto split: option.splits)
  from ex_run_run [OF s(1)] obtain s0 where s0: "genWorkload (ex_bench 1) = Ret s0" "(bench_step ex_answer ^^ 9) s0 s"
    unfolding length_replicate by blast
  have "case genWorkload (ex_bench 1) of Ret s \<Rightarrow> length (b_workers s) = 1 | _ \<Rightarrow> False" by code_simp
  then have one: "length (b_workers s0) = 1" by (simp add: s0(1))
  have hyp: "\<forall>c \<in> set (bg_Cmds (ex_bench 1)). 0 \<le> bc_TotalCmds c" "\<forall>j. \<exists>ans. ex_answer j ans"
    by (simp_all add: ex_bench_def ex_answer_def)
  note T = workload_posts_each_job_once [OF hyp, unfolded s0(1) res.inject(1) simp_thms, THEN spec, THEN spec, THEN mp, OF s0(2)]
  have "mset (b_posted s) = mset (config_jobs (ex_bench 1) (\<lambda>c. 0 < bc_NumThreads c))" "map metric_key (b_Metrics s) = map job_key (b_posted s)"
    using T one s(2) done_stuck [OF s(3)] by blast+
  with s0 s(4) show ?thesis by blast
qed

text \<open>Two goroutines that append at the same time: both requests were made, one time is reported.\<close>

lemma racing_appends_lose_metrics:
  "\<exists>s0 s. genWorkload (ex_bench 2) = Ret s0 \<and> (bench_step ex_answer ^^ 10) s0 s \<and> workload_done s \<and>
     length (b_posted s) = 2 \<and> length (b_Metrics s) = 1"
proof -
  have "case ex_run 2 [0, 0, 0, 1, 1, 1, 0, 1, 0, 1] of
      Some s \<Rightarrow> workload_done s \<and> length (b_posted s) = 2 \<and> length (b_Metrics s) = 1 | None \<Rightarrow> False" by code_simp
  then obtain s where s: "ex_run 2 [0, 0, 0, 1, 1, 1, 0, 1, 0, 1] = Some s" "workload_done s" "length (b_posted s) = 2" "length (b_Metrics s) = 1"
    by (auto split: option.splits)
  have len: "length [0, 0, 0, 1, 1, 1, 0, 1, 0, 1 :: nat] = 10" by simp
  from ex_run_run [OF s(1), unfolded len] s(2-4) show ?thesis by blast
qed

subsection \<open>The report\<close>

lemma AList_update_new: "k \<notin> fst ` set xs \<Longrightarrow> AList.update k v xs = xs @ [(k, v)]"
  by (induction xs) auto

text \<open>The times of a lambda, in the order of the metrics.\<close>

definition times_of :: "string \<Rightarrow> perfMetrics list \<Rightarrow> (int \<times> int) list" where
  "times_of l ms = map (\<lambda>m. (pm_jobID m, pm_runTime m)) (filter (\<lambda>m. pm_lambda m = l) ms)"

lemma genMetricsMap_times:
  "distinct (map metric_key ms) \<Longrightarrow> map_of (genMetricsMap ms) l = (if times_of l ms = [] then None else Some (times_of l ms))"
proof (induction ms arbitrary: l rule: rev_induct)
  case (snoc m ms)
  let ?old = "case map_of (genMetricsMap ms) (pm_lambda m) of None \<Rightarrow> [] | Some r \<Rightarrow> r"
  have IH: "map_of (genMetricsMap ms) l = (if times_of l ms = [] then None else Some (times_of l ms))" for l
    using snoc by simp
  then have old: "?old = times_of (pm_lambda m) ms" by simp
  have "pm_jobID m \<notin> fst ` set (times_of (pm_lambda m) ms)"
    using snoc.prems by (auto simp: times_of_def metric_key_def image_iff)
  then have "AList.update (pm_jobID m) (pm_runTime m) ?old = times_of (pm_lambda m) (ms @ [m])"
    unfolding old by (simp add: AList_update_new times_of_def)
  moreover have "genMetricsMap (ms @ [m]) = add_metric m (genMetricsMap ms)" by (simp add: genMetricsMap_def)
  ultimately have new: "map_of (genMetricsMap (ms @ [m])) = (map_of (genMetricsMap ms))(pm_lambda m \<mapsto> times_of (pm_lambda m) (ms @ [m]))"
    by (simp add: add_metric_def update_conv')
  show ?case
  proof (cases "l = pm_lambda m")
    case True
    then show ?thesis unfolding new by (simp add: times_of_def)
  next
    case False
    then have "times_of l (ms @ [m]) = times_of l ms" by (simp add: times_of_def)
    with False show ?thesis unfolding new by (simp add: IH)
  qed
qed (simp add: genMetricsMap_def times_of_def)

lemma foldl_fadd: "foldl (\<lambda>s v. fadd s (Fin (f v))) (Fin a) vs = Fin (a + sum_list (map f vs))"
  by (induction vs arbitrary: a) (simp_all add: ac_simps)

lemma mean_of_eq: "vs \<noteq> [] \<Longrightarrow> mean_of vs = Fin (of_int (sum_list vs) / of_nat (length vs))"
proof -
  have "sum_list (map rat_of_int vs) = of_int (sum_list vs)" by (induction vs) simp_all
  then show "vs \<noteq> [] \<Longrightarrow> ?thesis" by (simp add: mean_of_def float_of_def foldl_fadd)
qed

lemma std_of_eq:
  assumes "vs \<noteq> []"
  shows "std_of math_Sqrt vs =
     math_Sqrt (if length vs = 1 then NaN
       else Fin (sum_list (map (\<lambda>v. (of_int v - of_int (sum_list vs) / of_nat (length vs)) ^ 2) vs) / (of_nat (length vs) - 1)))"
proof -
  let ?m = "of_int (sum_list vs) / of_nat (length vs)"
  have "foldl (\<lambda>s v. let d = fsub (float_of v) (mean_of vs) in fadd s (fmul d d)) (float_of 0) vs =
      foldl (\<lambda>s v. fadd s (Fin ((of_int v - ?m) ^ 2))) (Fin 0) vs"
    unfolding mean_of_eq [OF assms] by (simp add: Let_def fsub_def float_of_def power2_eq_square)
  then have sum: "foldl (\<lambda>s v. let d = fsub (float_of v) (mean_of vs) in fadd s (fmul d d)) (float_of 0) vs =
      Fin (sum_list (map (\<lambda>v. (of_int v - ?m) ^ 2) vs))"
    by (simp add: foldl_fadd)
  show ?thesis
  proof (cases "length vs = 1")
    case True
    then obtain v where "vs = [v]" by (cases vs) auto
    then show ?thesis unfolding std_of_def sum by (simp add: float_of_def finf_def)
  next
    case False
    with assms have "rat_of_int (int (length vs) - 1) \<noteq> 0" by (cases vs) auto
    with False show ?thesis unfolding std_of_def sum by (simp add: float_of_def)
  qed
qed

text \<open>
  If no time was overwritten, the report has for each lambda the mean and the deviation of its times; for a single time the
  deviation is that of \<open>NaN\<close>.
\<close>

lemma aggregateMetrics_reports:
  assumes "distinct (map metric_key ms)" and "map snd (times_of l ms) = vs" and "vs \<noteq> []"
  shows "map_of (aggregateMetrics math_Sqrt ms) l =
     Some (Fin (of_int (sum_list vs) / of_nat (length vs)),
       math_Sqrt (if length vs = 1 then NaN
         else Fin (sum_list (map (\<lambda>v. (of_int v - of_int (sum_list vs) / of_nat (length vs)) ^ 2) vs) / (of_nat (length vs) - 1))))"
proof -
  have "map_of (aggregateMetrics math_Sqrt ms) l =
      map_option (\<lambda>r. (mean_of (map snd r), std_of math_Sqrt (map snd r))) (map_of (genMetricsMap ms) l)"
    using map_of_map [of "\<lambda>r. (mean_of (map snd r), std_of math_Sqrt (map snd r))" "genMetricsMap ms"]
    by (simp add: aggregateMetrics_def)
  moreover have "times_of l ms \<noteq> []" using assms(2,3) by auto
  ultimately show ?thesis
    using assms by (simp add: genMetricsMap_times mean_of_eq std_of_eq)
qed

subsection \<open>The command line\<close>

lemma bench_main_test:
  assumes "read_config conf = Inr cfg" "\<forall>c \<in> set (bg_Cmds cfg). 0 \<le> bc_TotalCmds c"
  shows "bench_main text_of read_config [arg0, ''test'', option_arg ''config'' conf] =
     Ret (Some (runWorkload (filled_pools (makeUrl (bg_Host cfg) (bg_Port cfg)) 0 (bg_Cmds cfg))))"
proof -
  have cmd: "app_Command [test_command] ''help'' = None" "app_Command [test_command] ''test'' = Some test_command" by code_simp+
  have flags: "cli_flagSet (cc_Flags test_command @ [HelpFlag]) =
      Some [(''config'', StringValue []), (''c'', StringValue []), (''help'', BoolValue False), (''h'', BoolValue False)]" by code_simp
  have names: "flag_names (string_flag ''config, c'') = [''config'', ''c'']" "flag_names HelpFlag = [''help'', ''h'']" by code_simp+
  have tc: "cc_Flags test_command = [string_flag ''config, c'']" "cc_Action test_command = Some ()" "cc_Names test_command = [''test'']"
    by (simp_all add: test_command_def cli_entry_def)
  have last: "last [''test'', option_arg ''config'' conf] \<noteq> ''--generate-bash-completion''" by (simp add: option_arg_def)
  have "app_Run [test_command] [arg0, ''test'', option_arg ''config'' conf] =
      command_Run [test_command, helpCommand] False test_command [option_arg ''config'' conf]"
    using app_Run_command [OF cmd _ last] by (simp add: strings_HasPrefix_def)
  also have "\<dots> = Run () \<lparr>cx_flags = [(''config'', StringValue conf), (''c'', StringValue conf), (''help'', BoolValue False), (''h'', BoolValue False)], cx_Args = []\<rparr>"
    unfolding command_Run_def Let_def flags
    by (simp add: reorder_args_same flag_Parse_option value_Set_def tc normalizeFlag_def names ctx_Bool_def value_String_def strconv_ParseBool_def)
  finally show ?thesis
    using assms by (simp add: bench_main_def startBenchmark_def ctx_String_def value_String_def genWorkload_starts)
qed

text \<open>The requests are run requests of a lambda whose name the routes of both servers accept.\<close>

lemma job_url:
  assumes "j \<in> set (config_jobs cfg sel)"
  shows "j_url j = makeUrl (bg_Host cfg) (bg_Port cfg) @ ''/runLambda/'' @ j_lambda j"
    "j_lambda j \<noteq> []" "CHR ''/'' \<notin> set (j_lambda j)" "CHR ''?'' \<notin> set (j_lambda j)"
proof -
  obtain i c n where j: "j = (job_template (makeUrl (bg_Host cfg) (bg_Port cfg)) i c)\<lparr>j_ID := n\<rparr>"
    using assms by (auto simp: config_jobs_def command_jobs_def)
  show "j_url j = makeUrl (bg_Host cfg) (bg_Port cfg) @ ''/runLambda/'' @ j_lambda j" "j_lambda j \<noteq> []"
    by (simp_all add: j job_template_def RUN_LAMBDA_BASE_def LAMBDA_BASE_def)
  have "digit_val CHR ''/'' = None" "digit_val CHR ''?'' = None" by code_simp+
  then have "CHR ''/'' \<notin> set (nat_digits n)" "CHR ''?'' \<notin> set (nat_digits n)" for n
    using nat_digits_digit [of _ n] by force+
  then show "CHR ''/'' \<notin> set (j_lambda j)" "CHR ''?'' \<notin> set (j_lambda j)"
    by (simp_all add: j job_template_def LAMBDA_BASE_def strconv_Itoa_def)
qed

end
