(* ===== verification/CacheForks.thy ===== *)
theory CacheForks
  imports CacheProps ForkProtocol
begin

text \<open>
  The import cache together with the processes behind its entries: every call of \<open>Provision\<close> (\<open>cacheManager.go\<close>) makes
  one or two fork requests through the C code of \<open>forkRequest.go\<close>, which the processes of the entries answer as
  \<open>server.py\<close> and \<open>nsmodule.c\<close> have it.
\<close>

subsection \<open>A fork request and the process it makes\<close>

record fork_call =
  fc_listen :: listen_env
  fc_fork :: fork_env
  fc_junk :: string
  fc_sock :: string
  fc_pid :: string
  fc_root :: string
  fc_kern :: kern
  fc_sizes :: "nat list"

text \<open>The kernel, the peer and the words of a request that gets through.\<close>

definition gets_through :: "fork_call \<Rightarrow> string list \<Rightarrow> bool \<Rightarrow> pyproc \<Rightarrow> bool" where
  "gets_through fc imps is_handler p \<longleftrightarrow>
     server_ready (fc_listen fc) (fc_fork fc) p (ns_files (fc_pid fc)) \<and> list_all plain_word imps \<and>
     length (forkRequest_signal imps is_handler) < 2147483647 \<and> length (fc_sock fc) < 108 \<and>
     k_script (fc_kern fc) = replicate 13 Okay @ map Short (fc_sizes fc) \<and> list_all (\<lambda>n. 0 < n) (fc_sizes fc) \<and>
     sum_list (fc_sizes fc) = length (forkRequest_signal imps is_handler) + 1"

text \<open>The process that comes of it: the bytes are those the C client wrote to its connection.\<close>

definition fork_via :: "(string \<Rightarrow> bool) \<Rightarrow> fork_call \<Rightarrow> string list \<Rightarrow> bool \<Rightarrow> pyproc \<Rightarrow> pynext option" where
  "fork_via importable fc imps is_handler p =
     (case forkRequest_c (server_peer (fc_listen fc) (fc_fork fc) importable p) (fc_junk fc) (fc_sock fc) (fc_pid fc) (fc_root fc)
             imps is_handler (fc_kern fc) of
        (Ret (_, None), k) \<Rightarrow> cr_forked (cache_loop (fc_listen fc) (fc_fork fc) importable False (last (k_conns k)) p)
      | _ \<Rightarrow> None)"

lemma fork_via_forks:
  assumes "gets_through fc imps is_handler p"
  shows "\<exists>c. fork_via importable fc imps is_handler p = Some (if is_handler then Serves c else Listens c) \<and>
     py_mods c = py_mods p @ filter importable imps \<and> py_ns c = ns_files (fc_pid fc) \<and> py_root c = Some (OFile (fc_root fc))"
proof -
  have g: "server_ready (fc_listen fc) (fc_fork fc) p (ns_files (fc_pid fc))" "\<forall>w \<in> set imps. plain_word w"
    "length (forkRequest_signal imps is_handler) < 2147483647"
    using assms by (simp_all add: gets_through_def list_all_iff)
  obtain k where k: "forkRequest_c (server_peer (fc_listen fc) (fc_fork fc) importable p) (fc_junk fc) (fc_sock fc) (fc_pid fc) (fc_root fc)
      imps is_handler (fc_kern fc) = (Ret (strconv_Itoa (fe_fork2 (fc_fork fc)), None), k)"
    "last (k_conns k) = request_wire (ns_files (fc_pid fc) @ [OFile (fc_root fc)]) (forkRequest_signal imps is_handler)"
    using fork_srv.forkRequest_returns [of "fc_listen fc" "fc_fork fc" p "fc_pid fc" "fc_root fc" imps is_handler "fc_sock fc" "fc_kern fc"
        "fc_sizes fc" importable "fc_junk fc"] g assms by (auto simp: gets_through_def list_all_iff)
  have "length (ns_files (fc_pid fc)) = 4" by (simp add: ns_files_def)
  from cache_loop_request [OF g(1) this g(2,3), of importable False "OFile (fc_root fc)", folded k(2)] k(1)
  show ?thesis by (cases is_handler) (auto simp: fork_via_def Let_def)
qed

subsection \<open>Cache and processes\<close>

text \<open>The lambdas: what each asked for, the sandbox it was to run in, and the process that was forked for it.\<close>

record 'c world =
  cw_cache :: "'c cacheManager"
  cw_procs :: "fsaddr \<Rightarrow> pyproc option"
  cw_lambdas :: "(string list \<times> fork_call \<times> pyproc) list"

inductive world_step :: "(string \<Rightarrow> bool) \<Rightarrow> 'c container \<Rightarrow> 'c world \<Rightarrow> 'c world \<Rightarrow> bool" for importable ops where
  reuse: "Provision SubsetMatcher_Match ops env imps (cw_cache w) = (Ret (Inr (i, hit)), s') \<Longrightarrow> distinct imps \<Longrightarrow>
     SubsetMatcher_Match (fheap (cw_cache w)) (servers (cw_cache w)) imps = Ret (i, tc, h) \<Longrightarrow> tc = [] \<or> cm_Full (cw_cache w) \<Longrightarrow>
     cw_procs w i = Some p \<Longrightarrow> gets_through fc tc True p \<Longrightarrow> fork_via importable fc tc True p = Some (Serves c) \<Longrightarrow>
     world_step importable ops w (w\<lparr>cw_cache := s', cw_lambdas := (imps, fc, c) # cw_lambdas w\<rparr>)"
| grow: "Provision SubsetMatcher_Match ops env imps (cw_cache w) = (Ret (Inr (i, hit)), s') \<Longrightarrow> distinct imps \<Longrightarrow>
     SubsetMatcher_Match (fheap (cw_cache w)) (servers (cw_cache w)) imps = Ret (base, tc, h) \<Longrightarrow> tc \<noteq> [] \<Longrightarrow> \<not> cm_Full (cw_cache w) \<Longrightarrow>
     cw_procs w base = Some p \<Longrightarrow> gets_through fe tc False p \<Longrightarrow> fork_via importable fe tc False p = Some (Listens q) \<Longrightarrow>
     gets_through fc [] True q \<Longrightarrow> fork_via importable fc [] True q = Some (Serves c) \<Longrightarrow>
     world_step importable ops w (w\<lparr>cw_cache := s', cw_procs := (cw_procs w)(i \<mapsto> q), cw_lambdas := (imps, fc, c) # cw_lambdas w\<rparr>)"
| check: "CheckUsage file limit (cw_cache w) = (Ret (), s') \<Longrightarrow> world_step importable ops w (w\<lparr>cw_cache := s'\<rparr>)"
| die: "i \<in> set (doomed (cw_cache w)) \<Longrightarrow> run_doomed ops fp i (cw_cache w) = (r, s') \<Longrightarrow> world_step importable ops w (w\<lparr>cw_cache := s'\<rparr>)"

definition first_world :: "'c cacheManager \<Rightarrow> pyproc \<Rightarrow> 'c world" where
  "first_world s rp = \<lparr>cw_cache = s, cw_procs = [0 \<mapsto> rp], cw_lambdas = []\<rparr>"

subsection \<open>The invariant\<close>

definition loaded :: "(string \<Rightarrow> bool) \<Rightarrow> string set \<Rightarrow> pyproc \<Rightarrow> bool" where
  "loaded importable ks p \<longleftrightarrow> set (py_mods p) = {k \<in> ks. importable k}"

definition lambda_ok :: "(string \<Rightarrow> bool) \<Rightarrow> string list \<times> fork_call \<times> pyproc \<Rightarrow> bool" where
  "lambda_ok importable x \<longleftrightarrow>
     (case x of (imps, fc, c) \<Rightarrow>
        loaded importable (set imps) c \<and> py_ns c = ns_files (fc_pid fc) \<and> py_root c = Some (OFile (fc_root fc)))"

definition world_ok :: "(string \<Rightarrow> bool) \<Rightarrow> 'c world \<Rightarrow> bool" where
  "world_ok importable w \<longleftrightarrow>
     cache_wf True (cw_cache w) \<and>
     (\<forall>k \<in> set (servers (cw_cache w)). \<exists>p. cw_procs w k = Some p \<and> loaded importable (import_keys (fheap (cw_cache w) ! k)) p) \<and>
     (\<forall>x \<in> set (cw_lambdas w). lambda_ok importable x)"

text \<open>What a call of \<open>Provision\<close> does to the table of servers.\<close>

lemma Provision_servers:
  assumes wf: "cache_wf z s" and p: "Provision SubsetMatcher_Match ops env imps s = (Ret (Inr (i, hit)), s')"
    and m: "SubsetMatcher_Match (fheap s) (servers s) imps = Ret (fs, tc, h)"
  shows "if tc = [] \<or> cm_Full s
    then i = fs \<and> servers s' = servers s \<and> (\<forall>k \<in> set (servers s). import_keys (fheap s' ! k) = import_keys (fheap s ! k))
    else i = length (fheap s) \<and> servers s' = servers s @ [i] \<and> (\<forall>k \<in> set (servers s). import_keys (fheap s' ! k) = import_keys (fheap s ! k)) \<and>
      import_keys (fheap s' ! i) = import_keys (fheap s ! fs) \<union> set tc"
proof -
  have free: "\<not> cm_locked s" using p by (auto simp: Provision_def split: if_splits)
  have fs: "fs \<in> set (servers s)" by (rule subset.match_member [OF cache_wf_servers_ok [OF wf] m])
  have lt: "k < length (fheap s)" if "k \<in> set (servers s)" for k using cache_wfD(5) [OF wf] that by blast
  have nl: "\<not> fs_locked (fheap s ! fs)" using p free m by (auto simp: Provision_def split: if_splits)
  show ?thesis
  proof (cases "tc = [] \<or> cm_Full s")
    case True
    then have "serve_from env fs tc h s = (Ret (Inr (i, hit)), s')"
      using p Provision_reuse [of s SubsetMatcher_Match imps fs tc h ops env] free m nl by simp
    then have "i = fs" "servers s' = servers s" "heap_steady (fheap s) (fheap s')"
      using serve_from_effect [OF wf lt [OF fs], of env tc h] by auto
    with True show ?thesis using heap_steady_keys lt by auto
  next
    case False
    then have ne: "tc \<noteq> []" "\<not> cm_Full s" by auto
    obtain c where sf: "serve_from env (length (fheap s)) [] h (grown env fs tc c s) = (Ret (Inr (i, hit)), s')"
      using p unfolding Provision_grow [where match = SubsetMatcher_Match, OF free m nl ne lt [OF fs]]
      by (auto split: sum.splits if_splits option.splits)
    note G = grown_simps [OF lt [OF fs], where env = env and tc = tc and c = c]
    have l: "length (fheap s) < length (fheap (grown env fs tc c s))" using G(2) by simp
    have i: "i = length (fheap s)" "servers s' = servers (grown env fs tc c s)" "heap_steady (fheap (grown env fs tc c s)) (fheap s')"
      using sf serve_from_effect [OF grown_wf [OF wf fs] l, of env "[]" h] by auto
    have "import_keys (fheap s' ! k) = import_keys (fheap s ! k)" if "k \<in> set (servers s)" for k
      using heap_steady_keys [OF i(3), of k] G(2,7) lt [OF that] by simp
    with False show ?thesis using heap_steady_keys [OF i(3) l] G(1,3) i(1,2) by auto
  qed
qed

text \<open>Steps that leave the table of servers as it is or take entries off it.\<close>

lemma world_ok_shrink:
  assumes "world_ok importable w" "cache_wf True s'" "set (servers s') \<subseteq> set (servers (cw_cache w))"
    and "\<And>k. k \<in> set (servers s') \<Longrightarrow> import_keys (fheap s' ! k) = import_keys (fheap (cw_cache w) ! k)"
  shows "world_ok importable (w\<lparr>cw_cache := s'\<rparr>)"
  using assms unfolding world_ok_def by auto

lemma CheckUsage_shrinks:
  assumes "cache_wf z s" "CheckUsage file limit s = (Ret (), s')"
  shows "set (servers s') \<subseteq> set (servers s)" "fheap s' = fheap s"
proof -
  have ne: "servers (s\<lparr>cfull := 1\<rparr>) \<noteq> []" using cache_wfD(2) [OF assms(1)] by auto
  have "set (servers s') \<subseteq> set (servers s) \<and> fheap s' = fheap s"
  proof (cases "cache_evict (s\<lparr>cfull := 1\<rparr>) = (Ret (), s')")
    case True
    then show ?thesis by (rule cache_evict_cases [OF _ ne]) auto
  next
    case False
    then show ?thesis using assms(2) by (auto simp: CheckUsage_def split: if_splits res.splits)
  qed
  then show "set (servers s') \<subseteq> set (servers s)" "fheap s' = fheap s" by simp_all
qed

lemma run_doomed_keys:
  assumes "run_doomed ops fp i s = (r, s')"
  shows "servers s' = servers s" "import_keys (fheap s' ! k) = import_keys (fheap s ! k)"
proof -
  have upd: "import_keys (hp[j := f] ! n) = import_keys (hp ! n)" if "import_keys f = import_keys (hp ! j)" for hp :: "'a forkServer list" and j f n
    using that by (cases "j < length hp") (simp_all add: nth_list_update_if list_update_beyond)
  have keys: "import_keys (f\<lparr>fs_Dead := b\<rparr>) = import_keys f" "import_keys (f\<lparr>fs_Children := n\<rparr>) = import_keys f"
    "import_keys (f\<lparr>fs_Sandbox := c\<rparr>) = import_keys f" for f :: "'a forkServer" and b n c
    by (simp_all add: import_keys_def)
  show "servers s' = servers s" "import_keys (fheap s' ! k) = import_keys (fheap s ! k)"
    using assms by (auto simp: run_doomed_def Kill_def Let_def upd keys split: option.splits)
qed
lemma loaded_fork:
  "loaded importable ks p \<Longrightarrow> py_mods c = py_mods p @ filter importable tc \<Longrightarrow> ks' = ks \<union> set tc \<Longrightarrow> loaded importable ks' c"
  by (auto simp: loaded_def)

lemma world_step_ok:
  assumes "world_step importable ops w w'" "world_ok importable w"
  shows "world_ok importable w'"
  using assms
proof induction
  case (reuse env imps w i hit s' tc h p fc c)
  have wf: "cache_wf True (cw_cache w)" using reuse.prems by (simp add: world_ok_def)
  note P = Provision_servers [OF wf reuse.hyps(1,3)]
  note M = subset.match_covers [OF cache_wf_servers_ok [OF wf] reuse.hyps(2,3)]
  have i: "i \<in> set (servers (cw_cache w))" by (rule subset.match_member [OF cache_wf_servers_ok [OF wf] reuse.hyps(3)])
  then have "loaded importable (import_keys (fheap (cw_cache w) ! i)) p"
    using reuse.prems reuse.hyps(5) by (auto simp: world_ok_def)
  then have "lambda_ok importable (imps, fc, c)"
    using fork_via_forks [OF reuse.hyps(6), of importable] reuse.hyps(7) M(1) by (auto simp: lambda_ok_def intro: loaded_fork)
  with P reuse.hyps(4) reuse.prems subset.Provision_wf [OF wf reuse.hyps(1)] show ?case
    by (auto simp: world_ok_def)
next
  case (grow env imps w i hit s' base tc h p fe q fc c)
  have wf: "cache_wf True (cw_cache w)" using grow.prems by (simp add: world_ok_def)
  have P: "i = length (fheap (cw_cache w))" "servers s' = servers (cw_cache w) @ [i]"
    "\<forall>k \<in> set (servers (cw_cache w)). import_keys (fheap s' ! k) = import_keys (fheap (cw_cache w) ! k)"
    "import_keys (fheap s' ! i) = import_keys (fheap (cw_cache w) ! base) \<union> set tc"
    using Provision_servers [OF wf grow.hyps(1,3)] grow.hyps(4,5) by (auto split: if_splits)
  note M = subset.match_covers [OF cache_wf_servers_ok [OF wf] grow.hyps(2,3)]
  have "base \<in> set (servers (cw_cache w))" by (rule subset.match_member [OF cache_wf_servers_ok [OF wf] grow.hyps(3)])
  then have "loaded importable (import_keys (fheap (cw_cache w) ! base)) p"
    using grow.prems grow.hyps(6) by (auto simp: world_ok_def)
  then have q: "loaded importable (import_keys (fheap s' ! i)) q"
    using fork_via_forks [OF grow.hyps(7), of importable] grow.hyps(8) by (auto intro: loaded_fork [OF _ _ P(4)])
  then have "lambda_ok importable (imps, fc, c)"
    using fork_via_forks [OF grow.hyps(9), of importable] grow.hyps(10) M(1) P(4) by (auto simp: lambda_ok_def loaded_def)
  moreover have "i \<notin> set (servers (cw_cache w))" using cache_wfD(5) [OF wf] P(1) by blast
  ultimately show ?case
    using P(2,3) q grow.prems subset.Provision_wf [OF wf grow.hyps(1)] by (auto simp: world_ok_def)
next
  case (check fl limit w s')
  have wf: "cache_wf True (cw_cache w)" using check.prems by (simp add: world_ok_def)
  show ?case
    by (rule world_ok_shrink [OF check.prems CheckUsage_wf [OF wf check.hyps]])
       (use CheckUsage_shrinks [OF wf check.hyps] in simp_all)
next
  case (die i w fp r s')
  have wf: "cache_wf True (cw_cache w)" using die.prems by (simp add: world_ok_def)
  show ?case
    by (rule world_ok_shrink [OF die.prems run_doomed_wf [OF wf die.hyps]]) (simp_all add: run_doomed_keys [OF die.hyps(2)])
qed

lemma first_world_ok:
  assumes "InitCacheManager sz file made op got timeo ev = Ret (Inr (Some (s0, limit)))" "py_mods rp = []"
  shows "world_ok importable (first_world s0 rp)"
proof -
  have "servers s0 = [0]" "import_keys (fheap s0 ! 0) = {}"
    using assms(1)
    by (auto simp: InitCacheManager_def initCacheRoot_def import_keys_def split: if_splits sum.splits prod.splits option.splits res.splits)
  then show ?thesis
    using InitCacheManager_wf [OF assms(1)] assms(2) by (simp add: world_ok_def first_world_def loaded_def)
qed


definition ex_call :: "nat \<Rightarrow> fork_call" where
  "ex_call n = \<lparr>fc_listen = ex_listen, fc_fork = ex_fork, fc_junk = replicate 10 CHR ''x'', fc_sock = ''/host/fs.sock'', fc_pid = ''7'',
     fc_root = ''/root'', fc_kern = ex_kern (replicate 13 Okay @ map Short [n]), fc_sizes = [n]\<rparr>"

lemma ex_call_gets_through:
  assumes "list_all plain_word imps" "length (forkRequest_signal imps is_handler) + 1 = n" "n < 2147483647"
  shows "gets_through (ex_call n) imps is_handler p"
  using assms
  by (auto simp: gets_through_def ex_call_def server_ready_def ex_listen_def ex_fork_def listening_def initSock_def list_all_iff ex_kern_def)


end
