(* ===== verification/Spec2Isabelle.thy ===== *)
theory Spec2Isabelle
  imports HandlerProps HandlerRequests HandlerDefects IdleEvictor
    CacheProps MetaRegistry History LoadBalancerClaims WorkerProps Gateway
    WorkerConfig Registry PipInstaller WorkerUtil DockerContainer AdminProps
    ForkProtocol FdClient InstallerConc ProxyConc HandlerInstall Launch AdminMain Shutdown EndToEnd LoadGenerator CacheForks
begin

text \<open>
  A verification development for OpenLambda as the repository has it: a load balancer (\<open>src/load_balancer\<close>)
  in front of workers (\<open>src/worker\<close>), each of which runs lambdas in sandboxes, and the admin tool that
  sets clusters of them up.

  \<^bold>\<open>The program.\<close>  A request goes to \<open>Proxy.handler\<close> of the load balancer, which chooses a worker by
  policy (round robin or LARD), forwards the request and passes the status on.  The worker's
  \<open>Server.RunLambda\<close> notes the lambda in the history, takes a handler from the \<open>HandlerManagerSet\<close>, lets
  \<open>RunStart\<close> create or unpause the handler's sandbox, forwards the request to it and calls \<open>RunFinish\<close>.
  Idle handlers are kept in an LRU list and evicted over a memory limit.  The code of a lambda comes from
  the registry, its packages from the pip installer, its interpreter, if there is an import cache, from
  a tree of fork servers: the worker connects to the server's socket, passes the namespaces and the root of the new
  sandbox as descriptors and gets back the pid of the process forked into them.  Sandboxes are Docker containers or SOCK containers with cgroups from a pool.

  \<^bold>\<open>Theories and sources.\<close>
  \<^item> \<open>OLPrelude\<close>: outcomes of Go code (\<open>Ret\<close>, \<open>Panic\<close>, \<open>Exit\<close>, \<open>Block\<close> for waiting for ever), errors, list
    lemmas, indexing.  \<open>GoList\<close>: \<open>container/list\<close> and the linked map.  \<open>GoStrings\<close>: \<open>strings\<close>, \<open>strconv\<close>,
    \<open>path\<close>.  \<open>GoFloat\<close>: \<open>float64\<close>.
  \<^item> \<open>HandlerState\<close>: \<open>handlerState.go\<close> and the \<open>Container\<close> interface of \<open>sandbox.go\<close>.  \<open>HandlerLRU\<close>:
    \<open>handlerLru.go\<close> with the structures of \<open>handler.go\<close>.  \<open>HandlerManager\<close>: \<open>handler.go\<close>.  \<open>IdleEvictor\<close>: the
    evictor by idle time.
  \<^item> \<open>CgroupFactory\<close>, \<open>SockContainer\<close>: \<open>cgroupFactory.go\<close>, \<open>sock.go\<close>, \<open>sockFactory.go\<close>.  \<open>DockerContainer\<close>:
    \<open>docker.go\<close>, \<open>dockerFactory.go\<close>, \<open>sandboxFactory.go\<close>, \<open>dockerutil.go\<close>.
  \<^item> \<open>CacheMatcher\<close>, \<open>CacheManager\<close>: \<open>import-cache/*.go\<close>.  \<open>CSystem\<close>: the system calls, memory and byte order that
    the C code uses.  \<open>ForkClient\<close>: the C functions of \<open>forkRequest.go\<close> and the loop around them.
    \<open>ForkListener\<close>: the other end, \<open>nsmodule.c\<close> and \<open>cache_loop\<close> of \<open>server.py\<close>.  \<open>FdClient\<close>: \<open>fdclient.go\<close>.
    \<open>CacheForks\<close>: the cache together with the processes of its entries.
  \<^item> \<open>WorkerServer\<close>: \<open>server.go\<close>, \<open>rid.go\<close>.  \<open>History\<close>: \<open>hist.go\<close>.  \<open>WorkerConfig\<close>: \<open>config.go\<close>.
    \<open>Registry\<close>: \<open>registry/manager.go\<close>.  \<open>PipInstaller\<close>: \<open>installManager.go\<close>.  \<open>WorkerUtil\<close>: \<open>util.go\<close>.
  \<^item> \<open>LoadBalancer\<close>: \<open>proxy.go\<close>, \<open>server.go\<close>, \<open>config.go\<close>.  \<open>MetaRegistry\<close>: \<open>metaregistry.go\<close>.
    \<open>Gateway\<close>: what the two servers exchange.
  \<^item> \<open>ClusterFS\<close>, \<open>Admin\<close>: the commands of \<open>admin/main.go\<close> with the files they work on.  \<open>Cli\<close>: the vendored
    \<open>urfave/cli\<close> as far as the tool uses it.  \<open>AdminCommands\<close>, \<open>AdminMain\<close>: the table of commands and \<open>main\<close>.
  \<^item> \<open>Launch\<close>: the start of worker and load balancer (\<open>worker/main.go\<close>, \<open>Main\<close> of \<open>server.go\<close>, \<open>run.go\<close>), their
    routes, the cached memory reading and the benchmark timers.  \<open>Shutdown\<close>: the clean-up on a signal, through handlers,
    factories and import cache.
  \<^item> \<open>LambdaRuntime\<close>: the lambda's server in the sandbox (\<open>init\<close>, \<open>SockFileHandler\<close>, \<open>lambda_server\<close> of \<open>server.py\<close>).
    \<open>EndToEnd\<close>: a request from the load balancer's routes to the lambda and back.
  \<^item> \<open>LoadGenerator\<close>: \<open>benchmark/main.go\<close>, with its goroutines as a step relation over the shared metrics.
  \<^item> \<open>InstallerConc\<close>, \<open>ProxyConc\<close>: calls of \<open>Install\<close> and requests at the load balancer, interleaved at every lock.

  \<^bold>\<open>State and operations.\<close>  A Go struct is a record, a pointer an index into a heap (handlers, fork
  servers) or into the list of servers; an operation takes the state and returns an outcome with the state
  it leaves, also when it panics or waits for ever.  Operations run one at a time; a mutex is visible in
  the state only when an operation ends without releasing it, and then the next one that takes it is
  \<open>Block\<close>.  \<open>RunFinish\<close>, which releases its mutex half way, is the composition of its two halves, and
  the step relation \<open>hstep\<close> of \<open>HandlerSafety\<close> interleaves whole operations.  A goroutine (\<open>go h.nuke()\<close>,
  \<open>go victim.Kill()\<close>) is recorded in the state and is a step of its own.  The package locks and the
  connection counts are shared by calls that really overlap, so for them \<open>pip_step\<close> and \<open>lbstep\<close> interleave the
  pieces between two locks.  Whatever is not in the
  repository (system calls, HTTP, Docker, \<open>pip\<close>, JSON, clock, random numbers) is an
  argument; what is assumed of it is a hypothesis of the theorem.

  \<^bold>\<open>What is shown.\<close>
  \<^item> Handlers: \<open>HandlerPool\<close> is an abstract specification (handlers with runner counts, listed, idle in LRU
    order, given up), \<open>HandlerRefine\<close> and \<open>HandlerSim\<close> show that every operation refines it,
    \<open>HandlerSafety\<close> derives the invariant of all reachable states, \<open>HandlerProps\<close> and \<open>HandlerRequests\<close> state
    it and the behaviour of \<open>Get\<close>, \<open>RunFinish\<close> and the evictors; \<open>HandlerDefects\<close> what goes wrong.
  \<^item> Worker: answered requests are runs of these steps (\<open>WorkerProps\<close>), the client gets the sandbox's
    answer if one of ten tries succeeds, the history table stays in order, configurations are complete; a signal
    removes every sandbox and kills every fork server (\<open>Shutdown\<close>); through both servers the client gets what the
    lambda's server wrote (\<open>EndToEnd\<close>).
  \<^item> Sandboxes: life cycle of SOCK containers, conservation of the cgroup pool, and that Docker containers
    keep the contract of \<open>Container\<close> on a daemon that keeps to its documentation.
  \<^item> Import cache: the tree invariant, that a lambda is forked from a server with exactly its imports, and
    that the matcher finds the best subset (\<open>CacheProps\<close>, \<open>CacheMatcher\<close>).  Fork requests: what is on the wire
    whatever way \<open>send\<close> splits it, that the server forks a process with exactly the asked namespaces, root and
    imports and answers with its pid, and that the C code refines the loop of \<open>CacheManager\<close>; what a lost fork and
    a failed request leave behind (\<open>ForkClientProps\<close>, \<open>ForkProtocol\<close>); over whole runs of cache, C client and
    server processes, that a lambda's process has imported exactly its imports (\<open>CacheForks\<close>).
  \<^item> Load balancer: conservation of connection counts, round robin order and termination, choice by load
    (\<open>LoadBalancerProps\<close>, \<open>LoadBalancerClaims\<close>); under any interleaving the counts are those of the requests
    inside, and requests that do not panic all finish (\<open>ProxyConc\<close>); the registry of dependencies reads back what was pushed.
  \<^item> Admin tool: new clusters run workers with distinct ports and directories, and \<open>kill\<close> reaches them
    (\<open>AdminProps\<close>); command lines are read as they are written, and the processes the tool starts are workers that
    come up (\<open>AdminCommands\<close>, \<open>AdminMain\<close>, \<open>Launch\<close>).
  \<^item> Installer: one call, and concurrent calls, which all return if packages are asked for in one order
    (\<open>PipInstaller\<close>, \<open>InstallerConc\<close>); otherwise they can deadlock, and so can a handler (\<open>HandlerInstall\<close>).
  \<^item> Load generator: under any scheduling every job is posted once and the run ends; appends that race lose times.
  \<^item> This theory: what a client of the load balancer sees of a worker's answer, and how a missing lambda
    stops a worker.

  \<^bold>\<open>Interfaces.\<close>  \<open>linked_map\<close> (list and map of one set of keys, used by LRU list and managers),
  \<open>container_contract\<close> (interpreted by SOCK containers, shown for Docker), \<open>pool_simulation\<close> (interpreted by the
  handlers), \<open>cache_matcher\<close> (interpreted by the subset matcher), \<open>fork_peer\<close> (a server of fork requests as the client relies on it,
  interpreted by the listener), \<open>server_chooser\<close> and its extension
  \<open>failover_chooser\<close> (interpreted by the load balancer's policies).

  \<^bold>\<open>Bounds and fuel.\<close>  The round robin loop has fuel one more than the number of servers: after that many
  rounds without an end the cyclic index repeats and the loop goes on for ever, which is the value
  \<open>Block\<close>.  The search for a cold slot of the history has fuel one more than the size of the table at
  32 bits.  Retries of a request are at most ten, of a fork request five, of \<open>attemptServers\<close> three, as in the
  code.  The wait for the registry's bucket and for memory is over the list of readings that is given.
  \<open>sendAll\<close> and \<open>recv_all\<close> end by the length that is left; the length of a package string is a 32-bit word on the wire,
  so the round trip is for strings below 2 to the 31.  A kernel's answers are a list, at whose end calls succeed.
  Termination of the interleavings is by measures on the calls, without fuel.
  The history works at the width of its Go types; other integers are unbounded, except where a string
  is parsed.

  \<^bold>\<open>Not modelled.\<close>  Log output, help texts and timing; encoding and decoding of JSON and YAML; the HTTP client and
  server below the table of routes; rounding of floating point numbers; data races (operations are atomic
  up to the released mutexes above); \<open>logger.go\<close>, which only prints; the
  init process of a sandbox and the web framework below the lambda's server; vendored packages, but for the part of
  \<open>urfave/cli\<close> named above.
\<close>

section \<open>Properties that span components\<close>

subsection \<open>Load balancer and worker\<close>


definition ex_marshal :: "httpResp \<Rightarrow> string" where
  "ex_marshal b = CHR ''{'' # ResponseBody b"

definition ex_unmarshal :: "string \<Rightarrow> httpResp option" where
  "ex_unmarshal s =
     (case s of
        CHR ''{'' # body \<Rightarrow> Some \<lparr>ResponseCode = 200, ResponseHeader = cors_headers [], ResponseBody = body,
                               TotalMem = 4, FreeMem = 1, CPUUsage = Fin 0\<rparr>
      | _ \<Rightarrow> None)"

definition ex_lb_env :: "w_reply list \<Rightarrow> lb_env" where
  "ex_lb_env out = \<lparr>le_parse = (\<lambda>url. None), le_do = (\<lambda>url. Inr (lb_decode ex_unmarshal (http_body ex_marshal out)))\<rparr>"

definition ex_body :: httpResp where
  "ex_body = \<lparr>ResponseCode = 200, ResponseHeader = cors_headers [], ResponseBody = ''hi'', TotalMem = 4, FreeMem = 1, CPUUsage = Fin 0\<rparr>"

lemma ex_answered:
  "\<exists>w'. RunLambda ex_ops (ex_wenv ex_ok_answer) ''POST'' ''/runLambda/f'' ex_worker = (Ret (), w', [WHeader 200, WBody ex_body])"
  "\<exists>w'. RunLambda ex_ops ex_bad_env ''POST'' ''/runLambda/f'' ex_worker = (Ret (), w', [WError ''no space'' 500])"
proof -
  have "case RunLambda ex_ops (ex_wenv ex_ok_answer) ''POST'' ''/runLambda/f'' ex_worker of
      (r, w', out) \<Rightarrow> r = Ret () \<and> out = [WHeader 200, WBody ex_body]" by code_simp
  then show "\<exists>w'. RunLambda ex_ops (ex_wenv ex_ok_answer) ''POST'' ''/runLambda/f'' ex_worker = (Ret (), w', [WHeader 200, WBody ex_body])"
    by (auto split: prod.splits)
  have "case RunLambda ex_ops ex_bad_env ''POST'' ''/runLambda/f'' ex_worker of
      (r, w', out) \<Rightarrow> r = Ret () \<and> out = [WError ''no space'' 500]" by code_simp
  then show "\<exists>w'. RunLambda ex_ops ex_bad_env ''POST'' ''/runLambda/f'' ex_worker = (Ret (), w', [WError ''no space'' 500])"
    by (auto split: prod.splits)
qed


subsection \<open>Registry and handlers\<close>


definition ex_no_files :: registry_files where
  "ex_no_files = \<lparr>rf_stat = (\<lambda>_. NotExist), rf_open = (\<lambda>_. Inl ''no such file'')\<rparr>"


end
